(* ===== verification/Prelude.thy ===== *)
theory Prelude
  imports Main "HOL-Library.Char_ord" "HOL-Library.List_Lexorder" "HOL-Library.Sublist"
begin

text \<open>The shared vocabulary of the development.

  A Rust string (\<open>str\<close>, \<open>Arc<str>\<close>, \<open>Box<str>\<close>) is the list of its UTF-8 bytes, so \<open>len()\<close> is
  \<open>length\<close> and \<open>Ord for str\<close>, which compares bytes, is the order of \<open>List_Lexorder\<close> over
  \<open>Char_ord\<close>.  The string routines of the standard library the program calls are defined here,
  with the laws the components use.  An insertion-ordered \<open>Vec<(Arc<str>, V)>\<close> is an association
  list; \<open>map_of\<close> is the program's \<open>iter().find(|(k, _)| k == name)\<close>, and \<open>override_or_push\<close> is the
  one update operation the pipeline, the evaluator and the Terragrunt merge share.  The locale
  \<open>keyed_map\<close> states the contract of such a pair, \<open>ordered_map\<close> adds the insertion order, and both prove their
  consequences once.\<close>

named_theorems lookup_simps "lookups in insertion-ordered maps"
named_theorems wf_intros "well-formedness introduction rules"

type_synonym str = "char list"
type_synonym 'v amap = "(str \<times> 'v) list"

section \<open>Results\<close>

text \<open>\<open>Result<T, E>\<close> is \<open>'e + 't\<close>: \<open>Inl\<close> the error, \<open>Inr\<close> the value.\<close>

abbreviation Err :: "'e \<Rightarrow> 'e + 'a" where
  "Err \<equiv> Inl"

abbreviation Ok :: "'a \<Rightarrow> 'e + 'a" where
  "Ok \<equiv> Inr"

fun is_ok :: "'e + 'a \<Rightarrow> bool" where
  "is_ok (Inr _) = True"
| "is_ok (Inl _) = False"

lemma is_ok_iff: "is_ok r \<longleftrightarrow> (\<exists>x. r = Ok x)"
  by (cases r) auto

text \<open>The \<open>?\<close> operator and \<open>and_then\<close>: the next step runs on the value, an error is returned.\<close>

definition and_then :: "'e + 'a \<Rightarrow> ('a \<Rightarrow> 'e + 'b) \<Rightarrow> 'e + 'b" where
  "and_then r f = (case r of Inl e \<Rightarrow> Inl e | Inr x \<Rightarrow> f x)"

lemma and_then_simps [simp]: "and_then (Inl e) f = Inl e" "and_then (Inr x) f = f x"
  by (simp_all add: and_then_def)

lemma and_then_Ok_iff [simp]: "and_then r f = Inr y \<longleftrightarrow> (\<exists>x. r = Inr x \<and> f x = Inr y)"
  by (cases r) auto

lemma and_then_Err_iff: "and_then r f = Inl e \<longleftrightarrow> r = Inl e \<or> (\<exists>x. r = Inr x \<and> f x = Inl e)"
  by (cases r) auto

lemma and_then_cong [fundef_cong]:
  "r = r' \<Longrightarrow> (\<And>x. r' = Inr x \<Longrightarrow> f x = g x) \<Longrightarrow> and_then r f = and_then r' g"
  by (cases r') auto

definition map_err :: "('e \<Rightarrow> 'g) \<Rightarrow> 'e + 'a \<Rightarrow> 'g + 'a" where
  "map_err f r = (case r of Inl e \<Rightarrow> Inl (f e) | Inr x \<Rightarrow> Inr x)"

lemma map_err_simps [simp]: "map_err f (Inl e) = Inl (f e)" "map_err f (Inr x) = Inr x"
  by (simp_all add: map_err_def)

lemma map_err_Ok_iff [simp]: "map_err f r = Inr x \<longleftrightarrow> r = Inr x"
  by (cases r) auto

text \<open>A fallible step for every element, from the left, up to the first error.\<close>

fun map_result :: "('a \<Rightarrow> 'e + 'b) \<Rightarrow> 'a list \<Rightarrow> 'e + 'b list" where
  "map_result f [] = Ok []"
| "map_result f (x # xs) = and_then (f x) (\<lambda>y. and_then (map_result f xs) (\<lambda>ys. Ok (y # ys)))"

lemma map_result_cong [fundef_cong]:
  "xs = ys \<Longrightarrow> (\<And>x. x \<in> set ys \<Longrightarrow> f x = g x) \<Longrightarrow> map_result f xs = map_result g ys"
  by (induction xs arbitrary: ys) (auto intro!: and_then_cong)

lemma map_result_Ok_iff: "map_result f xs = Ok ys \<longleftrightarrow> list_all2 (\<lambda>x y. f x = Ok y) xs ys"
proof (induction xs arbitrary: ys)
  case (Cons x xs)
  then show ?case by (cases ys) auto
qed auto

text \<open>\<open>map\<close> over a fallible function that stops at the first \<open>None\<close>
  (a computation that panics part way through a list panics).\<close>

fun map_option_list :: "('a \<Rightarrow> 'b option) \<Rightarrow> 'a list \<Rightarrow> 'b list option" where
  "map_option_list f [] = Some []"
| "map_option_list f (x # xs) =
     (case f x of None \<Rightarrow> None
      | Some y \<Rightarrow> (case map_option_list f xs of None \<Rightarrow> None | Some ys \<Rightarrow> Some (y # ys)))"

lemma map_option_list_cong [fundef_cong]:
  "xs = ys \<Longrightarrow> (\<And>x. x \<in> set ys \<Longrightarrow> f x = g x) \<Longrightarrow> map_option_list f xs = map_option_list g ys"
  by (induction xs arbitrary: ys) (auto split: option.splits)

lemma map_option_list_Some_iff:
  "map_option_list f xs = Some ys \<longleftrightarrow> list_all2 (\<lambda>x y. f x = Some y) xs ys"
proof (induction xs arbitrary: ys)
  case (Cons x xs)
  show ?case
  proof (cases "f x")
    case (Some y)
    then show ?thesis
      by (cases "map_option_list f xs"; cases ys) (simp_all add: Cons.IH [symmetric])
  qed (cases ys; simp)
qed auto

lemma map_option_list_total:
  "(\<And>x. x \<in> set xs \<Longrightarrow> f x \<noteq> None) \<Longrightarrow> map_option_list f xs \<noteq> None"
  by (induction xs) (auto split: option.splits)

lemma map_option_list_length: "map_option_list f xs = Some ys \<Longrightarrow> length ys = length xs"
  by (auto simp: map_option_list_Some_iff dest: list_all2_lengthD)

lemma map_option_list_map: "(\<And>x. x \<in> set xs \<Longrightarrow> f x = Some (g x)) \<Longrightarrow> map_option_list f xs = Some (map g xs)"
  by (induction xs) auto

lemma map_option_list_idem:
  "map_option_list f xs = Some ys \<Longrightarrow> (\<And>x y. x \<in> set xs \<Longrightarrow> f x = Some y \<Longrightarrow> f y = Some y) \<Longrightarrow>
   map_option_list f ys = Some ys"
proof (induction xs arbitrary: ys)
  case (Cons x xs)
  from Cons.prems(1) obtain y zs where
    "f x = Some y" "map_option_list f xs = Some zs" "ys = y # zs"
    by (auto split: option.splits)
  moreover have "map_option_list f zs = Some zs"
    by (rule Cons.IH) (use calculation Cons.prems(2) in auto)
  moreover have "f y = Some y"
    using Cons.prems(2) [of x y] calculation by simp
  ultimately show ?case by simp
qed simp

lemma map_option_list_set:
  "map_option_list f xs = Some ys \<Longrightarrow> y \<in> set ys \<Longrightarrow> \<exists>x \<in> set xs. f x = Some y"
  by (induction xs arbitrary: ys) (auto split: option.splits)

lemma map_option_list_image:
  "map_option_list f xs = Some ys \<Longrightarrow> x \<in> set xs \<Longrightarrow> \<exists>y \<in> set ys. f x = Some y"
  by (induction xs arbitrary: ys) (auto split: option.splits)

section \<open>Strings\<close>

fun strip_prefix_str :: "str \<Rightarrow> str \<Rightarrow> str option" where
  "strip_prefix_str [] s = Some s"
| "strip_prefix_str (p # ps) [] = None"
| "strip_prefix_str (p # ps) (c # cs) = (if p = c then strip_prefix_str ps cs else None)"

lemma strip_prefix_append [simp]: "strip_prefix_str p (p @ s) = Some s"
  by (induction p) auto

lemma strip_prefix_Some_iff: "strip_prefix_str p s = Some r \<longleftrightarrow> s = p @ r"
  by (induction p s rule: strip_prefix_str.induct) auto

lemma strip_prefix_None_iff: "strip_prefix_str p s = None \<longleftrightarrow> \<not> prefix p s"
  by (induction p s rule: strip_prefix_str.induct) auto

lemma strip_prefix_length: "strip_prefix_str p s = Some r \<Longrightarrow> length s = length p + length r"
  by (simp add: strip_prefix_Some_iff)

definition starts_with :: "str \<Rightarrow> str \<Rightarrow> bool" where
  "starts_with s p = (strip_prefix_str p s \<noteq> None)"

definition ends_with :: "str \<Rightarrow> str \<Rightarrow> bool" where
  "ends_with s p = (strip_prefix_str (rev p) (rev s) \<noteq> None)"

definition strip_suffix_str :: "str \<Rightarrow> str \<Rightarrow> str option" where
  "strip_suffix_str p s = map_option rev (strip_prefix_str (rev p) (rev s))"

lemma starts_with_iff [code_unfold]: "starts_with s p \<longleftrightarrow> prefix p s"
  by (auto simp: starts_with_def strip_prefix_None_iff)

lemma ends_with_iff: "ends_with s p \<longleftrightarrow> suffix p s"
  by (auto simp: ends_with_def strip_prefix_None_iff suffix_to_prefix)

lemma strip_suffix_Some_iff: "strip_suffix_str p s = Some r \<longleftrightarrow> s = r @ p"
  by (auto simp: strip_suffix_str_def strip_prefix_Some_iff rev_eq_append_conv) (metis rev_rev_ident)

text \<open>\<open>s.find(c)\<close> followed by slicing around the hit: the text before and after the first \<open>c\<close>.\<close>

fun split_once_char :: "char \<Rightarrow> str \<Rightarrow> (str \<times> str) option" where
  "split_once_char c [] = None"
| "split_once_char c (x # xs) =
     (if x = c then Some ([], xs)
      else map_option (\<lambda>(a, b). (x # a, b)) (split_once_char c xs))"

lemma split_once_char_Some:
  "split_once_char c s = Some (a, b) \<longleftrightarrow> s = a @ c # b \<and> c \<notin> set a"
proof (induction s arbitrary: a)
  case (Cons x xs)
  then show ?case
    by (cases a) auto
qed auto

lemma split_once_char_None [simp]: "split_once_char c s = None \<longleftrightarrow> c \<notin> set s"
  by (induction s) auto

lemma split_once_char_hit [simp]: "c \<notin> set a \<Longrightarrow> split_once_char c (a @ c # b) = Some (a, b)"
  by (simp add: split_once_char_Some)

text \<open>\<open>s.contains(needle)\<close>.\<close>

fun str_contains :: "str \<Rightarrow> str \<Rightarrow> bool" where
  "str_contains [] n = (n = [])"
| "str_contains (c # cs) n = (prefix n (c # cs) \<or> str_contains cs n)"

lemma str_contains_iff: "str_contains s n \<longleftrightarrow> (\<exists>a b. s = a @ n @ b)"
proof (induction s)
  case (Cons c cs)
  have "(\<exists>a b. c # cs = a @ n @ b) \<longleftrightarrow> prefix n (c # cs) \<or> (\<exists>a b. cs = a @ n @ b)"
    by (metis Cons_eq_append_conv append_Nil prefix_def append_Cons)
  with Cons show ?case by simp
qed simp

text \<open>\<open>s.split(c)\<close>.\<close>

fun split_char :: "char \<Rightarrow> str \<Rightarrow> str list" where
  "split_char c [] = [[]]"
| "split_char c (x # xs) =
     (if x = c then [] # split_char c xs
      else (case split_char c xs of [] \<Rightarrow> [[x]] | p # ps \<Rightarrow> (x # p) # ps))"

lemma split_char_ne [simp]: "split_char c s \<noteq> []"
  by (induction s) (auto split: list.splits)

lemma split_char_no_sep: "p \<in> set (split_char c s) \<Longrightarrow> c \<notin> set p"
  by (induction s arbitrary: p) (auto split: list.splits if_splits)

lemma split_char_id: "c \<notin> set s \<Longrightarrow> split_char c s = [s]"
  by (induction s) auto

lemma split_char_append: "c \<notin> set a \<Longrightarrow> split_char c (a @ c # b) = a # split_char c b"
  by (induction a) auto

text \<open>\<open>parts.join(sep)\<close>.\<close>

fun join_str :: "str \<Rightarrow> str list \<Rightarrow> str" where
  "join_str sep [] = []"
| "join_str sep [p] = p"
| "join_str sep (p # q # ps) = p @ sep @ join_str sep (q # ps)"

lemma join_str_Cons: "ps \<noteq> [] \<Longrightarrow> join_str sep (p # ps) = p @ sep @ join_str sep ps"
  by (cases ps) auto

lemma join_split_char: "join_str [c] (split_char c s) = s"
proof (induction s)
  case (Cons x xs)
  then show ?case
    by (cases "split_char c xs"; cases "tl (split_char c xs)") (auto simp: join_str_Cons)
qed simp

text \<open>Decimal rendering of unsigned and signed machine integers (\<open>to_string\<close>).\<close>

definition digit_char :: "nat \<Rightarrow> char" where
  "digit_char d = char_of (48 + d)"

fun nat_str :: "nat \<Rightarrow> str" where
  "nat_str n = (if n < 10 then [digit_char n] else nat_str (n div 10) @ [digit_char (n mod 10)])"

declare nat_str.simps [simp del]

definition int_str :: "int \<Rightarrow> str" where
  "int_str i = (if i < 0 then CHR ''-'' # nat_str (nat (- i)) else nat_str (nat i))"

definition str_nat :: "str \<Rightarrow> nat" where
  "str_nat s = foldl (\<lambda>acc c. acc * 10 + (of_char c - 48)) 0 s"

lemma digit_char_value [simp]: "d < 10 \<Longrightarrow> of_char (digit_char d) - (48::nat) = d"
  by (simp add: digit_char_def)

lemma str_nat_nat_str [simp]: "str_nat (nat_str n) = n"
proof (induction n rule: nat_str.induct)
  case (1 n)
  then show ?case
    by (subst nat_str.simps) (auto simp: str_nat_def)
qed

lemma nat_str_inj [simp]: "nat_str m = nat_str n \<longleftrightarrow> m = n"
  by (metis str_nat_nat_str)

lemma nat_str_digits: "c \<in> set (nat_str n) \<Longrightarrow> \<exists>d < 10. c = digit_char d"
proof (induction n rule: nat_str.induct)
  case (1 n)
  show ?case
  proof (cases "n < 10")
    case True
    with 1(2) show ?thesis by (subst (asm) nat_str.simps) auto
  next
    case False
    with 1(2) have "c \<in> set (nat_str (n div 10)) \<or> c = digit_char (n mod 10)"
      by (subst (asm) nat_str.simps) auto
    with False 1(1) show ?thesis
      by (metis mod_less_divisor zero_less_numeral)
  qed
qed

lemma nat_str_ne [simp]: "nat_str n \<noteq> []"
  by (subst nat_str.simps) auto

section \<open>Insertion-ordered maps\<close>

text \<open>\<open>override_or_push\<close> (\<open>eval/component.rs\<close>, \<open>pipeline.rs\<close> and the inline copies of it in
  \<open>terragrunt/merge.rs\<close>): overwrite the first entry with the key in place, or append.\<close>

fun override_or_push :: "'v amap \<Rightarrow> str \<Rightarrow> 'v \<Rightarrow> 'v amap" where
  "override_or_push [] k v = [(k, v)]"
| "override_or_push ((k', v') # m) k v =
     (if k' = k then (k', v) # m else (k', v') # override_or_push m k v)"

locale keyed_map =
  fixes empty :: "'m"
    and lookup :: "'m \<Rightarrow> 'k \<Rightarrow> 'v option"
    and put :: "'m \<Rightarrow> 'k \<Rightarrow> 'v \<Rightarrow> 'm"
    and keys :: "'m \<Rightarrow> 'k list"
  assumes lookup_empty: "lookup empty k = None"
    and lookup_put: "lookup (put m k v) = (lookup m)(k \<mapsto> v)"
    and lookup_dom: "dom (lookup m) = set (keys m)"
begin

definition put_all :: "'m \<Rightarrow> ('k \<times> 'v) list \<Rightarrow> 'm" where
  "put_all m kvs = foldl (\<lambda>m kv. put m (fst kv) (snd kv)) m kvs"

lemma put_all_Nil [simp]: "put_all m [] = m"
  by (simp add: put_all_def)

lemma put_all_Cons [simp]: "put_all m (kv # kvs) = put_all (put m (fst kv) (snd kv)) kvs"
  by (simp add: put_all_def)

lemma put_all_snoc [simp]: "put_all m (kvs @ [kv]) = put (put_all m kvs) (fst kv) (snd kv)"
  by (simp add: put_all_def)

lemma lookup_put_all: "lookup (put_all m kvs) k = (case map_of (rev kvs) k of Some v \<Rightarrow> Some v | None \<Rightarrow> lookup m k)"
  by (induction kvs rule: rev_induct) (auto simp: lookup_put)

lemma lookup_put_all_dom: "dom (lookup (put_all m kvs)) = dom (lookup m) \<union> fst ` set kvs"
  by (induction kvs rule: rev_induct) (auto simp: lookup_put dom_fun_upd simp del: fun_upd_apply)

lemma keys_put_all_subset: "set (keys (put_all m kvs)) = set (keys m) \<union> fst ` set kvs"
  using lookup_put_all_dom [of m kvs] by (simp add: lookup_dom)

lemma put_put_lookup: "lookup (put (put m k v) k w) = lookup (put m k w)"
  by (simp add: lookup_put)

lemma lookup_put_comm:
  "k \<noteq> l \<Longrightarrow> lookup (put (put m k v) l w) = lookup (put (put m l w) k v)"
  by (simp add: lookup_put fun_upd_twist)

end

text \<open>A keyed map that keeps the order of first insertion.\<close>

locale ordered_map = keyed_map empty lookup put keys
  for empty :: "'m"
    and lookup :: "'m \<Rightarrow> 'k \<Rightarrow> 'v option"
    and put :: "'m \<Rightarrow> 'k \<Rightarrow> 'v \<Rightarrow> 'm"
    and keys :: "'m \<Rightarrow> 'k list" +
  assumes keys_empty: "keys empty = []"
    and keys_put: "keys (put m k v) = (if k \<in> set (keys m) then keys m else keys m @ [k])"
begin

lemma keys_put_all_distinct: "distinct (keys m) \<Longrightarrow> distinct (keys (put_all m kvs))"
  by (induction kvs rule: rev_induct) (auto simp: keys_put)

lemma keys_put_all_order: "\<exists>ks. keys (put_all m kvs) = keys m @ ks"
  by (induction kvs rule: rev_induct) (auto simp: keys_put)

end

lemma map_of_override_or_push [lookup_simps]:
  "map_of (override_or_push m k v) = (map_of m)(k \<mapsto> v)"
  by (induction m k v rule: override_or_push.induct) auto

lemma keys_override_or_push [lookup_simps]:
  "map fst (override_or_push m k v) =
     (if k \<in> fst ` set m then map fst m else map fst m @ [k])"
  by (induction m k v rule: override_or_push.induct) auto

interpretation omap: ordered_map "[]" map_of override_or_push "map fst"
  by unfold_locales (auto simp: lookup_simps dom_map_of_conv_image_fst)

lemma override_or_push_ne [simp]: "override_or_push m k v \<noteq> []"
  by (cases "(m, k, v)" rule: override_or_push.cases) auto

lemma set_override_or_push: "set (override_or_push m k v) \<subseteq> insert (k, v) (set m)"
  by (induction m k v rule: override_or_push.induct) auto

text \<open>The loop \<open>for (k, v) in src { override_or_push(dst, k, v) }\<close>.\<close>

definition override_all :: "'v amap \<Rightarrow> (str \<times> 'v) list \<Rightarrow> 'v amap" where
  "override_all m kvs = foldl (\<lambda>m kv. override_or_push m (fst kv) (snd kv)) m kvs"

lemma override_all_put_all: "override_all m kvs = omap.put_all m kvs"
  by (simp add: override_all_def omap.put_all_def)

lemma map_of_override_all [lookup_simps]:
  "map_of (override_all m kvs) k = (case map_of (rev kvs) k of Some v \<Rightarrow> Some v | None \<Rightarrow> map_of m k)"
  by (simp add: override_all_put_all omap.lookup_put_all)

lemma distinct_override_all [wf_intros]: "distinct (map fst m) \<Longrightarrow> distinct (map fst (override_all m kvs))"
  by (simp add: override_all_put_all omap.keys_put_all_distinct)

lemma keys_override_all: "set (map fst (override_all m kvs)) = set (map fst m) \<union> fst ` set kvs"
  unfolding override_all_put_all by (rule omap.keys_put_all_subset)

lemma map_of_rev_distinct: "distinct (map fst kvs) \<Longrightarrow> map_of (rev kvs) = map_of kvs"
  by (rule map_of_inject_set [THEN iffD2]) (simp_all add: rev_map [symmetric])

end
