(* ===== verification/Paths.thy ===== *)
theory Paths
  imports Prelude
begin

text \<open>\<open>std::path\<close> as the program uses it and the path sandbox of \<open>util/paths.rs\<close>.

  A path is the list \<open>Path::components()\<close> yields on Unix, which is also what path equality, order
  and \<open>starts_with\<close> compare.  The file system is a parameter of the operations that query it: a
  record of the two calls the sandbox makes.\<close>

datatype path_component = RootDir | CurDir | ParentDir | Normal str

type_synonym path = "path_component list"

section \<open>Paths of the standard library\<close>

definition component_of :: "str \<Rightarrow> path_component" where
  "component_of s = (if s = ''..'' then ParentDir else Normal s)"

text \<open>\<open>Path::new(s).components()\<close>: empty and \<open>.\<close> components are skipped, a leading \<open>.\<close> of a relative
  path is kept.\<close>

definition path_body :: "str list \<Rightarrow> path" where
  "path_body parts = map component_of (filter (\<lambda>p. p \<noteq> '''' \<and> p \<noteq> ''.'') parts)"

definition parse_path :: "str \<Rightarrow> path" where
  "parse_path s =
     (case s of
        [] \<Rightarrow> []
      | c # cs \<Rightarrow>
          if c = CHR ''/'' then RootDir # path_body (split_char (CHR ''/'') cs)
          else if hd (split_char (CHR ''/'') s) = ''.'' then CurDir # path_body (tl (split_char (CHR ''/'') s))
          else path_body (split_char (CHR ''/'') s))"

definition is_absolute :: "path \<Rightarrow> bool" where
  "is_absolute p = (case p of RootDir # _ \<Rightarrow> True | _ \<Rightarrow> False)"

text \<open>\<open>PathBuf::push\<close> / \<open>Path::join\<close>.\<close>

definition path_join :: "path \<Rightarrow> path \<Rightarrow> path" where
  "path_join p q =
     (if is_absolute q then q
      else if p = [] then q
      else p @ (case q of CurDir # r \<Rightarrow> r | _ \<Rightarrow> q))"

text \<open>\<open>Path::parent\<close> (\<open>PathBuf::pop\<close> truncates to it and reports whether there was one).\<close>

definition path_parent :: "path \<Rightarrow> path option" where
  "path_parent p = (if p = [] \<or> last p = RootDir then None else Some (butlast p))"

definition path_pop :: "path \<Rightarrow> path" where
  "path_pop p = (case path_parent p of None \<Rightarrow> p | Some q \<Rightarrow> q)"

definition file_name :: "path \<Rightarrow> str option" where
  "file_name p = (if p = [] then None else case last p of Normal n \<Rightarrow> Some n | _ \<Rightarrow> None)"

definition path_extension :: "path \<Rightarrow> str option" where
  "path_extension p =
     (case file_name p of
        None \<Rightarrow> None
      | Some n \<Rightarrow> (case split_once_char (CHR ''.'') (rev n) of
          None \<Rightarrow> None
        | Some (after, before) \<Rightarrow> if before = [] then None else Some (rev after)))"

text \<open>\<open>Path::starts_with\<close> is a component-wise prefix test, \<open>Path::strip_prefix\<close> its remainder.\<close>

definition path_strip_prefix :: "path \<Rightarrow> path \<Rightarrow> path option" where
  "path_strip_prefix root p = (if prefix root p then Some (drop (length root) p) else None)"

text \<open>Rendering (\<open>display\<close>, \<open>to_string_lossy\<close>) of a path in its component form.\<close>

fun component_str :: "path_component \<Rightarrow> str" where
  "component_str RootDir = ''/''"
| "component_str CurDir = ''.''"
| "component_str ParentDir = ''..''"
| "component_str (Normal n) = n"

definition path_str :: "path \<Rightarrow> str" where
  "path_str p = (case p of RootDir # r \<Rightarrow> ''/'' @ join_str ''/'' (map component_str r)
                 | _ \<Rightarrow> join_str ''/'' (map component_str p))"

text \<open>The derived order of \<open>std::path::Component\<close>, by constructor and then by name; a path is ordered as
  the list of its components.\<close>

fun component_rank :: "path_component \<Rightarrow> nat \<times> str" where
  "component_rank RootDir = (0, [])"
| "component_rank CurDir = (1, [])"
| "component_rank ParentDir = (2, [])"
| "component_rank (Normal n) = (3, n)"

lemma component_rank_inj: "component_rank a = component_rank b \<longleftrightarrow> a = b"
  by (cases a; cases b) auto

instantiation path_component :: linorder
begin

definition less_eq_path_component :: "path_component \<Rightarrow> path_component \<Rightarrow> bool" where
  "less_eq_path_component a b \<longleftrightarrow>
     fst (component_rank a) < fst (component_rank b)
     \<or> fst (component_rank a) = fst (component_rank b) \<and> snd (component_rank a) \<le> snd (component_rank b)"

definition less_path_component :: "path_component \<Rightarrow> path_component \<Rightarrow> bool" where
  "less_path_component a b \<longleftrightarrow> a \<le> b \<and> \<not> b \<le> a"

instance
proof
  fix a b c :: path_component
  show "a < b \<longleftrightarrow> a \<le> b \<and> \<not> b \<le> a" by (rule less_path_component_def)
  show "a \<le> a" by (simp add: less_eq_path_component_def)
  show "a \<le> b \<Longrightarrow> b \<le> c \<Longrightarrow> a \<le> c" by (auto simp: less_eq_path_component_def)
  show "a \<le> b \<or> b \<le> a" by (auto simp: less_eq_path_component_def)
  show "a \<le> b \<Longrightarrow> b \<le> a \<Longrightarrow> a = b"
    by (auto simp: less_eq_path_component_def component_rank_inj [symmetric] prod_eq_iff)
qed

end

section \<open>The sandbox (\<open>util/paths.rs\<close>)\<close>

datatype path_safety_error =
    NulByte path
  | Escape path path
  | UnexpectedSymlink path
  | PathIo path str

datatype symlink_policy = Reject | Follow

record file_system =
  fs_is_symlink :: "path \<Rightarrow> bool"  \<comment> \<open>\<open>symlink_metadata(p)\<close> succeeds and reports a symlink\<close>
  fs_canonicalize :: "path \<Rightarrow> str + path"  \<comment> \<open>\<open>fs::canonicalize(p)\<close>; \<open>Inl\<close> is an I/O error and its text\<close>

definition path_bytes :: "path \<Rightarrow> str" where
  "path_bytes p = concat (map component_str p)"

definition reject_nul :: "path \<Rightarrow> path_safety_error + unit" where
  "reject_nul candidate =
     (if char_of (0::nat) \<in> set (path_bytes candidate) then Err (NulByte candidate) else Ok ())"

fun is_descendant :: "path \<Rightarrow> path \<Rightarrow> bool" where
  "is_descendant p [] = True"
| "is_descendant [] (r # rs) = False"
| "is_descendant (c # cs) (r # rs) = (if c = r then is_descendant cs rs else False)"

text \<open>\<open>check_no_symlink_ancestors\<close>: \<open>probe\<close> grows by one component per step; the file system is asked
  after every component but the root.\<close>

fun check_no_symlink_from :: "file_system \<Rightarrow> path \<Rightarrow> path \<Rightarrow> path_safety_error + unit" where
  "check_no_symlink_from fs probe [] = Ok ()"
| "check_no_symlink_from fs probe (c # cs) =
     (let probe' = probe @ [c] in
      if c = RootDir then check_no_symlink_from fs probe' cs
      else if fs_is_symlink fs probe' then Err (UnexpectedSymlink probe')
      else check_no_symlink_from fs probe' cs)"

definition check_no_symlink_ancestors :: "file_system \<Rightarrow> path \<Rightarrow> path_safety_error + unit" where
  "check_no_symlink_ancestors fs candidate = check_no_symlink_from fs [] candidate"

fun lexically_normalize_from :: "path \<Rightarrow> path \<Rightarrow> path" where
  "lexically_normalize_from out [] = out"
| "lexically_normalize_from out (c # cs) =
     (case c of
        RootDir \<Rightarrow> lexically_normalize_from [RootDir] cs
      | Normal n \<Rightarrow> lexically_normalize_from (path_join out [Normal n]) cs
      | CurDir \<Rightarrow> lexically_normalize_from out cs
      | ParentDir \<Rightarrow> lexically_normalize_from (path_pop out) cs)"

definition lexically_normalize :: "path \<Rightarrow> path" where
  "lexically_normalize p = lexically_normalize_from [] p"

definition canonicalize_inside ::
  "file_system \<Rightarrow> path \<Rightarrow> path \<Rightarrow> symlink_policy \<Rightarrow> path_safety_error + path" where
  "canonicalize_inside fs candidate root policy =
     (case reject_nul candidate of Inl e \<Rightarrow> Err e | Inr _ \<Rightarrow>
      case reject_nul root of Inl e \<Rightarrow> Err e | Inr _ \<Rightarrow>
      let joined = (if is_absolute candidate then candidate else path_join root candidate);
          resolved = (case policy of
              Follow \<Rightarrow> (case fs_canonicalize fs joined of Inl e \<Rightarrow> Err (PathIo joined e) | Inr p \<Rightarrow> Ok p)
            | Reject \<Rightarrow> (case check_no_symlink_ancestors fs joined of Inl e \<Rightarrow> Err e
                         | Inr _ \<Rightarrow> Ok (lexically_normalize joined)))
      in case resolved of Inl e \<Rightarrow> Err e
         | Inr p \<Rightarrow> if \<not> is_descendant p root then Err (Escape candidate root) else Ok p)"

section \<open>Laws\<close>

definition canonical_form :: "path \<Rightarrow> bool" where
  "canonical_form p = (CurDir \<notin> set p \<and> ParentDir \<notin> set p \<and> RootDir \<notin> set (tl p))"

lemma is_descendant_iff [simp]: "is_descendant p root \<longleftrightarrow> prefix root p"
  by (induction p root rule: is_descendant.induct) auto

lemma check_no_symlink_from_Ok:
  "check_no_symlink_from fs probe cs = Ok () \<longleftrightarrow>
   (\<forall>k < length cs. cs ! k \<noteq> RootDir \<longrightarrow> \<not> fs_is_symlink fs (probe @ take (Suc k) cs))"
proof (induction fs probe cs rule: check_no_symlink_from.induct)
  case (2 fs probe c cs)
  have split: "(\<forall>k < length (c # cs). Q k) \<longleftrightarrow> Q 0 \<and> (\<forall>k < length cs. Q (Suc k))" for Q
    by (auto simp: less_Suc_eq_0_disj)
  show ?case
    using 2 unfolding split by (simp add: Let_def)
qed simp

lemma check_no_symlink_ancestors_Ok:
  "check_no_symlink_ancestors fs p = Ok () \<longleftrightarrow>
   (\<forall>k < length p. p ! k \<noteq> RootDir \<longrightarrow> \<not> fs_is_symlink fs (take (Suc k) p))"
  by (simp add: check_no_symlink_ancestors_def check_no_symlink_from_Ok)

lemma canonical_form_snoc:
  "canonical_form p \<Longrightarrow> canonical_form (p @ [Normal n])"
  by (cases p) (auto simp: canonical_form_def)

lemma canonical_form_pop: "canonical_form p \<Longrightarrow> canonical_form (path_pop p)"
  by (cases p) (auto simp: canonical_form_def path_pop_def path_parent_def dest: in_set_butlastD)

lemma path_join_Normal: "path_join out [Normal n] = out @ [Normal n]"
  by (simp add: path_join_def is_absolute_def)

lemma lexically_normalize_from_canonical:
  "canonical_form out \<Longrightarrow> canonical_form (lexically_normalize_from out p)"
proof (induction out p rule: lexically_normalize_from.induct)
  case (2 out c cs)
  then show ?case
    by (cases c) (auto simp: path_join_Normal canonical_form_snoc canonical_form_pop, auto simp: canonical_form_def)
qed simp

lemma lexically_normalize_canonical: "canonical_form (lexically_normalize p)"
  unfolding lexically_normalize_def
  by (rule lexically_normalize_from_canonical) (simp add: canonical_form_def)

lemma lexically_normalize_from_Normals:
  "set cs \<inter> {RootDir, CurDir, ParentDir} = {} \<Longrightarrow> lexically_normalize_from out cs = out @ cs"
  by (induction cs arbitrary: out) (auto simp: path_join_Normal split: path_component.splits)

lemma lexically_normalize_id: "canonical_form p \<Longrightarrow> lexically_normalize p = p"
proof (cases p)
  case (Cons c cs)
  assume "canonical_form p"
  then have "set cs \<inter> {RootDir, CurDir, ParentDir} = {}" "c \<noteq> CurDir" "c \<noteq> ParentDir"
    by (auto simp: canonical_form_def Cons)
  then show ?thesis
    by (cases c) (simp_all add: Cons lexically_normalize_def lexically_normalize_from_Normals path_join_Normal)
qed (simp add: lexically_normalize_def)

lemma lexically_normalize_idem: "lexically_normalize (lexically_normalize p) = lexically_normalize p"
  by (rule lexically_normalize_id [OF lexically_normalize_canonical])

lemma lexically_normalize_append_from:
  "lexically_normalize_from out (p @ q) = lexically_normalize_from (lexically_normalize_from out p) q"
  by (induction out p rule: lexically_normalize_from.induct) (auto split: path_component.splits)

lemma canonicalize_inside_Ok_cases:
  assumes "canonicalize_inside fs c root policy = Ok p"
  obtains (follow) "policy = Follow"
      "fs_canonicalize fs (if is_absolute c then c else path_join root c) = Inr p" "prefix root p"
  | (reject) "policy = Reject" "p = lexically_normalize (if is_absolute c then c else path_join root c)"
      "check_no_symlink_ancestors fs (if is_absolute c then c else path_join root c) = Ok ()" "prefix root p"
  using assms
  by (auto simp: canonicalize_inside_def Let_def split: sum.splits symlink_policy.splits option.splits if_splits)

end
