(* ===== verification/Newtypes.thy ===== *)
theory Newtypes
  imports Paths
begin

text \<open>The validated newtypes of \<open>ir/newtypes.rs\<close>, \<open>ir/ids.rs\<close> and \<open>ir/span.rs\<close>: \<open>Address\<close>, \<open>AccountId\<close>,
  \<open>Region\<close>, the two identifier types, \<open>Span\<close>, and the classifiers \<open>ModuleSource::classify\<close> and
  \<open>FileExt::classify\<close>.  The grammar \<open>balanced\<close> is the specification of the bracket scan of
  \<open>Address::new\<close>; \<open>module_segments\<close> is inverse to prefixing an address with module names.\<close>

datatype validation_error =
    EmptyField str
  | MissingField str
  | TooLong str nat nat
  | BadChar str char nat
  | Shape str str
  | OutOfRange str int int int

section \<open>Addresses\<close>

datatype address = Address (addr_str: str)

instantiation address :: linorder
begin

definition less_eq_address :: "address \<Rightarrow> address \<Rightarrow> bool" where
  "less_eq_address a b = (addr_str a \<le> addr_str b)"

definition less_address :: "address \<Rightarrow> address \<Rightarrow> bool" where
  "less_address a b = (addr_str a < addr_str b)"

instance
  by standard (auto simp: less_eq_address_def less_address_def address.expand)

end

definition address_max_bytes :: nat where
  "address_max_bytes = 1024"

definition char_between :: "char \<Rightarrow> char \<Rightarrow> char \<Rightarrow> bool" where
  "char_between lo hi c = ((of_char lo :: nat) \<le> of_char c \<and> (of_char c :: nat) \<le> of_char hi)"

definition is_ascii_digit :: "char \<Rightarrow> bool" where
  "is_ascii_digit c = char_between (CHR ''0'') (CHR ''9'') c"

definition is_address_byte :: "char \<Rightarrow> bool" where
  "is_address_byte b =
     (char_between (CHR ''A'') (CHR ''Z'') b \<or> char_between (CHR ''a'') (CHR ''z'') b
      \<or> is_ascii_digit b
      \<or> b = CHR ''_'' \<or> b = CHR ''.'' \<or> b = CHR ''/'' \<or> b = CHR ''-''
      \<or> b = CHR ''['' \<or> b = CHR '']'' \<or> b = CHR 0x22)"

text \<open>The loop over \<open>enumerate()\<close> that returns at the first byte outside the charset.\<close>

fun find_bad :: "(char \<Rightarrow> bool) \<Rightarrow> nat \<Rightarrow> str \<Rightarrow> (char \<times> nat) option" where
  "find_bad ok i [] = None"
| "find_bad ok i (c # cs) = (if \<not> ok c then Some (c, i) else find_bad ok (Suc i) cs)"

fun balanced_scan :: "int \<Rightarrow> bool \<Rightarrow> str \<Rightarrow> bool" where
  "balanced_scan depth in_quotes [] = (depth = 0 \<and> \<not> in_quotes)"
| "balanced_scan depth in_quotes (b # bs) =
     (if b = CHR ''['' \<and> \<not> in_quotes then balanced_scan (depth + 1) in_quotes bs
      else if b = CHR '']'' \<and> \<not> in_quotes then
        (if depth - 1 < 0 then False else balanced_scan (depth - 1) in_quotes bs)
      else if b = CHR 0x22 then balanced_scan depth (\<not> in_quotes) bs
      else balanced_scan depth in_quotes bs)"

definition brackets_and_quotes_balanced :: "str \<Rightarrow> bool" where
  "brackets_and_quotes_balanced bytes = balanced_scan 0 False bytes"

definition address_new :: "str \<Rightarrow> validation_error + address" where
  "address_new s =
     (if s = [] then Err (EmptyField ''Address'')
      else if length s > address_max_bytes then Err (TooLong ''Address'' (length s) address_max_bytes)
      else case find_bad is_address_byte 0 s of
          Some (byte, offset) \<Rightarrow> Err (BadChar ''Address'' byte offset)
        | None \<Rightarrow>
            if \<not> brackets_and_quotes_balanced s
            then Err (Shape ''Address'' ''unbalanced-brackets-or-quotes'')
            else Ok (Address s))"

text \<open>The iterator \<open>ModuleSegments\<close>, run to its end: the names it yields and its final \<open>rest\<close>.\<close>

definition module_prefix :: str where
  "module_prefix = ''module.''"

function module_scan :: "str \<Rightarrow> str list \<times> str" where
  "module_scan s =
     (case strip_prefix_str module_prefix s of
        None \<Rightarrow> ([], s)
      | Some r \<Rightarrow> (case split_once_char (CHR ''.'') r of
          None \<Rightarrow> ([], s)
        | Some (name, after) \<Rightarrow> (case module_scan after of (names, rest) \<Rightarrow> (name # names, rest))))"
  by auto
termination
  by (relation "measure length") (auto simp: strip_prefix_Some_iff split_once_char_Some)

declare module_scan.simps [simp del]

definition module_segments :: "address \<Rightarrow> str list" where
  "module_segments a = fst (module_scan (addr_str a))"

fun push_segment :: "str \<Rightarrow> str list \<Rightarrow> str" where
  "push_segment out [] = out"
| "push_segment out (seg # segs) =
     push_segment ((if out \<noteq> [] then out @ [CHR ''.''] else out) @ seg) segs"

definition module_path :: "address \<Rightarrow> str" where
  "module_path a = push_segment [] (module_segments a)"

definition resource_part :: "address \<Rightarrow> str" where
  "resource_part a = snd (module_scan (addr_str a))"

section \<open>Account ids and regions\<close>

datatype account_id = AccountId (account_str: str)
datatype region = Region (region_str: str)

definition account_id_new :: "str \<Rightarrow> validation_error + account_id" where
  "account_id_new s =
     (if length s \<noteq> 12 then Err (Shape ''AccountId'' ''must-be-12-digits'')
      else if \<not> list_all is_ascii_digit s then Err (Shape ''AccountId'' ''must-be-ascii-digits'')
      else Ok (AccountId s))"

definition region_max_bytes :: nat where
  "region_max_bytes = 32"

definition is_region_byte :: "char \<Rightarrow> bool" where
  "is_region_byte b = (char_between (CHR ''a'') (CHR ''z'') b \<or> is_ascii_digit b \<or> b = CHR ''-'')"

definition region_new :: "str \<Rightarrow> validation_error + region" where
  "region_new s =
     (if s = [] then Err (EmptyField ''Region'')
      else if length s > region_max_bytes then Err (TooLong ''Region'' (length s) region_max_bytes)
      else case find_bad is_region_byte 0 s of
          Some (byte, offset) \<Rightarrow> Err (BadChar ''Region'' byte offset)
        | None \<Rightarrow> Ok (Region s))"

section \<open>Identifiers and spans\<close>

text \<open>\<open>ComponentId\<close> and \<open>ModuleId\<close> wrap a \<open>NonZeroU32\<close>: here the number itself, in \<open>1 .. 2^32 - 1\<close>.\<close>

definition u32_max :: nat where
  "u32_max = 2 ^ 32 - 1"

definition id_new :: "nat \<Rightarrow> nat option" where
  "id_new raw = (if raw = 0 then None else Some raw)"

definition id_from_index :: "nat \<Rightarrow> nat" where
  "id_from_index raw =
     (let clamped = (if raw \<le> u32_max then raw else u32_max - 1);
          one_based = (if clamped + 1 > u32_max then u32_max else clamped + 1)
      in if one_based = 0 then 1 else one_based)"

definition id_index :: "nat \<Rightarrow> nat" where
  "id_index i = i - 1"

record span =
  span_file :: path
  span_start :: nat
  span_end :: nat
  span_line :: nat
  span_column :: nat

definition span_new :: "path \<Rightarrow> nat \<Rightarrow> nat \<Rightarrow> nat \<Rightarrow> nat \<Rightarrow> validation_error + span" where
  "span_new file s e line column =
     (if s > e then Err (Shape ''Span.byte_range'' ''start-after-end'')
      else if line = 0 then Err (Shape ''Span.line'' ''must-be-1-based'')
      else if column = 0 then Err (Shape ''Span.column'' ''must-be-1-based'')
      else Ok \<lparr>span_file = file, span_start = s, span_end = e, span_line = line, span_column = column\<rparr>)"

definition span_synthetic :: span where
  "span_synthetic = \<lparr>span_file = [], span_start = 0, span_end = 0, span_line = 1, span_column = 1\<rparr>"

section \<open>Classifiers\<close>

datatype module_source = SrcLocal str | SrcRegistry str | SrcGit str | SrcExternal str

definition module_source_classify :: "str \<Rightarrow> module_source" where
  "module_source_classify raw =
     (if starts_with raw ''./'' \<or> starts_with raw ''../'' then SrcLocal raw
      else if starts_with raw ''git::'' \<or> starts_with raw ''git@'' \<or> str_contains raw ''.git''
              \<or> starts_with raw ''github.com/'' then SrcGit raw
      else if CHR ''/'' \<in> set raw \<and> \<not> starts_with raw ''/'' \<and> length (filter (\<lambda>c. c = CHR ''/'') raw) \<ge> 2
      then SrcRegistry raw
      else SrcExternal raw)"

datatype file_ext = Tf | Tfvars | Hcl | TerragruntHcl | Json

definition file_ext_classify :: "path \<Rightarrow> file_ext option" where
  "file_ext_classify p =
     (case file_name p of
        None \<Rightarrow> None
      | Some name \<Rightarrow>
          if name = ''terragrunt.hcl'' then Some TerragruntHcl
          else case path_extension p of
            None \<Rightarrow> None
          | Some ext \<Rightarrow>
              if ext = ''tf'' then Some Tf
              else if ext = ''tfvars'' then Some Tfvars
              else if ext = ''hcl'' then Some Hcl
              else if ext = ''json'' then Some Json
              else None)"

fun is_hcl :: "file_ext \<Rightarrow> bool" where
  "is_hcl Tf = True"
| "is_hcl Hcl = True"
| "is_hcl TerragruntHcl = True"
| "is_hcl Tfvars = True"
| "is_hcl Json = False"

section \<open>The bracket grammar of addresses\<close>

inductive balanced :: "str \<Rightarrow> bool" where
  bal_Nil: "balanced []"
| bal_plain: "c \<notin> {CHR ''['', CHR '']'', CHR 0x22} \<Longrightarrow> balanced s \<Longrightarrow> balanced (c # s)"
| bal_quote: "CHR 0x22 \<notin> set q \<Longrightarrow> balanced s \<Longrightarrow> balanced (CHR 0x22 # q @ CHR 0x22 # s)"
| bal_bracket: "balanced a \<Longrightarrow> balanced b \<Longrightarrow> balanced (CHR ''['' # a @ CHR '']'' # b)"

lemma balanced_append: "balanced a \<Longrightarrow> balanced b \<Longrightarrow> balanced (a @ b)"
  by (induction rule: balanced.induct) (auto intro: balanced.intros)

lemma scan_in_quotes:
  "CHR 0x22 \<notin> set q \<Longrightarrow> balanced_scan d True (q @ CHR 0x22 # s) = balanced_scan d False s"
  by (induction q) auto

lemma scan_balanced: "balanced a \<Longrightarrow> d \<ge> 0 \<Longrightarrow> balanced_scan d False (a @ s) = balanced_scan d False s"
  by (induction arbitrary: d s rule: balanced.induct) (auto simp: scan_in_quotes)

lemma scan_quote_split:
  "balanced_scan d True s \<Longrightarrow> \<exists>q r. s = q @ CHR 0x22 # r \<and> CHR 0x22 \<notin> set q \<and> balanced_scan d False r"
proof (induction s)
  case (Cons c s)
  show ?case
  proof (cases "c = CHR 0x22")
    case True
    with Cons.prems show ?thesis by (intro exI [of _ "[]"] exI [of _ s]) simp
  next
    case False
    with Cons obtain q r where "s = q @ CHR 0x22 # r" "CHR 0x22 \<notin> set q" "balanced_scan d False r"
      by (auto split: if_splits)
    with False show ?thesis by (intro exI [of _ "c # q"] exI [of _ r]) simp
  qed
qed simp

text \<open>\<open>closes n s\<close>: \<open>s\<close> is \<open>n\<close> balanced pieces each closed by a bracket, then a balanced piece.\<close>

fun closes :: "nat \<Rightarrow> str \<Rightarrow> bool" where
  "closes 0 s = balanced s"
| "closes (Suc n) s = (\<exists>a b. s = a @ CHR '']'' # b \<and> balanced a \<and> closes n b)"

lemma closes_append: "balanced a \<Longrightarrow> closes n s \<Longrightarrow> closes n (a @ s)"
proof (cases n)
  case (Suc m)
  assume "balanced a" "closes n s"
  then obtain a' b where "s = a' @ CHR '']'' # b" "balanced a'" "closes m b"
    by (auto simp: Suc)
  with \<open>balanced a\<close> have "a @ s = (a @ a') @ CHR '']'' # b" "balanced (a @ a')" "closes m b"
    by (simp_all add: balanced_append)
  then show ?thesis unfolding Suc closes.simps by blast
qed (auto intro: balanced_append)

lemma scan_closes: "balanced_scan (int n) False s \<Longrightarrow> closes n s"
proof (induction s arbitrary: n rule: length_induct)
  case (1 s)
  have IH: "balanced_scan (int m) False t \<Longrightarrow> length t < length s \<Longrightarrow> closes m t" for m t
    using 1(1) by blast
  show ?case
  proof (cases s)
    case Nil
    with 1(2) show ?thesis by (auto intro: balanced.intros)
  next
    case (Cons c t)
    note sc = this
    consider (op) "c = CHR ''[''" | (cl) "c = CHR '']''" | (qu) "c = CHR 0x22"
      | (plain) "c \<notin> {CHR ''['', CHR '']'', CHR 0x22}" by auto
    then show ?thesis
    proof cases
      case op
      with 1(2) have "balanced_scan (int (Suc n)) False t" by (simp add: sc add.commute)
      from IH [OF this] obtain a b where t: "t = a @ CHR '']'' # b" "balanced a" "closes n b"
        by (auto simp: sc)
      have "closes n ((CHR ''['' # a @ [CHR '']'']) @ b)"
        using balanced.bal_bracket [OF t(2) balanced.bal_Nil] t(3) by (intro closes_append) simp_all
      then show ?thesis by (simp add: sc op t(1))
    next
      case cl
      with 1(2) have "n > 0" "balanced_scan (int (n - 1)) False t"
        by (auto simp: sc of_nat_diff split: if_splits)
      then obtain m where "n = Suc m" "closes m t" using IH [of "n - 1" t] by (cases n) (auto simp: sc)
      moreover have "s = [] @ CHR '']'' # t" by (simp add: sc cl)
      ultimately show ?thesis using balanced.bal_Nil closes.simps(2) by blast
    next
      case qu
      with 1(2) have "balanced_scan (int n) True t" by (simp add: sc)
      from scan_quote_split [OF this] obtain q r where
        r: "t = q @ CHR 0x22 # r" "CHR 0x22 \<notin> set q" "balanced_scan (int n) False r" by blast
      have "closes n ((CHR 0x22 # q @ [CHR 0x22]) @ r)"
        using balanced.bal_quote [OF r(2) balanced.bal_Nil] IH [OF r(3)] r(1)
        by (intro closes_append) (simp_all add: sc)
      then show ?thesis by (simp add: sc qu r(1))
    next
      case plain
      with 1(2) have "balanced_scan (int n) False t" by (simp add: sc)
      from IH [OF this] have "closes n ([c] @ t)"
        using plain by (intro closes_append balanced.intros) (auto simp: sc)
      then show ?thesis by (simp add: sc)
    qed
  qed
qed

lemma brackets_and_quotes_balanced_iff: "brackets_and_quotes_balanced s \<longleftrightarrow> balanced s"
  using scan_closes [of 0 s] scan_balanced [of s 0 "[]"]
  by (auto simp: brackets_and_quotes_balanced_def)

section \<open>Laws of the constructors\<close>

lemma find_bad_None [simp]: "find_bad ok i s = None \<longleftrightarrow> list_all ok s"
  by (induction ok i s rule: find_bad.induct) auto

lemma find_bad_eq: "list_all ok s \<Longrightarrow> find_bad ok i s = None"
  by simp

lemma find_bad_Some:
  "find_bad ok i s = Some (c, j) \<Longrightarrow> i \<le> j \<and> j - i < length s \<and> s ! (j - i) = c \<and> \<not> ok c \<and> list_all ok (take (j - i) s)"
proof (induction ok i s rule: find_bad.induct)
  case (2 ok i d cs)
  show ?case
  proof (cases "ok d")
    case True
    with 2 have "Suc i \<le> j" "j - Suc i < length cs" "cs ! (j - Suc i) = c" "\<not> ok c"
      "list_all ok (take (j - Suc i) cs)" by auto
    moreover from \<open>Suc i \<le> j\<close> have "j - i = Suc (j - Suc i)" by simp
    ultimately show ?thesis using True by simp
  qed (use 2 in auto)
qed simp

lemma address_new_Ok_iff:
  "address_new s = Ok a \<longleftrightarrow>
   a = Address s \<and> s \<noteq> [] \<and> length s \<le> 1024 \<and> list_all is_address_byte s \<and> balanced s"
  using find_bad_None [of is_address_byte 0 s]
  by (cases "find_bad is_address_byte 0 s")
    (auto simp: address_new_def address_max_bytes_def brackets_and_quotes_balanced_iff find_bad_eq)

lemma region_new_Ok_iff:
  "region_new s = Ok r \<longleftrightarrow> r = Region s \<and> s \<noteq> [] \<and> length s \<le> 32 \<and> list_all is_region_byte s"
  using find_bad_None [of is_region_byte 0 s]
  by (cases "find_bad is_region_byte 0 s")
    (auto simp: region_new_def region_max_bytes_def find_bad_eq)

lemma account_id_new_Ok_iff:
  "account_id_new s = Ok a \<longleftrightarrow> a = AccountId s \<and> length s = 12 \<and> list_all is_ascii_digit s"
  by (auto simp: account_id_new_def)

lemma id_from_index_range: "1 \<le> id_from_index raw \<and> id_from_index raw \<le> u32_max"
  by (auto simp: id_from_index_def u32_max_def Let_def)

lemma id_index_from_index: "raw < u32_max \<Longrightarrow> id_index (id_from_index raw) = raw"
  by (auto simp: id_from_index_def u32_max_def Let_def id_index_def)

section \<open>Module paths\<close>

definition prefix_modules :: "str list \<Rightarrow> str \<Rightarrow> str" where
  "prefix_modules names r = concat (map (\<lambda>n. module_prefix @ n @ ''.'') names) @ r"

lemma module_scan_reconstructs: "module_scan s = (names, r) \<Longrightarrow> s = prefix_modules names r"
proof (induction s arbitrary: names r rule: module_scan.induct)
  case (1 s)
  from "1.prems" consider "names = []" "r = s"
    | nm t ns where "strip_prefix_str module_prefix s = Some (nm @ CHR ''.'' # t)"
        "split_once_char (CHR ''.'') (nm @ CHR ''.'' # t) = Some (nm, t)"
        "module_scan t = (ns, r)" "names = nm # ns"
    by (subst (asm) module_scan.simps) (auto simp: split_once_char_Some split: option.splits prod.splits)
  then show ?case
  proof cases
    case 2
    from "1.IH" [OF 2(1,2) refl 2(3)] 2(1,4) show ?thesis
      by (simp add: prefix_modules_def strip_prefix_Some_iff)
  qed (simp add: prefix_modules_def)
qed

lemma module_scan_no_dots: "module_scan s = (names, r) \<Longrightarrow> n \<in> set names \<Longrightarrow> CHR ''.'' \<notin> set n"
proof (induction s arbitrary: names r rule: module_scan.induct)
  case (1 s)
  from "1.prems" show ?case
    by (subst (asm) module_scan.simps)
      (auto simp: split_once_char_Some split: option.splits prod.splits dest: "1.IH")
qed

lemma module_scan_prefix_modules:
  assumes "\<And>n. n \<in> set names \<Longrightarrow> CHR ''.'' \<notin> set n"
  shows "module_scan (prefix_modules names r) = (names @ fst (module_scan r), snd (module_scan r))"
  using assms
proof (induction names)
  case (Cons n names)
  have "prefix_modules (n # names) r = module_prefix @ n @ CHR ''.'' # prefix_modules names r"
    by (simp add: prefix_modules_def)
  with Cons show ?case
    by (subst module_scan.simps) (simp add: split_beta)
qed (simp add: prefix_modules_def)

lemma push_segment_join: "out \<noteq> [] \<Longrightarrow> push_segment out segs = join_str ''.'' (out # segs)"
proof (induction out segs rule: push_segment.induct)
  case (2 out seg segs)
  then show ?case by (cases segs) (auto simp: join_str_Cons)
qed simp

lemma push_segment_Nil_join:
  "\<forall>s \<in> set segs. s \<noteq> [] \<Longrightarrow> push_segment [] segs = join_str ''.'' segs"
  by (cases segs) (auto simp: push_segment_join)

end
