(* ===== verification/F64.thy ===== *)
theory F64
  imports Complex_Main Prelude
begin

text \<open>The Rust type \<open>f64\<close>: IEEE-754 binary64.  A finite number is \<open>(-1)^s * m * 2^e\<close> in its canonical
  form (\<open>2^52 \<le> m < 2^53\<close>, or \<open>m < 2^52\<close> with the least exponent \<open>-1074\<close>), so two finite numbers are
  bitwise equal exactly when their constructors are.  \<open>NaN\<close> stands for every NaN payload: no code
  under verification reads one.  Arithmetic is the correctly rounded (to nearest, ties to even)
  result of the exact rational, as the Rust operators compute it; \<open>f64_eq\<close> and \<open>f64_partial_cmp\<close>
  are \<open>PartialEq\<close> and \<open>PartialOrd\<close>.\<close>

datatype f64 = NaN | Inf bool | Fin bool nat int

datatype ordering = Less | Equal | Greater

definition cmp_int :: "int \<Rightarrow> int \<Rightarrow> ordering" where
  "cmp_int a b = (if a < b then Less else if a = b then Equal else Greater)"

fun bit_len :: "nat \<Rightarrow> nat" where
  "bit_len n = (if n = 0 then 0 else Suc (bit_len (n div 2)))"

declare bit_len.simps [simp del]

lemma bit_len_bounds: "n > 0 \<Longrightarrow> 2 ^ (bit_len n - 1) \<le> n \<and> n < 2 ^ bit_len n"
proof (induction n rule: bit_len.induct)
  case (1 n)
  show ?case
  proof (cases "n = 1")
    case True
    then show ?thesis by (simp add: bit_len.simps)
  next
    case False
    with 1(2) have pos: "n div 2 > 0" by simp
    define k where "k = bit_len (n div 2)"
    have k: "bit_len n = Suc k" using 1(2) by (subst bit_len.simps) (simp add: k_def)
    have kpos: "k > 0" using pos by (simp add: k_def) (subst bit_len.simps, simp)
    have IH: "2 ^ (k - 1) \<le> n div 2" "n div 2 < 2 ^ k"
      using 1(1) [OF _ pos] 1(2) by (simp_all add: k_def)
    have "(2::nat) ^ k = 2 * 2 ^ (k - 1)"
      using kpos by (metis One_nat_def Suc_pred power_Suc)
    with IH(1) have "2 ^ k \<le> n" by linarith
    moreover from IH(2) have "n < 2 ^ Suc k" by simp
    ultimately show ?thesis by (simp add: k)
  qed
qed

text \<open>\<open>scaled p q e\<close> is the integer part and the comparison data of \<open>(p / q) / 2^e\<close>: numerator and
  denominator of the scaled quotient.\<close>

definition scaled :: "nat \<Rightarrow> nat \<Rightarrow> int \<Rightarrow> nat \<times> nat" where
  "scaled p q e = (if e \<ge> 0 then (p, q * 2 ^ nat e) else (p * 2 ^ nat (- e), q))"

definition round_half_even :: "nat \<Rightarrow> nat \<Rightarrow> nat" where
  "round_half_even num den =
     (let d = num div den; r = num mod den in
      if 2 * r < den then d
      else if 2 * r > den then d + 1
      else if even d then d else d + 1)"

text \<open>The exponent of the last place of the result: the quotient scaled by it lies in
  \<open>[2^52, 2^53)\<close> unless the number is subnormal.\<close>

definition ulp_exp :: "nat \<Rightarrow> nat \<Rightarrow> int" where
  "ulp_exp p q =
     (let k = int (bit_len p) - int (bit_len q);
          (a, b) = scaled p q k;
          lg = (if a \<ge> b then k else k - 1)
      in max (-1074) (lg - 52))"

definition round_ratio :: "bool \<Rightarrow> nat \<Rightarrow> nat \<Rightarrow> f64" where
  "round_ratio s p q =
     (if p = 0 then Fin s 0 (-1074)
      else let e = ulp_exp p q; (a, b) = scaled p q e; m = round_half_even a b;
               (m', e') = (if m = 2 ^ 53 then (2 ^ 52, e + 1) else (m, e))
           in if e' > 971 then Inf s else Fin s m' e')"

definition f64_canonical :: "f64 \<Rightarrow> bool" where
  "f64_canonical x = (case x of
      Fin s m e \<Rightarrow> (2 ^ 52 \<le> m \<and> m < 2 ^ 53 \<and> -1074 \<le> e \<and> e \<le> 971) \<or> (m < 2 ^ 52 \<and> e = -1074)
    | _ \<Rightarrow> True)"

text \<open>A dyadic rational \<open>n * 2^e\<close> rounded, and the finite numbers as exact dyadics.\<close>

definition round_dyadic :: "bool \<Rightarrow> nat \<Rightarrow> int \<Rightarrow> f64" where
  "round_dyadic s n e = (if e \<ge> 0 then round_ratio s (n * 2 ^ nat e) 1 else round_ratio s n (2 ^ nat (- e)))"

definition signed :: "bool \<Rightarrow> nat \<Rightarrow> int" where
  "signed s m = (if s then - int m else int m)"

definition align :: "int \<Rightarrow> int \<Rightarrow> int \<Rightarrow> int" where
  "align i e e0 = i * 2 ^ nat (e - e0)"

definition f64_of_int :: "int \<Rightarrow> f64" where
  "f64_of_int i = round_ratio (i < 0) (nat \<bar>i\<bar>) 1"

fun f64_neg :: "f64 \<Rightarrow> f64" where
  "f64_neg NaN = NaN"
| "f64_neg (Inf s) = Inf (\<not> s)"
| "f64_neg (Fin s m e) = Fin (\<not> s) m e"

fun f64_add :: "f64 \<Rightarrow> f64 \<Rightarrow> f64" where
  "f64_add NaN y = NaN"
| "f64_add (Inf s) y = (case y of NaN \<Rightarrow> NaN | Inf t \<Rightarrow> if s = t then Inf s else NaN | Fin _ _ _ \<Rightarrow> Inf s)"
| "f64_add (Fin s m e) y = (case y of
      NaN \<Rightarrow> NaN
    | Inf t \<Rightarrow> Inf t
    | Fin t n f \<Rightarrow>
        (let e0 = min e f; v = align (signed s m) e e0 + align (signed t n) f e0
         in if v = 0 then Fin (if m = 0 \<and> n = 0 then s \<and> t else False) 0 (-1074)
            else round_dyadic (v < 0) (nat \<bar>v\<bar>) e0))"

definition f64_sub :: "f64 \<Rightarrow> f64 \<Rightarrow> f64" where
  "f64_sub x y = f64_add x (f64_neg y)"

fun f64_mul :: "f64 \<Rightarrow> f64 \<Rightarrow> f64" where
  "f64_mul NaN y = NaN"
| "f64_mul (Inf s) y = (case y of NaN \<Rightarrow> NaN | Inf t \<Rightarrow> Inf (s \<noteq> t) | Fin t n _ \<Rightarrow> if n = 0 then NaN else Inf (s \<noteq> t))"
| "f64_mul (Fin s m e) y = (case y of
      NaN \<Rightarrow> NaN
    | Inf t \<Rightarrow> if m = 0 then NaN else Inf (s \<noteq> t)
    | Fin t n f \<Rightarrow> round_dyadic (s \<noteq> t) (m * n) (e + f))"

fun f64_div :: "f64 \<Rightarrow> f64 \<Rightarrow> f64" where
  "f64_div NaN y = NaN"
| "f64_div (Inf s) y = (case y of NaN \<Rightarrow> NaN | Inf _ \<Rightarrow> NaN | Fin t _ _ \<Rightarrow> Inf (s \<noteq> t))"
| "f64_div (Fin s m e) y = (case y of
      NaN \<Rightarrow> NaN
    | Inf t \<Rightarrow> Fin (s \<noteq> t) 0 (-1074)
    | Fin t n f \<Rightarrow>
        if n = 0 then (if m = 0 then NaN else Inf (s \<noteq> t))
        else if e \<ge> f then round_ratio (s \<noteq> t) (m * 2 ^ nat (e - f)) n
        else round_ratio (s \<noteq> t) m (n * 2 ^ nat (f - e)))"

text \<open>\<open>x % y\<close> on floats (the exact remainder with the sign of \<open>x\<close>) and \<open>f64::rem_euclid\<close>, which adds
  \<open>|y|\<close> when that remainder is negative.\<close>

fun f64_rem :: "f64 \<Rightarrow> f64 \<Rightarrow> f64" where
  "f64_rem NaN y = NaN"
| "f64_rem (Inf s) y = NaN"
| "f64_rem (Fin s m e) y = (case y of
      NaN \<Rightarrow> NaN
    | Inf t \<Rightarrow> Fin s m e
    | Fin t n f \<Rightarrow>
        if n = 0 then NaN
        else let e0 = min e f in
          round_dyadic s ((m * 2 ^ nat (e - e0)) mod (n * 2 ^ nat (f - e0))) e0)"

fun f64_abs :: "f64 \<Rightarrow> f64" where
  "f64_abs NaN = NaN"
| "f64_abs (Inf s) = Inf False"
| "f64_abs (Fin s m e) = Fin False m e"

fun f64_partial_cmp :: "f64 \<Rightarrow> f64 \<Rightarrow> ordering option" where
  "f64_partial_cmp NaN y = None"
| "f64_partial_cmp x NaN = None"
| "f64_partial_cmp (Inf s) (Inf t) = Some (if s = t then Equal else if s then Less else Greater)"
| "f64_partial_cmp (Inf s) (Fin _ _ _) = Some (if s then Less else Greater)"
| "f64_partial_cmp (Fin _ _ _) (Inf t) = Some (if t then Greater else Less)"
| "f64_partial_cmp (Fin s m e) (Fin t n f) =
     (let e0 = min e f in Some (cmp_int (align (signed s m) e e0) (align (signed t n) f e0)))"

definition f64_eq :: "f64 \<Rightarrow> f64 \<Rightarrow> bool" where
  "f64_eq x y = (f64_partial_cmp x y = Some Equal)"

definition f64_zero :: f64 where
  "f64_zero = Fin False 0 (-1074)"

definition f64_rem_euclid :: "f64 \<Rightarrow> f64 \<Rightarrow> f64" where
  "f64_rem_euclid x y =
     (let r = f64_rem x y in if f64_partial_cmp r f64_zero = Some Less then f64_add r (f64_abs y) else r)"

fun f64_is_finite :: "f64 \<Rightarrow> bool" where
  "f64_is_finite (Fin _ _ _) = True"
| "f64_is_finite _ = False"

text \<open>Truncation toward zero of a finite number (\<open>f.trunc()\<close>) as an integer, and the saturating
  cast \<open>f as i64\<close>.\<close>

fun f64_trunc_int :: "f64 \<Rightarrow> int" where
  "f64_trunc_int (Fin s m e) =
     (let a = (if e \<ge> 0 then int m * 2 ^ nat e else int (m div 2 ^ nat (- e))) in if s then - a else a)"
| "f64_trunc_int _ = 0"

definition i64_min :: int where "i64_min = - (2 ^ 63)"
definition i64_max :: int where "i64_max = 2 ^ 63 - 1"

fun f64_as_i64 :: "f64 \<Rightarrow> int" where
  "f64_as_i64 NaN = 0"
| "f64_as_i64 (Inf s) = (if s then i64_min else i64_max)"
| "f64_as_i64 (Fin s m e) = max i64_min (min i64_max (f64_trunc_int (Fin s m e)))"

text \<open>Whether a float has no fractional part (\<open>f.fract() == 0.0\<close>).\<close>

fun f64_is_integral :: "f64 \<Rightarrow> bool" where
  "f64_is_integral (Fin s m e) = (e \<ge> 0 \<or> m mod 2 ^ nat (- e) = 0)"
| "f64_is_integral _ = False"

subsection \<open>Rounding yields canonical numbers\<close>

lemma round_half_even_bounds:
  assumes "den > 0" and "num < k * den"
  shows "round_half_even num den \<le> k"
proof -
  have "num div den < k"
    using assms by (simp add: less_mult_imp_div_less)
  then show ?thesis by (simp add: round_half_even_def Let_def)
qed

lemma round_half_even_lower:
  assumes "den > 0" and "k * den \<le> num"
  shows "k \<le> round_half_even num den"
proof -
  have "k \<le> num div den"
    using assms by (simp add: less_eq_div_iff_mult_less_eq)
  then show ?thesis by (simp add: round_half_even_def Let_def)
qed

lemma scaled_den_pos [simp]: "q > 0 \<Longrightarrow> snd (scaled p q e) > 0"
  by (simp add: scaled_def)

text \<open>\<open>scaled\<close> compares \<open>p / q\<close> with \<open>c * 2^e\<close>.\<close>

lemma scaled_le_iff:
  assumes "q > 0"
  shows "c * snd (scaled p q e) \<le> fst (scaled p q e) \<longleftrightarrow>
         real c * 2 powi e \<le> real p / real q"
proof (cases "e \<ge> 0")
  case True
  then have "(2::real) powi e = 2 ^ nat e" by (simp add: power_int_def)
  moreover have "c * (q * 2 ^ nat e) \<le> p \<longleftrightarrow> real (c * (q * 2 ^ nat e)) \<le> real p"
    by (rule of_nat_le_iff [symmetric])
  ultimately show ?thesis using True assms
    by (simp add: scaled_def field_simps)
next
  case False
  define t :: real where "t = 2 ^ nat (- e)"
  have t: "t > 0" "(2::real) powi e = 1 / t"
    using False by (simp_all add: t_def power_int_def power_one_over)
  have "c * q \<le> p * 2 ^ nat (- e) \<longleftrightarrow> real (c * q) \<le> real (p * 2 ^ nat (- e))"
    by (rule of_nat_le_iff [symmetric])
  also have "\<dots> \<longleftrightarrow> real c * real q \<le> real p * t"
    by (simp add: t_def)
  also have "\<dots> \<longleftrightarrow> real c * (1 / t) \<le> real p / real q"
    using t(1) assms by (simp add: field_simps)
  finally show ?thesis using False t(2) by (simp add: scaled_def)
qed

lemma ulp_exp_bounds:
  assumes p: "p > 0" and q: "q > 0"
  shows "real p / real q < 2 ^ 53 * 2 powi ulp_exp p q"
    and "ulp_exp p q \<noteq> -1074 \<Longrightarrow> 2 ^ 52 * 2 powi ulp_exp p q \<le> real p / real q"
    and "ulp_exp p q \<ge> -1074"
proof -
  define k where "k = int (bit_len p) - int (bit_len q)"
  define lg where "lg = (if snd (scaled p q k) \<le> fst (scaled p q k) then k else k - 1)"
  have e: "ulp_exp p q = max (-1074) (lg - 52)"
    by (simp add: ulp_exp_def k_def lg_def Let_def split_beta)
  have blp: "bit_len p > 0" "bit_len q > 0"
    using p q by (subst bit_len.simps, simp)+
  have P: "2 ^ (bit_len p - 1) \<le> real p" "real p < 2 ^ bit_len p"
    using bit_len_bounds [OF p] by (metis of_nat_le_iff of_nat_less_iff of_nat_numeral of_nat_power)+
  have Q: "2 ^ (bit_len q - 1) \<le> real q" "real q < 2 ^ bit_len q"
    using bit_len_bounds [OF q] by (metis of_nat_le_iff of_nat_less_iff of_nat_numeral of_nat_power)+
  have pk: "(2::real) ^ bit_len p = 2 powi k * 2 ^ bit_len q"
    by (simp add: k_def power_int_diff)
  have two: "(2::real) ^ bit_len q = 2 * 2 ^ (bit_len q - 1)" "(2::real) ^ bit_len p = 2 * 2 ^ (bit_len p - 1)"
    using blp by (metis One_nat_def Suc_pred power_Suc)+
  have kpos: "(2::real) powi k > 0" by simp
  have upper: "real p / real q < 2 * 2 powi k"
  proof -
    have "real p < 2 powi k * (2 * 2 ^ (bit_len q - 1))" using P(2) pk two(1) by simp
    also have "\<dots> \<le> 2 powi k * (2 * real q)" using Q(1) by simp
    finally show ?thesis using q by (simp add: field_simps)
  qed
  have lower: "2 powi k / 2 \<le> real p / real q"
  proof -
    have "2 powi k * real q \<le> 2 powi k * 2 ^ bit_len q" using Q(2) by simp
    also have "\<dots> = 2 * 2 ^ (bit_len p - 1)" using pk two(2) by simp
    also have "\<dots> \<le> 2 * real p" using P(1) by simp
    finally show ?thesis using q by (simp add: field_simps)
  qed
  have ge: "snd (scaled p q k) \<le> fst (scaled p q k) \<longleftrightarrow> 2 powi k \<le> real p / real q"
    using scaled_le_iff [OF q, of 1 p k] by simp
  have lgU: "real p / real q < 2 powi (lg + 1)"
    using upper ge by (cases "snd (scaled p q k) \<le> fst (scaled p q k)") (simp_all add: lg_def power_int_add)
  have lgL: "2 powi lg \<le> real p / real q"
    using lower ge by (auto simp: lg_def power_int_diff)
  have "(2::real) powi (lg + 1) \<le> 2 powi (53 + ulp_exp p q)"
    by (rule power_int_increasing) (auto simp: e)
  also have "\<dots> = 2 ^ 53 * 2 powi ulp_exp p q"
    by (simp add: power_int_add)
  finally show "real p / real q < 2 ^ 53 * 2 powi ulp_exp p q" using lgU by linarith
  show "2 ^ 52 * 2 powi ulp_exp p q \<le> real p / real q" if "ulp_exp p q \<noteq> -1074"
  proof -
    from that have "ulp_exp p q = lg - 52" by (auto simp: e max_def split: if_splits)
    then have "2 ^ 52 * (2::real) powi ulp_exp p q = 2 powi lg"
      by (simp add: power_int_diff)
    with lgL show ?thesis by simp
  qed
  show "ulp_exp p q \<ge> -1074" by (simp add: e)
qed

lemma round_ratio_canonical [wf_intros]:
  assumes q: "q > 0"
  shows "f64_canonical (round_ratio s p q)"
proof (cases "p = 0")
  case False
  define e where "e = ulp_exp p q"
  define a b where "a = fst (scaled p q e)" and "b = snd (scaled p q e)"
  define m where "m = round_half_even a b"
  have b: "b > 0" using q by (simp add: b_def)
  from False have p: "p > 0" by simp
  note B = ulp_exp_bounds [OF p q, folded e_def]
  have "a < 2 ^ 53 * b"
  proof (rule ccontr)
    assume "\<not> a < 2 ^ 53 * b"
    then have "real (2 ^ 53) * 2 powi e \<le> real p / real q"
      using scaled_le_iff [OF q, of "2 ^ 53" p e] by (simp add: a_def b_def)
    with B(1) show False by simp
  qed
  then have mU: "m \<le> 2 ^ 53"
    using round_half_even_bounds [OF b] by (simp add: m_def)
  have mL: "2 ^ 52 \<le> m" if "e \<noteq> -1074"
  proof -
    from B(2) [OF that] have "2 ^ 52 * b \<le> a"
      using scaled_le_iff [OF q, of "2 ^ 52" p e] by (simp add: a_def b_def)
    then show ?thesis using round_half_even_lower [OF b] by (simp add: m_def)
  qed
  have "round_ratio s p q =
      (let (m', e') = (if m = 2 ^ 53 then (2 ^ 52, e + 1) else (m, e))
       in if e' > 971 then Inf s else Fin s m' e')"
    using p by (simp add: round_ratio_def Let_def split_beta m_def e_def a_def b_def)
  then show ?thesis
    using mU mL B(3) by (cases "e = -1074") (auto simp: f64_canonical_def Let_def)
qed (simp add: round_ratio_def f64_canonical_def)

lemma round_dyadic_canonical [wf_intros]: "f64_canonical (round_dyadic s n e)"
  by (simp add: round_dyadic_def round_ratio_canonical)

lemma f64_neg_canonical [wf_intros]: "f64_canonical x \<Longrightarrow> f64_canonical (f64_neg x)"
  by (cases x) (auto simp: f64_canonical_def)

lemma f64_of_int_canonical [wf_intros]: "f64_canonical (f64_of_int i)"
  by (simp add: f64_of_int_def round_ratio_canonical)

lemma canonical_simps [simp]: "f64_canonical NaN" "f64_canonical (Inf s)" "f64_canonical (Fin s 0 (-1074))"
  by (simp_all add: f64_canonical_def)

lemma f64_add_canonical [wf_intros]: "f64_canonical x \<Longrightarrow> f64_canonical y \<Longrightarrow> f64_canonical (f64_add x y)"
  by (cases x; cases y) (auto simp: Let_def round_dyadic_canonical)

lemma f64_sub_canonical [wf_intros]: "f64_canonical x \<Longrightarrow> f64_canonical y \<Longrightarrow> f64_canonical (f64_sub x y)"
  by (simp add: f64_sub_def f64_add_canonical f64_neg_canonical)

lemma f64_mul_canonical [wf_intros]: "f64_canonical (f64_mul x y)"
  by (cases x; cases y) (auto simp: Let_def round_dyadic_canonical)

lemma f64_div_canonical [wf_intros]: "f64_canonical (f64_div x y)"
  by (cases x; cases y) (auto simp: Let_def round_ratio_canonical)

lemma f64_rem_canonical [wf_intros]: "f64_canonical x \<Longrightarrow> f64_canonical (f64_rem x y)"
  by (cases x; cases y) (auto simp: Let_def round_dyadic_canonical)

lemma f64_abs_canonical [wf_intros]: "f64_canonical x \<Longrightarrow> f64_canonical (f64_abs x)"
  by (cases x) (auto simp: f64_canonical_def)

lemma f64_rem_euclid_canonical [wf_intros]:
  "f64_canonical x \<Longrightarrow> f64_canonical y \<Longrightarrow> f64_canonical (f64_rem_euclid x y)"
  by (simp add: f64_rem_euclid_def Let_def f64_add_canonical f64_rem_canonical f64_abs_canonical)

lemma f64_as_i64_range: "i64_min \<le> f64_as_i64 x \<and> f64_as_i64 x \<le> i64_max"
  by (cases x) (auto simp: i64_min_def i64_max_def)

lemma f64_eq_refl_iff: "f64_eq x x \<longleftrightarrow> x \<noteq> NaN"
  by (cases x) (auto simp: f64_eq_def cmp_int_def Let_def)

lemma f64_eq_sym: "f64_eq x y = f64_eq y x"
  by (cases x; cases y) (auto simp: f64_eq_def cmp_int_def Let_def min.commute split: if_splits)

end
