(* ===== verification/IRTypes.thy ===== *)
theory IRTypes
  imports Newtypes F64
begin

text \<open>The intermediate representation of \<open>src/crates/core/src/ir/\<close>: values, expressions, diagnostics,
  and the records of the workspace model.  A record field is the Rust field with a prefix for its
  struct.  \<open>value_eq\<close> is the derived \<open>PartialEq\<close> of \<open>Value\<close>, which is not reflexive because of NaN;
  \<open>value_wf\<close> is the invariant of the Rust representation (\<open>i64\<close> range, canonical floats).\<close>

section \<open>Values (\<open>ir/value.rs\<close>)\<close>

datatype hval =
    VNull
  | VBool bool
  | VInt int
  | VNumber f64
  | VStr str
  | VList "hval list"
  | VMap "(str \<times> hval) list"

type_synonym "value" = hval

type_synonym vmap = "(str \<times> value) list"

fun value_as_str :: "value \<Rightarrow> str option" where
  "value_as_str (VStr s) = Some s"
| "value_as_str _ = None"

fun value_as_bool :: "value \<Rightarrow> bool option" where
  "value_as_bool (VBool b) = Some b"
| "value_as_bool _ = None"

fun value_as_int :: "value \<Rightarrow> int option" where
  "value_as_int (VInt i) = Some i"
| "value_as_int _ = None"

fun value_is_null :: "value \<Rightarrow> bool" where
  "value_is_null VNull = True"
| "value_is_null _ = False"

fun value_eq :: "value \<Rightarrow> value \<Rightarrow> bool"
and values_eq :: "value list \<Rightarrow> value list \<Rightarrow> bool"
and entries_eq :: "(str \<times> value) list \<Rightarrow> (str \<times> value) list \<Rightarrow> bool" where
  "value_eq VNull b = (b = VNull)"
| "value_eq (VBool x) b = (b = VBool x)"
| "value_eq (VInt x) b = (b = VInt x)"
| "value_eq (VNumber x) b = (case b of VNumber y \<Rightarrow> f64_eq x y | _ \<Rightarrow> False)"
| "value_eq (VStr x) b = (b = VStr x)"
| "value_eq (VList xs) b = (case b of VList ys \<Rightarrow> values_eq xs ys | _ \<Rightarrow> False)"
| "value_eq (VMap xs) b = (case b of VMap ys \<Rightarrow> entries_eq xs ys | _ \<Rightarrow> False)"
| "values_eq [] ys = (ys = [])"
| "values_eq (x # xs) ys = (case ys of [] \<Rightarrow> False | y # ys' \<Rightarrow> value_eq x y \<and> values_eq xs ys')"
| "entries_eq [] ys = (ys = [])"
| "entries_eq ((k, x) # xs) ys =
     (case ys of [] \<Rightarrow> False | (l, y) # ys' \<Rightarrow> k = l \<and> value_eq x y \<and> entries_eq xs ys')"

definition in_i64 :: "int \<Rightarrow> bool" where
  "in_i64 i = (i64_min \<le> i \<and> i \<le> i64_max)"

fun value_wf :: "value \<Rightarrow> bool" where
  "value_wf (VInt i) = in_i64 i"
| "value_wf (VNumber f) = f64_canonical f"
| "value_wf (VList vs) = list_all value_wf vs"
| "value_wf (VMap es) = list_all (\<lambda>e. value_wf (snd e)) es"
| "value_wf _ = True"

text \<open>No NaN anywhere: where \<open>==\<close> is reflexive.\<close>

fun nan_free :: "value \<Rightarrow> bool" where
  "nan_free (VNumber f) = (f \<noteq> NaN)"
| "nan_free (VList vs) = list_all nan_free vs"
| "nan_free (VMap es) = list_all (\<lambda>e. nan_free (snd e)) es"
| "nan_free _ = True"

section \<open>Expressions (\<open>ir/expression.rs\<close>)\<close>

datatype binary_op = Add | Sub | Mul | Div | Mod | Eq | Ne | Lt | Le | Gt | Ge | And | Or
datatype unary_op = Neg | Not

datatype symbol_kind =
    KVar | KLocal | KResource | KData | KModule | KPath | KIteration | KTerraform
  | KTerragruntDependency | KOther

record symbolic =
  sym_kind :: symbol_kind
  sym_source :: str
  sym_address_hint :: "address option"
  sym_span :: span

text \<open>\<open>Expression\<close>.  The boxed structs \<open>FuncCall { name, args, span }\<close>,
  \<open>Conditional { cond, then_branch, else_branch, span }\<close> and
  \<open>ForExpr { binders, collection, key, value, cond, object_form, span }\<close> are the arguments of their
  constructors, in the order of their fields.\<close>

datatype expr =
    Literal "value"
  | Unresolved symbolic
  | EBinary binary_op expr expr span
  | EUnary unary_op expr span
  | ETemplate "expr list"
  | EArray "expr list"
  | EObject "(expr \<times> expr) list"
  | EFuncCall str "expr list" span
  | EConditional expr expr expr span
  | EFor "str list" expr "expr option" expr "expr option" bool span

type_synonym attribute_map = "(str \<times> expr) list"

fun as_literal :: "expr \<Rightarrow> value option" where
  "as_literal (Literal v) = Some v"
| "as_literal _ = None"

fun is_fully_resolved :: "expr \<Rightarrow> bool" where
  "is_fully_resolved (Literal v) = True"
| "is_fully_resolved (Unresolved s) = False"
| "is_fully_resolved (EBinary op l r sp) = (is_fully_resolved l \<and> is_fully_resolved r)"
| "is_fully_resolved (EUnary op x sp) = is_fully_resolved x"
| "is_fully_resolved (ETemplate ps) = list_all is_fully_resolved ps"
| "is_fully_resolved (EArray ps) = list_all is_fully_resolved ps"
| "is_fully_resolved (EObject es) =
     list_all (\<lambda>(k, v). is_fully_resolved k \<and> is_fully_resolved v) es"
| "is_fully_resolved (EFuncCall n args sp) = list_all is_fully_resolved args"
| "is_fully_resolved (EConditional c t e sp) =
     (is_fully_resolved c \<and> is_fully_resolved t \<and> is_fully_resolved e)"
| "is_fully_resolved (EFor bs coll k v c obj sp) =
     (is_fully_resolved coll \<and> is_fully_resolved v
      \<and> (case k of None \<Rightarrow> True | Some k' \<Rightarrow> is_fully_resolved k')
      \<and> (case c of None \<Rightarrow> True | Some c' \<Rightarrow> is_fully_resolved c'))"

text \<open>The derived \<open>PartialEq\<close> of \<open>Expression\<close>.\<close>

fun expr_eq :: "expr \<Rightarrow> expr \<Rightarrow> bool" where
  "expr_eq (Literal v) b = (case b of Literal w \<Rightarrow> value_eq v w | _ \<Rightarrow> False)"
| "expr_eq (Unresolved s) b = (b = Unresolved s)"
| "expr_eq (EBinary op l r sp) b = (case b of
     EBinary op' l' r' sp' \<Rightarrow> op = op' \<and> expr_eq l l' \<and> expr_eq r r' \<and> sp = sp' | _ \<Rightarrow> False)"
| "expr_eq (EUnary op x sp) b = (case b of
     EUnary op' x' sp' \<Rightarrow> op = op' \<and> expr_eq x x' \<and> sp = sp' | _ \<Rightarrow> False)"
| "expr_eq (ETemplate ps) b = (case b of ETemplate qs \<Rightarrow> list_all2 expr_eq ps qs | _ \<Rightarrow> False)"
| "expr_eq (EArray ps) b = (case b of EArray qs \<Rightarrow> list_all2 expr_eq ps qs | _ \<Rightarrow> False)"
| "expr_eq (EObject es) b = (case b of EObject fs \<Rightarrow> list_all2 (\<lambda>(k, v) (k', v'). expr_eq k k' \<and> expr_eq v v') es fs | _ \<Rightarrow> False)"
| "expr_eq (EFuncCall n args sp) b = (case b of
     EFuncCall n' args' sp' \<Rightarrow> n = n' \<and> list_all2 expr_eq args args' \<and> sp = sp' | _ \<Rightarrow> False)"
| "expr_eq (EConditional c t e sp) b = (case b of
     EConditional c' t' e' sp' \<Rightarrow> expr_eq c c' \<and> expr_eq t t' \<and> expr_eq e e' \<and> sp = sp' | _ \<Rightarrow> False)"
| "expr_eq (EFor bs coll k v c obj sp) b = (case b of
     EFor bs' coll' k' v' c' obj' sp' \<Rightarrow>
       bs = bs' \<and> expr_eq coll coll' \<and> rel_option expr_eq k k' \<and> expr_eq v v' \<and> rel_option expr_eq c c'
       \<and> obj = obj' \<and> sp = sp'
   | _ \<Rightarrow> False)"

text \<open>The symbols of an expression tree, in traversal order.\<close>

fun symbols_of :: "expr \<Rightarrow> symbolic list" where
  "symbols_of (Literal v) = []"
| "symbols_of (Unresolved s) = [s]"
| "symbols_of (EBinary op l r sp) = symbols_of l @ symbols_of r"
| "symbols_of (EUnary op x sp) = symbols_of x"
| "symbols_of (ETemplate ps) = concat (map symbols_of ps)"
| "symbols_of (EArray ps) = concat (map symbols_of ps)"
| "symbols_of (EObject es) = concat (map (\<lambda>(k, v). symbols_of k @ symbols_of v) es)"
| "symbols_of (EFuncCall n args sp) = concat (map symbols_of args)"
| "symbols_of (EConditional c t e sp) = symbols_of c @ symbols_of t @ symbols_of e"
| "symbols_of (EFor bs coll k v c obj sp) =
     symbols_of coll @ (case k of None \<Rightarrow> [] | Some k' \<Rightarrow> symbols_of k')
     @ symbols_of v @ (case c of None \<Rightarrow> [] | Some c' \<Rightarrow> symbols_of c')"

section \<open>Diagnostics (\<open>diagnostic.rs\<close>)\<close>

datatype severity = SevTrace | SevInfo | SevWarn | SevError

datatype limit_kind =
    LkFileSize | LkTotalFiles | LkWalkDepth | LkBlocksPerFile | LkAttributeDepth | LkTemplateParts
  | LkIncludeDepth | LkEvalIterations | LkFuncArgs | LkListLength | LkStringSize | LkExpansion
  | LkConfigFileSize

record diagnostic =
  diag_severity :: severity
  diag_code :: str
  diag_message :: str
  diag_span :: "span option"
  diag_suggestion :: "str option"
  diag_limit_kind :: "limit_kind option"

definition diagnostic_new :: "severity \<Rightarrow> str \<Rightarrow> str \<Rightarrow> diagnostic" where
  "diagnostic_new sev code message =
     \<lparr>diag_severity = sev, diag_code = code, diag_message = message, diag_span = None,
      diag_suggestion = None, diag_limit_kind = None\<rparr>"

definition diagnostic_limit :: "limit_kind \<Rightarrow> str \<Rightarrow> str \<Rightarrow> diagnostic" where
  "diagnostic_limit kind code message =
     \<lparr>diag_severity = SevWarn, diag_code = code, diag_message = message, diag_span = None,
      diag_suggestion = None, diag_limit_kind = Some kind\<rparr>"

definition with_span :: "diagnostic \<Rightarrow> span \<Rightarrow> diagnostic" where
  "with_span d sp = d\<lparr>diag_span := Some sp\<rparr>"

definition with_suggestion :: "diagnostic \<Rightarrow> str \<Rightarrow> diagnostic" where
  "with_suggestion d s = d\<lparr>diag_suggestion := Some s\<rparr>"

section \<open>The workspace model\<close>

record provider_ref =
  pref_local_name :: str
  pref_alias :: "str option"
  pref_span :: span

record assume_role =
  role_arn_expr :: expr
  role_span :: span

record provider_block =
  prov_local_name :: str
  prov_alias :: "str option"
  prov_source_addr :: "str option"
  prov_region_expr :: "expr option"
  prov_profile_expr :: "expr option"
  prov_assume_role :: "assume_role option"
  prov_raw :: attribute_map
  prov_span :: span

datatype resource_kind = Managed | DataSource

record resource =
  res_address :: address
  res_kind :: resource_kind
  res_type :: str
  res_name :: str
  res_provider_ref :: "provider_ref option"
  res_count_expr :: "expr option"
  res_for_each_expr :: "expr option"
  res_depends_on :: "address list"
  res_attributes :: attribute_map
  res_account_id :: "account_id option"
  res_account_name :: "str option"
  res_region :: "region option"
  res_span :: span

record module_call =
  mc_address :: address
  mc_source_raw :: str
  mc_source :: module_source
  mc_resolved :: "nat option"
  mc_providers :: "(str \<times> provider_ref) list"
  mc_inputs :: attribute_map
  mc_count_expr :: "expr option"
  mc_for_each_expr :: "expr option"
  mc_span :: span

record variable =
  var_name :: str
  var_description :: "str option"
  var_type_expr :: "expr option"
  var_default :: "expr option"
  var_sensitive :: bool
  var_span :: span

record local_def =
  loc_name :: str
  loc_value :: expr
  loc_span :: span

record output_def =
  out_name :: str
  out_value :: expr
  out_description :: "str option"
  out_sensitive :: bool
  out_span :: span

record source_file =
  sf_path :: path
  sf_ext :: file_ext
  sf_size :: nat

record include_path =
  inc_path :: path
  inc_label :: "str option"
  inc_span :: span

record generate_block =
  gen_label :: str
  gen_path :: path
  gen_if_exists :: str
  gen_contents :: str
  gen_span :: span

record dependency_block =
  dep_name :: str
  dep_config_path :: path
  dep_mock_outputs :: attribute_map
  dep_span :: span

record state_backend =
  sb_kind :: str
  sb_attributes :: attribute_map
  sb_state_account_id :: "account_id option"
  sb_state_region :: "region option"
  sb_span :: span

record terragrunt_config =
  tgc_component_dir :: path
  tgc_effective_locals :: vmap
  tgc_inputs :: vmap
  tgc_includes :: "include_path list"
  tgc_generates :: "generate_block list"
  tgc_dependencies :: "dependency_block list"
  tgc_state_backend :: "state_backend option"
  tgc_diagnostics :: "diagnostic list"

datatype component_kind = CkComponent | CkModule

record component =
  comp_id :: nat
  comp_path :: path
  comp_kind :: component_kind
  comp_files :: "source_file list"
  comp_variables :: "variable list"
  comp_locals :: "local_def list"
  comp_providers :: "provider_block list"
  comp_resources :: "resource list"
  comp_modules :: "module_call list"
  comp_outputs :: "output_def list"
  comp_terragrunt :: "terragrunt_config option"
  comp_state_backend :: "state_backend option"

record module =
  mod_id :: nat
  mod_source :: module_source
  mod_canonical_path :: "path option"
  mod_component :: component

datatype edge_kind = ExplicitDependsOn | AttrRef | ModuleInput | TerragruntDependency

fun edge_kind_str :: "edge_kind \<Rightarrow> str" where
  "edge_kind_str ExplicitDependsOn = ''explicit_depends_on''"
| "edge_kind_str AttrRef = ''attr_ref''"
| "edge_kind_str ModuleInput = ''module_input''"
| "edge_kind_str TerragruntDependency = ''terragrunt_dependency''"

record edge =
  edge_from :: address
  edge_to :: address
  edge_kind :: edge_kind
  edge_attr :: "str option"
  edge_span :: span

record environment =
  env_name :: str
  env_aws_account_id :: "account_id option"
  env_aws_region :: "region option"
  env_aws_profile :: "str option"
  env_source_file :: path
  env_locals :: vmap

record workspace =
  ws_root :: path
  ws_components :: "component list"
  ws_modules :: "module list"
  ws_environments :: "environment list"
  ws_diagnostics :: "diagnostic list"
  ws_edges :: "edge list"

section \<open>Laws\<close>

lemma is_fully_resolved_iff: "is_fully_resolved e \<longleftrightarrow> symbols_of e = []"
  by (induction e rule: is_fully_resolved.induct) (auto simp: list_all_iff split: option.splits)

lemma values_eq_list_all2: "values_eq xs ys = list_all2 value_eq xs ys"
  by (induction xs arbitrary: ys) (auto split: list.splits)

lemma entries_eq_list_all2:
  "entries_eq xs ys = list_all2 (\<lambda>a b. fst a = fst b \<and> value_eq (snd a) (snd b)) xs ys"
  by (induction xs arbitrary: ys) (auto split: list.splits)

lemma value_eq_refl: "nan_free v \<Longrightarrow> value_eq v v"
proof (induction v rule: nan_free.induct)
  case (2 vs)
  then show ?case
    by (auto simp: values_eq_list_all2 list_all_iff intro!: list.rel_refl_strong)
next
  case (3 es)
  then show ?case
    by (fastforce simp: entries_eq_list_all2 list_all_iff intro!: list.rel_refl_strong)
qed (auto simp: f64_eq_refl_iff)

end
