(* ===== verification/EvalContext.thy ===== *)
theory EvalContext
  imports IRTypes
begin

text \<open>The evaluator's context (\<open>eval/context.rs\<close>), the function registry (\<open>eval/registry.rs\<close>) and the
  binding scope of the reducer (\<open>Scope\<close> of \<open>eval/reduce.rs\<close>).

  A registered \<open>HclFunc\<close> is a function of its arguments and the call context.  The float formatter
  \<open>ryu\<close> is a crate the program links, so it is a field of the scope.\<close>

datatype env_var_mode = Passthrough | Strict "str list" | Mock

definition env_var_mode_default :: env_var_mode where
  "env_var_mode_default = Strict []"

fun env_allows :: "env_var_mode \<Rightarrow> str \<Rightarrow> bool" where
  "env_allows Passthrough name = True"
| "env_allows (Strict allowed) name = list_ex (\<lambda>s. s = name) allowed"
| "env_allows Mock name = False"

fun env_is_mock :: "env_var_mode \<Rightarrow> bool" where
  "env_is_mock Mock = True"
| "env_is_mock _ = False"

record eval_limits =
  max_func_args :: nat
  max_str_size :: nat
  max_list_len :: nat
  max_iterations :: nat
  max_file_bytes :: nat

definition eval_limits_default :: eval_limits where
  "eval_limits_default =
     \<lparr>max_func_args = 64, max_str_size = 1048576, max_list_len = 100000, max_iterations = 1000000,
      max_file_bytes = 4194304\<rparr>"

datatype func_error =
    FArity str nat nat
  | FType str nat str str
  | FLimit str limit_kind nat nat
  | FPathEscape str path
  | FOther str str

record call_cx =
  cx_workspace_root :: path
  cx_env_vars :: env_var_mode
  cx_limits :: eval_limits

type_synonym hcl_func = "value list \<Rightarrow> call_cx \<Rightarrow> func_error + value"

text \<open>\<open>FuncRegistry\<close> is a \<open>HashMap\<close> from names to functions; the builder's \<open>register\<close> overwrites.\<close>

type_synonym func_registry = "str \<Rightarrow> hcl_func option"

definition registry_empty :: func_registry where
  "registry_empty = (\<lambda>_. None)"

definition registry_register :: "func_registry \<Rightarrow> str \<Rightarrow> hcl_func \<Rightarrow> func_registry" where
  "registry_register reg name f = reg(name \<mapsto> f)"

definition registry_unregister :: "func_registry \<Rightarrow> str \<Rightarrow> func_registry" where
  "registry_unregister reg name = reg(name := None)"

record eval_context =
  ec_workspace_root :: path
  ec_environment :: "str option"
  ec_env_vars :: env_var_mode
  ec_repo_vars :: vmap
  ec_cascade_locals :: vmap
  ec_funcs :: func_registry
  ec_limits :: eval_limits

definition eval_context_minimal :: "path \<Rightarrow> validation_error + eval_context" where
  "eval_context_minimal wroot =
     (if wroot = [] then Err (EmptyField ''EvalContext.workspace_root'')
      else Ok \<lparr>ec_workspace_root = wroot, ec_environment = None, ec_env_vars = env_var_mode_default,
               ec_repo_vars = [], ec_cascade_locals = [], ec_funcs = registry_empty,
               ec_limits = eval_limits_default\<rparr>)"

definition lookup_repo_var :: "eval_context \<Rightarrow> str \<Rightarrow> value option" where
  "lookup_repo_var cx name = map_of (ec_repo_vars cx) name"

definition lookup_cascade_local :: "eval_context \<Rightarrow> str \<Rightarrow> value option" where
  "lookup_cascade_local cx name = map_of (ec_cascade_locals cx) name"

record scope =
  sc_vars :: vmap
  sc_locals :: vmap
  sc_binders :: vmap
  sc_workspace_root :: path
  sc_env_vars :: env_var_mode
  sc_limits :: eval_limits
  sc_funcs :: func_registry
  sc_terraform_workspace :: "str option"
  sc_ryu :: "f64 \<Rightarrow> str"

definition lookup_var :: "scope \<Rightarrow> str \<Rightarrow> value option" where
  "lookup_var sc name = map_of (sc_vars sc) name"

definition lookup_local :: "scope \<Rightarrow> str \<Rightarrow> value option" where
  "lookup_local sc name = map_of (sc_locals sc) name"

definition lookup_binder :: "scope \<Rightarrow> str \<Rightarrow> value option" where
  "lookup_binder sc name = map_of (sc_binders sc) name"

definition scope_cx :: "scope \<Rightarrow> call_cx" where
  "scope_cx sc = \<lparr>cx_workspace_root = sc_workspace_root sc, cx_env_vars = sc_env_vars sc,
                   cx_limits = sc_limits sc\<rparr>"

text \<open>\<open>sc'\<close> binds at least what \<open>sc\<close> binds, in the same setting.\<close>

definition scope_le :: "scope \<Rightarrow> scope \<Rightarrow> bool" where
  "scope_le sc sc' \<longleftrightarrow>
     map_of (sc_vars sc) \<subseteq>\<^sub>m map_of (sc_vars sc') \<and> map_of (sc_locals sc) \<subseteq>\<^sub>m map_of (sc_locals sc')
     \<and> (\<forall>w. sc_terraform_workspace sc = Some w \<longrightarrow> sc_terraform_workspace sc' = Some w)
     \<and> sc_binders sc = sc_binders sc' \<and> sc_workspace_root sc = sc_workspace_root sc'
     \<and> sc_env_vars sc = sc_env_vars sc' \<and> sc_limits sc = sc_limits sc' \<and> sc_funcs sc = sc_funcs sc'
     \<and> sc_ryu sc = sc_ryu sc'"

lemma scope_le_refl [simp]: "scope_le sc sc"
  by (simp add: scope_le_def)

lemma scope_leD:
  assumes "scope_le sc sc'"
  shows "lookup_var sc n = Some v \<Longrightarrow> lookup_var sc' n = Some v"
    and "lookup_local sc n = Some v \<Longrightarrow> lookup_local sc' n = Some v"
    and "lookup_binder sc' n = lookup_binder sc n"
    and "sc_terraform_workspace sc = Some w \<Longrightarrow> sc_terraform_workspace sc' = Some w"
    and "scope_cx sc' = scope_cx sc" and "sc_funcs sc' = sc_funcs sc" and "sc_ryu sc' = sc_ryu sc"
    and "sc_limits sc' = sc_limits sc" and "sc_binders sc' = sc_binders sc"
  using assms
  by (auto simp: scope_le_def lookup_var_def lookup_local_def lookup_binder_def scope_cx_def map_le_def dom_def)

lemma registry_get_register [simp]:
  "registry_register reg n f m = (if m = n then Some f else reg m)"
  by (simp add: registry_register_def)

end
