(* ===== verification/Reduce.thy ===== *)
theory Reduce
  imports EvalContext
begin

text \<open>The expression reducer (\<open>eval/reduce.rs\<close>).

  A result \<open>None\<close> of \<open>reduce\<close> and of the operations below it is a panic of the Rust program: the one
  operation that can panic is \<open>i64::rem_euclid\<close> on \<open>i64::MIN\<close> and \<open>-1\<close>.  An operation of the source
  that returns \<open>Option<Value>\<close> and can also panic has the type \<open>value option option\<close>.\<close>

section \<open>Machine integers\<close>

definition checked :: "int \<Rightarrow> int option" where
  "checked i = (if in_i64 i then Some i else None)"

definition i64_checked_add :: "int \<Rightarrow> int \<Rightarrow> int option" where
  "i64_checked_add a b = checked (a + b)"

definition i64_checked_sub :: "int \<Rightarrow> int \<Rightarrow> int option" where
  "i64_checked_sub a b = checked (a - b)"

definition i64_checked_mul :: "int \<Rightarrow> int \<Rightarrow> int option" where
  "i64_checked_mul a b = checked (a * b)"

text \<open>Division of machine integers truncates toward zero.\<close>

definition trunc_div :: "int \<Rightarrow> int \<Rightarrow> int" where
  "trunc_div a b = (if (a < 0) = (b < 0) then \<bar>a\<bar> div \<bar>b\<bar> else - (\<bar>a\<bar> div \<bar>b\<bar>))"

definition i64_checked_div :: "int \<Rightarrow> int \<Rightarrow> int option" where
  "i64_checked_div a b = (if b = 0 then None else checked (trunc_div a b))"

definition i64_checked_neg :: "int \<Rightarrow> int option" where
  "i64_checked_neg a = checked (- a)"

text \<open>\<open>a.rem_euclid(b)\<close> panics when \<open>b = 0\<close> and when \<open>a / b\<close> overflows, in every build profile.\<close>

definition i64_rem_euclid :: "int \<Rightarrow> int \<Rightarrow> int option" where
  "i64_rem_euclid a b = (if b = 0 \<or> (a = i64_min \<and> b = -1) then None else Some (a mod \<bar>b\<bar>))"

section \<open>Operators\<close>

fun to_f64 :: "value \<Rightarrow> f64 option" where
  "to_f64 (VInt n) = Some (f64_of_int n)"
| "to_f64 (VNumber f) = Some f"
| "to_f64 _ = None"

definition cmp_str :: "str \<Rightarrow> str \<Rightarrow> ordering" where
  "cmp_str a b = (if a < b then Less else if a = b then Equal else Greater)"

fun values_equal :: "value \<Rightarrow> value \<Rightarrow> bool" where
  "values_equal (VInt x) (VNumber y) = f64_eq y (f64_of_int x)"
| "values_equal (VNumber y) (VInt x) = f64_eq y (f64_of_int x)"
| "values_equal a b = value_eq a b"

fun cmp_values :: "value \<Rightarrow> value \<Rightarrow> ordering option" where
  "cmp_values (VInt x) (VInt y) = Some (cmp_int x y)"
| "cmp_values (VStr x) (VStr y) = Some (cmp_str x y)"
| "cmp_values (VNumber x) (VNumber y) = f64_partial_cmp x y"
| "cmp_values (VInt x) (VNumber y) = f64_partial_cmp (f64_of_int x) y"
| "cmp_values (VNumber x) (VInt y) = f64_partial_cmp x (f64_of_int y)"
| "cmp_values _ _ = None"

definition float_op :: "(f64 \<Rightarrow> f64 \<Rightarrow> f64) \<Rightarrow> value \<Rightarrow> value \<Rightarrow> value option" where
  "float_op f lhs rhs =
     (case to_f64 lhs of None \<Rightarrow> None
      | Some a \<Rightarrow> (case to_f64 rhs of None \<Rightarrow> None | Some b \<Rightarrow> Some (VNumber (f a b))))"

fun arith_op :: "(f64 \<Rightarrow> f64 \<Rightarrow> f64) \<Rightarrow> (int \<Rightarrow> int \<Rightarrow> int option) \<Rightarrow> value \<Rightarrow> value \<Rightarrow> value option" where
  "arith_op op_f op_i (VInt a) (VInt b) = map_option VInt (op_i a b)"
| "arith_op op_f op_i lhs rhs = float_op op_f lhs rhs"

fun add_values :: "value \<Rightarrow> value \<Rightarrow> value option" where
  "add_values (VInt a) (VInt b) = map_option VInt (i64_checked_add a b)"
| "add_values (VStr a) (VStr b) = Some (VStr (a @ b))"
| "add_values lhs rhs = float_op f64_add lhs rhs"

definition float_div :: "value \<Rightarrow> value \<Rightarrow> value option" where
  "float_div lhs rhs =
     (case to_f64 lhs of None \<Rightarrow> None
      | Some a \<Rightarrow> (case to_f64 rhs of None \<Rightarrow> None
         | Some b \<Rightarrow> if f64_eq b f64_zero then None else Some (VNumber (f64_div a b))))"

fun div_values :: "value \<Rightarrow> value \<Rightarrow> value option" where
  "div_values (VInt a) (VInt b) =
     (if b = 0 then None
      else case i64_checked_div a b of Some v \<Rightarrow> Some (VInt v) | None \<Rightarrow> float_div (VInt a) (VInt b))"
| "div_values lhs rhs = float_div lhs rhs"

fun mod_values :: "value \<Rightarrow> value \<Rightarrow> value option option" where
  "mod_values (VInt a) (VInt b) =
     (if b = 0 then Some None else map_option (\<lambda>r. Some (VInt r)) (i64_rem_euclid a b))"
| "mod_values lhs rhs = Some (float_op f64_rem_euclid lhs rhs)"

fun bool_op :: "(bool \<Rightarrow> bool \<Rightarrow> bool) \<Rightarrow> value \<Rightarrow> value \<Rightarrow> value option" where
  "bool_op f (VBool a) (VBool b) = Some (VBool (f a b))"
| "bool_op f _ _ = None"

fun eval_binary :: "binary_op \<Rightarrow> value \<Rightarrow> value \<Rightarrow> value option option" where
  "eval_binary Add lhs rhs = Some (add_values lhs rhs)"
| "eval_binary Sub lhs rhs = Some (arith_op f64_sub i64_checked_sub lhs rhs)"
| "eval_binary Mul lhs rhs = Some (arith_op f64_mul i64_checked_mul lhs rhs)"
| "eval_binary Div lhs rhs = Some (div_values lhs rhs)"
| "eval_binary Mod lhs rhs = mod_values lhs rhs"
| "eval_binary Eq lhs rhs = Some (Some (VBool (values_equal lhs rhs)))"
| "eval_binary Ne lhs rhs = Some (Some (VBool (\<not> values_equal lhs rhs)))"
| "eval_binary Lt lhs rhs = Some (map_option (\<lambda>c. VBool (c = Less)) (cmp_values lhs rhs))"
| "eval_binary Le lhs rhs = Some (map_option (\<lambda>c. VBool (c \<noteq> Greater)) (cmp_values lhs rhs))"
| "eval_binary Gt lhs rhs = Some (map_option (\<lambda>c. VBool (c = Greater)) (cmp_values lhs rhs))"
| "eval_binary Ge lhs rhs = Some (map_option (\<lambda>c. VBool (c \<noteq> Less)) (cmp_values lhs rhs))"
| "eval_binary And lhs rhs = Some (bool_op (\<and>) lhs rhs)"
| "eval_binary Or lhs rhs = Some (bool_op (\<or>) lhs rhs)"

fun eval_unary :: "unary_op \<Rightarrow> value \<Rightarrow> value option" where
  "eval_unary Neg (VInt n) = map_option VInt (i64_checked_neg n)"
| "eval_unary Neg (VNumber f) = Some (VNumber (f64_neg f))"
| "eval_unary Not (VBool b) = Some (VBool (\<not> b))"
| "eval_unary _ _ = None"

definition bool_str :: "bool \<Rightarrow> str" where
  "bool_str b = (if b then ''true'' else ''false'')"

fun render_value_as_str :: "(f64 \<Rightarrow> str) \<Rightarrow> value \<Rightarrow> str" where
  "render_value_as_str ryu (VStr s) = s"
| "render_value_as_str ryu (VBool b) = bool_str b"
| "render_value_as_str ryu (VInt n) = int_str n"
| "render_value_as_str ryu (VNumber f) = ryu f"
| "render_value_as_str ryu VNull = []"
| "render_value_as_str ryu (VList items) =
     ''['' @ join_str '', '' (map (render_value_as_str ryu) items) @ '']''"
| "render_value_as_str ryu (VMap entries) =
     ''{ '' @ join_str '', '' (map (\<lambda>(k, v). k @ '' = '' @ render_value_as_str ryu v) entries) @ '' }''"

section \<open>Attribute paths\<close>

definition split_head :: "str \<Rightarrow> str \<times> str" where
  "split_head s = (case split_once_char (CHR ''.'') s of None \<Rightarrow> (s, []) | Some (a, b) \<Rightarrow> (a, b))"

lemma split_head_shorter: "s \<noteq> [] \<Longrightarrow> split_head s = (h, t) \<Longrightarrow> length t < length s"
  by (auto simp: split_head_def split_once_char_Some split: option.splits prod.splits)

function descend_attributes :: "value \<Rightarrow> str \<Rightarrow> value option" where
  "descend_attributes current rest =
     (if rest = [] then Some current
      else case split_head rest of (head, next_rest) \<Rightarrow>
        (case current of
           VMap entries \<Rightarrow> (case map_of entries head of
               None \<Rightarrow> None
             | Some next_value \<Rightarrow> descend_attributes next_value next_rest)
         | _ \<Rightarrow> None))"
  by auto
termination
  by (relation "measure (\<lambda>(_, r). length r)") (auto dest: split_head_shorter [OF _ sym])

declare descend_attributes.simps [simp del]

section \<open>The reducer\<close>

fun is_literal :: "expr \<Rightarrow> bool" where
  "is_literal (Literal v) = True"
| "is_literal _ = False"

fun lit_value :: "expr \<Rightarrow> value" where
  "lit_value (Literal v) = v"
| "lit_value _ = VNull"

fun is_str_literal :: "expr \<Rightarrow> bool" where
  "is_str_literal (Literal (VStr s)) = True"
| "is_str_literal _ = False"

fun bool_literal :: "expr \<Rightarrow> bool option" where
  "bool_literal (Literal (VBool b)) = Some b"
| "bool_literal _ = None"

fun str_literal :: "expr \<Rightarrow> str option" where
  "str_literal (Literal (VStr s)) = Some s"
| "str_literal _ = None"

fun lit_key :: "expr \<Rightarrow> str" where
  "lit_key (Literal (VStr s)) = s"
| "lit_key _ = []"

text \<open>What a name bound to \<open>v\<close> followed by the attribute path \<open>tail\<close> denotes.\<close>

definition resolve_path :: "value option \<Rightarrow> str \<Rightarrow> value option" where
  "resolve_path binding tail =
     (case binding of None \<Rightarrow> None
      | Some v \<Rightarrow> if tail = [] then Some v else descend_attributes v tail)"

definition strip_or_self :: "str \<Rightarrow> str \<Rightarrow> str" where
  "strip_or_self p s = (case strip_prefix_str p s of Some r \<Rightarrow> r | None \<Rightarrow> s)"

text \<open>The arms of \<open>Expression::Unresolved\<close>: the value a symbol resolves to, if it does.\<close>

definition resolve_symbol :: "scope \<Rightarrow> symbolic \<Rightarrow> value option" where
  "resolve_symbol sc sy =
     (case sym_kind sy of
        KVar \<Rightarrow> (case split_head (strip_or_self ''var.'' (sym_source sy)) of
            (name, tail) \<Rightarrow> resolve_path (lookup_var sc name) tail)
      | KLocal \<Rightarrow> (case split_head (strip_or_self ''local.'' (sym_source sy)) of
            (name, tail) \<Rightarrow> resolve_path (lookup_local sc name) tail)
      | KTerraform \<Rightarrow>
          (if sym_source sy = ''terraform.workspace'' then map_option VStr (sc_terraform_workspace sc) else None)
      | KOther \<Rightarrow> lookup_binder sc (sym_source sy)
      | _ \<Rightarrow> None)"

text \<open>\<open>reduce_for\<close>: the pairs the collection yields, and the loop over them.  The expressions of the
  comprehension come as their reductions, functions of the scope of one iteration.\<close>

fun enumerate_values :: "nat \<Rightarrow> value list \<Rightarrow> (value \<times> value) list" where
  "enumerate_values i [] = []"
| "enumerate_values i (v # vs) = (VInt (min (int i) i64_max), v) # enumerate_values (Suc i) vs"

fun iteration_pairs :: "value \<Rightarrow> (value \<times> value) list option" where
  "iteration_pairs (VList items) = Some (enumerate_values 0 items)"
| "iteration_pairs (VMap entries) = Some (map (\<lambda>(k, v). (VStr k, v)) entries)"
| "iteration_pairs _ = None"

fun bind_names :: "str list \<Rightarrow> value \<Rightarrow> value \<Rightarrow> vmap \<Rightarrow> vmap option" where
  "bind_names [single] k v bs = Some (bs @ [(single, v)])"
| "bind_names [key_name, value_name] k v bs = Some (bs @ [(key_name, k), (value_name, v)])"
| "bind_names _ k v bs = None"

datatype for_result = ForStuck | ForDone "value list" vmap

type_synonym reduction = "scope \<Rightarrow> expr option"

datatype filter_result = FilterKeep | FilterSkip | FilterStuck

definition for_filter :: "reduction option \<Rightarrow> scope \<Rightarrow> filter_result option" where
  "for_filter cond sc =
     (case cond of None \<Rightarrow> Some FilterKeep
      | Some c \<Rightarrow> (case c sc of None \<Rightarrow> None
          | Some reduced \<Rightarrow> (case bool_literal reduced of
              Some b \<Rightarrow> Some (if b then FilterKeep else FilterSkip)
            | None \<Rightarrow> Some FilterStuck)))"

fun for_loop :: "str list \<Rightarrow> reduction option \<Rightarrow> reduction \<Rightarrow> reduction option \<Rightarrow> bool \<Rightarrow> scope \<Rightarrow>
    (value \<times> value) list \<Rightarrow> value list \<Rightarrow> vmap \<Rightarrow> for_result option" where
  "for_loop binders key val cond object_form sc [] out_list out_map = Some (ForDone out_list out_map)"
| "for_loop binders key val cond object_form sc ((k, v) # pairs) out_list out_map =
     (case bind_names binders k v (sc_binders sc) of
        None \<Rightarrow> Some ForStuck
      | Some inner_binders \<Rightarrow>
          let inner = sc\<lparr>sc_binders := inner_binders\<rparr> in
          (case for_filter cond inner of
             None \<Rightarrow> None
           | Some FilterStuck \<Rightarrow> Some ForStuck
           | Some FilterSkip \<Rightarrow> for_loop binders key val cond object_form sc pairs out_list out_map
           | Some FilterKeep \<Rightarrow>
               (case val inner of None \<Rightarrow> None | Some value_expr \<Rightarrow>
                case as_literal value_expr of None \<Rightarrow> Some ForStuck | Some w \<Rightarrow>
                if object_form then
                  (case key of None \<Rightarrow> Some ForStuck | Some kf \<Rightarrow>
                   case kf inner of None \<Rightarrow> None | Some key_expr \<Rightarrow>
                   case str_literal key_expr of None \<Rightarrow> Some ForStuck | Some s \<Rightarrow>
                   for_loop binders key val cond object_form sc pairs out_list (out_map @ [(s, w)]))
                else for_loop binders key val cond object_form sc pairs (out_list @ [w]) out_map)))"

definition reduce_for :: "str list \<Rightarrow> reduction option \<Rightarrow> reduction \<Rightarrow> reduction option \<Rightarrow> bool \<Rightarrow>
    value \<Rightarrow> scope \<Rightarrow> value option option" where
  "reduce_for binders key val cond object_form collection sc =
     (case iteration_pairs collection of
        None \<Rightarrow> Some None
      | Some pairs \<Rightarrow>
          if length pairs > max_iterations (sc_limits sc) then Some None
          else (case for_loop binders key val cond object_form sc pairs [] [] of
              None \<Rightarrow> None
            | Some ForStuck \<Rightarrow> Some None
            | Some (ForDone out_list out_map) \<Rightarrow>
                Some (Some (if object_form then VMap out_map else VList out_list))))"

fun reduce :: "expr \<Rightarrow> scope \<Rightarrow> expr option" where
  "reduce (Literal v) sc = Some (Literal v)"
| "reduce (Unresolved sy) sc =
     (case resolve_symbol sc sy of Some v \<Rightarrow> Some (Literal v) | None \<Rightarrow> Some (Unresolved sy))"
| "reduce (EBinary op lhs rhs sp) sc =
     (case reduce lhs sc of None \<Rightarrow> None | Some l \<Rightarrow>
      case reduce rhs sc of None \<Rightarrow> None | Some r \<Rightarrow>
      if is_literal l \<and> is_literal r then
        (case eval_binary op (lit_value l) (lit_value r) of
           None \<Rightarrow> None
         | Some (Some v) \<Rightarrow> Some (Literal v)
         | Some None \<Rightarrow> Some (EBinary op l r sp))
      else Some (EBinary op l r sp))"
| "reduce (EUnary op operand sp) sc =
     (case reduce operand sc of None \<Rightarrow> None | Some inner \<Rightarrow>
      if is_literal inner then
        (case eval_unary op (lit_value inner) of
           Some out \<Rightarrow> Some (Literal out)
         | None \<Rightarrow> Some (EUnary op inner sp))
      else Some (EUnary op inner sp))"
| "reduce (ETemplate parts) sc =
     (case map_option_list (\<lambda>p. reduce p sc) parts of None \<Rightarrow> None | Some reduced \<Rightarrow>
      if list_all is_literal reduced
      then Some (Literal (VStr (concat (map (\<lambda>p. render_value_as_str (sc_ryu sc) (lit_value p)) reduced))))
      else Some (ETemplate reduced))"
| "reduce (EArray items) sc =
     (case map_option_list (\<lambda>i. reduce i sc) items of None \<Rightarrow> None | Some reduced \<Rightarrow>
      if list_all is_literal reduced then Some (Literal (VList (map lit_value reduced)))
      else Some (EArray reduced))"
| "reduce (EObject entries) sc =
     (case map_option_list (\<lambda>(k, v). case reduce k sc of None \<Rightarrow> None | Some k' \<Rightarrow>
                                        (case reduce v sc of None \<Rightarrow> None | Some v' \<Rightarrow> Some (k', v'))) entries of
        None \<Rightarrow> None
      | Some reduced \<Rightarrow>
          if list_all (\<lambda>e. is_str_literal (fst e)) reduced \<and> list_all (\<lambda>e. is_literal (snd e)) reduced
          then Some (Literal (VMap (map (\<lambda>e. (lit_key (fst e), lit_value (snd e))) reduced)))
          else Some (EObject reduced))"
| "reduce (EFuncCall name args sp) sc =
     (case map_option_list (\<lambda>a. reduce a sc) args of None \<Rightarrow> None | Some reduced_args \<Rightarrow>
      if list_all is_literal reduced_args then
        (case sc_funcs sc name of
           None \<Rightarrow> Some (EFuncCall name reduced_args sp)
         | Some f \<Rightarrow> (case f (map lit_value reduced_args) (scope_cx sc) of
             Inr v \<Rightarrow> Some (Literal v)
           | Inl _ \<Rightarrow> Some (EFuncCall name reduced_args sp)))
      else Some (EFuncCall name reduced_args sp))"
| "reduce (EConditional c t e sp) sc =
     (case reduce c sc of None \<Rightarrow> None | Some c' \<Rightarrow>
      case bool_literal c' of
        Some b \<Rightarrow> (if b then reduce t sc else reduce e sc)
      | None \<Rightarrow>
          (case reduce t sc of None \<Rightarrow> None | Some t' \<Rightarrow>
           case reduce e sc of None \<Rightarrow> None | Some e' \<Rightarrow> Some (EConditional c' t' e' sp)))"
| "reduce (EFor binders coll key val cond object_form sp) sc =
     (case reduce coll sc of None \<Rightarrow> None | Some coll' \<Rightarrow>
      case as_literal coll' of
        None \<Rightarrow> Some (EFor binders coll' key val cond object_form sp)
      | Some collection \<Rightarrow>
          (case reduce_for binders
                  (case key of None \<Rightarrow> None | Some k \<Rightarrow> Some (\<lambda>s. reduce k s))
                  (\<lambda>s. reduce val s)
                  (case cond of None \<Rightarrow> None | Some c \<Rightarrow> Some (\<lambda>s. reduce c s))
                  object_form collection sc of
             None \<Rightarrow> None
           | Some (Some v) \<Rightarrow> Some (Literal v)
           | Some None \<Rightarrow> Some (EFor binders coll key val cond object_form sp)))"

lemma as_literal_Some [simp]: "as_literal e = Some v \<longleftrightarrow> e = Literal v"
  by (cases e) auto

lemma as_literal_None: "as_literal e = None \<longleftrightarrow> \<not> is_literal e"
  by (cases e) auto

lemma bool_literal_Some [simp]: "bool_literal e = Some b \<longleftrightarrow> e = Literal (VBool b)"
  by (cases e rule: bool_literal.cases) auto

lemma str_literal_Some [simp]: "str_literal e = Some s \<longleftrightarrow> e = Literal (VStr s)"
  by (cases e rule: str_literal.cases) auto

lemma is_literal_iff: "is_literal e \<longleftrightarrow> e = Literal (lit_value e)"
  by (cases e) auto

lemma is_str_literal_iff: "is_str_literal e \<longleftrightarrow> e = Literal (VStr (lit_key e))"
  by (cases e rule: is_str_literal.cases) auto

lemma is_literalE: "is_literal e \<Longrightarrow> (\<And>v. e = Literal v \<Longrightarrow> P) \<Longrightarrow> P"
  by (cases e) auto

end
