(* ===== verification/ReduceLaws.thy ===== *)
theory ReduceLaws
  imports Reduce
begin

text \<open>Laws of the reducer: reduction is staged (reducing under fewer bindings first changes nothing),
  hence idempotent and monotone; it never drops a symbol it could not resolve and never invents one;
  it keeps values in the range of their machine types; and it panics on one operator only.\<close>

section \<open>Staging\<close>

definition red_mono :: "reduction \<Rightarrow> bool" where
  "red_mono f \<longleftrightarrow> (\<forall>s s' w. scope_le s s' \<longrightarrow> f s = Some (Literal w) \<longrightarrow> f s' = Some (Literal w))"

lemma red_monoD: "red_mono f \<Longrightarrow> scope_le s s' \<Longrightarrow> f s = Some (Literal w) \<Longrightarrow> f s' = Some (Literal w)"
  by (simp add: red_mono_def)

lemma scope_le_binders: "scope_le sc sc' \<Longrightarrow> scope_le (sc\<lparr>sc_binders := b\<rparr>) (sc'\<lparr>sc_binders := b\<rparr>)"
  by (simp add: scope_le_def)

lemma for_filter_mono:
  assumes "scope_le s s'" and "\<And>c. cond = Some c \<Longrightarrow> red_mono c"
    and "for_filter cond s = Some r" and "r \<noteq> FilterStuck"
  shows "for_filter cond s' = Some r"
proof (cases cond)
  case (Some c)
  with assms(3,4) obtain b where "c s = Some (Literal (VBool b))" "r = (if b then FilterKeep else FilterSkip)"
    by (auto simp: for_filter_def split: option.splits)
  with assms(1,2) Some show ?thesis by (simp add: for_filter_def red_monoD)
qed (use assms(3) in \<open>simp add: for_filter_def\<close>)

lemma for_loop_mono:
  assumes le: "scope_le sc sc'" and cond: "\<And>c. cond = Some c \<Longrightarrow> red_mono c"
    and key: "\<And>k. key = Some k \<Longrightarrow> red_mono k" and val: "red_mono val"
  shows "for_loop bs key val cond obj sc pairs ol om = Some (ForDone x y) \<Longrightarrow>
         for_loop bs key val cond obj sc' pairs ol om = Some (ForDone x y)"
proof (induction pairs arbitrary: ol om)
  case (Cons p pairs)
  obtain k v where p: "p = (k, v)" by (cases p)
  from Cons.prems obtain ib fr where
    ib: "bind_names bs k v (sc_binders sc) = Some ib" and
    fr: "for_filter cond (sc\<lparr>sc_binders := ib\<rparr>) = Some fr" "fr \<noteq> FilterStuck"
    by (auto simp: Let_def p split: option.splits filter_result.splits)
  let ?s = "sc\<lparr>sc_binders := ib\<rparr>" and ?s' = "sc'\<lparr>sc_binders := ib\<rparr>"
  have le': "scope_le ?s ?s'" by (rule scope_le_binders [OF le])
  have ib': "bind_names bs k v (sc_binders sc') = Some ib"
    using ib scope_leD(9) [OF le] by simp
  have fr': "for_filter cond ?s' = Some fr"
    by (rule for_filter_mono [OF le' cond fr])
  show ?case
  proof (cases fr)
    case FilterSkip
    with Cons ib fr ib' fr' show ?thesis by (simp add: p)
  next
    case FilterKeep
    with Cons.prems ib fr obtain w where w: "val ?s = Some (Literal w)"
      by (auto simp: Let_def p split: option.splits)
    have w': "val ?s' = Some (Literal w)" by (rule red_monoD [OF val le' w])
    show ?thesis
    proof (cases obj)
      case True
      with Cons.prems ib fr FilterKeep w obtain kf s where
        kf: "key = Some kf" and s: "kf ?s = Some (Literal (VStr s))"
        by (auto simp: p split: option.splits)
      have "kf ?s' = Some (Literal (VStr s))" by (rule red_monoD [OF key [OF kf] le' s])
      with Cons ib fr FilterKeep w True kf s ib' fr' w' show ?thesis by (simp add: p)
    next
      case False
      with Cons ib fr FilterKeep w ib' fr' w' show ?thesis by (simp add: p)
    qed
  qed (use fr in simp)
qed simp

lemma reduce_for_mono:
  assumes "scope_le sc sc'" and "\<And>c. cond = Some c \<Longrightarrow> red_mono c"
    and "\<And>k. key = Some k \<Longrightarrow> red_mono k" and "red_mono val"
    and "reduce_for bs key val cond obj coll sc = Some (Some v)"
  shows "reduce_for bs key val cond obj coll sc' = Some (Some v)"
proof -
  from assms(5) obtain pairs x y where
    "iteration_pairs coll = Some pairs" "length pairs \<le> max_iterations (sc_limits sc)"
    "for_loop bs key val cond obj sc pairs [] [] = Some (ForDone x y)"
    "v = (if obj then VMap y else VList x)"
    by (auto simp: reduce_for_def split: option.splits for_result.splits if_splits)
  with for_loop_mono [OF assms(1-4) this(3)] scope_leD(8) [OF assms(1)] show ?thesis
    by (simp add: reduce_for_def)
qed

lemma resolve_symbol_mono:
  "scope_le sc sc' \<Longrightarrow> resolve_symbol sc sy = Some v \<Longrightarrow> resolve_symbol sc' sy = Some v"
  by (cases "sym_kind sy")
    (auto simp: resolve_symbol_def resolve_path_def scope_leD split: option.splits prod.splits if_splits
      dest: scope_leD)

section \<open>Idempotence\<close>

lemma reduce_literals_fixed:
  "list_all is_literal ys \<Longrightarrow> map_option_list (\<lambda>p. reduce p sc) ys = Some ys"
  by (induction ys) (auto elim: is_literalE)

lemma reduce_idem_cond:
  assumes c: "\<And>c'. reduce c sc = Some c' \<Longrightarrow> reduce c' sc = Some c'"
    and t: "\<And>c' t'. reduce c sc = Some c' \<Longrightarrow> bool_literal c' \<noteq> Some False \<Longrightarrow>
              reduce t sc = Some t' \<Longrightarrow> reduce t' sc = Some t'"
    and e: "\<And>c' e'. reduce c sc = Some c' \<Longrightarrow> bool_literal c' = Some False \<or>
              bool_literal c' = None \<and> reduce t sc \<noteq> None \<Longrightarrow>
              reduce e sc = Some e' \<Longrightarrow> reduce e' sc = Some e'"
    and red: "reduce (EConditional c t e sp) sc = Some e1"
  shows "reduce e1 sc = Some e1"
proof -
  from red obtain c' where rc: "reduce c sc = Some c'" by (auto split: option.splits)
  show ?thesis
  proof (cases "\<exists>b. c' = Literal (VBool b)")
    case True
    then obtain b where "c' = Literal (VBool b)" ..
    with red rc t [of c' e1] e [of c' e1] show ?thesis by (cases b) simp_all
  next
    case False
    then have nb: "bool_literal c' = None" by (cases "bool_literal c'") auto
    with red rc obtain t' e' where te: "reduce t sc = Some t'" "reduce e sc = Some e'"
      "e1 = EConditional c' t' e' sp"
      by (auto split: option.splits)
    with c [OF rc] t [OF rc _ te(1)] e [OF rc _ te(2)] nb show ?thesis by simp
  qed
qed

lemma reduce_idem_for:
  assumes coll: "\<And>e1. reduce coll sc = Some e1 \<Longrightarrow> reduce e1 sc = Some e1"
    and red: "reduce (EFor bs coll key val cond obj sp) sc = Some e1"
  shows "reduce e1 sc = Some e1"
proof -
  from red obtain coll' where c: "reduce coll sc = Some coll'" by (auto split: option.splits)
  show ?thesis
  proof (cases "is_literal coll'")
    case True
    then obtain v where "coll' = Literal v" by (rule is_literalE)
    with red c show ?thesis by (auto split: option.splits)
  next
    case False
    then have "as_literal coll' = None" by (simp add: as_literal_None)
    with red c coll [OF c] show ?thesis by auto
  qed
qed

lemma reduce_idem_aux: "reduce e sc = Some e1 \<Longrightarrow> reduce e1 sc = Some e1"
proof (induction e sc arbitrary: e1 rule: reduce.induct)
  case (3 op lhs rhs sp sc)
  from "3.prems" obtain l r where l: "reduce lhs sc = Some l" and r: "reduce rhs sc = Some r"
    by (auto split: option.splits)
  from 3(1) [OF l] 3(2) [OF l r] l r "3.prems" show ?case
    by (auto split: option.splits if_splits)
next
  case (4 op x sp sc)
  from "4.prems" obtain i where i: "reduce x sc = Some i" by (auto split: option.splits)
  from 4(1) [OF i] i "4.prems" show ?case by (auto split: option.splits if_splits)
next
  case (5 ps sc)
  from "5.prems" obtain rs where rs: "map_option_list (\<lambda>p. reduce p sc) ps = Some rs"
    by (auto split: option.splits)
  have "map_option_list (\<lambda>p. reduce p sc) rs = Some rs"
    by (rule map_option_list_idem [OF rs]) (use 5(1) in blast)
  with "5.prems" rs show ?case by (auto split: if_splits)
next
  case (6 ps sc)
  from "6.prems" obtain rs where rs: "map_option_list (\<lambda>p. reduce p sc) ps = Some rs"
    by (auto split: option.splits)
  have "map_option_list (\<lambda>p. reduce p sc) rs = Some rs"
    by (rule map_option_list_idem [OF rs]) (use 6(1) in blast)
  with "6.prems" rs show ?case by (auto split: if_splits)
next
  case (7 es sc)
  let ?f = "\<lambda>(k, v). case reduce k sc of None \<Rightarrow> None | Some k' \<Rightarrow>
                        (case reduce v sc of None \<Rightarrow> None | Some v' \<Rightarrow> Some (k', v'))"
  from "7.prems" obtain rs where rs: "map_option_list ?f es = Some rs"
    by (auto split: option.splits)
  have R: "map_option_list ?f rs = Some rs"
  proof (rule map_option_list_idem [OF rs])
    fix x y assume x: "x \<in> set es" and y: "?f x = Some y"
    obtain k v where kv: "x = (k, v)" by (cases x)
    from y obtain k' v' where r: "reduce k sc = Some k'" "reduce v sc = Some v'" "y = (k', v')"
      by (auto simp: kv split: option.splits)
    from 7(1) [OF x kv [symmetric] r(1)] 7(2) [OF x kv [symmetric] r(1,2)]
    show "?f y = Some y" by (simp add: r(3))
  qed
  with "7.prems" rs show ?case by (auto split: if_splits)
next
  case (8 n args sp sc)
  from "8.prems" obtain rs where rs: "map_option_list (\<lambda>p. reduce p sc) args = Some rs"
    by (auto split: option.splits)
  have R: "map_option_list (\<lambda>p. reduce p sc) rs = Some rs"
    by (rule map_option_list_idem [OF rs]) (use 8(1) in blast)
  with "8.prems" rs show ?case by (auto split: if_splits option.splits sum.splits)
next
  case (9 c t e sp sc)
  show ?case
  proof (rule reduce_idem_cond [OF _ _ _ "9.prems"])
    fix c' t' assume *: "reduce c sc = Some c'" "bool_literal c' \<noteq> Some False" "reduce t sc = Some t'"
    show "reduce t' sc = Some t'"
      using 9(2) [OF *(1) _ *(3)] 9(4) [OF *(1) _ _ *(3)] *(2) by (cases "bool_literal c'") auto
  next
    fix c' e' assume *: "reduce c sc = Some c'" "bool_literal c' = Some False \<or>
      bool_literal c' = None \<and> reduce t sc \<noteq> None" "reduce e sc = Some e'"
    show "reduce e' sc = Some e'"
      using 9(3) [OF *(1) _ _ *(3)] 9(5) [OF *(1) _ _ *(3)] *(2) by auto
  qed (rule 9(1))
next
  case (10 bs coll key val cond obj sp sc)
  show ?case
    by (rule reduce_idem_for [OF _ "10.prems"]) (use 10 in blast)
qed (auto split: option.splits)

section \<open>Staged reduction\<close>

text \<open>What a reduction amounts to: a panic (\<open>None\<close>), a residual expression (\<open>Some None\<close>) or a value.\<close>

definition outcome :: "expr option \<Rightarrow> value option option" where
  "outcome r = map_option as_literal r"

lemma outcome_simps [simp]:
  "outcome r = None \<longleftrightarrow> r = None"
  "outcome None = None"
  "outcome (Some e) = Some (as_literal e)"
  "outcome r = Some (Some v) \<longleftrightarrow> r = Some (Literal v)"
  by (auto simp: outcome_def)

lemma outcome_eq_cases:
  assumes "outcome a = outcome b"
  obtains (panic) "a = None" "b = None"
  | (lit) v where "a = Some (Literal v)" "b = Some (Literal v)"
  | (residual) p q where "a = Some p" "b = Some q" "\<not> is_literal p" "\<not> is_literal q"
proof (cases a)
  case None
  with assms panic show ?thesis by (cases b) (auto simp: outcome_def)
next
  case (Some p)
  with assms obtain q where b: "b = Some q" "as_literal p = as_literal q"
    by (cases b) (auto simp: outcome_def)
  show ?thesis
  proof (cases "as_literal p")
    case None
    with Some b residual show ?thesis by (simp add: as_literal_None [symmetric])
  next
    case (Some v)
    then have "p = Literal v" "q = Literal v" using b(2) by (metis as_literal_Some)+
    with \<open>a = Some p\<close> b(1) lit show ?thesis by blast
  qed
qed

definition lits_of :: "expr list \<Rightarrow> value list option" where
  "lits_of rs = (if list_all is_literal rs then Some (map lit_value rs) else None)"

lemma lits_of_simps [simp]:
  "lits_of [] = Some []"
  "lits_of (Literal v # rs) = map_option ((#) v) (lits_of rs)"
  "\<not> is_literal e \<Longrightarrow> lits_of (e # rs) = None"
  by (simp_all add: lits_of_def)

lemma lits_of_Some: "lits_of rs = Some vs \<longleftrightarrow> rs = map Literal vs"
proof -
  have "list_all is_literal rs \<Longrightarrow> rs = map Literal (map lit_value rs)"
    by (induction rs) (auto elim: is_literalE)
  moreover have "list_all is_literal (map Literal vs) \<and> map lit_value (map Literal vs) = vs"
    by (induction vs) simp_all
  ultimately show ?thesis unfolding lits_of_def by auto
qed

lemma map_option_list_outcome:
  assumes "list_all2 (\<lambda>y x. outcome (g y) = outcome (g x)) ys xs"
  shows "map_option lits_of (map_option_list g ys) = map_option lits_of (map_option_list g xs)"
  using assms
proof (induction rule: list_all2_induct)
  case (Cons y ys x xs)
  from Cons(1) show ?case
  proof (cases rule: outcome_eq_cases)
    case (lit v)
    with Cons.IH show ?thesis
      by (cases "map_option_list g ys"; cases "map_option_list g xs") auto
  next
    case (residual p q)
    with Cons.IH show ?thesis
      by (cases "map_option_list g ys"; cases "map_option_list g xs") auto
  qed simp
qed simp

lemma outcome_binary:
  assumes "outcome (reduce l s) = outcome (reduce l' s)" and "outcome (reduce r s) = outcome (reduce r' s)"
  shows "outcome (reduce (EBinary op l r sp) s) = outcome (reduce (EBinary op l' r' sp') s)"
  using assms(1)
proof (cases rule: outcome_eq_cases)
  case l: (lit v)
  from assms(2) show ?thesis
    by (cases rule: outcome_eq_cases) (auto simp: l split: option.splits)
next
  case l: (residual p q)
  from assms(2) show ?thesis
    by (cases rule: outcome_eq_cases) (auto simp: l)
qed simp

lemma outcome_unary:
  assumes "outcome (reduce x s) = outcome (reduce x' s)"
  shows "outcome (reduce (EUnary op x sp) s) = outcome (reduce (EUnary op x' sp') s)"
  using assms by (cases rule: outcome_eq_cases) (auto split: option.splits)

lemma lits_of_outcome_split:
  assumes "map_option lits_of a = map_option lits_of b"
  obtains (panic) "a = None" "b = None"
  | (lit) vs where "a = Some (map Literal vs)" "b = Some (map Literal vs)"
  | (residual) ps qs where "a = Some ps" "b = Some qs" "\<not> list_all is_literal ps" "\<not> list_all is_literal qs"
proof (cases a)
  case None
  with assms panic show ?thesis by simp
next
  case (Some ps)
  with assms obtain qs where b: "b = Some qs" "lits_of ps = lits_of qs" by (cases b) auto
  show ?thesis
  proof (cases "lits_of ps")
    case None
    with Some b residual show ?thesis by (auto simp: lits_of_def split: if_splits)
  next
    case (Some vs)
    with b(2) have "ps = map Literal vs" "qs = map Literal vs"
      using lits_of_Some [of ps vs] lits_of_Some [of qs vs] by simp_all
    with \<open>a = Some ps\<close> b(1) lit show ?thesis by blast
  qed
qed

lemma list_all_Literal [simp]: "list_all is_literal (map Literal vs)"
  by (simp add: list_all_iff)

lemma map_lit_value_Literal [simp]: "map lit_value (map Literal vs) = vs"
  by (induction vs) auto

lemma bool_literal_nonliteral: "\<not> is_literal p \<Longrightarrow> bool_literal p = None"
  by (cases p) auto

lemma outcome_cond:
  assumes "outcome (reduce c s) = outcome (reduce c' s)" and "outcome (reduce t s) = outcome (reduce t' s)"
    and "outcome (reduce e s) = outcome (reduce e' s)"
  shows "outcome (reduce (EConditional c t e sp) s) = outcome (reduce (EConditional c' t' e' sp') s)"
proof -
  have te: "outcome (case reduce t s of None \<Rightarrow> None | Some t' \<Rightarrow>
                case reduce e s of None \<Rightarrow> None | Some e' \<Rightarrow> Some (EConditional x t' e' sp)) =
        outcome (case reduce t' s of None \<Rightarrow> None | Some t' \<Rightarrow>
                case reduce e' s of None \<Rightarrow> None | Some e' \<Rightarrow> Some (EConditional y t' e' sp'))" for x y
    using assms(2,3) by (elim outcome_eq_cases) auto
  from assms(1) show ?thesis
  proof (cases rule: outcome_eq_cases)
    case (lit v)
    show ?thesis
    proof (cases "bool_literal (Literal v)")
      case None
      with lit te show ?thesis by simp
    next
      case (Some b)
      with lit assms(2,3) show ?thesis by (cases b) simp_all
    qed
  next
    case (residual p q)
    then have "bool_literal p = None" "bool_literal q = None"
      by (simp_all add: bool_literal_nonliteral)
    with residual te show ?thesis by simp
  qed simp
qed

lemma outcome_for:
  assumes "outcome (reduce coll s) = outcome (reduce coll' s)"
  shows "outcome (reduce (EFor bs coll key val cond obj sp) s) = outcome (reduce (EFor bs coll' key val cond obj sp) s)"
  using assms
proof (cases rule: outcome_eq_cases)
  case (lit v)
  define r where "r = reduce_for bs (case key of None \<Rightarrow> None | Some k \<Rightarrow> Some (\<lambda>s. reduce k s))
    (\<lambda>s. reduce val s) (case cond of None \<Rightarrow> None | Some c \<Rightarrow> Some (\<lambda>s. reduce c s)) obj v s"
  show ?thesis
    by (cases r; cases "the r") (simp_all add: lit r_def [symmetric])
next
  case (residual p q)
  then have "as_literal p = None" "as_literal q = None" by (simp_all add: as_literal_None)
  with residual show ?thesis by simp
qed simp

lemma outcome_list:
  assumes "map_option_list (\<lambda>p. reduce p sc) ps = Some rs"
    and "\<And>p r. p \<in> set ps \<Longrightarrow> reduce p sc = Some r \<Longrightarrow> outcome (reduce r sc') = outcome (reduce p sc')"
  shows "map_option lits_of (map_option_list (\<lambda>p. reduce p sc') rs) =
         map_option lits_of (map_option_list (\<lambda>p. reduce p sc') ps)"
proof (rule map_option_list_outcome)
  have "list_all2 (\<lambda>p r. reduce p sc = Some r) ps rs"
    using assms(1) by (simp add: map_option_list_Some_iff)
  then show "list_all2 (\<lambda>y x. outcome (reduce y sc') = outcome (reduce x sc')) rs ps"
    using assms(2) by (auto simp: list_all2_conv_all_nth)
qed

lemma map_option_list_literals: "map_option_list (\<lambda>p. reduce p sc) (map Literal vs) = Some (map Literal vs)"
  by (rule reduce_literals_fixed) simp

lemma outcome_template:
  assumes "map_option lits_of (map_option_list (\<lambda>p. reduce p s) ps) = map_option lits_of (map_option_list (\<lambda>p. reduce p s) qs)"
  shows "outcome (reduce (ETemplate ps) s) = outcome (reduce (ETemplate qs) s)"
  using assms by (cases rule: lits_of_outcome_split) simp_all

lemma outcome_array:
  assumes "map_option lits_of (map_option_list (\<lambda>p. reduce p s) ps) = map_option lits_of (map_option_list (\<lambda>p. reduce p s) qs)"
  shows "outcome (reduce (EArray ps) s) = outcome (reduce (EArray qs) s)"
  using assms by (cases rule: lits_of_outcome_split) simp_all

lemma outcome_call:
  assumes "map_option lits_of (map_option_list (\<lambda>p. reduce p s) ps) = map_option lits_of (map_option_list (\<lambda>p. reduce p s) qs)"
  shows "outcome (reduce (EFuncCall n ps sp) s) = outcome (reduce (EFuncCall n qs sp') s)"
  using assms
proof (cases rule: lits_of_outcome_split)
  case (lit vs)
  then show ?thesis by (simp split: option.split sum.split)
qed simp_all

definition pair_reduce :: "scope \<Rightarrow> expr \<times> expr \<Rightarrow> (expr \<times> expr) option" where
  "pair_reduce s = (\<lambda>(k, v). case reduce k s of None \<Rightarrow> None | Some k' \<Rightarrow>
                        (case reduce v s of None \<Rightarrow> None | Some v' \<Rightarrow> Some (k', v')))"

definition pairs_lits :: "(expr \<times> expr) list \<Rightarrow> vmap option" where
  "pairs_lits rs = (if list_all (\<lambda>e. is_str_literal (fst e)) rs \<and> list_all (\<lambda>e. is_literal (snd e)) rs
     then Some (map (\<lambda>e. (lit_key (fst e), lit_value (snd e))) rs) else None)"

lemma reduce_object:
  "reduce (EObject es) s = (case map_option_list (pair_reduce s) es of None \<Rightarrow> None
     | Some rs \<Rightarrow> (case pairs_lits rs of Some m \<Rightarrow> Some (Literal (VMap m)) | None \<Rightarrow> Some (EObject rs)))"
  by (simp add: pair_reduce_def pairs_lits_def split: option.split)

declare reduce.simps(7) [simp del]

lemma is_str_literal_literal: "is_str_literal e \<Longrightarrow> is_literal e"
  by (cases e rule: is_str_literal.cases) auto

lemma pair_reduce_literals:
  "list_all (\<lambda>e. is_literal (fst e) \<and> is_literal (snd e)) rs \<Longrightarrow> map_option_list (pair_reduce s) rs = Some rs"
  by (induction rs) (auto simp: pair_reduce_def split_beta elim!: is_literalE)

lemma pairs_lits_simps:
  "pairs_lits [] = Some []"
  "pairs_lits ((k, v) # rs) = (case str_literal k of None \<Rightarrow> None | Some s \<Rightarrow>
      case as_literal v of None \<Rightarrow> None | Some w \<Rightarrow> map_option ((#) (s, w)) (pairs_lits rs))"
  by (cases k rule: is_str_literal.cases; cases v; simp add: pairs_lits_def)+

lemma str_literal_nonliteral: "\<not> is_literal p \<Longrightarrow> str_literal p = None"
  by (cases p) auto

lemma pairs_outcome:
  assumes "list_all2 (\<lambda>y x. outcome (reduce (fst y) s) = outcome (reduce (fst x) s) \<and>
                             outcome (reduce (snd y) s) = outcome (reduce (snd x) s)) rs es"
  shows "map_option pairs_lits (map_option_list (pair_reduce s) rs) =
         map_option pairs_lits (map_option_list (pair_reduce s) es)"
  using assms
proof (induction rule: list_all2_induct)
  case (Cons y ys x xs)
  obtain k v k' v' where kv: "y = (k, v)" "x = (k', v')" by (cases x; cases y)
  have IH: "\<exists>r. map_option_list (pair_reduce s) ys = Some r \<Longrightarrow> \<exists>r. map_option_list (pair_reduce s) xs = Some r"
    "map_option_list (pair_reduce s) ys = None \<longleftrightarrow> map_option_list (pair_reduce s) xs = None"
    using Cons.IH by (cases "map_option_list (pair_reduce s) ys"; cases "map_option_list (pair_reduce s) xs"; simp)+
  note K = Cons(1) [THEN conjunct1] and V = Cons(1) [THEN conjunct2]
  show ?case
  proof (cases rule: outcome_eq_cases [OF K])
    case 1
    then show ?thesis by (simp add: kv pair_reduce_def)
  next
    case kl: (2 kk)
    show ?thesis
      by (cases rule: outcome_eq_cases [OF V];
          cases "map_option_list (pair_reduce s) ys"; cases "map_option_list (pair_reduce s) xs")
        (use kl Cons.IH in \<open>simp_all add: kv pair_reduce_def pairs_lits_simps as_literal_None [symmetric] split: option.split\<close>)
  next
    case kr: (3 p q)
    show ?thesis
      by (cases rule: outcome_eq_cases [OF V];
          cases "map_option_list (pair_reduce s) ys"; cases "map_option_list (pair_reduce s) xs")
        (use kr Cons.IH in \<open>simp_all add: kv pair_reduce_def pairs_lits_simps str_literal_nonliteral\<close>)
  qed
qed simp

lemma outcome_object:
  assumes "map_option pairs_lits (map_option_list (pair_reduce s) rs) =
           map_option pairs_lits (map_option_list (pair_reduce s) es)"
  shows "outcome (reduce (EObject rs) s) = outcome (reduce (EObject es) s)"
  using assms
  by (cases "map_option_list (pair_reduce s) rs"; cases "map_option_list (pair_reduce s) es")
    (auto simp: reduce_object split: option.split)

lemma reduce_red_mono:
  "(\<And>s s' e1. scope_le s s' \<Longrightarrow> reduce k s = Some e1 \<Longrightarrow> outcome (reduce e1 s') = outcome (reduce k s')) \<Longrightarrow>
   red_mono (\<lambda>s. reduce k s)"
  unfolding red_mono_def by (metis outcome_simps(4) reduce.simps(1))

text \<open>The step of each constructor: the result is either the constructor on the reduced children, whose
  outcome is a congruence, or a value, and then the bigger scope computes the same one.\<close>

lemma staged_binary:
  assumes l: "reduce lhs sc = Some l" "outcome (reduce l sc') = outcome (reduce lhs sc')"
    and r: "reduce rhs sc = Some r" "outcome (reduce r sc') = outcome (reduce rhs sc')"
    and red: "reduce (EBinary op lhs rhs sp) sc = Some e1"
  shows "outcome (reduce e1 sc') = outcome (reduce (EBinary op lhs rhs sp) sc')"
proof (cases "e1 = EBinary op l r sp")
  case True
  then show ?thesis using outcome_binary [OF l(2) r(2)] by blast
next
  case False
  with red l r obtain a b v where "l = Literal a" "r = Literal b" "eval_binary op a b = Some (Some v)" "e1 = Literal v"
    by (auto elim!: is_literalE split: if_splits option.splits)
  with l(2) r(2) show ?thesis by (simp add: outcome_simps(4) [of "reduce lhs sc'"] eq_commute [of _ "outcome x" for x])
qed

lemma staged_call:
  assumes le: "scope_le sc sc'"
    and rs: "map_option_list (\<lambda>a. reduce a sc) args = Some rs"
    and R: "map_option lits_of (map_option_list (\<lambda>p. reduce p sc') rs) =
            map_option lits_of (map_option_list (\<lambda>p. reduce p sc') args)"
    and red: "reduce (EFuncCall n args sp) sc = Some e1"
  shows "outcome (reduce e1 sc') = outcome (reduce (EFuncCall n args sp) sc')"
proof (cases "e1 = EFuncCall n rs sp")
  case True
  then show ?thesis using outcome_call [OF R] by blast
next
  case False
  with red rs obtain f v where f: "list_all is_literal rs" "sc_funcs sc n = Some f"
    "f (map lit_value rs) (scope_cx sc) = Inr v" "e1 = Literal v"
    by (auto split: if_splits option.splits sum.splits)
  from R reduce_literals_fixed [OF f(1), of sc'] f(1)
  have "map_option lits_of (map_option_list (\<lambda>p. reduce p sc') args) = Some (Some (map lit_value rs))"
    by (simp add: lits_of_def)
  then have "map_option_list (\<lambda>p. reduce p sc') args = Some (map Literal (map lit_value rs))"
    by (auto simp: lits_of_Some)
  moreover have "map Literal (map lit_value rs) = rs"
    using f(1) by (induction rs) (auto elim: is_literalE)
  ultimately show ?thesis using f scope_leD(5,6) [OF le] by simp
qed

lemma staged_cond:
  assumes c: "reduce c sc = Some c'" "outcome (reduce c' sc') = outcome (reduce c sc')"
    and t: "\<And>t'. bool_literal c' \<noteq> Some False \<Longrightarrow> reduce t sc = Some t' \<Longrightarrow>
              outcome (reduce t' sc') = outcome (reduce t sc')"
    and e: "\<And>e'. bool_literal c' = Some False \<or> bool_literal c' = None \<and> reduce t sc \<noteq> None \<Longrightarrow>
              reduce e sc = Some e' \<Longrightarrow> outcome (reduce e' sc') = outcome (reduce e sc')"
    and red: "reduce (EConditional c t e sp) sc = Some e1"
  shows "outcome (reduce e1 sc') = outcome (reduce (EConditional c t e sp) sc')"
proof (cases "bool_literal c'")
  case (Some b)
  then have "c' = Literal (VBool b)" by simp
  with c have "reduce c sc' = Some (Literal (VBool b))"
    by (metis outcome_simps(4) reduce.simps(1))
  with red c Some t [of e1] e [of e1] show ?thesis by (cases b) simp_all
next
  case None
  with red c obtain t' e' where te: "reduce t sc = Some t'" "reduce e sc = Some e'"
    "e1 = EConditional c' t' e' sp"
    by (auto split: option.splits)
  have T: "outcome (reduce t' sc') = outcome (reduce t sc')" by (rule t) (use None te in auto)
  have E: "outcome (reduce e' sc') = outcome (reduce e sc')" by (rule e) (use None te in auto)
  from outcome_cond [OF c(2) T E] te(3) show ?thesis by blast
qed

lemma staged_for:
  assumes le: "scope_le sc sc'"
    and coll: "reduce coll sc = Some coll'" "outcome (reduce coll' sc') = outcome (reduce coll sc')"
    and key: "\<And>v k. as_literal coll' = Some v \<Longrightarrow> key = Some k \<Longrightarrow> red_mono (\<lambda>s. reduce k s)"
    and val: "\<And>v. as_literal coll' = Some v \<Longrightarrow> red_mono (\<lambda>s. reduce val s)"
    and cond: "\<And>v c. as_literal coll' = Some v \<Longrightarrow> cond = Some c \<Longrightarrow> red_mono (\<lambda>s. reduce c s)"
    and red: "reduce (EFor bs coll key val cond obj sp) sc = Some e1"
  shows "outcome (reduce e1 sc') = outcome (reduce (EFor bs coll key val cond obj sp) sc')"
proof (cases "as_literal coll'")
  case None
  with red coll have "e1 = EFor bs coll' key val cond obj sp" by simp
  with outcome_for [OF coll(2)] show ?thesis by blast
next
  case lit: (Some v)
  let ?k = "case key of None \<Rightarrow> None | Some k \<Rightarrow> Some (\<lambda>s. reduce k s)"
  let ?c = "case cond of None \<Rightarrow> None | Some c \<Rightarrow> Some (\<lambda>s. reduce c s)"
  from lit coll have Cv: "reduce coll sc' = Some (Literal v)"
    by (metis as_literal_Some outcome_simps(4) reduce.simps(1))
  from lit red coll obtain r where
    r: "reduce_for bs ?k (\<lambda>s. reduce val s) ?c obj v sc = Some r"
    and e1: "e1 = (case r of Some w \<Rightarrow> Literal w | None \<Rightarrow> EFor bs coll key val cond obj sp)"
    by (auto split: option.splits)
  show ?thesis
  proof (cases r)
    case (Some w)
    have "reduce_for bs ?k (\<lambda>s. reduce val s) ?c obj v sc' = Some (Some w)"
      by (rule reduce_for_mono [OF le]) (use key [OF lit] val [OF lit] cond [OF lit] r Some in \<open>auto split: option.splits\<close>)
    with Cv e1 Some show ?thesis by simp
  qed (use e1 in simp)
qed

lemma reduce_staged_aux:
  "scope_le sc sc' \<Longrightarrow> reduce e sc = Some e1 \<Longrightarrow> outcome (reduce e1 sc') = outcome (reduce e sc')"
proof (induction e sc arbitrary: sc' e1 rule: reduce.induct)
  case (2 sy sc)
  then show ?case
    using resolve_symbol_mono [OF "2.prems"(1)] by (auto split: option.splits)
next
  case (3 op lhs rhs sp sc)
  from "3.prems"(2) obtain l r where l: "reduce lhs sc = Some l" and r: "reduce rhs sc = Some r"
    by (auto split: option.splits)
  show ?case
    by (rule staged_binary [OF l _ r _ "3.prems"(2)])
      (rule 3(1) [OF "3.prems"(1) l] 3(2) [OF l "3.prems"(1) r])+
next
  case (4 op x sp sc)
  from "4.prems"(2) obtain i where i: "reduce x sc = Some i" by (auto split: option.splits)
  note I = 4(1) [OF "4.prems"(1) i]
  show ?case
  proof (cases "e1 = EUnary op i sp")
    case True
    then show ?thesis using outcome_unary [OF I] by blast
  next
    case False
    with "4.prems"(2) i obtain a v where "i = Literal a" "eval_unary op a = Some v" "e1 = Literal v"
      by (auto elim!: is_literalE split: if_splits option.splits)
    with I show ?thesis by (simp add: eq_commute [of _ "outcome x" for x])
  qed
next
  case (5 ps sc)
  from "5.prems"(2) obtain rs where rs: "map_option_list (\<lambda>p. reduce p sc) ps = Some rs"
    by (auto split: option.splits)
  have R: "map_option lits_of (map_option_list (\<lambda>p. reduce p sc') rs) =
        map_option lits_of (map_option_list (\<lambda>p. reduce p sc') ps)"
    by (rule outcome_list [OF rs]) (use 5(1) "5.prems"(1) in blast)
  show ?case
  proof (cases "list_all is_literal rs")
    case True
    with rs "5.prems"(2) scope_leD(7) [OF "5.prems"(1)] reduce_literals_fixed [OF True, of sc']
    have "reduce (ETemplate rs) sc' = Some e1" "reduce e1 sc' = Some e1" by auto
    then show ?thesis using outcome_template [OF R] by simp
  next
    case False
    with rs "5.prems"(2) outcome_template [OF R] show ?thesis by simp
  qed
next
  case (6 ps sc)
  from "6.prems"(2) obtain rs where rs: "map_option_list (\<lambda>p. reduce p sc) ps = Some rs"
    by (auto split: option.splits)
  have R: "map_option lits_of (map_option_list (\<lambda>p. reduce p sc') rs) =
        map_option lits_of (map_option_list (\<lambda>p. reduce p sc') ps)"
    by (rule outcome_list [OF rs]) (use 6(1) "6.prems"(1) in blast)
  show ?case
  proof (cases "list_all is_literal rs")
    case True
    with rs "6.prems"(2) reduce_literals_fixed [OF True, of sc']
    have "reduce (EArray rs) sc' = Some e1" "reduce e1 sc' = Some e1" by auto
    then show ?thesis using outcome_array [OF R] by simp
  next
    case False
    with rs "6.prems"(2) outcome_array [OF R] show ?thesis by simp
  qed
next
  case (7 es sc)
  from "7.prems"(2) obtain rs where rs: "map_option_list (pair_reduce sc) es = Some rs"
    by (auto simp: reduce_object split: option.splits)
  have "list_all2 (\<lambda>x y. pair_reduce sc x = Some y) es rs"
    using rs by (simp add: map_option_list_Some_iff)
  then have "list_all2 (\<lambda>y x. outcome (reduce (fst y) sc') = outcome (reduce (fst x) sc') \<and>
                   outcome (reduce (snd y) sc') = outcome (reduce (snd x) sc')) rs es"
    unfolding list_all2_conv_all_nth
  proof (elim conjE, intro conjI allI impI)
    fix i assume len: "length es = length rs" and i: "i < length rs"
      and all: "\<forall>i<length es. pair_reduce sc (es ! i) = Some (rs ! i)"
    obtain k v where kv: "es ! i = (k, v)" by (cases "es ! i")
    then have mem: "(k, v) \<in> set es" using len i by (metis nth_mem)
    from all len i kv obtain k' v' where r: "reduce k sc = Some k'" "reduce v sc = Some v'" "rs ! i = (k', v')"
      by (fastforce simp: pair_reduce_def split: option.splits)
    from 7(1) [OF mem refl "7.prems"(1) r(1)] 7(2) [OF mem refl r(1) "7.prems"(1) r(2)]
    show "outcome (reduce (fst (rs ! i)) sc') = outcome (reduce (fst (es ! i)) sc')"
      and "outcome (reduce (snd (rs ! i)) sc') = outcome (reduce (snd (es ! i)) sc')"
      by (simp_all add: kv r(3))
  qed simp
  from outcome_object [OF pairs_outcome [OF this]]
  have O: "outcome (reduce (EObject rs) sc') = outcome (reduce (EObject es) sc')" .
  show ?case
  proof (cases "pairs_lits rs")
    case None
    with rs "7.prems"(2) O show ?thesis by (simp add: reduce_object)
  next
    case (Some m)
    then have lits: "list_all (\<lambda>e. is_str_literal (fst e)) rs \<and> list_all (\<lambda>e. is_literal (snd e)) rs"
      by (simp add: pairs_lits_def split: if_splits)
    then have "map_option_list (pair_reduce sc') rs = Some rs"
      by (intro pair_reduce_literals) (auto simp: list_all_iff dest: is_str_literal_literal)
    with Some have "reduce (EObject rs) sc' = Some (Literal (VMap m))" by (simp add: reduce_object)
    moreover from rs "7.prems"(2) Some have "e1 = Literal (VMap m)" by (simp add: reduce_object)
    ultimately have "outcome (reduce e1 sc') = outcome (reduce (EObject rs) sc')" by simp
    from trans [OF this O] show ?thesis .
  qed
next
  case (8 n args sp sc)
  from "8.prems"(2) obtain rs where rs: "map_option_list (\<lambda>p. reduce p sc) args = Some rs"
    by (auto split: option.splits)
  show ?case
    by (rule staged_call [OF "8.prems"(1) rs outcome_list [OF rs] "8.prems"(2)]) (use 8(1) "8.prems"(1) in blast)
next
  case (9 c t e sp sc)
  from "9.prems"(2) obtain c' where c: "reduce c sc = Some c'" by (auto split: option.splits)
  show ?case
  proof (rule staged_cond [OF c _ _ _ "9.prems"(2)])
    show "outcome (reduce c' sc') = outcome (reduce c sc')" by (rule 9(1) [OF "9.prems"(1) c])
  next
    fix t' assume *: "bool_literal c' \<noteq> Some False" "reduce t sc = Some t'"
    show "outcome (reduce t' sc') = outcome (reduce t sc')"
    proof (cases "bool_literal c'")
      case None
      show ?thesis by (rule 9(2) [OF c None "9.prems"(1) *(2)])
    next
      case (Some b)
      with *(1) have b by (cases b) simp_all
      show ?thesis by (rule 9(4) [OF c Some \<open>b\<close> "9.prems"(1) *(2)])
    qed
  next
    fix e' assume *: "bool_literal c' = Some False \<or> bool_literal c' = None \<and> reduce t sc \<noteq> None"
      "reduce e sc = Some e'"
    show "outcome (reduce e' sc') = outcome (reduce e sc')"
    proof (cases "bool_literal c'")
      case None
      with *(1) obtain t' where t': "reduce t sc = Some t'" by auto
      show ?thesis by (rule 9(3) [OF c None t' "9.prems"(1) *(2)])
    next
      case (Some b)
      with *(1) have "\<not> b" by (cases b) simp_all
      show ?thesis by (rule 9(5) [OF c Some \<open>\<not> b\<close> "9.prems"(1) *(2)])
    qed
  qed
next
  case (10 bs coll key val cond obj sp sc)
  from "10.prems"(2) obtain c where c: "reduce coll sc = Some c" by (auto split: option.splits)
  show ?case
    by (rule staged_for [OF "10.prems"(1) c 10(1) [OF "10.prems"(1) c] _ _ _ "10.prems"(2)];
        rule reduce_red_mono)
      (rule 10(2-4) [OF c]; assumption)+
qed simp

section \<open>Symbols are neither invented nor dropped\<close>

lemma for_result_no_symbols [simp]: "symbols_of (Literal v) = []"
  by simp

lemma list_symbols:
  "map_option_list (\<lambda>p. reduce p sc) ps = Some rs \<Longrightarrow>
   (\<And>p r. p \<in> set ps \<Longrightarrow> reduce p sc = Some r \<Longrightarrow> set (symbols_of r) \<subseteq> set (symbols_of p)) \<Longrightarrow>
   \<Union> (set (map (set \<circ> symbols_of) rs)) \<subseteq> \<Union> (set (map (set \<circ> symbols_of) ps))"
  by (fastforce dest: map_option_list_set)

lemma reduce_symbols_subset_aux: "reduce e sc = Some e1 \<Longrightarrow> set (symbols_of e1) \<subseteq> set (symbols_of e)"
proof (induction e sc arbitrary: e1 rule: reduce.induct)
  case (3 op lhs rhs sp sc)
  from "3.prems" obtain l r where l: "reduce lhs sc = Some l" and r: "reduce rhs sc = Some r"
    by (auto split: option.splits)
  from 3(1) [OF l] 3(2) [OF l r] l r "3.prems" show ?case
    by (auto split: option.splits if_splits)
next
  case (4 op x sp sc)
  from "4.prems" obtain i where i: "reduce x sc = Some i" by (auto split: option.splits)
  from 4(1) [OF i] i "4.prems" show ?case by (auto split: option.splits if_splits)
next
  case (5 ps sc)
  from "5.prems" obtain rs where rs: "map_option_list (\<lambda>p. reduce p sc) ps = Some rs"
    by (auto split: option.splits)
  from list_symbols [OF this 5(1)] "5.prems" rs show ?case by (auto split: if_splits)
next
  case (6 ps sc)
  from "6.prems" obtain rs where rs: "map_option_list (\<lambda>p. reduce p sc) ps = Some rs"
    by (auto split: option.splits)
  from list_symbols [OF this 6(1)] "6.prems" rs show ?case by (auto split: if_splits)
next
  case (7 es sc)
  from "7.prems" obtain rs where rs: "map_option_list (pair_reduce sc) es = Some rs"
    by (auto simp: reduce_object split: option.splits)
  have "set (symbols_of (fst r)) \<union> set (symbols_of (snd r)) \<subseteq> set (symbols_of (EObject es))" if mem: "r \<in> set rs" for r
  proof -
    from map_option_list_set [OF rs mem] obtain k v where kv: "(k, v) \<in> set es" "pair_reduce sc (k, v) = Some r"
      by auto
    then obtain k' v' where r: "reduce k sc = Some k'" "reduce v sc = Some v'" "r = (k', v')"
      by (auto simp: pair_reduce_def split: option.splits)
    from 7(1) [OF kv(1) refl r(1)] 7(2) [OF kv(1) refl r(1,2)] r(3) kv(1) show ?thesis
      by fastforce
  qed
  with "7.prems" rs show ?case by (fastforce simp: reduce_object split: option.splits)
next
  case (8 n args sp sc)
  from "8.prems" obtain rs where rs: "map_option_list (\<lambda>p. reduce p sc) args = Some rs"
    by (auto split: option.splits)
  from list_symbols [OF this 8(1)] "8.prems" rs show ?case
    by (auto split: if_splits option.splits sum.splits)
next
  case (9 c t e sp sc)
  from "9.prems" obtain c' where c: "reduce c sc = Some c'" by (auto split: option.splits)
  show ?case
  proof (cases "bool_literal c'")
    case None
    with "9.prems" c obtain t' e' where te: "reduce t sc = Some t'" "reduce e sc = Some e'"
      "e1 = EConditional c' t' e' sp" by (auto split: option.splits)
    from 9(1) [OF c] 9(2) [OF c None te(1)] 9(3) [OF c None te(1,2)] te(3) show ?thesis by auto
  next
    case (Some b)
    show ?thesis
    proof (cases b)
      case True
      with Some c "9.prems" have "reduce t sc = Some e1" by simp
      from 9(4) [OF c Some True this] show ?thesis by auto
    next
      case False
      with Some c "9.prems" have "reduce e sc = Some e1" by simp
      from 9(5) [OF c Some False this] show ?thesis by auto
    qed
  qed
next
  case (10 bs coll key val cond obj sp sc)
  from "10.prems" obtain c where c: "reduce coll sc = Some c" by (auto split: option.splits)
  from 10(1) [OF c] c "10.prems" show ?case
    by (cases "as_literal c") (auto split: option.splits)
qed (auto split: option.splits)

text \<open>The symbols in the positions the reducer always visits: everything but the branches of a
  conditional and the body of a comprehension.\<close>

fun strict_symbols :: "expr \<Rightarrow> symbolic set" where
  "strict_symbols (Literal v) = {}"
| "strict_symbols (Unresolved s) = {s}"
| "strict_symbols (EBinary op l r sp) = strict_symbols l \<union> strict_symbols r"
| "strict_symbols (EUnary op x sp) = strict_symbols x"
| "strict_symbols (ETemplate ps) = \<Union> (strict_symbols ` set ps)"
| "strict_symbols (EArray ps) = \<Union> (strict_symbols ` set ps)"
| "strict_symbols (EObject es) = \<Union> ((\<lambda>(k, v). strict_symbols k \<union> strict_symbols v) ` set es)"
| "strict_symbols (EFuncCall n args sp) = \<Union> (strict_symbols ` set args)"
| "strict_symbols (EConditional c t e sp) = strict_symbols c"
| "strict_symbols (EFor bs coll k v c obj sp) = strict_symbols coll"

lemma strict_symbols_subset: "strict_symbols e \<subseteq> set (symbols_of e)"
  by (induction e rule: strict_symbols.induct) (auto, blast+)

lemma strict_list:
  assumes "map_option_list (\<lambda>p. reduce p sc) ps = Some rs"
    and "\<And>p r. p \<in> set ps \<Longrightarrow> s \<in> strict_symbols p \<Longrightarrow> reduce p sc = Some r \<Longrightarrow> s \<in> strict_symbols r"
    and "s \<in> \<Union> (strict_symbols ` set ps)"
  shows "s \<in> \<Union> (strict_symbols ` set rs) \<and> \<not> list_all is_literal rs"
proof -
  from assms(3) map_option_list_image [OF assms(1)]
  obtain p r where pr: "p \<in> set ps" "s \<in> strict_symbols p" "r \<in> set rs" "reduce p sc = Some r"
    by blast
  then have r: "s \<in> strict_symbols r" using assms(2) by blast
  then have "\<not> is_literal r" by (cases r) auto
  with pr r show ?thesis by (auto simp: list_all_iff)
qed

lemma reduce_strict_symbols_aux:
  "reduce e sc = Some e1 \<Longrightarrow> resolve_symbol sc s = None \<Longrightarrow> s \<in> strict_symbols e \<Longrightarrow> s \<in> strict_symbols e1"
proof (induction e sc arbitrary: e1 rule: reduce.induct)
  case (3 op lhs rhs sp sc)
  from "3.prems"(1) obtain l r where l: "reduce lhs sc = Some l" and r: "reduce rhs sc = Some r"
    by (auto split: option.splits)
  from 3(1) [OF l "3.prems"(2)] 3(2) [OF l r "3.prems"(2)] "3.prems"(3)
  have lr: "s \<in> strict_symbols l \<union> strict_symbols r" by auto
  then have "\<not> (is_literal l \<and> is_literal r)" by (auto elim!: is_literalE)
  with lr l r "3.prems"(1) show ?case by auto
next
  case (4 op x sp sc)
  from "4.prems"(1) obtain i where i: "reduce x sc = Some i" by (auto split: option.splits)
  from 4(1) [OF i "4.prems"(2)] "4.prems"(3) have m: "s \<in> strict_symbols i" by simp
  then have "\<not> is_literal i" by (auto elim!: is_literalE)
  with i "4.prems" m show ?case by auto
next
  case (5 ps sc)
  from "5.prems"(1) obtain rs where rs: "map_option_list (\<lambda>p. reduce p sc) ps = Some rs"
    by (auto split: option.splits)
  from strict_list [OF this, of s] 5 "5.prems" rs show ?case by auto
next
  case (6 ps sc)
  from "6.prems"(1) obtain rs where rs: "map_option_list (\<lambda>p. reduce p sc) ps = Some rs"
    by (auto split: option.splits)
  from strict_list [OF this, of s] 6 "6.prems" rs show ?case by auto
next
  case (7 es sc)
  from "7.prems"(1) obtain rs where rs: "map_option_list (pair_reduce sc) es = Some rs"
    by (auto simp: reduce_object split: option.splits)
  from "7.prems"(3) obtain k v where kv: "(k, v) \<in> set es" "s \<in> strict_symbols k \<union> strict_symbols v" by auto
  from map_option_list_image [OF rs kv(1)]
  obtain r where r: "r \<in> set rs" "pair_reduce sc (k, v) = Some r" by blast
  then obtain k' v' where r': "reduce k sc = Some k'" "reduce v sc = Some v'" "r = (k', v')"
    by (auto simp: pair_reduce_def split: option.splits)
  from 7(1) [OF kv(1) refl r'(1) "7.prems"(2)] 7(2) [OF kv(1) refl r'(1,2) "7.prems"(2)] kv(2)
  have m: "s \<in> strict_symbols k' \<union> strict_symbols v'" by auto
  then have "\<not> (is_str_literal k' \<and> is_literal v')" by (auto elim!: is_literalE dest!: is_str_literal_literal)
  with r(1) r'(3) have "pairs_lits rs = None" by (force simp: pairs_lits_def list_all_iff)
  with "7.prems"(1) rs r(1) r'(3) m show ?case by (force simp: reduce_object)
next
  case (8 n args sp sc)
  from "8.prems"(1) obtain rs where rs: "map_option_list (\<lambda>p. reduce p sc) args = Some rs"
    by (auto split: option.splits)
  from strict_list [OF this, of s] 8 "8.prems" rs show ?case by auto
next
  case (9 c t e sp sc)
  from "9.prems"(1) obtain c' where c: "reduce c sc = Some c'" by (auto split: option.splits)
  from 9(1) [OF c "9.prems"(2)] "9.prems"(3) have m: "s \<in> strict_symbols c'" by simp
  then have "bool_literal c' = None" by (cases c') auto
  with m c "9.prems"(1) show ?case by (auto split: option.splits)
next
  case (10 bs coll key val cond obj sp sc)
  from "10.prems"(1) obtain c where c: "reduce coll sc = Some c" by (auto split: option.splits)
  from 10(1) [OF c "10.prems"(2)] "10.prems"(3) have m: "s \<in> strict_symbols c" by simp
  then have "as_literal c = None" by (cases c) auto
  with m c "10.prems"(1) show ?case by auto
qed (auto split: option.splits)

end
