(* ===== verification/Locals.thy ===== *)
theory Locals
  imports ReduceLaws
begin

text \<open>The locals solver (\<open>eval/locals.rs\<close>): the cycle check over the declared \<open>local.X\<close> references, a
  Tarjan pass, and the worklist that reduces the locals into the scope.

  The stack of the Tarjan state is a list with its top at the head.  The recursion of
  \<open>strongconnect\<close> is bounded by fuel, the number of nodes; \<open>LocalsTarjan\<close> proves it enough.  The
  references of a local are collected in a \<open>HashSet\<close>, whose iteration order is not specified: it is
  the parameter \<open>order\<close>, a function from the collected names to the order in which they are visited.\<close>

datatype eval_error =
    ErrCycle "address list"
  | ErrLimit limit_kind nat nat
  | ErrFunc str str
  | ErrPathEscape str path

section \<open>Tarjan's algorithm\<close>

record tarjan =
  t_index :: nat
  t_stack :: "nat list"
  t_on_stack :: "bool list"
  t_indices :: "nat option list"
  t_lowlinks :: "nat list"
  t_found :: "nat list option"

text \<open>\<open>vec.get(i).copied()\<close>; an assignment through \<open>get_mut(i)\<close> is the list update, which like it does
  nothing out of range.\<close>

definition vec_get :: "'a list \<Rightarrow> nat \<Rightarrow> 'a option" where
  "vec_get xs i = (if i < length xs then Some (xs ! i) else None)"

definition visited_index :: "tarjan \<Rightarrow> nat \<Rightarrow> nat option" where
  "visited_index st w = (case vec_get (t_indices st) w of Some (Some i) \<Rightarrow> Some i | _ \<Rightarrow> None)"

definition lowlink_of :: "tarjan \<Rightarrow> nat \<Rightarrow> nat" where
  "lowlink_of st v = (case vec_get (t_lowlinks st) v of Some l \<Rightarrow> l | None \<Rightarrow> u32_max)"

definition is_on_stack :: "tarjan \<Rightarrow> nat \<Rightarrow> bool" where
  "is_on_stack st w = (case vec_get (t_on_stack st) w of Some b \<Rightarrow> b | None \<Rightarrow> False)"

definition outgoing_of :: "nat list list \<Rightarrow> nat \<Rightarrow> nat list" where
  "outgoing_of edges v = (case vec_get edges v of Some out \<Rightarrow> out | None \<Rightarrow> [])"

definition tarjan_enter :: "nat \<Rightarrow> tarjan \<Rightarrow> tarjan" where
  "tarjan_enter v st =
     st\<lparr>t_indices := (t_indices st)[v := Some (t_index st)],
        t_lowlinks := (t_lowlinks st)[v := t_index st],
        t_index := t_index st + 1,
        t_stack := v # t_stack st,
        t_on_stack := (t_on_stack st)[v := True]\<rparr>"

definition lower_link :: "nat \<Rightarrow> nat \<Rightarrow> tarjan \<Rightarrow> tarjan" where
  "lower_link v l st = st\<lparr>t_lowlinks := (t_lowlinks st)[v := min (lowlink_of st v) l]\<rparr>"

fun pop_scc :: "nat \<Rightarrow> nat list \<Rightarrow> bool list \<Rightarrow> nat list \<times> nat list \<times> bool list" where
  "pop_scc v [] on_stack = ([], [], on_stack)"
| "pop_scc v (w # stack) on_stack =
     (let on' = on_stack[w := False] in
      if w = v then ([w], stack, on')
      else case pop_scc v stack on' of (scc, rest, on'') \<Rightarrow> (w # scc, rest, on''))"

definition tarjan_finish :: "nat \<Rightarrow> nat list list \<Rightarrow> tarjan \<Rightarrow> tarjan" where
  "tarjan_finish v edges st =
     (if vec_get (t_lowlinks st) v = visited_index st v then
        (case pop_scc v (t_stack st) (t_on_stack st) of (scc, rest, on') \<Rightarrow>
           let st' = st\<lparr>t_stack := rest, t_on_stack := on'\<rparr>;
               is_self_cycle = (length scc = 1 \<and> v \<in> set (outgoing_of edges v))
           in if length scc > 1 \<or> is_self_cycle then st'\<lparr>t_found := Some scc\<rparr> else st')
      else st)"

fun strongconnect :: "nat \<Rightarrow> nat \<Rightarrow> nat list list \<Rightarrow> tarjan \<Rightarrow> tarjan option"
and visit_outgoing :: "nat \<Rightarrow> nat \<Rightarrow> nat list \<Rightarrow> nat list list \<Rightarrow> tarjan \<Rightarrow> tarjan option" where
  "strongconnect 0 v edges st = None"
| "strongconnect (Suc fuel) v edges st =
     (if t_found st \<noteq> None then Some st
      else case visit_outgoing fuel v (outgoing_of edges v) edges (tarjan_enter v st) of
          None \<Rightarrow> None
        | Some st' \<Rightarrow> Some (tarjan_finish v edges st'))"
| "visit_outgoing fuel v [] edges st = Some st"
| "visit_outgoing fuel v (w # ws) edges st =
     (case visited_index st w of
        None \<Rightarrow> (case strongconnect fuel w edges st of
            None \<Rightarrow> None
          | Some st' \<Rightarrow> visit_outgoing fuel v ws edges (lower_link v (lowlink_of st' w) st'))
      | Some i \<Rightarrow>
          if is_on_stack st w then visit_outgoing fuel v ws edges (lower_link v i st)
          else visit_outgoing fuel v ws edges st)"

definition tarjan_init :: "nat \<Rightarrow> tarjan" where
  "tarjan_init n =
     \<lparr>t_index = 0, t_stack = [], t_on_stack = replicate n False, t_indices = replicate n None,
      t_lowlinks = replicate n 0, t_found = None\<rparr>"

fun tarjan_roots :: "nat \<Rightarrow> nat list \<Rightarrow> nat list list \<Rightarrow> tarjan \<Rightarrow> tarjan option" where
  "tarjan_roots fuel [] edges st = Some st"
| "tarjan_roots fuel (v # vs) edges st =
     (if visited_index st v = None then
        (case strongconnect fuel v edges st of
           None \<Rightarrow> None
         | Some st' \<Rightarrow> if t_found st' \<noteq> None then Some st' else tarjan_roots fuel vs edges st')
      else tarjan_roots fuel vs edges st)"

definition tarjan_first_cycle :: "nat list list \<Rightarrow> nat list option" where
  "tarjan_first_cycle edges =
     (case tarjan_roots (length edges) [0..<length edges] edges (tarjan_init (length edges)) of
        Some st \<Rightarrow> t_found st
      | None \<Rightarrow> None)"

section \<open>The cycle check\<close>

text \<open>\<open>collect_local_refs\<close>, with the \<open>HashSet\<close> it fills as the list of the names in the order they are
  met; membership is all the set is used for besides the iteration.\<close>

definition local_ref_name :: "symbolic \<Rightarrow> str option" where
  "local_ref_name s =
     (if sym_kind s = KLocal then
        (let name = hd (split_char (CHR ''.'') (strip_or_self ''local.'' (sym_source s)))
         in if name = [] then None else Some name)
      else None)"

fun collect_local_refs :: "expr \<Rightarrow> str list" where
  "collect_local_refs (Literal v) = []"
| "collect_local_refs (Unresolved s) = (case local_ref_name s of None \<Rightarrow> [] | Some n \<Rightarrow> [n])"
| "collect_local_refs (EBinary op l r sp) = collect_local_refs l @ collect_local_refs r"
| "collect_local_refs (EUnary op x sp) = collect_local_refs x"
| "collect_local_refs (ETemplate ps) = concat (map collect_local_refs ps)"
| "collect_local_refs (EArray ps) = concat (map collect_local_refs ps)"
| "collect_local_refs (EObject es) =
     concat (map (\<lambda>(k, v). collect_local_refs k @ collect_local_refs v) es)"
| "collect_local_refs (EFuncCall n args sp) = concat (map collect_local_refs args)"
| "collect_local_refs (EConditional c t e sp) =
     collect_local_refs c @ collect_local_refs t @ collect_local_refs e"
| "collect_local_refs (EFor bs coll k v c obj sp) =
     collect_local_refs coll @ collect_local_refs v
     @ (case k of None \<Rightarrow> [] | Some k' \<Rightarrow> collect_local_refs k')
     @ (case c of None \<Rightarrow> [] | Some c' \<Rightarrow> collect_local_refs c')"

text \<open>\<open>name_to_idx\<close> collects pairs into a \<open>HashMap\<close>: the last local of a name wins.\<close>

definition name_to_idx :: "local_def list \<Rightarrow> str \<Rightarrow> nat option" where
  "name_to_idx locals = map_of (rev (zip (map loc_name locals) [0..<length locals]))"

definition local_edges :: "(str list \<Rightarrow> str list) \<Rightarrow> local_def list \<Rightarrow> nat list list" where
  "local_edges order locals =
     map (\<lambda>l. List.map_filter (name_to_idx locals) (order (collect_local_refs (loc_value l)))) locals"

text \<open>The participants: a \<open>BTreeMap\<close> from the address string, read in key order.\<close>

definition cycle_addresses :: "local_def list \<Rightarrow> nat list \<Rightarrow> address list" where
  "cycle_addresses locals scc =
     sort (remdups (List.map_filter
       (\<lambda>i. if i < length locals then
              (case address_new (''local.'' @ loc_name (locals ! i)) of Inr a \<Rightarrow> Some a | Inl _ \<Rightarrow> None)
            else None) scc))"

definition check_cycle :: "(str list \<Rightarrow> str list) \<Rightarrow> local_def list \<Rightarrow> eval_error + unit" where
  "check_cycle order locals =
     (case tarjan_first_cycle (local_edges order locals) of
        Some scc \<Rightarrow> Err (ErrCycle (cycle_addresses locals scc))
      | None \<Rightarrow> Ok ())"

section \<open>The worklist\<close>

text \<open>One pass over the locals.  The result is the updated list, the scope, the names that have
  converged and whether the pass made progress; \<open>None\<close> is a panic of the reducer.\<close>

fun solve_pass :: "local_def list \<Rightarrow> scope \<Rightarrow> str list \<Rightarrow> bool \<Rightarrow> (local_def list \<times> scope \<times> str list \<times> bool) option" where
  "solve_pass [] sc converged progress = Some ([], sc, converged, progress)"
| "solve_pass (l # ls) sc converged progress =
     (if loc_name l \<in> set converged then
        map_option (\<lambda>(out, r). (l # out, r)) (solve_pass ls sc converged progress)
      else case reduce (loc_value l) sc of
          None \<Rightarrow> None
        | Some reduced \<Rightarrow>
            let progressed = (\<not> expr_eq reduced (loc_value l)); l' = l\<lparr>loc_value := reduced\<rparr> in
            case as_literal reduced of
              Some v \<Rightarrow>
                map_option (\<lambda>(out, r). (l' # out, r))
                  (solve_pass ls (sc\<lparr>sc_locals := sc_locals sc @ [(loc_name l, v)]\<rparr>)
                     (converged @ [loc_name l]) True)
            | None \<Rightarrow>
                map_option (\<lambda>(out, r). (l' # out, r))
                  (solve_pass ls sc converged (progress \<or> progressed)))"

fun solve_iter :: "nat \<Rightarrow> local_def list \<Rightarrow> scope \<Rightarrow> str list \<Rightarrow> (local_def list \<times> scope) option" where
  "solve_iter 0 ls sc converged = Some (ls, sc)"
| "solve_iter (Suc k) ls sc converged =
     (case solve_pass ls sc converged False of
        None \<Rightarrow> None
      | Some (ls', sc', converged', progress) \<Rightarrow>
          if \<not> progress then Some (ls', sc') else solve_iter k ls' sc' converged')"

text \<open>\<open>solve_locals\<close>: the result with the scope it leaves behind.\<close>

definition solve_locals ::
  "(str list \<Rightarrow> str list) \<Rightarrow> local_def list \<Rightarrow> scope \<Rightarrow> ((eval_error + local_def list) \<times> scope) option" where
  "solve_locals order locals sc =
     (case check_cycle order locals of
        Inl e \<Rightarrow> Some (Err e, sc)
      | Inr _ \<Rightarrow> map_option (\<lambda>(out, sc'). (Ok out, sc')) (solve_iter (length locals + 1) locals sc []))"

end
