(* ===== verification/LocalsTarjan.thy ===== *)
theory LocalsTarjan
  imports Locals
begin

text \<open>Correctness of the cycle check: with as much fuel as there are nodes the recursion completes, and
  the check finds something exactly when the declared reference graph has a cycle.

  \<open>tinv\<close> is the invariant of a run that has found nothing yet; \<open>done_nodes\<close> are the nodes popped from
  the stack, a set closed under the edges and acyclic.  \<open>sc_post\<close> and \<open>visit_post\<close> are the
  specifications of the two mutually recursive procedures.\<close>

section \<open>The graph\<close>

definition edge_rel :: "nat list list \<Rightarrow> (nat \<times> nat) set" where
  "edge_rel edges = {(v, w). v < length edges \<and> w \<in> set (edges ! v)}"

definition edges_wf :: "nat list list \<Rightarrow> bool" where
  "edges_wf edges \<longleftrightarrow> (\<forall>out \<in> set edges. \<forall>w \<in> set out. w < length edges)"

lemma outgoing_of_eq: "v < length edges \<Longrightarrow> outgoing_of edges v = edges ! v"
  by (simp add: outgoing_of_def vec_get_def)

lemma edge_rel_bound: "edges_wf edges \<Longrightarrow> (v, w) \<in> edge_rel edges \<Longrightarrow> v < length edges \<and> w < length edges"
  by (auto simp: edge_rel_def edges_wf_def)

section \<open>Fuel\<close>

definition unvisited :: "tarjan \<Rightarrow> nat set" where
  "unvisited st = {v. v < length (t_indices st) \<and> t_indices st ! v = None}"

lemma finite_unvisited [simp]: "finite (unvisited st)"
  by (simp add: unvisited_def)

lemma visited_index_None: "w < length (t_indices st) \<Longrightarrow> visited_index st w = None \<longleftrightarrow> w \<in> unvisited st"
  by (auto simp: visited_index_def vec_get_def unvisited_def split: option.splits)

lemma unvisited_enter:
  "v \<in> unvisited st \<Longrightarrow> unvisited (tarjan_enter v st) = unvisited st - {v}"
  by (auto simp: unvisited_def tarjan_enter_def nth_list_update)

lemma unvisited_lower [simp]: "unvisited (lower_link v l st) = unvisited st"
  by (simp add: unvisited_def lower_link_def)

lemma t_indices_lower [simp]: "t_indices (lower_link v l st) = t_indices st"
  by (simp add: lower_link_def)

lemma t_indices_finish [simp]: "t_indices (tarjan_finish v edges st) = t_indices st"
  by (simp add: tarjan_finish_def Let_def split: prod.split)

lemma unvisited_finish [simp]: "unvisited (tarjan_finish v edges st) = unvisited st"
  by (simp add: unvisited_def)

lemma t_indices_enter [simp]: "length (t_indices (tarjan_enter v st)) = length (t_indices st)"
  by (simp add: tarjan_enter_def)

lemma strongconnect_total:
  "length (t_indices st) = length edges \<Longrightarrow> edges_wf edges \<Longrightarrow> v \<in> unvisited st \<Longrightarrow>
   card (unvisited st) \<le> fuel \<Longrightarrow>
   \<exists>st'. strongconnect fuel v edges st = Some st' \<and> unvisited st' \<subseteq> unvisited st \<and>
         length (t_indices st') = length edges"
  and visit_outgoing_total:
  "length (t_indices st) = length edges \<Longrightarrow> edges_wf edges \<Longrightarrow> set ws \<subseteq> {..<length edges} \<Longrightarrow>
   card (unvisited st) \<le> fuel \<Longrightarrow>
   \<exists>st'. visit_outgoing fuel v ws edges st = Some st' \<and> unvisited st' \<subseteq> unvisited st \<and>
         length (t_indices st') = length edges"
proof (induction fuel v edges st and fuel v ws edges st rule: strongconnect_visit_outgoing.induct)
  case (1 v edges st)
  then have "card (unvisited st) > 0" by (auto simp: card_gt_0_iff)
  with 1 show ?case by simp
next
  case (2 fuel v edges st)
  show ?case
  proof (cases "t_found st = None")
    case True
    have v: "v < length edges" using "2.prems"(1,3) by (simp add: unvisited_def)
    have "card (unvisited (tarjan_enter v st)) \<le> fuel"
      using "2.prems"(3,4) by (simp add: unvisited_enter)
    moreover have "set (outgoing_of edges v) \<subseteq> {..<length edges}"
      using v "2.prems"(2) by (auto simp: outgoing_of_eq edges_wf_def)
    ultimately obtain st' where "visit_outgoing fuel v (outgoing_of edges v) edges (tarjan_enter v st) = Some st'"
      "unvisited st' \<subseteq> unvisited (tarjan_enter v st)" "length (t_indices st') = length edges"
      using 2 True by fastforce
    with True "2.prems"(3) show ?thesis by (auto simp: unvisited_enter)
  qed (use 2 in auto)
next
  case (4 fuel v w ws edges st)
  have w: "w < length (t_indices st)" using "4.prems"(1,3) by simp
  have ws: "set ws \<subseteq> {..<length edges}" using "4.prems"(3) by simp
  show ?case
  proof (cases "visited_index st w")
    case None
    with w have "w \<in> unvisited st" by (simp add: visited_index_None)
    with 4(1) [OF None "4.prems"(1,2)] "4.prems"(4) obtain st1 where
      st1: "strongconnect fuel w edges st = Some st1" "unvisited st1 \<subseteq> unvisited st"
        "length (t_indices st1) = length edges" by blast
    have "card (unvisited (lower_link v (lowlink_of st1 w) st1)) \<le> fuel"
      using card_mono [OF finite_unvisited st1(2)] "4.prems"(4) by simp
    with 4(2) [OF None st1(1) _ "4.prems"(2) ws] st1(3) obtain st' where
      "visit_outgoing fuel v ws edges (lower_link v (lowlink_of st1 w) st1) = Some st'"
      "unvisited st' \<subseteq> unvisited st1" "length (t_indices st') = length edges" by auto
    with None st1 show ?thesis by auto
  next
    case (Some i)
    show ?thesis
    proof (cases "is_on_stack st w")
      case True
      with 4(3) [OF Some True _ "4.prems"(2) ws] "4.prems"(1,4) Some show ?thesis by simp
    next
      case False
      with 4(4) [OF Some False "4.prems"(1,2) ws "4.prems"(4)] Some show ?thesis by simp
    qed
  qed
qed auto

lemma found_stays:
  "strongconnect fuel v edges st = Some st' \<Longrightarrow> t_found st \<noteq> None \<Longrightarrow> t_found st' \<noteq> None"
  by (cases fuel) (auto split: if_splits)

lemma visit_found_stays:
  "visit_outgoing fuel v ws edges st = Some st' \<Longrightarrow> t_found st \<noteq> None \<Longrightarrow> t_found st' \<noteq> None"
proof (induction ws arbitrary: st)
  case (Cons w ws)
  show ?case
  proof (cases "visited_index st w")
    case None
    with Cons.prems obtain st1 where st1: "strongconnect fuel w edges st = Some st1"
      "visit_outgoing fuel v ws edges (lower_link v (lowlink_of st1 w) st1) = Some st'"
      by (auto split: option.splits)
    have "t_found (lower_link v (lowlink_of st1 w) st1) \<noteq> None"
      using found_stays [OF st1(1) Cons.prems(2)] by (simp add: lower_link_def)
    with Cons.IH st1(2) show ?thesis by blast
  next
    case (Some i)
    have "t_found (lower_link v i st) \<noteq> None" using Cons.prems(2) by (simp add: lower_link_def)
    with Cons.IH Cons.prems Some show ?thesis by (auto split: if_splits)
  qed
qed auto

section \<open>The invariant\<close>

definition idx :: "tarjan \<Rightarrow> nat \<Rightarrow> nat" where
  "idx st v = the (t_indices st ! v)"

definition low :: "tarjan \<Rightarrow> nat \<Rightarrow> nat" where
  "low st v = t_lowlinks st ! v"

definition done_nodes :: "tarjan \<Rightarrow> nat set" where
  "done_nodes st = {v. v < length (t_indices st) \<and> t_indices st ! v \<noteq> None \<and> v \<notin> set (t_stack st)}"

definition tinv :: "nat list list \<Rightarrow> nat \<Rightarrow> tarjan \<Rightarrow> bool" where
  "tinv edges b st \<longleftrightarrow>
     length (t_on_stack st) = length edges \<and> length (t_indices st) = length edges
     \<and> length (t_lowlinks st) = length edges
     \<and> t_found st = None
     \<and> distinct (t_stack st) \<and> set (t_stack st) \<subseteq> {..<length edges}
     \<and> (\<forall>v < length edges. t_on_stack st ! v = (v \<in> set (t_stack st)))
     \<and> (\<forall>v \<in> set (t_stack st). t_indices st ! v \<noteq> None)
     \<and> (\<forall>v < length edges. \<forall>i. t_indices st ! v = Some i \<longrightarrow> i < t_index st)
     \<and> sorted_wrt (\<lambda>x y. idx st x > idx st y) (t_stack st)
     \<and> (\<forall>x \<in> set (t_stack st). b \<le> low st x \<and> low st x \<le> idx st x)
     \<and> edge_rel edges `` done_nodes st \<subseteq> done_nodes st
     \<and> acyclic (edge_rel edges \<inter> done_nodes st \<times> done_nodes st)"

lemma tinvD:
  assumes "tinv edges b st"
  shows "length (t_on_stack st) = length edges" "length (t_indices st) = length edges"
    "length (t_lowlinks st) = length edges" "t_found st = None"
    "distinct (t_stack st)" "\<And>v. v \<in> set (t_stack st) \<Longrightarrow> v < length edges"
    "\<And>v. v < length edges \<Longrightarrow> t_on_stack st ! v = (v \<in> set (t_stack st))"
    "\<And>v. v \<in> set (t_stack st) \<Longrightarrow> t_indices st ! v = Some (idx st v)"
    "\<And>v i. v < length edges \<Longrightarrow> t_indices st ! v = Some i \<Longrightarrow> i < t_index st"
    "sorted_wrt (\<lambda>x y. idx st x > idx st y) (t_stack st)"
    "\<And>x. x \<in> set (t_stack st) \<Longrightarrow> b \<le> low st x" "\<And>x. x \<in> set (t_stack st) \<Longrightarrow> low st x \<le> idx st x"
    "edge_rel edges `` done_nodes st \<subseteq> done_nodes st"
    "acyclic (edge_rel edges \<inter> done_nodes st \<times> done_nodes st)"
  using assms by (auto simp: tinv_def idx_def)

lemma tinv_idx_less: "tinv edges b st \<Longrightarrow> v \<in> set (t_stack st) \<Longrightarrow> idx st v < t_index st"
  using tinvD(6,8,9) by blast

text \<open>What a call leaves of the state it was given.\<close>

definition extends :: "nat list list \<Rightarrow> tarjan \<Rightarrow> tarjan \<Rightarrow> bool" where
  "extends edges st st' \<longleftrightarrow>
     (\<forall>x < length edges. \<forall>i. t_indices st ! x = Some i \<longrightarrow> t_indices st' ! x = Some i)
     \<and> t_index st \<le> t_index st' \<and> done_nodes st \<subseteq> done_nodes st'"

lemma extends_refl: "extends edges st st"
  by (simp add: extends_def)

lemma extends_trans: "extends edges s1 s2 \<Longrightarrow> extends edges s2 s3 \<Longrightarrow> extends edges s1 s3"
  unfolding extends_def by (meson order_trans)

lemma extends_idx:
  "extends edges st st' \<Longrightarrow> tinv edges b st \<Longrightarrow> x \<in> set (t_stack st) \<Longrightarrow> idx st' x = idx st x"
  using tinvD(6,8) unfolding extends_def idx_def by (metis option.sel)

text \<open>Entering a node.\<close>

lemma tinv_enter:
  assumes inv: "tinv edges b st" and v: "v < length edges" "t_indices st ! v = None" and b: "b \<le> t_index st"
  shows "tinv edges b (tarjan_enter v st)"
proof -
  note I = tinvD [OF inv]
  let ?s = "tarjan_enter v st"
  have vs: "v \<notin> set (t_stack st)" using I(8) v(2) by force
  have vd: "v \<notin> done_nodes st" using v(2) by (simp add: done_nodes_def)
  have ix: "idx ?s x = (if x = v then t_index st else idx st x)" if "x < length edges" for x
    using that I(2) by (simp add: idx_def tarjan_enter_def nth_list_update)
  have lw: "low ?s x = (if x = v then t_index st else low st x)" if "x < length edges" for x
    using that I(3) by (simp add: low_def tarjan_enter_def nth_list_update)
  have d: "done_nodes ?s = done_nodes st"
    using v I(2) vs by (auto simp: done_nodes_def tarjan_enter_def nth_list_update)
  have st: "t_stack ?s = v # t_stack st" by (simp add: tarjan_enter_def)
  have srt: "sorted_wrt (\<lambda>x y. idx ?s x > idx ?s y) (t_stack ?s)"
  proof -
    have "sorted_wrt (\<lambda>x y. idx ?s x > idx ?s y) (t_stack st)"
      using I(10) by (rule sorted_wrt_mono_rel [rotated]) (use I(6) vs in \<open>auto simp: ix\<close>)
    moreover have "\<forall>y \<in> set (t_stack st). idx ?s y < idx ?s v"
      using tinv_idx_less [OF inv] I(6) vs v(1) by (auto simp: ix)
    ultimately show ?thesis by (simp add: st)
  qed
  have lows: "\<forall>x \<in> set (t_stack ?s). b \<le> low ?s x \<and> low ?s x \<le> idx ?s x"
    using I(6,11,12) v(1) b vs by (auto simp: st ix lw)
  have "(\<forall>x < length edges. t_on_stack ?s ! x = (x \<in> set (t_stack ?s)))"
    using I(1,7) v(1) by (auto simp: tarjan_enter_def nth_list_update)
  moreover have "\<forall>x \<in> set (t_stack ?s). t_indices ?s ! x \<noteq> None"
    using I(2,8) v(1) by (auto simp: tarjan_enter_def nth_list_update)
  moreover have "\<forall>x < length edges. \<forall>i. t_indices ?s ! x = Some i \<longrightarrow> i < t_index ?s"
    using I(2,9) v(1) by (auto simp: tarjan_enter_def nth_list_update less_Suc_eq split: if_splits)
  ultimately show ?thesis
    unfolding tinv_def d
    using I(1-6,13,14) v(1) vs srt lows by (auto simp: tarjan_enter_def)
qed

lemma enter_simps:
  assumes "tinv edges b st" and "v < length edges"
  shows "idx (tarjan_enter v st) v = t_index st" "low (tarjan_enter v st) v = t_index st"
    "t_stack (tarjan_enter v st) = v # t_stack st" "t_index (tarjan_enter v st) = Suc (t_index st)"
    "\<And>x. x \<noteq> v \<Longrightarrow> low (tarjan_enter v st) x = low st x"
    "t_indices (tarjan_enter v st) ! v = Some (t_index st)"
  using assms tinvD(2,3) by (auto simp: idx_def low_def tarjan_enter_def)

lemma extends_enter:
  assumes "tinv edges b st" and "v < length edges" and "t_indices st ! v = None"
  shows "extends edges st (tarjan_enter v st)"
  using assms tinvD(2) [OF assms(1)]
  by (auto simp: extends_def tarjan_enter_def nth_list_update done_nodes_def)

text \<open>Lowering a link.\<close>

lemma lowlink_of_eq: "tinv edges b st \<Longrightarrow> v < length edges \<Longrightarrow> lowlink_of st v = low st v"
  by (simp add: lowlink_of_def vec_get_def low_def tinvD(3))

lemma lower_link_simps [simp]:
  "t_stack (lower_link v l st) = t_stack st" "t_index (lower_link v l st) = t_index st"
  "t_on_stack (lower_link v l st) = t_on_stack st" "t_found (lower_link v l st) = t_found st"
  "idx (lower_link v l st) = idx st" "done_nodes (lower_link v l st) = done_nodes st"
  by (simp_all add: lower_link_def idx_def done_nodes_def fun_eq_iff)

lemma low_lower_link:
  "tinv edges b st \<Longrightarrow> v < length edges \<Longrightarrow> low (lower_link v l st) x = (if x = v then min (low st v) l else low st x)"
  using tinvD(3) [of edges b st] lowlink_of_eq [of edges b st v]
  by (auto simp: lower_link_def low_def)

lemma tinv_lower_link:
  assumes "tinv edges b st" and "v < length edges" and "b \<le> l"
  shows "tinv edges b (lower_link v l st)"
proof -
  have len: "length (t_lowlinks (lower_link v l st)) = length edges"
    using tinvD(3) [OF assms(1)] by (simp add: lower_link_def)
  show ?thesis
    using assms(1,3) len low_lower_link [OF assms(1,2), of l] unfolding tinv_def by auto
qed

lemma extends_lower_link: "extends edges st (lower_link v l st)"
  by (simp add: extends_def)

section \<open>The specifications of the two procedures\<close>

definition sc_post :: "nat list list \<Rightarrow> nat \<Rightarrow> nat \<Rightarrow> tarjan \<Rightarrow> tarjan \<Rightarrow> bool" where
  "sc_post edges b v st st' \<longleftrightarrow>
     (t_found st' \<noteq> None \<longrightarrow> \<not> acyclic (edge_rel edges)) \<and>
     (t_found st' = None \<longrightarrow>
        tinv edges b st' \<and> extends edges st st' \<and> t_indices st' ! v = Some (t_index st) \<and>
        (\<forall>x \<in> set (t_stack st). low st' x = low st x) \<and>
        (\<exists>new. t_stack st' = new @ t_stack st \<and>
           (\<forall>x \<in> set new. (v, x) \<in> (edge_rel edges)\<^sup>* \<and> (\<exists>z \<in> set (t_stack st). (x, z) \<in> (edge_rel edges)\<^sup>*)) \<and>
           (v \<in> set new \<and> (\<exists>z \<in> set (t_stack st). idx st' z = low st' v \<and> (v, z) \<in> (edge_rel edges)\<^sup>*)
            \<or> new = [] \<and> v \<in> done_nodes st' \<and> low st' v = t_index st)))"

definition visit_post :: "nat list list \<Rightarrow> nat \<Rightarrow> nat \<Rightarrow> nat list \<Rightarrow> tarjan \<Rightarrow> tarjan \<Rightarrow> bool" where
  "visit_post edges b v ws st st' \<longleftrightarrow>
     (t_found st' \<noteq> None \<longrightarrow> \<not> acyclic (edge_rel edges)) \<and>
     (t_found st' = None \<longrightarrow>
        tinv edges b st' \<and> extends edges st st' \<and>
        (\<forall>x \<in> set (t_stack st) - {v}. low st' x = low st x) \<and> low st' v \<le> low st v \<and>
        (\<exists>new. t_stack st' = new @ t_stack st \<and>
           (\<forall>x \<in> set new. (v, x) \<in> (edge_rel edges)\<^sup>+ \<and> (x, v) \<in> (edge_rel edges)\<^sup>*)) \<and>
        (\<forall>w \<in> set ws. w \<in> done_nodes st' \<or> w \<in> set (t_stack st') \<and> low st' v \<le> idx st' w) \<and>
        (\<exists>z \<in> set (t_stack st'). idx st' z = low st' v \<and> (v, z) \<in> (edge_rel edges)\<^sup>*))"

text \<open>One step of the visit, then the rest.\<close>

lemma visit_post_step:
  assumes inv: "tinv edges b st" and v: "v \<in> set (t_stack st)"
    and inv1: "tinv edges b st1" and ext: "extends edges st st1"
    and low1: "\<forall>x \<in> set (t_stack st) - {v}. low st1 x = low st x" "low st1 v \<le> low st v"
    and stk: "t_stack st1 = new @ t_stack st"
    and new: "\<forall>x \<in> set new. (v, x) \<in> (edge_rel edges)\<^sup>+ \<and> (x, v) \<in> (edge_rel edges)\<^sup>*"
    and w: "w \<in> done_nodes st1 \<or> w \<in> set (t_stack st1) \<and> low st1 v \<le> idx st1 w"
    and rest: "visit_post edges b v ws st1 st'"
  shows "visit_post edges b v (w # ws) st st'"
proof (cases "t_found st' = None")
  case True
  with rest obtain new' where
    r: "tinv edges b st'" "extends edges st1 st'" "\<forall>x \<in> set (t_stack st1) - {v}. low st' x = low st1 x"
      "low st' v \<le> low st1 v" "t_stack st' = new' @ t_stack st1"
      "\<forall>x \<in> set new'. (v, x) \<in> (edge_rel edges)\<^sup>+ \<and> (x, v) \<in> (edge_rel edges)\<^sup>*"
      "\<forall>w \<in> set ws. w \<in> done_nodes st' \<or> w \<in> set (t_stack st') \<and> low st' v \<le> idx st' w"
      "\<exists>z \<in> set (t_stack st'). idx st' z = low st' v \<and> (v, z) \<in> (edge_rel edges)\<^sup>*"
    unfolding visit_post_def by blast
  have "w \<in> done_nodes st' \<or> w \<in> set (t_stack st') \<and> low st' v \<le> idx st' w"
  proof (cases "w \<in> done_nodes st1")
    case True
    with r(2) show ?thesis by (auto simp: extends_def)
  next
    case False
    with w have ws: "w \<in> set (t_stack st1)" "low st1 v \<le> idx st1 w" by auto
    with r(4,5) extends_idx [OF r(2) inv1 ws(1)] show ?thesis by simp
  qed
  moreover have "extends edges st st'" by (rule extends_trans [OF ext r(2)])
  moreover have "\<forall>x \<in> set (t_stack st) - {v}. low st' x = low st x" using r(3) low1(1) stk by auto
  moreover have "low st' v \<le> low st v" using r(4) low1(2) by simp
  moreover have "t_stack st' = (new' @ new) @ t_stack st" using r(5) stk by simp
  moreover have "\<forall>x \<in> set (new' @ new). (v, x) \<in> (edge_rel edges)\<^sup>+ \<and> (x, v) \<in> (edge_rel edges)\<^sup>*"
    using r(6) new by auto
  ultimately show ?thesis using True r(1,7,8) unfolding visit_post_def by fastforce
next
  case False
  with rest show ?thesis unfolding visit_post_def by blast
qed

text \<open>Descending into an unvisited successor.\<close>

lemma visit_post_descend:
  assumes inv: "tinv edges b st" and v: "v \<in> set (t_stack st)" and e: "(v, w) \<in> edge_rel edges"
    and reach: "\<forall>y \<in> set (t_stack st). (y, v) \<in> (edge_rel edges)\<^sup>*"
    and bck: "\<exists>z \<in> set (t_stack st). idx st z = low st v \<and> (v, z) \<in> (edge_rel edges)\<^sup>*"
    and sc: "sc_post edges b w st st1" and found: "t_found st1 = None" and ww: "w < length edges"
  defines "s2 \<equiv> lower_link v (lowlink_of st1 w) st1"
  shows "tinv edges b s2" "extends edges st s2"
    "\<forall>x \<in> set (t_stack st) - {v}. low s2 x = low st x" "low s2 v \<le> low st v"
    "\<exists>new. t_stack s2 = new @ t_stack st \<and>
       (\<forall>x \<in> set new. (v, x) \<in> (edge_rel edges)\<^sup>+ \<and> (x, v) \<in> (edge_rel edges)\<^sup>*)"
    "w \<in> done_nodes s2 \<or> w \<in> set (t_stack s2) \<and> low s2 v \<le> idx s2 w"
    "\<exists>z \<in> set (t_stack s2). idx s2 z = low s2 v \<and> (v, z) \<in> (edge_rel edges)\<^sup>*"
proof -
  let ?R = "edge_rel edges"
  note I = tinvD [OF inv]
  from sc found obtain new where
    p: "tinv edges b st1" "extends edges st st1" "t_indices st1 ! w = Some (t_index st)"
      "\<forall>x \<in> set (t_stack st). low st1 x = low st x" "t_stack st1 = new @ t_stack st"
      "\<forall>x \<in> set new. (w, x) \<in> ?R\<^sup>* \<and> (\<exists>z \<in> set (t_stack st). (x, z) \<in> ?R\<^sup>*)"
      "w \<in> set new \<and> (\<exists>z \<in> set (t_stack st). idx st1 z = low st1 w \<and> (w, z) \<in> ?R\<^sup>*)
       \<or> new = [] \<and> w \<in> done_nodes st1 \<and> low st1 w = t_index st"
    unfolding sc_post_def by blast
  have vl: "v < length edges" by (rule I(6) [OF v])
  have vb: "b \<le> low st v" "low st v \<le> idx st v" "idx st v < t_index st"
    using I(11,12) v tinv_idx_less [OF inv v] by auto
  have lw: "lowlink_of st1 w = low st1 w" by (rule lowlink_of_eq [OF p(1) ww])
  have bw: "b \<le> low st1 w"
  proof (cases "w \<in> set new")
    case True
    then show ?thesis using tinvD(11) [OF p(1)] p(5) by simp
  next
    case False
    with p(7) vb show ?thesis by auto
  qed
  show "tinv edges b s2" unfolding s2_def lw by (rule tinv_lower_link [OF p(1) vl bw])
  show "extends edges st s2" unfolding s2_def by (rule extends_trans [OF p(2) extends_lower_link])
  have low2: "low s2 x = (if x = v then min (low st1 v) (low st1 w) else low st1 x)" for x
    unfolding s2_def lw by (rule low_lower_link [OF p(1) vl])
  show "\<forall>x \<in> set (t_stack st) - {v}. low s2 x = low st x" using p(4) by (simp add: low2)
  show "low s2 v \<le> low st v" using p(4) v by (simp add: low2)
  have "(v, x) \<in> ?R\<^sup>+ \<and> (x, v) \<in> ?R\<^sup>*" if "x \<in> set new" for x
    using p(6) that e reach by (meson rtrancl_into_trancl2 rtrancl_trans)
  then show "\<exists>new. t_stack s2 = new @ t_stack st \<and> (\<forall>x \<in> set new. (v, x) \<in> ?R\<^sup>+ \<and> (x, v) \<in> ?R\<^sup>*)"
    using p(5) by (auto simp: s2_def)
  show "w \<in> done_nodes s2 \<or> w \<in> set (t_stack s2) \<and> low s2 v \<le> idx s2 w"
  proof (cases "w \<in> set new")
    case True
    then have m: "w \<in> set (t_stack st1)" using p(5) by simp
    then have "low st1 w \<le> idx st1 w" by (rule tinvD(12) [OF p(1)])
    then have "low s2 v \<le> idx st1 w" by (simp add: low2 min.coboundedI2)
    with m show ?thesis by (simp add: s2_def)
  qed (use p(7) in \<open>auto simp: s2_def\<close>)
  have idx2: "idx st1 z = idx st z" if "z \<in> set (t_stack st)" for z by (rule extends_idx [OF p(2) inv that])
  show "\<exists>z \<in> set (t_stack s2). idx s2 z = low s2 v \<and> (v, z) \<in> ?R\<^sup>*"
  proof (cases "low st1 w < low st v")
    case True
    with p(7) vb obtain z where "z \<in> set (t_stack st)" "idx st1 z = low st1 w" "(w, z) \<in> ?R\<^sup>*" by auto
    moreover have "low s2 v = low st1 w" using True p(4) v by (simp add: low2)
    ultimately show ?thesis
      using e p(5) by (intro bexI [of _ z]) (auto simp: s2_def intro: converse_rtrancl_into_rtrancl)
  next
    case False
    then have "low s2 v = low st v" using p(4) v by (simp add: low2)
    moreover from bck obtain z where "z \<in> set (t_stack st)" "idx st z = low st v" "(v, z) \<in> ?R\<^sup>*" by blast
    ultimately show ?thesis using p(5) idx2 [of z] by (intro bexI [of _ z]) (auto simp: s2_def)
  qed
qed

text \<open>An edge to a node on the stack.\<close>

lemma visit_post_back_edge:
  assumes inv: "tinv edges b st" and v: "v \<in> set (t_stack st)" and e: "(v, w) \<in> edge_rel edges"
    and w: "w \<in> set (t_stack st)"
    and bck: "\<exists>z \<in> set (t_stack st). idx st z = low st v \<and> (v, z) \<in> (edge_rel edges)\<^sup>*"
  defines "s2 \<equiv> lower_link v (idx st w) st"
  shows "tinv edges b s2" "extends edges st s2"
    "\<forall>x \<in> set (t_stack st) - {v}. low s2 x = low st x" "low s2 v \<le> low st v"
    "w \<in> set (t_stack s2) \<and> low s2 v \<le> idx s2 w"
    "\<exists>z \<in> set (t_stack s2). idx s2 z = low s2 v \<and> (v, z) \<in> (edge_rel edges)\<^sup>*"
proof -
  note I = tinvD [OF inv]
  have vl: "v < length edges" by (rule I(6) [OF v])
  have low2: "low s2 x = (if x = v then min (low st v) (idx st w) else low st x)" for x
    unfolding s2_def by (rule low_lower_link [OF inv vl])
  have "b \<le> idx st w" using I(11,12) [OF w] by linarith
  then show "tinv edges b s2" unfolding s2_def by (rule tinv_lower_link [OF inv vl])
  show "extends edges st s2" unfolding s2_def by (rule extends_lower_link)
  show "\<forall>x \<in> set (t_stack st) - {v}. low s2 x = low st x" by (simp add: low2)
  show "low s2 v \<le> low st v" by (simp add: low2)
  have "low s2 v \<le> idx st w" by (simp add: low2)
  then show "w \<in> set (t_stack s2) \<and> low s2 v \<le> idx s2 w" using w by (simp add: s2_def)
  show "\<exists>z \<in> set (t_stack s2). idx s2 z = low s2 v \<and> (v, z) \<in> (edge_rel edges)\<^sup>*"
  proof (cases "idx st w < low st v")
    case True
    then have "low s2 v = idx st w" by (simp add: low2)
    with w e show ?thesis by (intro bexI [of _ w]) (auto simp: s2_def)
  next
    case False
    then have "low s2 v = low st v" by (simp add: low2)
    with bck show ?thesis by (auto simp: s2_def)
  qed
qed

text \<open>Popping a component.\<close>

lemma pop_scc_split:
  "v \<notin> set new \<Longrightarrow> \<exists>on'. pop_scc v (new @ v # rest) on_stack = (new @ [v], rest, on')"
proof (induction new arbitrary: on_stack)
  case (Cons w new)
  then obtain on' where "pop_scc v (new @ v # rest) (on_stack[w := False]) = (new @ [v], rest, on')"
    by fastforce
  with Cons show ?case by simp
qed simp

lemma acyclic_insert_sink:
  assumes closed: "R `` D \<subseteq> D" and acyc: "acyclic (R \<inter> D \<times> D)" and out: "R `` {v} \<subseteq> D" and v: "v \<notin> D"
  shows "acyclic (R \<inter> insert v D \<times> insert v D)"
proof -
  let ?R' = "R \<inter> insert v D \<times> insert v D"
  have step: "(x, y) \<in> ?R' \<Longrightarrow> y \<in> D" for x y using closed out by blast
  have inD: "(x, y) \<in> ?R'\<^sup>+ \<Longrightarrow> y \<in> D" for x y
    by (erule tranclE) (use step in blast)+
  have in_D: "(x, y) \<in> ?R'\<^sup>+ \<Longrightarrow> x \<in> D \<Longrightarrow> (x, y) \<in> (R \<inter> D \<times> D)\<^sup>+" for x y
  proof (induction rule: trancl_induct)
    case (base y)
    then show ?case using step by blast
  next
    case (step y z)
    then have "y \<in> D" "z \<in> D" using inD step(2) \<open>\<And>x y. (x, y) \<in> ?R' \<Longrightarrow> y \<in> D\<close> by blast+
    with step show ?case by (meson Int_iff SigmaI trancl.trancl_into_trancl)
  qed
  then show ?thesis
    using acyc inD in_D unfolding acyclic_def by blast
qed

text \<open>Finishing a node whose successors have all been visited.\<close>

lemma sorted_top_above:
  assumes "sorted_wrt (\<lambda>x y. idx st x > idx st y) (new @ v # rest)"
  shows "x \<in> set new \<Longrightarrow> idx st v < idx st x" "x \<in> set rest \<Longrightarrow> idx st x < idx st v"
  using assms by (auto simp: sorted_wrt_append)

lemma finish_found:
  assumes inv: "tinv edges b st1" and stk: "t_stack st1 = new @ v # rest" and vl: "v < length edges"
    and new: "\<forall>x \<in> set new. (v, x) \<in> (edge_rel edges)\<^sup>+ \<and> (x, v) \<in> (edge_rel edges)\<^sup>*"
    and found: "t_found (tarjan_finish v edges st1) \<noteq> None"
  shows "\<not> acyclic (edge_rel edges)"
proof -
  have nv: "v \<notin> set new" using tinvD(5) [OF inv] stk by simp
  from pop_scc_split [OF nv] obtain on' where
    pop: "pop_scc v (t_stack st1) (t_on_stack st1) = (new @ [v], rest, on')" by (metis stk)
  with found tinvD(4) [OF inv] have "new \<noteq> [] \<or> v \<in> set (edges ! v)"
    by (auto simp: tarjan_finish_def Let_def outgoing_of_eq [OF vl] split: if_splits)
  then show ?thesis
  proof
    assume "new \<noteq> []"
    then obtain x where "x \<in> set new" by (cases new) auto
    with new have "(v, v) \<in> (edge_rel edges)\<^sup>+" by (meson trancl_rtrancl_trancl)
    then show ?thesis by (auto simp: acyclic_def)
  next
    assume "v \<in> set (edges ! v)"
    then have "(v, v) \<in> edge_rel edges" using vl by (simp add: edge_rel_def)
    then show ?thesis by (auto simp: acyclic_def)
  qed
qed

lemma finish_pop:
  assumes inv: "tinv edges b st1" and stk: "t_stack st1 = v # rest" and vl: "v < length edges"
    and eq: "low st1 v = idx st1 v" and noself: "v \<notin> set (edges ! v)"
    and succ: "\<forall>w \<in> set (edges ! v). w \<in> done_nodes st1 \<or> w \<in> set (t_stack st1) \<and> low st1 v \<le> idx st1 w"
  shows "tinv edges b (tarjan_finish v edges st1)" "t_stack (tarjan_finish v edges st1) = rest"
    "done_nodes (tarjan_finish v edges st1) = insert v (done_nodes st1)"
    "t_index (tarjan_finish v edges st1) = t_index st1" "low (tarjan_finish v edges st1) = low st1"
proof -
  note I = tinvD [OF inv]
  let ?s = "tarjan_finish v edges st1"
  have iv: "t_indices st1 ! v = Some (idx st1 v)" by (rule I(8)) (simp add: stk)
  have pop: "pop_scc v (t_stack st1) (t_on_stack st1) = ([v], rest, (t_on_stack st1)[v := False])"
    by (simp add: stk)
  have "vec_get (t_lowlinks st1) v = visited_index st1 v"
    using eq iv vl I(2,3) by (simp add: vec_get_def visited_index_def low_def)
  then have s: "?s = st1\<lparr>t_stack := rest, t_on_stack := (t_on_stack st1)[v := False]\<rparr>"
    using pop noself by (simp add: tarjan_finish_def Let_def outgoing_of_eq [OF vl])
  show "t_stack ?s = rest" "t_index ?s = t_index st1" "low ?s = low st1"
    by (simp_all add: s low_def fun_eq_iff)
  have vr: "v \<notin> set rest" using I(5) by (simp add: stk)
  show d: "done_nodes ?s = insert v (done_nodes st1)"
    using iv vl I(2) vr by (auto simp: done_nodes_def s stk)
  have vd: "v \<notin> done_nodes st1" by (simp add: done_nodes_def stk)
  have out: "edge_rel edges `` {v} \<subseteq> done_nodes st1"
  proof
    fix w assume "w \<in> edge_rel edges `` {v}"
    then have w: "w \<in> set (edges ! v)" by (simp add: edge_rel_def)
    show "w \<in> done_nodes st1"
    proof (rule ccontr)
      assume "w \<notin> done_nodes st1"
      with succ w have ws: "w \<in> set (t_stack st1)" "low st1 v \<le> idx st1 w" by auto
      with w noself stk have "w \<in> set rest" by auto
      then have "idx st1 w < idx st1 v" using I(10) by (simp add: stk)
      with ws(2) eq show False by simp
    qed
  qed
  have "acyclic (edge_rel edges \<inter> done_nodes ?s \<times> done_nodes ?s)"
    unfolding d by (rule acyclic_insert_sink [OF I(13,14) out vd])
  moreover have "edge_rel edges `` done_nodes ?s \<subseteq> done_nodes ?s"
    unfolding d using I(13) out by auto
  moreover have "idx ?s = idx st1" "low ?s = low st1" by (simp_all add: s idx_def low_def fun_eq_iff)
  moreover have "\<forall>x < length edges. t_on_stack ?s ! x = (x \<in> set (t_stack ?s))"
    using I(1,7) vl vr by (auto simp: s stk nth_list_update)
  ultimately show "tinv edges b ?s"
    using inv unfolding tinv_def by (simp add: s stk)
qed

lemma sc_post_finish:
  assumes inv: "tinv edges b st" and v: "v < length edges" "t_indices st ! v = None" and b: "b \<le> t_index st"
    and reach: "\<forall>y \<in> set (t_stack st). (y, v) \<in> (edge_rel edges)\<^sup>*"
    and vp: "visit_post edges b v (outgoing_of edges v) (tarjan_enter v st) st1"
  shows "sc_post edges b v st (tarjan_finish v edges st1)"
proof (cases "t_found st1 = None")
  case False
  with vp have "\<not> acyclic (edge_rel edges)" unfolding visit_post_def by blast
  moreover have "t_found (tarjan_finish v edges st1) \<noteq> None"
    using False by (auto simp: tarjan_finish_def Let_def split: prod.split)
  ultimately show ?thesis unfolding sc_post_def by blast
next
  case True
  note ent = tinv_enter [OF inv v b]
  note es = enter_simps [OF inv v(1)]
  let ?R = "edge_rel edges" and ?s = "tarjan_finish v edges st1"
  from vp True obtain new z where
    p: "tinv edges b st1" "extends edges (tarjan_enter v st) st1"
      "\<forall>x \<in> set (t_stack st). x \<noteq> v \<longrightarrow> low st1 x = low st x"
      "t_stack st1 = new @ v # t_stack st"
      "\<forall>x \<in> set new. (v, x) \<in> ?R\<^sup>+ \<and> (x, v) \<in> ?R\<^sup>*"
      "\<forall>w \<in> set (edges ! v). w \<in> done_nodes st1 \<or> w \<in> set (t_stack st1) \<and> low st1 v \<le> idx st1 w"
      "z \<in> set (t_stack st1)" "idx st1 z = low st1 v" "(v, z) \<in> ?R\<^sup>*"
    unfolding visit_post_def by (auto simp: es outgoing_of_eq [OF v(1)])
  note I1 = tinvD [OF p(1)]
  have vst: "v \<notin> set (t_stack st)" using tinvD(8) [OF inv] v(2) by force
  have ext: "extends edges st st1"
    by (rule extends_trans [OF extends_enter [OF inv v] p(2)])
  have iv: "t_indices st1 ! v = Some (t_index st)"
    using p(2) es(6) v(1) by (simp add: extends_def)
  have lowold: "\<forall>x \<in> set (t_stack st). low st1 x = low st x" using p(3) vst by auto
  show ?thesis
  proof (cases "t_found ?s = None")
    case False
    with finish_found [OF p(1) p(4) v(1) p(5)] show ?thesis unfolding sc_post_def by blast
  next
    case fn: True
    show ?thesis
    proof (cases "low st1 v = idx st1 v")
      case eq: True
      have nv: "v \<notin> set new" using I1(5) p(4) by simp
      from pop_scc_split [OF nv] obtain on' where
        pop: "pop_scc v (t_stack st1) (t_on_stack st1) = (new @ [v], t_stack st, on')" by (metis p(4))
      have "vec_get (t_lowlinks st1) v = visited_index st1 v"
        using eq iv v(1) I1(2,3) by (simp add: vec_get_def visited_index_def low_def idx_def)
      with fn pop have "new = []" "v \<notin> set (edges ! v)"
        by (auto simp: tarjan_finish_def Let_def outgoing_of_eq [OF v(1)] split: if_splits)
      note F = finish_pop [OF p(1) _ v(1) eq this(2) p(6), of "t_stack st"]
      have stk: "t_stack st1 = v # t_stack st" using p(4) \<open>new = []\<close> by simp
      have "extends edges st1 ?s" using F(3,4) [OF stk] by (auto simp: extends_def)
      then have "extends edges st ?s" by (rule extends_trans [OF ext])
      moreover have "low ?s v = t_index st" using F(5) [OF stk] eq iv by (simp add: idx_def)
      ultimately show ?thesis
        using fn F [OF stk] iv lowold unfolding sc_post_def by simp
    next
      case neq: False
      have "vec_get (t_lowlinks st1) v \<noteq> visited_index st1 v"
        using neq iv v(1) I1(2,3) by (simp add: vec_get_def visited_index_def low_def idx_def)
      then have s: "?s = st1" by (simp add: tarjan_finish_def)
      have "low st1 v < idx st1 v" using I1(12) [of v] neq p(4) by simp
      with p(8) have "idx st1 z < idx st1 v" by simp
      moreover have "sorted_wrt (\<lambda>x y. idx st1 x > idx st1 y) (new @ v # t_stack st)"
        using I1(10) p(4) by simp
      ultimately have z: "z \<in> set (t_stack st)"
        using p(4,7) sorted_top_above(1) [of st1 new v "t_stack st" z] by fastforce
      have "\<forall>x \<in> set (new @ [v]). (v, x) \<in> ?R\<^sup>* \<and> (\<exists>z \<in> set (t_stack st). (x, z) \<in> ?R\<^sup>*)"
        using p(5,9) z by (auto intro: trancl_into_rtrancl) (meson rtrancl_trans)
      moreover have "t_stack ?s = (new @ [v]) @ t_stack st" using p(4) s by simp
      moreover have "v \<in> set (new @ [v])" by simp
      ultimately show ?thesis
        using True p(1,8,9) ext iv lowold z unfolding sc_post_def s by blast
    qed
  qed
qed

section \<open>The main induction\<close>

lemma strongconnect_correct:
  "strongconnect fuel v edges st = Some st' \<Longrightarrow> edges_wf edges \<Longrightarrow> tinv edges b st \<Longrightarrow> v < length edges \<Longrightarrow>
   t_indices st ! v = None \<Longrightarrow> b \<le> t_index st \<Longrightarrow>
   \<forall>y \<in> set (t_stack st). (y, v) \<in> (edge_rel edges)\<^sup>* \<Longrightarrow> sc_post edges b v st st'"
  and visit_outgoing_correct:
  "visit_outgoing fuel v ws edges st = Some st' \<Longrightarrow> edges_wf edges \<Longrightarrow> tinv edges b st \<Longrightarrow>
   v \<in> set (t_stack st) \<Longrightarrow> set ws \<subseteq> set (edges ! v) \<Longrightarrow>
   \<forall>y \<in> set (t_stack st). (y, v) \<in> (edge_rel edges)\<^sup>* \<Longrightarrow>
   \<exists>z \<in> set (t_stack st). idx st z = low st v \<and> (v, z) \<in> (edge_rel edges)\<^sup>* \<Longrightarrow>
   visit_post edges b v ws st st'"
proof (induction fuel v edges st and fuel v ws edges st arbitrary: st' and st'
    rule: strongconnect_visit_outgoing.induct)
  case (2 fuel v edges st)
  have nf: "\<not> t_found st \<noteq> None" using tinvD(4) [OF "2.prems"(3)] by simp
  from "2.prems"(1) nf obtain st1 where
    v1: "visit_outgoing fuel v (outgoing_of edges v) edges (tarjan_enter v st) = Some st1"
    and st': "st' = tarjan_finish v edges st1"
    by (auto split: option.splits)
  note ent = tinv_enter [OF "2.prems"(3-6)]
  note es = enter_simps [OF "2.prems"(3,4)]
  have "visit_post edges b v (outgoing_of edges v) (tarjan_enter v st) st1"
    by (rule "2.IH" [OF nf v1 "2.prems"(2) ent])
      (use "2.prems"(4,7) in \<open>auto simp: es outgoing_of_eq\<close>)
  with st' sc_post_finish [OF "2.prems"(3-7)] show ?case by simp
next
  case (3 fuel v edges st)
  then show ?case
    using tinvD(4) by (auto simp: visit_post_def extends_refl)
next
  case (4 fuel v w ws edges st)
  note inv = "4.prems"(3) and v = "4.prems"(4)
  have vl: "v < length edges" by (rule tinvD(6) [OF inv v])
  have w: "(v, w) \<in> edge_rel edges" using "4.prems"(5) vl by (simp add: edge_rel_def)
  have ww: "w < length edges" using edge_rel_bound [OF "4.prems"(2) w] by simp
  have ws: "set ws \<subseteq> set (edges ! v)" using "4.prems"(5) by simp
  show ?case
  proof (cases "visited_index st w")
    case None
    with "4.prems"(1) obtain st1 where
      sc: "strongconnect fuel w edges st = Some st1"
      and rest: "visit_outgoing fuel v ws edges (lower_link v (lowlink_of st1 w) st1) = Some st'"
      by (auto split: option.splits)
    have un: "t_indices st ! w = None"
      using None ww tinvD(2) [OF inv] by (simp add: visited_index_None unvisited_def)
    have b: "b \<le> t_index st"
      using tinvD(11,12) [OF inv v] tinv_idx_less [OF inv v] by linarith
    have "\<forall>y \<in> set (t_stack st). (y, w) \<in> (edge_rel edges)\<^sup>*"
      using "4.prems"(6) w by (meson rtrancl.rtrancl_into_rtrancl)
    from "4.IH"(1) [OF None sc "4.prems"(2) inv ww un b this]
    have post: "sc_post edges b w st st1" .
    show ?thesis
    proof (cases "t_found st1 = None")
      case True
      note D = visit_post_descend [OF inv v w "4.prems"(6,7) post True ww]
      from D(5) obtain new where new: "t_stack (lower_link v (lowlink_of st1 w) st1) = new @ t_stack st"
        "\<forall>x \<in> set new. (v, x) \<in> (edge_rel edges)\<^sup>+ \<and> (x, v) \<in> (edge_rel edges)\<^sup>*" by blast
      have "visit_post edges b v ws (lower_link v (lowlink_of st1 w) st1) st'"
        by (rule "4.IH"(2) [OF None sc rest "4.prems"(2) D(1) _ ws _ D(7)])
          (use v new "4.prems"(6) in auto)
      then show ?thesis
        by (rule visit_post_step [OF inv v D(1,2,3,4) new D(6)])
    next
      case False
      with post have "\<not> acyclic (edge_rel edges)" unfolding sc_post_def by blast
      moreover have "t_found st' \<noteq> None"
        by (rule visit_found_stays [OF rest]) (use False in simp)
      ultimately show ?thesis unfolding visit_post_def by blast
    qed
  next
    case (Some i)
    have ti: "t_indices st ! w = Some i"
      using Some ww tinvD(2) [OF inv] by (auto simp: visited_index_def vec_get_def split: option.splits)
    have onw: "is_on_stack st w = (w \<in> set (t_stack st))"
      using ww tinvD(1,7) [OF inv] by (simp add: is_on_stack_def vec_get_def)
    show ?thesis
    proof (cases "is_on_stack st w")
      case True
      with onw have wst: "w \<in> set (t_stack st)" by simp
      have i: "i = idx st w" using ti by (simp add: idx_def)
      note D = visit_post_back_edge [OF inv v w wst "4.prems"(7)]
      have "visit_post edges b v ws (lower_link v i st) st'"
        by (rule "4.IH"(3) [OF Some True _ "4.prems"(2) _ _ ws])
          (use "4.prems"(1,6) Some True D v in \<open>auto simp: i\<close>)
      then show ?thesis
        using D by (intro visit_post_step [OF inv v D(1,2,3,4), of "[]"]) (auto simp: i)
    next
      case False
      have "visit_post edges b v ws st st'"
        by (rule "4.IH"(4) [OF Some False _ "4.prems"(2) inv v ws "4.prems"(6,7)])
          (use "4.prems"(1) Some False in auto)
      moreover have "w \<in> done_nodes st"
        using ti ww False onw tinvD(2) [OF inv] by (simp add: done_nodes_def)
      ultimately show ?thesis
        by (intro visit_post_step [OF inv v inv extends_refl, of "[]"]) auto
    qed
  qed
qed auto

section \<open>The whole pass\<close>

lemma tinv_empty_stack: "tinv edges b st \<Longrightarrow> t_stack st = [] \<Longrightarrow> tinv edges b' st"
  by (simp add: tinv_def)

lemma tarjan_roots_correct:
  assumes "tarjan_roots fuel vs edges st = Some st'" and wf: "edges_wf edges" and "tinv edges 0 st"
    and "t_stack st = []" and "set vs \<subseteq> {..<length edges}"
  shows "(t_found st' \<noteq> None \<longrightarrow> \<not> acyclic (edge_rel edges)) \<and>
    (t_found st' = None \<longrightarrow> tinv edges 0 st' \<and> t_stack st' = [] \<and> done_nodes st \<union> set vs \<subseteq> done_nodes st')"
  using assms(1,3-)
proof (induction vs arbitrary: st)
  case Nil
  then show ?case using tinvD(4) by auto
next
  case (Cons v vs)
  have v: "v < length edges" using Cons.prems(4) by simp
  have len: "length (t_indices st) = length edges" by (rule tinvD(2) [OF Cons.prems(2)])
  show ?case
  proof (cases "visited_index st v = None")
    case True
    with v len have un: "t_indices st ! v = None" by (simp add: visited_index_None unvisited_def)
    from True Cons.prems(1) obtain st1 where sc: "strongconnect fuel v edges st = Some st1"
      and rest: "if t_found st1 \<noteq> None then st' = st1 else tarjan_roots fuel vs edges st1 = Some st'"
      by (auto split: option.splits if_splits)
    have post: "sc_post edges (t_index st) v st st1"
      by (rule strongconnect_correct [OF sc wf tinv_empty_stack [OF Cons.prems(2,3)] v un])
        (simp_all add: Cons.prems(3))
    show ?thesis
    proof (cases "t_found st1 = None")
      case False
      with rest post show ?thesis unfolding sc_post_def by auto
    next
      case fn: True
      with post Cons.prems(3) have p: "tinv edges (t_index st) st1" "t_stack st1 = []"
        "v \<in> done_nodes st1" "extends edges st st1"
        unfolding sc_post_def by auto
      have "tarjan_roots fuel vs edges st1 = Some st'" using rest fn by simp
      from Cons.IH [OF this tinv_empty_stack [OF p(1,2)] p(2)] Cons.prems(4) p(3,4) show ?thesis
        unfolding extends_def by auto
    qed
  next
    case False
    with v len have "v \<in> done_nodes st"
      using Cons.prems(3) visited_index_None [of v st] by (simp add: done_nodes_def unvisited_def)
    moreover have "tarjan_roots fuel vs edges st = Some st'" using False Cons.prems(1) by auto
    ultimately show ?thesis using Cons.IH Cons.prems by auto
  qed
qed

lemma tarjan_roots_total:
  "length (t_indices st) = length edges \<Longrightarrow> edges_wf edges \<Longrightarrow> set vs \<subseteq> {..<length edges} \<Longrightarrow>
   card (unvisited st) \<le> fuel \<Longrightarrow> \<exists>st'. tarjan_roots fuel vs edges st = Some st'"
proof (induction vs arbitrary: st)
  case (Cons v vs)
  show ?case
  proof (cases "visited_index st v = None")
    case True
    with Cons.prems have "v \<in> unvisited st" by (simp add: visited_index_None)
    from strongconnect_total [OF Cons.prems(1,2) this Cons.prems(4)] obtain st1 where
      st1: "strongconnect fuel v edges st = Some st1" "unvisited st1 \<subseteq> unvisited st"
        "length (t_indices st1) = length edges" by blast
    have "card (unvisited st1) \<le> fuel"
      using card_mono [OF finite_unvisited st1(2)] Cons.prems(4) by simp
    with Cons.IH [OF st1(3) Cons.prems(2)] Cons.prems(3) obtain st' where
      "tarjan_roots fuel vs edges st1 = Some st'" by auto
    with True st1(1) show ?thesis by (cases "t_found st1") auto
  qed (use Cons in auto)
qed simp

lemma tarjan_init_inv: "tinv edges 0 (tarjan_init (length edges))"
proof -
  have "done_nodes (tarjan_init (length edges)) = {}" by (auto simp: done_nodes_def tarjan_init_def)
  then show ?thesis by (simp add: tinv_def tarjan_init_def acyclic_def)
qed

lemma unvisited_init: "unvisited (tarjan_init n) = {..<n}"
  by (auto simp: unvisited_def tarjan_init_def)

text \<open>The verdict of the pass is right, and \<open>length edges\<close> is enough fuel for it.\<close>

lemma tarjan_first_cycle_None_iff:
  assumes wf: "edges_wf edges"
  shows "tarjan_first_cycle edges = None \<longleftrightarrow> acyclic (edge_rel edges)"
proof -
  let ?n = "length edges"
  have len: "length (t_indices (tarjan_init ?n)) = ?n" by (simp add: tarjan_init_def)
  obtain st' where st': "tarjan_roots ?n [0..<?n] edges (tarjan_init ?n) = Some st'"
    using tarjan_roots_total [OF len wf, of "[0..<?n]" ?n] by (auto simp: unvisited_init atLeast0LessThan)
  have stk: "t_stack (tarjan_init ?n) = []" by (simp add: tarjan_init_def)
  have sub: "set [0..<?n] \<subseteq> {..<?n}" by auto
  note C = tarjan_roots_correct [OF st' wf tarjan_init_inv stk sub]
  have r: "tarjan_first_cycle edges = t_found st'" by (simp add: tarjan_first_cycle_def st')
  show ?thesis
  proof (cases "t_found st' = None")
    case True
    with C have inv: "tinv edges 0 st'" and d: "{..<?n} \<subseteq> done_nodes st'" by auto
    have "edge_rel edges \<subseteq> done_nodes st' \<times> done_nodes st'"
      using edge_rel_bound [OF wf] d by auto
    then have "edge_rel edges \<inter> done_nodes st' \<times> done_nodes st' = edge_rel edges" by blast
    with tinvD(14) [OF inv] True r show ?thesis by simp
  next
    case False
    with C r show ?thesis by auto
  qed
qed

section \<open>The cycle check\<close>

text \<open>The declared dependency graph of the locals: an edge from each local to the last local of every
  name it refers to.\<close>

definition local_dep_rel :: "local_def list \<Rightarrow> (nat \<times> nat) set" where
  "local_dep_rel locals =
     {(i, j). i < length locals \<and>
        (\<exists>d \<in> set (collect_local_refs (loc_value (locals ! i))). name_to_idx locals d = Some j)}"

lemma name_to_idx_bound: "name_to_idx locals d = Some j \<Longrightarrow> j < length locals \<and> loc_name (locals ! j) = d"
  by (auto simp: name_to_idx_def dest!: map_of_SomeD simp: set_zip)

lemma name_to_idx_dom: "name_to_idx locals d \<noteq> None \<longleftrightarrow> d \<in> loc_name ` set locals"
proof -
  let ?z = "zip (map loc_name locals) [0..<length locals]"
  have "fst ` set ?z = set (map fst ?z)" by (rule set_map [symmetric])
  also have "map fst ?z = map loc_name locals" by (rule map_fst_zip) simp
  finally have "fst ` set ?z = loc_name ` set locals" by simp
  then show ?thesis by (simp add: name_to_idx_def map_of_eq_None_iff)
qed

lemma set_map_filter: "set (List.map_filter f xs) = {y. \<exists>x \<in> set xs. f x = Some y}"
  by (induction xs) (auto simp: List.map_filter_simps split: option.splits)

lemma local_edges_wf: "edges_wf (local_edges order locals)"
  by (auto simp: edges_wf_def local_edges_def set_map_filter dest: name_to_idx_bound)

lemma edge_rel_local_edges:
  assumes "\<And>xs. set (order xs) = set xs"
  shows "edge_rel (local_edges order locals) = local_dep_rel locals"
  by (auto simp: edge_rel_def local_dep_rel_def local_edges_def set_map_filter assms)

lemma check_cycle_Ok_iff:
  assumes "\<And>xs. set (order xs) = set xs"
  shows "check_cycle order locals = Ok () \<longleftrightarrow> acyclic (local_dep_rel locals)"
  using tarjan_first_cycle_None_iff [OF local_edges_wf, of order locals] edge_rel_local_edges [OF assms]
  by (auto simp: check_cycle_def split: option.splits)

end
