(* ===== verification/LocalsSolve.thy ===== *)
theory LocalsSolve
  imports LocalsTarjan
begin

text \<open>The worklist of \<open>solve_locals\<close> reaches its fixpoint within the iterations the code allows
  (\<open>locals.len() + 1\<close>): a pass either converges a local or is followed by passes that change nothing.
  With the cycle check and staged reduction it follows that an acyclic set of locals whose other
  references are bound resolves completely.\<close>

section \<open>One pass\<close>

definition push_locals :: "scope \<Rightarrow> vmap \<Rightarrow> scope" where
  "push_locals sc new = sc\<lparr>sc_locals := sc_locals sc @ new\<rparr>"

lemma push_locals_simps [simp]:
  "push_locals sc [] = sc" "push_locals (push_locals sc a) b = push_locals sc (a @ b)"
  by (simp_all add: push_locals_def)

lemma scope_le_trans: "scope_le a b \<Longrightarrow> scope_le b c \<Longrightarrow> scope_le a c"
  by (auto simp: scope_le_def intro: map_le_trans)

lemma scope_le_push: "scope_le sc (push_locals sc new)"
  by (auto simp: scope_le_def push_locals_def map_le_def map_add_def)

lemma scope_le_push_take: "scope_le (push_locals sc (take k new)) (push_locals sc new)"
  using scope_le_push [of "push_locals sc (take k new)" "drop k new"] by simp

text \<open>What a pass does to the list, the scope and the converged names: \<open>new\<close> are the bindings it adds.\<close>

definition step_rel :: "scope \<Rightarrow> str list \<Rightarrow> vmap \<Rightarrow> local_def \<Rightarrow> local_def \<Rightarrow> bool" where
  "step_rel sc conv new l l' \<longleftrightarrow>
     (if loc_name l \<in> set conv then l' = l
      else (\<exists>k. reduce (loc_value l) (push_locals sc (take k new)) = Some (loc_value l'))
           \<and> loc_name l' = loc_name l
           \<and> (if is_literal (loc_value l') then (loc_name l, lit_value (loc_value l')) \<in> set new
              else loc_name l \<notin> fst ` set new))"

definition pass_rel :: "local_def list \<Rightarrow> scope \<Rightarrow> str list \<Rightarrow> local_def list \<Rightarrow> scope \<Rightarrow> str list \<Rightarrow> vmap \<Rightarrow> bool" where
  "pass_rel ls sc conv ls' sc' conv' new \<longleftrightarrow>
     sc' = push_locals sc new \<and> conv' = conv @ map fst new \<and> list_all2 (step_rel sc conv new) ls ls'"

lemma step_rel_name: "step_rel sc conv new l l' \<Longrightarrow> loc_name l' = loc_name l"
  by (auto simp: step_rel_def split: if_splits)

lemma pass_rel_names: "pass_rel ls sc conv ls' sc' conv' new \<Longrightarrow> map loc_name ls' = map loc_name ls"
proof -
  assume "pass_rel ls sc conv ls' sc' conv' new"
  then have "list_all2 (step_rel sc conv new) ls ls'" by (simp add: pass_rel_def)
  then show ?thesis by (induction rule: list_all2_induct) (auto dest: step_rel_name)
qed

lemma step_rel_shift:
  assumes "step_rel (push_locals sc [(n, v)]) (conv @ [n]) new l l'" and "loc_name l \<noteq> n"
  shows "step_rel sc conv ((n, v) # new) l l'"
proof (cases "loc_name l \<in> set conv")
  case False
  with assms obtain k where k: "reduce (loc_value l) (push_locals (push_locals sc [(n, v)]) (take k new)) = Some (loc_value l')"
    by (auto simp: step_rel_def)
  then have "reduce (loc_value l) (push_locals sc (take (Suc k) ((n, v) # new))) = Some (loc_value l')"
    by simp
  then have "\<exists>k. reduce (loc_value l) (push_locals sc (take k ((n, v) # new))) = Some (loc_value l')"
    by blast
  moreover have "loc_name l' = loc_name l" by (rule step_rel_name [OF assms(1)])
  ultimately show ?thesis using False assms unfolding step_rel_def by auto
qed (use assms in \<open>simp add: step_rel_def\<close>)

lemma solve_pass_rel:
  "solve_pass ls sc conv pr = Some (ls', sc', conv', pr') \<Longrightarrow> distinct (map loc_name ls) \<Longrightarrow>
   \<exists>new. pass_rel ls sc conv ls' sc' conv' new \<and> fst ` set new \<subseteq> loc_name ` set ls - set conv
         \<and> distinct (map fst new) \<and> (new \<noteq> [] \<or> pr \<longrightarrow> pr')"
proof (induction ls arbitrary: sc conv pr ls' sc' conv' pr')
  case Nil
  then show ?case by (intro exI [of _ "[]"]) (auto simp: pass_rel_def)
next
  case (Cons l ls)
  have d: "loc_name l \<notin> loc_name ` set ls" "distinct (map loc_name ls)" using Cons.prems(2) by auto
  show ?case
  proof (cases "loc_name l \<in> set conv")
    case True
    with Cons.prems(1) obtain out where o: "ls' = l # out" "solve_pass ls sc conv pr = Some (out, sc', conv', pr')"
      by auto
    from Cons.IH [OF o(2) d(2)] True o(1) show ?thesis
      by (auto simp: pass_rel_def step_rel_def)
  next
    case nc: False
    with Cons.prems(1) obtain r where r: "reduce (loc_value l) sc = Some r" by (auto split: option.splits)
    let ?l' = "l\<lparr>loc_value := r\<rparr>"
    show ?thesis
    proof (cases "as_literal r")
      case None
      with Cons.prems(1) nc r obtain out pr1 where
        o: "ls' = ?l' # out" "solve_pass ls sc conv pr1 = Some (out, sc', conv', pr')" "pr \<longrightarrow> pr1"
        by auto
      from Cons.IH [OF o(2) d(2)] obtain new where
        n: "pass_rel ls sc conv out sc' conv' new" "fst ` set new \<subseteq> loc_name ` set ls - set conv"
          "distinct (map fst new)" "new \<noteq> [] \<or> pr1 \<longrightarrow> pr'" by blast
      have "loc_name l \<notin> fst ` set new" using n(2) d(1) by auto
      with r nc None have "step_rel sc conv new l ?l'"
        by (auto simp: step_rel_def as_literal_None intro!: exI [of _ 0])
      with n o(1,3) show ?thesis by (intro exI [of _ new]) (auto simp: pass_rel_def)
    next
      case (Some v)
      let ?sc = "push_locals sc [(loc_name l, v)]"
      from Some Cons.prems(1) nc r obtain out where
        o: "ls' = ?l' # out" "solve_pass ls ?sc (conv @ [loc_name l]) True = Some (out, sc', conv', pr')"
        by (auto simp: push_locals_def simp del: as_literal_Some)
      from Cons.IH [OF o(2) d(2)] obtain new where
        n: "pass_rel ls ?sc (conv @ [loc_name l]) out sc' conv' new"
          "fst ` set new \<subseteq> loc_name ` set ls - set (conv @ [loc_name l])" "distinct (map fst new)" "pr'" by blast
      let ?new = "(loc_name l, v) # new"
      have "step_rel sc conv ?new l ?l'"
        using r nc Some by (auto simp: step_rel_def intro!: exI [of _ 0])
      moreover have "list_all2 (step_rel sc conv ?new) ls out"
      proof (rule list.rel_mono_strong)
        show "list_all2 (step_rel ?sc (conv @ [loc_name l]) new) ls out"
          using n(1) by (simp add: pass_rel_def)
        fix x x' assume "x \<in> set ls" "step_rel ?sc (conv @ [loc_name l]) new x x'"
        then show "step_rel sc conv ?new x x'"
          using d(1) by (intro step_rel_shift) (simp, metis imageI)
      qed
      ultimately have "pass_rel (l # ls) sc conv ls' sc' conv' ?new"
        using n(1) o(1) by (simp add: pass_rel_def)
      with n(2-4) nc show ?thesis by (intro exI [of _ ?new]) auto
    qed
  qed
qed

section \<open>The fixpoint\<close>

text \<open>Between passes converged locals are literals; a stable state is one no pass changes.\<close>

definition settled :: "local_def list \<Rightarrow> str list \<Rightarrow> bool" where
  "settled ls conv \<longleftrightarrow> (\<forall>l \<in> set ls. loc_name l \<in> set conv \<longrightarrow> is_literal (loc_value l))"

definition stable :: "local_def list \<Rightarrow> scope \<Rightarrow> str list \<Rightarrow> bool" where
  "stable ls sc conv \<longleftrightarrow> settled ls conv \<and>
     (\<forall>l \<in> set ls. loc_name l \<notin> set conv \<longrightarrow>
        \<not> is_literal (loc_value l) \<and> reduce (loc_value l) sc = Some (loc_value l))"

definition open_count :: "local_def list \<Rightarrow> str list \<Rightarrow> nat" where
  "open_count ls conv = length (filter (\<lambda>n. n \<notin> set conv) (map loc_name ls))"

lemma list_all2_right:
  "list_all2 P xs ys \<Longrightarrow> y \<in> set ys \<Longrightarrow> \<exists>x \<in> set xs. P x y"
  by (induction rule: list_all2_induct) auto

lemma list_all2_left:
  "list_all2 P xs ys \<Longrightarrow> x \<in> set xs \<Longrightarrow> \<exists>y \<in> set ys. P x y"
  by (induction rule: list_all2_induct) auto

lemma step_settled:
  assumes "step_rel sc conv new l l'" and "settled ls conv" and "l \<in> set ls"
    and "loc_name l' \<in> set (conv @ map fst new)"
  shows "is_literal (loc_value l')"
  using assms by (auto simp: step_rel_def settled_def split: if_splits)

lemma pass_settled:
  assumes "pass_rel ls sc conv ls' sc' conv' new" and "settled ls conv"
  shows "settled ls' conv'"
  unfolding settled_def
proof (intro ballI impI)
  fix l' assume l': "l' \<in> set ls'" "loc_name l' \<in> set conv'"
  from assms(1) l'(1) obtain l where "l \<in> set ls" "step_rel sc conv new l l'"
    unfolding pass_rel_def by (auto dest!: list_all2_right)
  with step_settled [of sc conv new l l' ls] assms l'(2) show "is_literal (loc_value l')"
    by (simp add: pass_rel_def)
qed

text \<open>A pass that converges nothing leaves a stable state, and a stable state is left as it is.\<close>

lemma pass_stable:
  assumes "pass_rel ls sc conv ls' sc' conv' []" and "settled ls conv"
  shows "stable ls' sc' conv' \<and> sc' = sc \<and> conv' = conv"
proof -
  have sc: "sc' = sc" "conv' = conv" using assms(1) by (simp_all add: pass_rel_def)
  have "\<not> is_literal (loc_value l') \<and> reduce (loc_value l') sc = Some (loc_value l')"
    if l': "l' \<in> set ls'" "loc_name l' \<notin> set conv" for l'
  proof -
    from assms(1) l'(1) obtain l where l: "l \<in> set ls" "step_rel sc conv [] l l'"
      unfolding pass_rel_def by (auto dest!: list_all2_right)
    with l'(2) have "reduce (loc_value l) sc = Some (loc_value l')" "\<not> is_literal (loc_value l')"
      by (auto simp: step_rel_def split: if_splits)
    then show ?thesis using reduce_idem_aux by blast
  qed
  with pass_settled [OF assms] show ?thesis by (simp add: stable_def sc)
qed

lemma stable_pass:
  "stable ls sc conv \<Longrightarrow> \<exists>pr'. solve_pass ls sc conv pr = Some (ls, sc, conv, pr')"
proof (induction ls arbitrary: pr)
  case (Cons l ls)
  have s: "stable ls sc conv" using Cons.prems by (auto simp: stable_def settled_def)
  show ?case
  proof (cases "loc_name l \<in> set conv")
    case True
    with Cons.IH [OF s, of pr] show ?thesis by auto
  next
    case False
    with Cons.prems have r: "reduce (loc_value l) sc = Some (loc_value l)" "as_literal (loc_value l) = None"
      by (auto simp: stable_def as_literal_None)
    from Cons.IH [OF s, of "pr \<or> \<not> expr_eq (loc_value l) (loc_value l)"] False r show ?thesis by auto
  qed
qed simp

lemma stable_iter: "stable ls sc conv \<Longrightarrow> solve_iter k ls sc conv = Some (ls, sc)"
proof (induction k)
  case (Suc k)
  obtain pr' where "solve_pass ls sc conv False = Some (ls, sc, conv, pr')"
    using stable_pass [OF Suc.prems] by blast
  with Suc show ?case by simp
qed simp

lemma open_count_less:
  assumes "fst ` set new \<subseteq> loc_name ` set ls - set conv" and "new \<noteq> []"
  shows "open_count ls (conv @ map fst new) < open_count ls conv"
proof -
  from assms obtain n where n: "n \<in> fst ` set new" "n \<in> loc_name ` set ls" "n \<notin> set conv"
    by (cases new) auto
  have "filter (\<lambda>n. n \<notin> set (conv @ map fst new)) (map loc_name ls) =
        filter (\<lambda>n. n \<notin> fst ` set new) (filter (\<lambda>n. n \<notin> set conv) (map loc_name ls))"
    by (simp add: conj_commute)
  moreover have "length (filter (\<lambda>n. n \<notin> fst ` set new) (filter (\<lambda>n. n \<notin> set conv) (map loc_name ls)))
      < length (filter (\<lambda>n. n \<notin> set conv) (map loc_name ls))"
    by (rule length_filter_less [of n]) (use n in auto)
  ultimately show ?thesis unfolding open_count_def by simp
qed

lemma open_count_cong: "map loc_name ls' = map loc_name ls \<Longrightarrow> open_count ls' conv = open_count ls conv"
  by (simp add: open_count_def)

text \<open>What the iteration leaves behind: the same names, the scope with the new bindings pushed, a
  stable state, and values that reduce in any bigger scope to what the source expressions reduce to.\<close>

definition value_link :: "scope \<Rightarrow> local_def list \<Rightarrow> local_def list \<Rightarrow> bool" where
  "value_link sc' ls ls' \<longleftrightarrow>
     (\<forall>sc''. scope_le sc' sc'' \<longrightarrow>
        list_all2 (\<lambda>l l'. outcome (reduce (loc_value l') sc'') = outcome (reduce (loc_value l) sc'')) ls ls')"

lemma pass_link:
  assumes "pass_rel ls sc conv ls' sc' conv' new"
  shows "value_link sc' ls ls'"
  unfolding value_link_def
proof (intro allI impI)
  fix sc'' assume le: "scope_le sc' sc''"
  show "list_all2 (\<lambda>l l'. outcome (reduce (loc_value l') sc'') = outcome (reduce (loc_value l) sc'')) ls ls'"
  proof (rule list.rel_mono_strong)
    show "list_all2 (step_rel sc conv new) ls ls'" using assms by (simp add: pass_rel_def)
    fix l l' assume s: "step_rel sc conv new l l'"
    show "outcome (reduce (loc_value l') sc'') = outcome (reduce (loc_value l) sc'')"
    proof (cases "loc_name l \<in> set conv")
      case False
      with s obtain k where k: "reduce (loc_value l) (push_locals sc (take k new)) = Some (loc_value l')"
        by (auto simp: step_rel_def)
      have "scope_le (push_locals sc (take k new)) sc''"
        using assms scope_le_push_take le by (auto simp: pass_rel_def intro: scope_le_trans)
      then show ?thesis using k by (rule reduce_staged_aux)
    qed (use s in \<open>simp add: step_rel_def\<close>)
  qed
qed

lemma value_link_refl: "value_link sc' ls ls"
  by (simp add: value_link_def list.rel_refl)

lemma value_link_trans:
  assumes "value_link sc1 ls ls1" and "value_link sc2 ls1 ls2" and "scope_le sc1 sc2"
  shows "value_link sc2 ls ls2"
  unfolding value_link_def
proof (intro allI impI)
  fix sc'' assume le: "scope_le sc2 sc''"
  have "scope_le sc1 sc''" by (rule scope_le_trans [OF assms(3) le])
  from assms(1) this have "list_all2 (\<lambda>l l'. outcome (reduce (loc_value l') sc'') = outcome (reduce (loc_value l) sc'')) ls ls1"
    unfolding value_link_def by blast
  moreover from assms(2) le have "list_all2 (\<lambda>l l'. outcome (reduce (loc_value l') sc'') = outcome (reduce (loc_value l) sc'')) ls1 ls2"
    unfolding value_link_def by blast
  ultimately show "list_all2 (\<lambda>l l'. outcome (reduce (loc_value l') sc'') = outcome (reduce (loc_value l) sc'')) ls ls2"
    unfolding list_all2_conv_all_nth by (metis (no_types, lifting))
qed

text \<open>The bindings pushed are the values of the locals that have converged.\<close>

definition bound_in :: "vmap \<Rightarrow> local_def list \<Rightarrow> bool" where
  "bound_in new ls \<longleftrightarrow>
     (\<forall>l \<in> set ls. loc_name l \<in> fst ` set new \<longrightarrow> (loc_name l, lit_value (loc_value l)) \<in> set new)"

lemma pass_bound:
  assumes "pass_rel ls sc (map fst acc) ls' sc' conv' new" and "bound_in acc ls"
  shows "bound_in (acc @ new) ls'"
  unfolding bound_in_def
proof (intro ballI impI)
  fix l' assume l': "l' \<in> set ls'" "loc_name l' \<in> fst ` set (acc @ new)"
  from assms(1) l'(1) obtain l where l: "l \<in> set ls" "step_rel sc (map fst acc) new l l'"
    unfolding pass_rel_def by (auto dest!: list_all2_right)
  show "(loc_name l', lit_value (loc_value l')) \<in> set (acc @ new)"
  proof (cases "loc_name l \<in> set (map fst acc)")
    case True
    with l have "l' = l" by (simp add: step_rel_def)
    with True l(1) assms(2) show ?thesis by (auto simp: bound_in_def)
  next
    case False
    with l'(2) l(2) show ?thesis by (auto simp: step_rel_def split: if_splits)
  qed
qed

lemma solve_iter_correct:
  "solve_iter k ls sc (map fst acc) = Some (ls', sc') \<Longrightarrow> distinct (map loc_name ls) \<Longrightarrow>
   settled ls (map fst acc) \<Longrightarrow> bound_in acc ls \<Longrightarrow> open_count ls (map fst acc) < k \<Longrightarrow>
   \<exists>new. sc' = push_locals sc new \<and> map loc_name ls' = map loc_name ls \<and>
         stable ls' sc' (map fst (acc @ new)) \<and> bound_in (acc @ new) ls' \<and> value_link sc' ls ls' \<and>
         fst ` set new \<subseteq> loc_name ` set ls - fst ` set acc \<and> distinct (map fst new)"
proof (induction k arbitrary: ls sc acc)
  case (Suc k)
  from Suc.prems(1) obtain ls1 sc1 conv1 pr where
    p: "solve_pass ls sc (map fst acc) False = Some (ls1, sc1, conv1, pr)"
    and c: "if pr then solve_iter k ls1 sc1 conv1 = Some (ls', sc') else ls' = ls1 \<and> sc' = sc1"
    by (auto split: option.splits if_splits)
  from solve_pass_rel [OF p Suc.prems(2)] obtain new where
    n: "pass_rel ls sc (map fst acc) ls1 sc1 conv1 new"
      "fst ` set new \<subseteq> loc_name ` set ls - set (map fst acc)" "new \<noteq> [] \<longrightarrow> pr" "distinct (map fst new)" by blast
  note names = pass_rel_names [OF n(1)]
  have names_set: "loc_name ` set ls1 = loc_name ` set ls" using names by (metis list.set_map)
  have s1: "sc1 = push_locals sc new" "conv1 = map fst (acc @ new)" using n(1) by (simp_all add: pass_rel_def)
  show ?case
  proof (cases "new = []")
    case True
    with pass_stable [of ls sc "map fst acc" ls1 sc1 conv1] n(1) Suc.prems(3)
    have st: "stable ls1 sc1 conv1" "sc1 = sc" "conv1 = map fst acc" by auto
    have "ls' = ls1 \<and> sc' = sc1"
      using c stable_iter [OF st(1), of k] by (cases pr) auto
    with st names pass_link [OF n(1)] pass_bound [OF n(1) Suc.prems(4)] True show ?thesis
      by (intro exI [of _ "[]"]) simp
  next
    case False
    with n(3) c have it: "solve_iter k ls1 sc1 (map fst (acc @ new)) = Some (ls', sc')" by (simp add: s1)
    have "open_count ls1 (map fst (acc @ new)) < open_count ls (map fst acc)"
      using open_count_less [OF n(2) False] by (simp only: open_count_cong [OF names] map_append)
    then have lt: "open_count ls1 (map fst (acc @ new)) < k" using Suc.prems(5) by simp
    have set1: "settled ls1 (map fst (acc @ new))" using pass_settled [OF n(1) Suc.prems(3)] by (simp add: s1)
    have dist1: "distinct (map loc_name ls1)" using Suc.prems(2) names by simp
    from Suc.IH [OF it dist1 set1 pass_bound [OF n(1) Suc.prems(4)] lt]
    obtain new' where r: "sc' = push_locals sc1 new'" "map loc_name ls' = map loc_name ls1"
      "stable ls' sc' (map fst ((acc @ new) @ new'))" "bound_in ((acc @ new) @ new') ls'" "value_link sc' ls1 ls'"
      "fst ` set new' \<subseteq> loc_name ` set ls1 - fst ` set (acc @ new)" "distinct (map fst new')" by blast
    have "value_link sc' ls ls'"
      by (rule value_link_trans [OF pass_link [OF n(1)] r(5)]) (simp add: r(1) scope_le_push)
    moreover have "fst ` set (new @ new') \<subseteq> loc_name ` set ls - fst ` set acc" using n(2) r(6) names_set by auto
    moreover have "distinct (map fst (new @ new'))" using n(4) r(6,7) by auto
    ultimately have "sc' = push_locals sc (new @ new') \<and> map loc_name ls' = map loc_name ls \<and>
         stable ls' sc' (map fst (acc @ (new @ new'))) \<and> bound_in (acc @ (new @ new')) ls' \<and> value_link sc' ls ls' \<and>
         fst ` set (new @ new') \<subseteq> loc_name ` set ls - fst ` set acc \<and> distinct (map fst (new @ new'))"
      using r(1-4) names by (simp only: s1 push_locals_simps append_assoc simp_thms)
    then show ?thesis by blast
  qed
qed simp

lemma open_count_Nil: "open_count ls [] = length ls"
  by (simp add: open_count_def)

lemma solve_locals_Ok:
  assumes "solve_locals order locals sc = Some (Ok out, sc')" and "distinct (map loc_name locals)"
  obtains new where "check_cycle order locals = Ok ()" "sc' = push_locals sc new"
    "map loc_name out = map loc_name locals" "stable out sc' (map fst new)" "bound_in new out"
    "value_link sc' locals out" "fst ` set new \<subseteq> loc_name ` set locals" "distinct (map fst new)"
proof -
  from assms(1) have c: "check_cycle order locals = Ok ()"
    and it: "solve_iter (length locals + 1) locals sc [] = Some (out, sc')"
    by (auto simp: solve_locals_def split: sum.splits)
  have "\<exists>new. sc' = push_locals sc new \<and> map loc_name out = map loc_name locals \<and>
         stable out sc' (map fst ([] @ new)) \<and> bound_in ([] @ new) out \<and> value_link sc' locals out \<and>
         fst ` set new \<subseteq> loc_name ` set locals - fst ` set ([] :: vmap) \<and> distinct (map fst new)"
  proof (rule solve_iter_correct [OF _ assms(2)])
    show "solve_iter (length locals + 1) locals sc (map fst []) = Some (out, sc')" using it by (simp only: list.map)
  qed (simp_all add: settled_def bound_in_def open_count_Nil)
  with c that show ?thesis by auto
qed

section \<open>Acyclic locals resolve\<close>

lemma finite_local_dep_rel: "finite (local_dep_rel locals)"
proof (rule finite_subset)
  show "local_dep_rel locals \<subseteq> {..<length locals} \<times> {..<length locals}"
    by (auto simp: local_dep_rel_def dest: name_to_idx_bound)
qed simp

definition resolvable_from :: "scope \<Rightarrow> local_def list \<Rightarrow> local_def \<Rightarrow> bool" where
  "resolvable_from sc locals l \<longleftrightarrow>
     (\<forall>sc''. scope_le sc sc'' \<longrightarrow>
        (\<forall>d \<in> set (collect_local_refs (loc_value l)). d \<in> loc_name ` set locals \<longrightarrow> lookup_local sc'' d \<noteq> None) \<longrightarrow>
        (\<exists>v. reduce (loc_value l) sc'' = Some (Literal v)))"

lemma solve_locals_resolves_aux:
  assumes solved: "solve_locals order locals sc = Some (Ok out, sc')" and dist: "distinct (map loc_name locals)"
    and order: "\<And>xs. set (order xs) = set xs"
    and res: "\<And>l. l \<in> set locals \<Longrightarrow> resolvable_from sc locals l"
  shows "\<forall>l \<in> set out. is_literal (loc_value l) \<and>
           (lookup_local sc (loc_name l) = None \<longrightarrow>
              lookup_local sc' (loc_name l) = Some (lit_value (loc_value l)))"
proof -
  from solve_locals_Ok [OF solved dist] obtain new where
    c: "check_cycle order locals = Ok ()" and sc': "sc' = push_locals sc new"
    and names: "map loc_name out = map loc_name locals" and st: "stable out sc' (map fst new)"
    and bound: "bound_in new out" and link: "value_link sc' locals out" and dn: "distinct (map fst new)" .
  have len: "length out = length locals" using names by (metis length_map)
  have name: "loc_name (out ! i) = loc_name (locals ! i)" if "i < length locals" for i
    using names len that by (metis nth_map)
  have wf: "wf ((local_dep_rel locals)\<inverse>)"
    using c check_cycle_Ok_iff [OF order] finite_local_dep_rel by (intro finite_acyclic_wf_converse) auto
  have conv: "i < length locals \<longrightarrow> loc_name (locals ! i) \<in> fst ` set new" for i
  proof (induction i rule: wf_induct_rule [OF wf])
    case (1 i)
    show ?case
    proof
      assume i: "i < length locals"
      have "lookup_local sc' d \<noteq> None"
        if d: "d \<in> set (collect_local_refs (loc_value (locals ! i)))" "d \<in> loc_name ` set locals" for d
      proof -
        from d(2) name_to_idx_dom obtain j where j: "name_to_idx locals d = Some j" by blast
        then have "(i, j) \<in> local_dep_rel locals" using i d(1) by (auto simp: local_dep_rel_def)
        with 1 name_to_idx_bound [OF j] have "d \<in> fst ` set new" by auto
        then have "d \<in> fst ` set (sc_locals sc @ new)" by auto
        then show ?thesis
          unfolding sc' lookup_local_def push_locals_def using map_of_eq_None_iff [of "sc_locals sc @ new" d] by simp
      qed
      moreover have "scope_le sc sc'" by (simp add: sc' scope_le_push)
      ultimately obtain v where v: "reduce (loc_value (locals ! i)) sc' = Some (Literal v)"
        using res [of "locals ! i"] i unfolding resolvable_from_def by (meson nth_mem)
      from link have "list_all2 (\<lambda>l l'. outcome (reduce (loc_value l') sc') = outcome (reduce (loc_value l) sc')) locals out"
        by (simp add: value_link_def)
      with i v have "outcome (reduce (loc_value (out ! i)) sc') = Some (Some v)"
        by (auto simp: list_all2_conv_all_nth outcome_def)
      then have r: "reduce (loc_value (out ! i)) sc' = Some (Literal v)" by simp
      show "loc_name (locals ! i) \<in> fst ` set new"
      proof (rule ccontr)
        assume "loc_name (locals ! i) \<notin> fst ` set new"
        moreover have "out ! i \<in> set out" using i len by simp
        ultimately have "\<not> is_literal (loc_value (out ! i))" "reduce (loc_value (out ! i)) sc' = Some (loc_value (out ! i))"
          using st name [OF i] unfolding stable_def by auto
        with r show False by simp
      qed
    qed
  qed
  show ?thesis
  proof (intro ballI conjI impI)
    fix l assume l: "l \<in> set out"
    then obtain i where "i < length locals" "l = out ! i" by (auto simp: in_set_conv_nth len)
    with conv [of i] name [of i] have n: "loc_name l \<in> fst ` set new" by simp
    with st l show "is_literal (loc_value l)" by (auto simp: stable_def settled_def)
    assume none: "lookup_local sc (loc_name l) = None"
    have "(loc_name l, lit_value (loc_value l)) \<in> set new" using bound l n by (simp add: bound_in_def)
    then have "map_of new (loc_name l) = Some (lit_value (loc_value l))" using dn by simp
    with none show "lookup_local sc' (loc_name l) = Some (lit_value (loc_value l))"
      by (simp add: sc' push_locals_def lookup_local_def map_add_def)
  qed
qed

end
