(* ===== verification/ReduceSafety.thy ===== *)
theory ReduceSafety
  imports ReduceLaws
begin

text \<open>Safety of the reducer: results stay in the range of their machine types (\<open>i64\<close>, canonical
  \<open>f64\<close>), and the only panic is the Euclidean remainder of \<open>i64::MIN\<close> by \<open>-1\<close>.\<close>

section \<open>Machine ranges\<close>

fun expr_wf :: "expr \<Rightarrow> bool" where
  "expr_wf (Literal v) = value_wf v"
| "expr_wf (Unresolved s) = True"
| "expr_wf (EBinary op l r sp) = (expr_wf l \<and> expr_wf r)"
| "expr_wf (EUnary op x sp) = expr_wf x"
| "expr_wf (ETemplate ps) = list_all expr_wf ps"
| "expr_wf (EArray ps) = list_all expr_wf ps"
| "expr_wf (EObject es) = list_all (\<lambda>(k, v). expr_wf k \<and> expr_wf v) es"
| "expr_wf (EFuncCall n args sp) = list_all expr_wf args"
| "expr_wf (EConditional c t e sp) = (expr_wf c \<and> expr_wf t \<and> expr_wf e)"
| "expr_wf (EFor bs coll k v c obj sp) =
     (expr_wf coll \<and> expr_wf v \<and> (case k of None \<Rightarrow> True | Some k' \<Rightarrow> expr_wf k')
      \<and> (case c of None \<Rightarrow> True | Some c' \<Rightarrow> expr_wf c'))"

definition map_wf :: "vmap \<Rightarrow> bool" where
  "map_wf m = list_all (\<lambda>e. value_wf (snd e)) m"

definition scope_wf :: "scope \<Rightarrow> bool" where
  "scope_wf sc \<longleftrightarrow> map_wf (sc_vars sc) \<and> map_wf (sc_locals sc) \<and> map_wf (sc_binders sc) \<and>
     (\<forall>n f vs cx v. sc_funcs sc n = Some f \<longrightarrow> list_all value_wf vs \<longrightarrow> f vs cx = Inr v \<longrightarrow> value_wf v)"

lemma map_wf_lookup: "map_wf m \<Longrightarrow> map_of m k = Some v \<Longrightarrow> value_wf v"
  by (force simp: map_wf_def list_all_iff dest: map_of_SomeD)

lemma checked_wf: "map_option VInt (checked i) = Some v \<Longrightarrow> value_wf v"
  by (auto simp: checked_def split: if_splits)

lemma to_f64_wf: "value_wf v \<Longrightarrow> to_f64 v = Some f \<Longrightarrow> f64_canonical f"
  by (cases v) (auto intro: wf_intros)

lemma float_op_cases:
  "float_op f l r = Some v \<Longrightarrow> \<exists>a b. to_f64 l = Some a \<and> to_f64 r = Some b \<and> v = VNumber (f a b)"
  by (auto simp: float_op_def split: option.splits)

lemma float_op_wf:
  assumes "\<And>a b. f64_canonical a \<Longrightarrow> f64_canonical b \<Longrightarrow> f64_canonical (f a b)"
    and "value_wf l" and "value_wf r" and "float_op f l r = Some v"
  shows "value_wf v"
proof -
  from float_op_cases [OF assms(4)] obtain a b where "to_f64 l = Some a" "to_f64 r = Some b" "v = VNumber (f a b)"
    by blast
  with assms(1) [of a b] to_f64_wf [OF assms(2)] to_f64_wf [OF assms(3)] show ?thesis by simp
qed

lemma arith_op_cases:
  "arith_op f g l r = Some v \<Longrightarrow>
   (\<exists>a b. map_option VInt (g a b) = Some v) \<or> float_op f l r = Some v"
  by (cases "(f, g, l, r)" rule: arith_op.cases) auto

lemma arith_op_wf:
  assumes "\<And>a b. f64_canonical a \<Longrightarrow> f64_canonical b \<Longrightarrow> f64_canonical (f a b)"
    and "\<And>a b v. map_option VInt (g a b) = Some v \<Longrightarrow> value_wf v"
    and "value_wf l" and "value_wf r" and "arith_op f g l r = Some v"
  shows "value_wf v"
  using arith_op_cases [OF assms(5)]
proof
  assume "float_op f l r = Some v"
  with assms(1,3,4) show ?thesis by (rule float_op_wf)
qed (use assms(2) in blast)

lemma add_values_cases:
  "add_values l r = Some v \<Longrightarrow>
   (\<exists>i. map_option VInt (checked i) = Some v) \<or> (\<exists>s. v = VStr s) \<or> float_op f64_add l r = Some v"
  by (cases "(l, r)" rule: add_values.cases) (auto simp: i64_checked_add_def)

lemma add_values_wf: "value_wf l \<Longrightarrow> value_wf r \<Longrightarrow> add_values l r = Some v \<Longrightarrow> value_wf v"
  by (drule add_values_cases, elim disjE exE)
    (erule checked_wf, simp, rule float_op_wf [where f = f64_add, OF f64_add_canonical])

lemma float_div_wf: "value_wf l \<Longrightarrow> value_wf r \<Longrightarrow> float_div l r = Some v \<Longrightarrow> value_wf v"
  by (auto simp: float_div_def f64_div_canonical split: option.splits if_splits)

lemma div_values_cases:
  "div_values l r = Some v \<Longrightarrow> (\<exists>i. map_option VInt (checked i) = Some v) \<or> float_div l r = Some v"
  by (cases "(l, r)" rule: div_values.cases)
    (auto simp: i64_checked_div_def split: if_splits option.splits)

lemma div_values_wf: "value_wf l \<Longrightarrow> value_wf r \<Longrightarrow> div_values l r = Some v \<Longrightarrow> value_wf v"
  using div_values_cases [of l r v] checked_wf float_div_wf by blast

lemma rem_euclid_wf: "in_i64 b \<Longrightarrow> i64_rem_euclid a b = Some r \<Longrightarrow> in_i64 r"
proof -
  assume b: "in_i64 b" and r: "i64_rem_euclid a b = Some r"
  then have "b \<noteq> 0" "r = a mod \<bar>b\<bar>" by (auto simp: i64_rem_euclid_def split: if_splits)
  then have "0 \<le> r" "r < \<bar>b\<bar>" by simp_all
  with b show ?thesis by (auto simp: in_i64_def i64_min_def i64_max_def)
qed

lemma mod_values_cases:
  "mod_values l r = Some (Some v) \<Longrightarrow>
   (\<exists>a b i. r = VInt b \<and> i64_rem_euclid a b = Some i \<and> v = VInt i) \<or> float_op f64_rem_euclid l r = Some v"
  by (cases "(l, r)" rule: mod_values.cases) (auto split: if_splits)

lemma mod_values_wf: "value_wf l \<Longrightarrow> value_wf r \<Longrightarrow> mod_values l r = Some (Some v) \<Longrightarrow> value_wf v"
  by (drule mod_values_cases, elim disjE exE conjE)
    (simp add: rem_euclid_wf, rule float_op_wf [where f = f64_rem_euclid, OF f64_rem_euclid_canonical])

lemma bool_op_wf: "bool_op f l r = Some v \<Longrightarrow> value_wf v"
  by (cases "(f, l, r)" rule: bool_op.cases) auto

lemma eval_binary_wf:
  "value_wf l \<Longrightarrow> value_wf r \<Longrightarrow> eval_binary op l r = Some (Some v) \<Longrightarrow> value_wf v"
  using add_values_wf [of l r v] div_values_wf [of l r v] mod_values_wf [of l r v] bool_op_wf [of _ l r v]
    arith_op_wf [where f = f64_sub and g = i64_checked_sub and l = l and r = r and v = v, OF f64_sub_canonical]
    arith_op_wf [where f = f64_mul and g = i64_checked_mul and l = l and r = r and v = v, OF f64_mul_canonical]
  by (cases op) (auto simp: i64_checked_sub_def i64_checked_mul_def checked_wf simp del: map_option_eq_Some)

lemma eval_unary_wf: "value_wf x \<Longrightarrow> eval_unary op x = Some v \<Longrightarrow> value_wf v"
  by (cases "(op, x)" rule: eval_unary.cases)
    (auto simp: i64_checked_neg_def checked_def f64_neg_canonical split: if_splits)

lemma descend_attributes_wf: "descend_attributes r t = Some v \<Longrightarrow> value_wf r \<Longrightarrow> value_wf v"
proof (induction r t rule: descend_attributes.induct)
  case (1 current rest)
  then show ?case
    by (subst (asm) descend_attributes.simps [of current rest])
      (auto split: if_splits hval.splits option.splits prod.splits dest: map_wf_lookup [unfolded map_wf_def])
qed

lemma resolve_symbol_wf: "scope_wf sc \<Longrightarrow> resolve_symbol sc s = Some v \<Longrightarrow> value_wf v"
  by (auto simp: resolve_symbol_def resolve_path_def scope_wf_def lookup_var_def lookup_local_def
      lookup_binder_def
      split: symbol_kind.splits prod.splits option.splits if_splits
      dest: map_wf_lookup intro: descend_attributes_wf)

lemma enumerate_wf: "list_all value_wf vs \<Longrightarrow> p \<in> set (enumerate_values i vs) \<Longrightarrow> value_wf (fst p) \<and> value_wf (snd p)"
  by (induction i vs rule: enumerate_values.induct)
    (auto simp: in_i64_def i64_min_def i64_max_def)

lemma iteration_pairs_wf:
  "value_wf c \<Longrightarrow> iteration_pairs c = Some ps \<Longrightarrow> p \<in> set ps \<Longrightarrow> value_wf (fst p) \<and> value_wf (snd p)"
  by (cases c) (fastforce simp: list_all_iff dest: enumerate_wf [unfolded list_all_iff])+

lemma bind_names_wf:
  "bind_names ns k v bs = Some bs' \<Longrightarrow> map_wf bs \<Longrightarrow> value_wf k \<Longrightarrow> value_wf v \<Longrightarrow> map_wf bs'"
  by (cases "(ns, k, v, bs)" rule: bind_names.cases) (auto simp: map_wf_def)

lemma scope_wf_binders: "scope_wf sc \<Longrightarrow> map_wf b \<Longrightarrow> scope_wf (sc\<lparr>sc_binders := b\<rparr>)"
  by (simp add: scope_wf_def)

lemma for_loop_wf:
  assumes "scope_wf sc"
    and val: "\<And>s w. scope_wf s \<Longrightarrow> val s = Some (Literal w) \<Longrightarrow> value_wf w"
  shows "for_loop bs key val cond obj sc pairs ol om = Some (ForDone x y) \<Longrightarrow>
    (\<And>p. p \<in> set pairs \<Longrightarrow> value_wf (fst p) \<and> value_wf (snd p)) \<Longrightarrow>
    list_all value_wf ol \<Longrightarrow> map_wf om \<Longrightarrow> list_all value_wf x \<and> map_wf y"
proof (induction pairs arbitrary: ol om)
  case (Cons p pairs)
  obtain k v where p: "p = (k, v)" by (cases p)
  with Cons.prems(2) have kv: "value_wf k" "value_wf v" by force+
  from Cons.prems(1) obtain ib where ib: "bind_names bs k v (sc_binders sc) = Some ib"
    by (auto simp: p split: option.splits)
  have swf: "scope_wf (sc\<lparr>sc_binders := ib\<rparr>)"
    using assms(1) bind_names_wf [OF ib _ kv] by (intro scope_wf_binders) (auto simp: scope_wf_def)
  have sub: "\<And>p. p \<in> set pairs \<Longrightarrow> value_wf (fst p) \<and> value_wf (snd p)" using Cons.prems(2) by simp
  from Cons.prems(1) ib consider
      (skip) "for_loop bs key val cond obj sc pairs ol om = Some (ForDone x y)"
    | (obj) w s where "val (sc\<lparr>sc_binders := ib\<rparr>) = Some (Literal w)"
        "for_loop bs key val cond obj sc pairs ol (om @ [(s, w)]) = Some (ForDone x y)"
    | (lst) w where "val (sc\<lparr>sc_binders := ib\<rparr>) = Some (Literal w)"
        "for_loop bs key val cond obj sc pairs (ol @ [w]) om = Some (ForDone x y)"
    by (auto simp: p Let_def split: option.splits filter_result.splits if_splits)
  then show ?case
  proof cases
    case skip
    from Cons.IH [OF this sub Cons.prems(3,4)] show ?thesis by blast
  next
    case obj
    from Cons.IH [OF obj(2) sub Cons.prems(3)] val [OF swf obj(1)] Cons.prems(4)
    show ?thesis by (simp add: map_wf_def)
  next
    case lst
    from Cons.IH [OF lst(2) sub _ Cons.prems(4)] val [OF swf lst(1)] Cons.prems(3)
    show ?thesis by simp
  qed
qed (simp add: map_wf_def)

lemma list_wf:
  "map_option_list (\<lambda>p. reduce p sc) ps = Some rs \<Longrightarrow>
   (\<And>p r. p \<in> set ps \<Longrightarrow> reduce p sc = Some r \<Longrightarrow> expr_wf r) \<Longrightarrow> list_all expr_wf rs"
  by (auto simp: list_all_iff dest: map_option_list_set)

lemma lit_value_wf: "list_all expr_wf rs \<Longrightarrow> list_all is_literal rs \<Longrightarrow> list_all value_wf (map lit_value rs)"
  by (induction rs) (auto elim!: is_literalE)

lemma reduce_wf_aux: "reduce e sc = Some e1 \<Longrightarrow> expr_wf e \<Longrightarrow> scope_wf sc \<Longrightarrow> expr_wf e1"
proof (induction e sc arbitrary: e1 rule: reduce.induct)
  case (2 sy sc)
  then show ?case by (auto split: option.splits dest: resolve_symbol_wf)
next
  case (3 op lhs rhs sp sc)
  from "3.prems"(1) obtain l r where l: "reduce lhs sc = Some l" and r: "reduce rhs sc = Some r"
    by (auto split: option.splits)
  from 3(1) [OF l] 3(2) [OF l r] l r "3.prems" show ?case
    by (auto split: option.splits if_splits elim!: is_literalE dest: eval_binary_wf)
next
  case (4 op x sp sc)
  from "4.prems"(1) obtain i where i: "reduce x sc = Some i" by (auto split: option.splits)
  from 4(1) [OF i] i "4.prems" show ?case
    by (auto split: option.splits if_splits elim!: is_literalE dest: eval_unary_wf)
next
  case (5 ps sc)
  from "5.prems"(1) obtain rs where rs: "map_option_list (\<lambda>p. reduce p sc) ps = Some rs"
    by (auto split: option.splits)
  have "list_all expr_wf rs" by (rule list_wf [OF rs 5(1)]) (use "5.prems" in \<open>auto simp: list_all_iff\<close>)
  with rs "5.prems" show ?case by (auto split: if_splits)
next
  case (6 ps sc)
  from "6.prems"(1) obtain rs where rs: "map_option_list (\<lambda>p. reduce p sc) ps = Some rs"
    by (auto split: option.splits)
  have "list_all expr_wf rs" by (rule list_wf [OF rs 6(1)]) (use "6.prems" in \<open>auto simp: list_all_iff\<close>)
  with rs "6.prems" lit_value_wf [of rs] show ?case by (auto split: if_splits)
next
  case (7 es sc)
  from "7.prems"(1) obtain rs where rs: "map_option_list (pair_reduce sc) es = Some rs"
    by (auto simp: reduce_object split: option.splits)
  have wf: "expr_wf (fst r) \<and> expr_wf (snd r)" if mem: "r \<in> set rs" for r
  proof -
    from map_option_list_set [OF rs mem] obtain k v where kv: "(k, v) \<in> set es" "pair_reduce sc (k, v) = Some r"
      by auto
    then obtain k' v' where r: "reduce k sc = Some k'" "reduce v sc = Some v'" "r = (k', v')"
      by (auto simp: pair_reduce_def split: option.splits)
    from "7.prems"(2) kv(1) have "expr_wf k" "expr_wf v" by (auto simp: list_all_iff)
    with 7(1) [OF kv(1) refl r(1)] 7(2) [OF kv(1) refl r(1,2)] r(3) "7.prems"(3) show ?thesis by simp
  qed
  then have "pairs_lits rs = Some m \<Longrightarrow> value_wf (VMap m)" for m
    by (auto simp: pairs_lits_def list_all_iff split: if_splits elim!: is_literalE)
      (metis expr_wf.simps(1) is_literalE lit_value.simps(1) snd_conv)
  with wf "7.prems"(1) rs show ?case
    by (force simp: reduce_object list_all_iff split: option.splits)
next
  case (8 n args sp sc)
  from "8.prems"(1) obtain rs where rs: "map_option_list (\<lambda>p. reduce p sc) args = Some rs"
    by (auto split: option.splits)
  have wf: "list_all expr_wf rs" by (rule list_wf [OF rs 8(1)]) (use "8.prems" in \<open>auto simp: list_all_iff\<close>)
  show ?case
  proof (cases "e1 = EFuncCall n rs sp")
    case True
    with wf show ?thesis by simp
  next
    case False
    with "8.prems"(1) rs obtain f v where f: "list_all is_literal rs" "sc_funcs sc n = Some f"
      "f (map lit_value rs) (scope_cx sc) = Inr v" "e1 = Literal v"
      by (auto split: if_splits option.splits sum.splits)
    with lit_value_wf [OF wf f(1)] "8.prems"(3) show ?thesis
      unfolding scope_wf_def by (metis expr_wf.simps(1))
  qed
next
  case (9 c t e sp sc)
  from "9.prems"(1) obtain c' where c: "reduce c sc = Some c'" by (auto split: option.splits)
  show ?case
  proof (cases "bool_literal c'")
    case None
    with "9.prems" c obtain t' e' where te: "reduce t sc = Some t'" "reduce e sc = Some e'"
      "e1 = EConditional c' t' e' sp" by (auto split: option.splits)
    from 9(1) [OF c] 9(2) [OF c None te(1)] 9(3) [OF c None te(1,2)] te(3) "9.prems" show ?thesis by auto
  next
    case (Some b)
    with 9(4) [OF c Some, of e1] 9(5) [OF c Some, of e1] c "9.prems" show ?thesis by (cases b) simp_all
  qed
next
  case (10 bs coll key val cond obj sp sc)
  from "10.prems"(1) obtain c where c: "reduce coll sc = Some c" by (auto split: option.splits)
  have cwf: "expr_wf c" using 10(1) [OF c] "10.prems" by simp
  show ?case
  proof (cases "as_literal c")
    case None
    with c cwf "10.prems" show ?thesis by auto
  next
    case lit: (Some v)
    let ?k = "case key of None \<Rightarrow> None | Some k \<Rightarrow> Some (\<lambda>s. reduce k s)"
    let ?c = "case cond of None \<Rightarrow> None | Some c \<Rightarrow> Some (\<lambda>s. reduce c s)"
    from lit "10.prems"(1) c obtain r where
      r: "reduce_for bs ?k (\<lambda>s. reduce val s) ?c obj v sc = Some r"
      and e1: "e1 = (case r of Some w \<Rightarrow> Literal w | None \<Rightarrow> EFor bs coll key val cond obj sp)"
      by (auto split: option.splits)
    show ?thesis
    proof (cases r)
      case (Some w)
      with r obtain pairs x y where pairs: "iteration_pairs v = Some pairs"
        and loop: "for_loop bs ?k (\<lambda>s. reduce val s) ?c obj sc pairs [] [] = Some (ForDone x y)"
        and w: "w = (if obj then VMap y else VList x)"
        by (auto simp: reduce_for_def split: option.splits for_result.splits if_splits)
      have vwf: "value_wf v" using lit cwf by simp
      have "list_all value_wf x \<and> map_wf y"
        by (rule for_loop_wf [OF "10.prems"(3) _ loop iteration_pairs_wf [OF vwf pairs]])
          (use 10(3) [OF c lit] "10.prems"(2) in \<open>force simp: map_wf_def\<close>)+
      with w e1 Some show ?thesis by (simp add: map_wf_def)
    qed (use e1 "10.prems" in simp)
  qed
qed simp

section \<open>Panics\<close>

fun mod_free :: "expr \<Rightarrow> bool" where
  "mod_free (Literal v) = True"
| "mod_free (Unresolved s) = True"
| "mod_free (EBinary op l r sp) = (op \<noteq> Mod \<and> mod_free l \<and> mod_free r)"
| "mod_free (EUnary op x sp) = mod_free x"
| "mod_free (ETemplate ps) = list_all mod_free ps"
| "mod_free (EArray ps) = list_all mod_free ps"
| "mod_free (EObject es) = list_all (\<lambda>(k, v). mod_free k \<and> mod_free v) es"
| "mod_free (EFuncCall n args sp) = list_all mod_free args"
| "mod_free (EConditional c t e sp) = (mod_free c \<and> mod_free t \<and> mod_free e)"
| "mod_free (EFor bs coll k v c obj sp) =
     (mod_free coll \<and> mod_free v \<and> (case k of None \<Rightarrow> True | Some k' \<Rightarrow> mod_free k')
      \<and> (case c of None \<Rightarrow> True | Some c' \<Rightarrow> mod_free c'))"

lemma mod_values_panic:
  "mod_values l r = None \<longleftrightarrow> l = VInt i64_min \<and> r = VInt (-1)"
  by (cases "(l, r)" rule: mod_values.cases) (auto simp: i64_rem_euclid_def)

lemma eval_binary_panic:
  "eval_binary op l r = None \<longleftrightarrow> op = Mod \<and> l = VInt i64_min \<and> r = VInt (-1)"
  by (cases op) (auto simp: mod_values_panic)

lemma for_loop_total:
  assumes "\<And>s. val s \<noteq> None" and "\<And>k s. key = Some k \<Longrightarrow> k s \<noteq> None"
    and "\<And>c s. cond = Some c \<Longrightarrow> c s \<noteq> None"
  shows "for_loop bs key val cond obj sc pairs ol om \<noteq> None"
proof (induction pairs arbitrary: ol om)
  case (Cons p pairs)
  obtain k v where p: "p = (k, v)" by (cases p)
  show ?case
  proof (cases "bind_names bs k v (sc_binders sc)")
    case (Some ib)
    let ?s = "sc\<lparr>sc_binders := ib\<rparr>"
    obtain fr where fr: "for_filter cond ?s = Some fr"
      using assms(3) [of _ ?s]
      by (cases cond; cases "bool_literal (the (the cond ?s))") (auto simp: for_filter_def)
    obtain w where w: "val ?s = Some w" using assms(1) [of ?s] by auto
    have k: "\<And>kf. key = Some kf \<Longrightarrow> \<exists>e. kf ?s = Some e" using assms(2) by auto
    have IH: "\<And>ol om. \<exists>r. for_loop bs key val cond obj sc pairs ol om = Some r" using Cons by auto
    show ?thesis
      by (cases key; cases fr) (use k IH in \<open>auto simp: p Some fr w split: option.split\<close>)
  qed (simp add: p)
qed simp

lemma reduce_for_total:
  assumes "\<And>s. val s \<noteq> None" and "\<And>k s. key = Some k \<Longrightarrow> k s \<noteq> None"
    and "\<And>c s. cond = Some c \<Longrightarrow> c s \<noteq> None"
  shows "reduce_for bs key val cond obj coll sc \<noteq> None"
proof (cases "iteration_pairs coll")
  case (Some pairs)
  have "for_loop bs key val cond obj sc pairs [] [] \<noteq> None"
    by (rule for_loop_total) (use assms in auto)
  then obtain r where "for_loop bs key val cond obj sc pairs [] [] = Some r" by blast
  with Some show ?thesis by (cases r) (auto simp: reduce_for_def)
qed (simp add: reduce_for_def)

lemma reduce_total_aux: "mod_free e \<Longrightarrow> reduce e sc \<noteq> None"
proof (induction e sc rule: reduce.induct)
  case (3 op lhs rhs sp sc)
  then show ?case by (auto simp: eval_binary_panic split: option.splits)
next
  case (5 ps sc)
  then have "map_option_list (\<lambda>p. reduce p sc) ps \<noteq> None"
    by (intro map_option_list_total) (simp add: list_all_iff)
  then show ?case by auto
next
  case (6 ps sc)
  then have "map_option_list (\<lambda>p. reduce p sc) ps \<noteq> None"
    by (intro map_option_list_total) (simp add: list_all_iff)
  then show ?case by auto
next
  case (7 es sc)
  have "map_option_list (pair_reduce sc) es \<noteq> None"
  proof (rule map_option_list_total)
    fix x assume x: "x \<in> set es"
    obtain k v where kv: "x = (k, v)" by (cases x)
    with x "7.prems" have "mod_free k" "mod_free v" by (auto simp: list_all_iff)
    with 7(1) [OF x kv [symmetric]] 7(2) [OF x kv [symmetric]] show "pair_reduce sc x \<noteq> None"
      by (auto simp: pair_reduce_def kv split: option.splits)
  qed
  then show ?case by (auto simp: reduce_object split: option.splits)
next
  case (8 n args sp sc)
  then have "map_option_list (\<lambda>p. reduce p sc) args \<noteq> None"
    by (intro map_option_list_total) (simp add: list_all_iff)
  then show ?case by (auto split: option.splits sum.splits)
next
  case (9 c t e sp sc)
  from 9(1) "9.prems" obtain c' where c: "reduce c sc = Some c'" by auto
  show ?case
  proof (cases "bool_literal c'")
    case None
    from 9(2) [OF c None] "9.prems" obtain t' where t: "reduce t sc = Some t'" by auto
    from 9(3) [OF c None t] "9.prems" c None t show ?thesis by auto
  next
    case (Some b)
    with 9(4,5) [OF c Some] "9.prems" c show ?thesis by (cases b) auto
  qed
next
  case (10 bs coll key val cond obj sp sc)
  from "10.IH"(1) "10.prems" obtain c where c: "reduce coll sc = Some c" by auto
  show ?case
  proof (cases "as_literal c")
    case None
    with c show ?thesis by simp
  next
    case lit: (Some v)
    have "reduce_for bs (case key of None \<Rightarrow> None | Some k \<Rightarrow> Some (\<lambda>s. reduce k s)) (\<lambda>s. reduce val s)
            (case cond of None \<Rightarrow> None | Some c \<Rightarrow> Some (\<lambda>s. reduce c s)) obj v sc \<noteq> None"
      by (rule reduce_for_total) (use "10.IH"(2-4) [OF c lit] "10.prems" in \<open>auto split: option.splits\<close>)
    with c lit show ?thesis by (auto split: option.splits)
  qed
qed (auto split: option.splits)

end
