(* ===== verification/ComponentEval.thy ===== *)
theory ComponentEval
  imports LocalsSolve ReduceSafety "HOL-Library.Monad_Syntax"
begin

text \<open>The component evaluator (\<open>HclEvaluator\<close> in \<open>eval/component.rs\<close>): it binds the variables, solves the
  locals, and reduces every expression of the providers, resources, module calls and outputs in the
  resulting scope.  A panic of the reducer is \<open>None\<close>; \<open>order\<close> is the iteration order of the hash set
  in the cycle check.\<close>

record evaluated_component =
  ev_raw :: component
  ev_variables :: "variable list"
  ev_locals :: "local_def list"
  ev_providers :: "provider_block list"
  ev_resources :: "resource list"
  ev_modules :: "module_call list"
  ev_outputs :: "output_def list"
  ev_diagnostics :: "diagnostic list"

definition from_component :: "component \<Rightarrow> evaluated_component" where
  "from_component c =
     \<lparr>ev_raw = c, ev_variables = comp_variables c, ev_locals = comp_locals c, ev_providers = comp_providers c,
      ev_resources = comp_resources c, ev_modules = comp_modules c, ev_outputs = comp_outputs c,
      ev_diagnostics = []\<rparr>"

text \<open>\<open>Scope::new\<close>.\<close>

definition scope_new :: "(f64 \<Rightarrow> str) \<Rightarrow> vmap \<Rightarrow> vmap \<Rightarrow> eval_context \<Rightarrow> scope" where
  "scope_new ryu vars locals cx =
     \<lparr>sc_vars = vars, sc_locals = locals, sc_binders = [], sc_workspace_root = ec_workspace_root cx,
      sc_env_vars = ec_env_vars cx, sc_limits = ec_limits cx, sc_funcs = ec_funcs cx,
      sc_terraform_workspace = ec_environment cx, sc_ryu = ryu\<rparr>"

section \<open>Reducing the parts of a component\<close>

definition reduce_opt :: "expr option \<Rightarrow> scope \<Rightarrow> expr option option" where
  "reduce_opt oe sc = (case oe of None \<Rightarrow> Some None | Some e \<Rightarrow> map_option Some (reduce e sc))"

definition reduce_attrs :: "attribute_map \<Rightarrow> scope \<Rightarrow> attribute_map option" where
  "reduce_attrs attrs sc = map_option_list (\<lambda>(k, v). map_option (Pair k) (reduce v sc)) attrs"

definition reduce_provider :: "scope \<Rightarrow> provider_block \<Rightarrow> provider_block option" where
  "reduce_provider sc p = do {
     region \<leftarrow> reduce_opt (prov_region_expr p) sc;
     profile \<leftarrow> reduce_opt (prov_profile_expr p) sc;
     raw \<leftarrow> reduce_attrs (prov_raw p) sc;
     Some \<lparr>prov_local_name = prov_local_name p, prov_alias = prov_alias p,
           prov_source_addr = prov_source_addr p, prov_region_expr = region,
           prov_profile_expr = profile, prov_assume_role = prov_assume_role p, prov_raw = raw,
           prov_span = prov_span p\<rparr>
   }"

text \<open>The builder call leaves \<open>account_id\<close>, \<open>account_name\<close> and \<open>region\<close> at their default \<open>None\<close>.\<close>

definition reduce_resource :: "scope \<Rightarrow> resource \<Rightarrow> resource option" where
  "reduce_resource sc r = do {
     count \<leftarrow> reduce_opt (res_count_expr r) sc;
     each \<leftarrow> reduce_opt (res_for_each_expr r) sc;
     attrs \<leftarrow> reduce_attrs (res_attributes r) sc;
     Some \<lparr>res_address = res_address r, res_kind = res_kind r, res_type = res_type r, res_name = res_name r,
           res_provider_ref = res_provider_ref r, res_count_expr = count, res_for_each_expr = each,
           res_depends_on = res_depends_on r, res_attributes = attrs, res_account_id = None,
           res_account_name = None, res_region = None, res_span = res_span r\<rparr>
   }"

definition reduce_module :: "scope \<Rightarrow> module_call \<Rightarrow> module_call option" where
  "reduce_module sc m = do {
     inputs \<leftarrow> reduce_attrs (mc_inputs m) sc;
     count \<leftarrow> reduce_opt (mc_count_expr m) sc;
     each \<leftarrow> reduce_opt (mc_for_each_expr m) sc;
     Some \<lparr>mc_address = mc_address m, mc_source_raw = mc_source_raw m, mc_source = mc_source m,
           mc_resolved = mc_resolved m, mc_providers = mc_providers m, mc_inputs = inputs,
           mc_count_expr = count, mc_for_each_expr = each, mc_span = mc_span m\<rparr>
   }"

definition reduce_output :: "scope \<Rightarrow> output_def \<Rightarrow> output_def option" where
  "reduce_output sc out = do {
     v \<leftarrow> reduce (out_value out) sc;
     Some \<lparr>out_name = out_name out, out_value = v, out_description = out_description out,
           out_sensitive = out_sensitive out, out_span = out_span out\<rparr>
   }"

section \<open>Variables\<close>

definition bind_variable :: "scope \<Rightarrow> variable \<Rightarrow> variable option" where
  "bind_variable sc v = do {
     d \<leftarrow> reduce_opt (var_default v) sc;
     Some \<lparr>var_name = var_name v, var_description = var_description v, var_type_expr = var_type_expr v,
           var_default = d, var_sensitive = var_sensitive v, var_span = var_span v\<rparr>
   }"

definition default_literal :: "variable \<Rightarrow> value option" where
  "default_literal v = Option.bind (var_default v) as_literal"

definition variable_binding :: "variable \<Rightarrow> (str \<times> value) option" where
  "variable_binding v = map_option (Pair (var_name v)) (default_literal v)"

text \<open>\<open>bindings.push\<close> without a check for an earlier entry of the name.\<close>

definition bind_variables ::
  "(f64 \<Rightarrow> str) \<Rightarrow> variable list \<Rightarrow> eval_context \<Rightarrow> (variable list \<times> vmap) option" where
  "bind_variables ryu variables cx = do {
     out \<leftarrow> map_option_list (bind_variable (scope_new ryu [] [] cx)) variables;
     Some (out, List.map_filter variable_binding out)
   }"

section \<open>Evaluation\<close>

definition component_span_for_diag :: "component \<Rightarrow> span" where
  "component_span_for_diag c =
     (case comp_files c of
        file # _ \<Rightarrow> (case span_new (sf_path file) 0 0 1 1 of Inr s \<Rightarrow> s | Inl _ \<Rightarrow> span_synthetic)
      | [] \<Rightarrow> span_synthetic)"

fun limit_kind_debug :: "limit_kind \<Rightarrow> str" where
  "limit_kind_debug LkFileSize = ''FileSize''"
| "limit_kind_debug LkTotalFiles = ''TotalFiles''"
| "limit_kind_debug LkWalkDepth = ''WalkDepth''"
| "limit_kind_debug LkBlocksPerFile = ''BlocksPerFile''"
| "limit_kind_debug LkAttributeDepth = ''AttributeDepth''"
| "limit_kind_debug LkTemplateParts = ''TemplateParts''"
| "limit_kind_debug LkIncludeDepth = ''IncludeDepth''"
| "limit_kind_debug LkEvalIterations = ''EvalIterations''"
| "limit_kind_debug LkFuncArgs = ''FuncArgs''"
| "limit_kind_debug LkListLength = ''ListLength''"
| "limit_kind_debug LkStringSize = ''StringSize''"
| "limit_kind_debug LkExpansion = ''Expansion''"
| "limit_kind_debug LkConfigFileSize = ''ConfigFileSize''"

text \<open>\<open>Display\<close> of \<open>EvalError\<close>.  \<open>debug_str\<close> is the \<open>Debug\<close> form of a string over the address charset.\<close>

definition debug_str :: "str \<Rightarrow> str" where
  "debug_str s = [CHR 0x22] @ concat (map (\<lambda>c. if c = CHR 0x22 then [CHR 0x5C, CHR 0x22] else [c]) s) @ [CHR 0x22]"

fun eval_error_str :: "eval_error \<Rightarrow> str" where
  "eval_error_str (ErrCycle ps) =
     ''cycle in locals: ['' @ join_str '', '' (map (\<lambda>a. ''Address('' @ debug_str (addr_str a) @ '')'') ps) @ '']''"
| "eval_error_str (ErrLimit k observed limit) =
     ''evaluator limit ('' @ limit_kind_debug k @ ''): observed '' @ nat_str observed @ '' > '' @ nat_str limit"
| "eval_error_str (ErrFunc name message) = ''function `'' @ name @ ''` failed: '' @ message"
| "eval_error_str (ErrPathEscape func p) = ''path escape in `'' @ func @ ''`: `'' @ path_str p @ ''`''"

text \<open>The \<open>match\<close> on the result of \<open>solve_locals\<close>: the locals to go on with and the diagnostics.\<close>

fun locals_outcome :: "component \<Rightarrow> (eval_error + local_def list) \<Rightarrow> local_def list \<times> diagnostic list" where
  "locals_outcome c (Inr reduced) = (reduced, [])"
| "locals_outcome c (Inl e) =
     (comp_locals c,
      case e of
        ErrCycle participants \<Rightarrow>
          [with_span (diagnostic_new SevError ''TF1401''
             (''cycle in locals: '' @ join_str '', '' (map addr_str participants))) (component_span_for_diag c)]
      | other \<Rightarrow> [diagnostic_new SevWarn ''TF1499'' (''locals reduction failed: '' @ eval_error_str other)])"

definition local_binding :: "local_def \<Rightarrow> (str \<times> value) option" where
  "local_binding l = map_option (Pair (loc_name l)) (as_literal (loc_value l))"

definition final_scope :: "scope \<Rightarrow> vmap \<Rightarrow> local_def list \<Rightarrow> scope" where
  "final_scope sc cascade locals = sc\<lparr>sc_locals := override_all cascade (List.map_filter local_binding locals)\<rparr>"

definition evaluate ::
  "(f64 \<Rightarrow> str) \<Rightarrow> (str list \<Rightarrow> str list) \<Rightarrow> component \<Rightarrow> eval_context \<Rightarrow> evaluated_component option" where
  "evaluate ryu order c cx = do {
     (variables, var_bindings) \<leftarrow> bind_variables ryu (comp_variables c) cx;
     let vars = override_all var_bindings (ec_repo_vars cx);
     (solved, sc) \<leftarrow> solve_locals order (comp_locals c) (scope_new ryu vars (ec_cascade_locals cx) cx);
     let (locals, diagnostics) = locals_outcome c solved;
     let sc' = final_scope sc (ec_cascade_locals cx) locals;
     providers \<leftarrow> map_option_list (reduce_provider sc') (comp_providers c);
     resources \<leftarrow> map_option_list (reduce_resource sc') (comp_resources c);
     modules \<leftarrow> map_option_list (reduce_module sc') (comp_modules c);
     outputs \<leftarrow> map_option_list (reduce_output sc') (comp_outputs c);
     Some \<lparr>ev_raw = c, ev_variables = variables, ev_locals = locals, ev_providers = providers,
           ev_resources = resources, ev_modules = modules, ev_outputs = outputs, ev_diagnostics = diagnostics\<rparr>
   }"

end
