(* ===== verification/Messages.thy ===== *)
theory Messages
  imports IRTypes
begin

text \<open>The texts of the errors that end up in diagnostics: the \<open>Display\<close> of \<open>ValidationError\<close>
  (\<open>error.rs\<close>) and of \<open>PathSafetyError\<close> (\<open>util/paths.rs\<close>), and the \<open>Debug\<close> form of a character that
  the former uses.  Strings are byte lists, so a character above \<open>0x7F\<close> is its two UTF-8 bytes.\<close>

definition quote_mark :: str where
  "quote_mark = [CHR 0x22]"

definition hex_digit :: "nat \<Rightarrow> char" where
  "hex_digit d = char_of (if d < 10 then 48 + d else 87 + d)"

fun hex_str :: "nat \<Rightarrow> str" where
  "hex_str n = (if n < 16 then [hex_digit n] else hex_str (n div 16) @ [hex_digit (n mod 16)])"

text \<open>\<open>{:?}\<close> of \<open>char::from(byte)\<close>.\<close>

definition char_debug :: "char \<Rightarrow> str" where
  "char_debug c =
     (let n = of_char c :: nat; bs = CHR 0x5C in
      [CHR 0x27] @
      (if n = 0 then [bs, CHR ''0''] else if n = 9 then [bs, CHR ''t''] else if n = 10 then [bs, CHR ''n'']
       else if n = 13 then [bs, CHR ''r''] else if c = CHR 0x27 \<or> c = bs then [bs, c]
       else if n < 32 \<or> 127 \<le> n \<and> n < 161 \<or> n = 173 then [bs] @ ''u{'' @ hex_str n @ ''}''
       else if n < 128 then [c]
       else [char_of (192 + n div 64), char_of (128 + n mod 64)]) @ [CHR 0x27])"

fun validation_error_str :: "validation_error \<Rightarrow> str" where
  "validation_error_str (EmptyField f) = ''`'' @ f @ ''` must not be empty''"
| "validation_error_str (MissingField f) = ''required field `'' @ f @ ''` not set''"
| "validation_error_str (TooLong f observed limit) =
     ''`'' @ f @ ''` exceeds maximum byte length ('' @ nat_str observed @ '' > '' @ nat_str limit @ '')''"
| "validation_error_str (BadChar f byte offset) =
     ''`'' @ f @ ''` contains disallowed character '' @ char_debug byte @ '' at byte '' @ nat_str offset"
| "validation_error_str (Shape f rule) = ''`'' @ f @ ''` failed rule `'' @ rule @ ''`''"
| "validation_error_str (OutOfRange f lo hi got) =
     ''`'' @ f @ ''` out of range ['' @ int_str lo @ '', '' @ int_str hi @ '']: got '' @ int_str got"

fun path_safety_error_str :: "path_safety_error \<Rightarrow> str" where
  "path_safety_error_str (NulByte p) = ''path contains a NUL byte: '' @ path_str p"
| "path_safety_error_str (Escape candidate wroot) =
     ''path escape: `'' @ path_str candidate @ ''` resolves outside `'' @ path_str wroot @ ''`''"
| "path_safety_error_str (UnexpectedSymlink p) = ''path is a symlink and follow_symlinks=false: '' @ path_str p"
| "path_safety_error_str (PathIo p e) = ''i/o error resolving '' @ path_str p @ '': '' @ e"

end
