(* ===== verification/GraphExpand.thy ===== *)
theory GraphExpand
  imports ComponentEval Messages
begin

text \<open>Module expansion (\<open>graph/expand.rs\<close>) and the module registry (\<open>graph/registry.rs\<close>): the calls of a
  component are resolved to module bodies, whose resources are copied with a prefixed address,
  substituted inputs and rewritten provider references; \<open>count\<close> and \<open>for_each\<close> multiply resources.

  \<open>ExpansionState\<close> is split into the parts that do not change (\<open>exp_config\<close>) and those that do
  (\<open>exp_state\<close>, with the output vector the functions are passed beside it).\<close>

section \<open>The module registry\<close>

record external_module_ref =
  emr_source_raw :: str
  emr_source :: module_source
  emr_first_seen :: span

record module_registry =
  mr_local :: "(path \<times> evaluated_component) list"
  mr_external :: "external_module_ref list"

definition registry_new :: module_registry where
  "registry_new = \<lparr>mr_local = [], mr_external = []\<rparr>"

text \<open>The \<open>HashMap\<close> as an association list with one entry per key.\<close>

definition insert_local :: "module_registry \<Rightarrow> path \<Rightarrow> evaluated_component \<Rightarrow> module_registry" where
  "insert_local reg p ev = reg\<lparr>mr_local := (p, ev) # filter (\<lambda>e. fst e \<noteq> p) (mr_local reg)\<rparr>"

definition record_external :: "module_registry \<Rightarrow> str \<Rightarrow> module_source \<Rightarrow> span \<Rightarrow> module_registry" where
  "record_external reg raw source sp =
     (if list_ex (\<lambda>e. emr_source_raw e = raw) (mr_external reg) then reg
      else reg\<lparr>mr_external := mr_external reg @
             [\<lparr>emr_source_raw = raw, emr_source = source, emr_first_seen = sp\<rparr>]\<rparr>)"

definition get_local :: "module_registry \<Rightarrow> path \<Rightarrow> evaluated_component option" where
  "get_local reg p = map_of (mr_local reg) p"

definition local_count :: "module_registry \<Rightarrow> nat" where
  "local_count reg = length (mr_local reg)"

definition external_count :: "module_registry \<Rightarrow> nat" where
  "external_count reg = length (mr_external reg)"

section \<open>State and prefixes\<close>

record exp_config =
  xc_workspace_root :: path
  xc_max_module_depth :: nat
  xc_max_expansion :: nat
  xc_registry :: module_registry
  xc_fs :: file_system

record exp_state =
  xs_diagnostics :: "diagnostic list"
  xs_stack :: "path list"
  xs_out :: "resource list"

definition exp_state_new :: exp_state where
  "exp_state_new = \<lparr>xs_diagnostics = [], xs_stack = [], xs_out = []\<rparr>"

definition xs_diag :: "diagnostic \<Rightarrow> exp_state \<Rightarrow> exp_state" where
  "xs_diag d st = st\<lparr>xs_diagnostics := xs_diagnostics st @ [d]\<rparr>"

datatype addr_prefix = PRoot | PStep addr_prefix str "str option"

fun render_into :: "addr_prefix \<Rightarrow> str \<Rightarrow> str" where
  "render_into PRoot acc = acc"
| "render_into (PStep parent name index) acc =
     (let acc1 = render_into parent acc;
          acc2 = (if acc1 \<noteq> [] then acc1 @ ''.'' else acc1)
      in acc2 @ ''module.'' @ name @ (case index of Some i \<Rightarrow> i | None \<Rightarrow> []))"

definition render_prefix :: "addr_prefix \<Rightarrow> str" where
  "render_prefix p = render_into p []"

definition prefix_address :: "address \<Rightarrow> addr_prefix \<Rightarrow> validation_error + address" where
  "prefix_address a p =
     (let prefix_str = render_prefix p in
      if prefix_str = [] then Ok a else address_new (prefix_str @ ''.'' @ addr_str a))"

section \<open>Substitution\<close>

definition var_root :: "symbolic \<Rightarrow> str option" where
  "var_root s =
     (if sym_kind s = KVar then
        (case split_head (strip_or_self ''var.'' (sym_source s)) of
           (head, tail) \<Rightarrow> if tail \<noteq> [] then None else Some head)
      else None)"

definition substitute_symbol :: "attribute_map \<Rightarrow> symbolic \<Rightarrow> expr" where
  "substitute_symbol inputs s =
     (case var_root s of
        None \<Rightarrow> Unresolved s
      | Some head \<Rightarrow> (case map_of inputs head of Some bound \<Rightarrow> bound | None \<Rightarrow> Unresolved s))"

fun substitute_inputs_in_expr :: "attribute_map \<Rightarrow> expr \<Rightarrow> expr" where
  "substitute_inputs_in_expr inputs (Literal v) = Literal v"
| "substitute_inputs_in_expr inputs (Unresolved s) = substitute_symbol inputs s"
| "substitute_inputs_in_expr inputs (EBinary op l r sp) =
     EBinary op (substitute_inputs_in_expr inputs l) (substitute_inputs_in_expr inputs r) sp"
| "substitute_inputs_in_expr inputs (EUnary op x sp) = EUnary op (substitute_inputs_in_expr inputs x) sp"
| "substitute_inputs_in_expr inputs (ETemplate ps) = ETemplate (map (substitute_inputs_in_expr inputs) ps)"
| "substitute_inputs_in_expr inputs (EArray ps) = EArray (map (substitute_inputs_in_expr inputs) ps)"
| "substitute_inputs_in_expr inputs (EObject es) =
     EObject (map (\<lambda>(k, v). (substitute_inputs_in_expr inputs k, substitute_inputs_in_expr inputs v)) es)"
| "substitute_inputs_in_expr inputs (EFuncCall n args sp) =
     EFuncCall n (map (substitute_inputs_in_expr inputs) args) sp"
| "substitute_inputs_in_expr inputs (EConditional c t e sp) =
     EConditional (substitute_inputs_in_expr inputs c) (substitute_inputs_in_expr inputs t)
       (substitute_inputs_in_expr inputs e) sp"
| "substitute_inputs_in_expr inputs (EFor bs coll k v c obj sp) =
     EFor bs (substitute_inputs_in_expr inputs coll) (map_option (substitute_inputs_in_expr inputs) k)
       (substitute_inputs_in_expr inputs v) (map_option (substitute_inputs_in_expr inputs) c) obj sp"

definition substitute_inputs_in_attrs :: "attribute_map \<Rightarrow> attribute_map \<Rightarrow> attribute_map" where
  "substitute_inputs_in_attrs attrs inputs = map (\<lambda>(k, v). (k, substitute_inputs_in_expr inputs v)) attrs"

definition substitute_provider_ref :: "(str \<times> provider_ref) list \<Rightarrow> provider_ref \<Rightarrow> provider_ref" where
  "substitute_provider_ref pmap inner =
     (case map_of pmap (pref_local_name inner) of
        Some parent_ref \<Rightarrow>
          \<lparr>pref_local_name = pref_local_name parent_ref, pref_alias = pref_alias parent_ref,
           pref_span = pref_span inner\<rparr>
      | None \<Rightarrow> inner)"

definition merge_provider_maps ::
  "(str \<times> provider_ref) list \<Rightarrow> (str \<times> provider_ref) list \<Rightarrow> (str \<times> provider_ref) list" where
  "merge_provider_maps parent current =
     (if parent = [] then current else if current = [] then parent else override_all parent current)"

section \<open>Instances of \<open>count\<close> and \<open>for_each\<close>\<close>

text \<open>What a \<open>count\<close> or \<open>for_each\<close> expression asks for: the index suffixes of the instances, or one
  template row, with the text of the diagnostic when the cap is the reason.  The module calls and the
  resources use the same cases.\<close>

datatype expansion = Template "str option" | Indexed "str list"

definition cap_message :: "str \<Rightarrow> int \<Rightarrow> address \<Rightarrow> nat \<Rightarrow> str" where
  "cap_message what n site cap =
     what @ '' ('' @ int_str n @ '') at '' @ addr_str site @ '' exceeds expansion cap ('' @ nat_str cap
     @ ''); emitting template row only''"

definition escape_address_key :: "str \<Rightarrow> str" where
  "escape_address_key s = filter (\<lambda>ch. ch \<noteq> CHR 0x22 \<and> ch \<noteq> CHR 0x5C) s"

definition index_suffix :: "nat \<Rightarrow> str" where
  "index_suffix i = ''['' @ nat_str i @ '']''"

definition key_suffix :: "str \<Rightarrow> str" where
  "key_suffix k = ''['' @ quote_mark @ escape_address_key k @ quote_mark @ '']''"

fun string_items :: "value list \<Rightarrow> str list" where
  "string_items [] = []"
| "string_items (VStr s # vs) = s # string_items vs"
| "string_items (_ # vs) = string_items vs"

definition count_expansion :: "nat \<Rightarrow> address \<Rightarrow> expr \<Rightarrow> expansion" where
  "count_expansion cap site e =
     (case e of
        Literal (VInt n) \<Rightarrow>
          if n \<le> 0 then Indexed []
          else if n > int cap then Template (Some (cap_message ''count'' n site cap))
          else Indexed (map index_suffix [0..<nat n])
      | _ \<Rightarrow> Template None)"

definition for_each_expansion :: "nat \<Rightarrow> address \<Rightarrow> expr \<Rightarrow> expansion" where
  "for_each_expansion cap site e =
     (case e of
        Literal (VMap entries) \<Rightarrow>
          if length entries > cap
          then Template (Some (cap_message ''for_each'' (int (length entries)) site cap))
          else Indexed (map (\<lambda>(k, _). key_suffix k) entries)
      | Literal (VList items) \<Rightarrow>
          if length items > cap
          then Template (Some (cap_message ''for_each list'' (int (length items)) site cap))
          else Indexed (map key_suffix (string_items items))
      | _ \<Rightarrow> Template None)"

definition cap_diag :: "str \<Rightarrow> span \<Rightarrow> diagnostic" where
  "cap_diag message sp = with_span (diagnostic_limit LkExpansion ''TF1505'' message) sp"

definition expansion_diags :: "expansion \<Rightarrow> span \<Rightarrow> diagnostic list" where
  "expansion_diags x sp = (case x of Template (Some message) \<Rightarrow> [cap_diag message sp] | _ \<Rightarrow> [])"

text \<open>\<open>call_instances\<close>: the index of every instance of a module call.\<close>

definition expansion_instances :: "expansion \<Rightarrow> str option list" where
  "expansion_instances x = (case x of Template _ \<Rightarrow> [None] | Indexed ss \<Rightarrow> map Some ss)"

definition expansion_step :: "expansion \<Rightarrow> span \<Rightarrow> exp_state \<Rightarrow> str option list \<times> exp_state" where
  "expansion_step x sp st = (expansion_instances x, fold xs_diag (expansion_diags x sp) st)"

definition instances_for_count :: "exp_config \<Rightarrow> expr \<Rightarrow> span \<Rightarrow> address \<Rightarrow> exp_state \<Rightarrow> str option list \<times> exp_state" where
  "instances_for_count cfg e sp site st = expansion_step (count_expansion (xc_max_expansion cfg) site e) sp st"

definition instances_for_for_each :: "exp_config \<Rightarrow> expr \<Rightarrow> span \<Rightarrow> address \<Rightarrow> exp_state \<Rightarrow> str option list \<times> exp_state" where
  "instances_for_for_each cfg e sp site st = expansion_step (for_each_expansion (xc_max_expansion cfg) site e) sp st"

definition call_instances :: "exp_config \<Rightarrow> module_call \<Rightarrow> exp_state \<Rightarrow> str option list \<times> exp_state" where
  "call_instances cfg call st =
     (case mc_count_expr call of
        Some c \<Rightarrow> instances_for_count cfg c (mc_span call) (mc_address call) st
      | None \<Rightarrow> (case mc_for_each_expr call of
          Some fe \<Rightarrow> instances_for_for_each cfg fe (mc_span call) (mc_address call) st
        | None \<Rightarrow> ([None], st)))"

section \<open>Resolving a call\<close>

definition format_chain :: "path list \<Rightarrow> str" where
  "format_chain stack = join_str '' -> '' (map path_str stack @ [[CHR 0xE2, CHR 0x80, CHR 0xA6]])"

definition address_call_name :: "address \<Rightarrow> str" where
  "address_call_name a = strip_or_self ''module.'' (addr_str a)"

definition resolve_module_call ::
  "exp_config \<Rightarrow> module_call \<Rightarrow> path \<Rightarrow> nat \<Rightarrow> exp_state \<Rightarrow> (path \<times> evaluated_component) option \<times> exp_state" where
  "resolve_module_call cfg call caller_dir depth st =
     (if depth \<ge> xc_max_module_depth cfg then
        (None, xs_diag (with_span (diagnostic_limit LkExpansion ''TF1501''
           (''module recursion exceeded depth '' @ nat_str (xc_max_module_depth cfg) @ '' at ''
            @ addr_str (mc_address call) @ '' (dropping further expansion)'')) (mc_span call)) st)
      else case mc_source call of
        SrcLocal source_rel \<Rightarrow>
          (case canonicalize_inside (xc_fs cfg) (path_join caller_dir (parse_path source_rel))
                  (xc_workspace_root cfg) Reject of
             Inl err \<Rightarrow>
               (None, xs_diag (with_span (diagnostic_new SevWarn ''TF1502''
                  (''could not resolve local module `'' @ source_rel @ ''` from `'' @ path_str caller_dir
                   @ ''`: '' @ path_safety_error_str err)) (mc_span call)) st)
           | Inr canonical \<Rightarrow>
               if canonical \<in> set (xs_stack st) then
                 (None, xs_diag (with_span (diagnostic_new SevWarn ''TF1504''
                    (''module cycle detected at `'' @ path_str canonical @ ''` (chain: ''
                     @ format_chain (xs_stack st) @ '')'')) (mc_span call)) st)
               else case get_local (xc_registry cfg) canonical of
                   Some module_eval \<Rightarrow> (Some (canonical, module_eval), st)
                 | None \<Rightarrow>
                     (None, xs_diag (with_span (diagnostic_new SevWarn ''TF1503''
                        (''local module `'' @ source_rel @ ''` not found in registry (canonical path: ''
                         @ path_str canonical @ '')'')) (mc_span call)) st))
      | _ \<Rightarrow> (None, st))"

section \<open>Expanding a call\<close>

definition rewrite_resource ::
  "resource \<Rightarrow> addr_prefix \<Rightarrow> attribute_map \<Rightarrow> (str \<times> provider_ref) list \<Rightarrow> diagnostic + resource" where
  "rewrite_resource src p inputs pmap =
     (case prefix_address (res_address src) p of
        Inl reason \<Rightarrow>
          Inl (with_span (diagnostic_new SevWarn ''TF1507''
            (''dropping module-expanded resource: prefixed address fails validation (''
             @ validation_error_str reason @ '') at '' @ addr_str (res_address src))) (res_span src))
      | Inr new_address \<Rightarrow>
          Inr \<lparr>res_address = new_address, res_kind = res_kind src, res_type = res_type src,
               res_name = res_name src,
               res_provider_ref = map_option (substitute_provider_ref pmap) (res_provider_ref src),
               res_count_expr = map_option (substitute_inputs_in_expr inputs) (res_count_expr src),
               res_for_each_expr = map_option (substitute_inputs_in_expr inputs) (res_for_each_expr src),
               res_depends_on = res_depends_on src,
               res_attributes = substitute_inputs_in_attrs (res_attributes src) inputs,
               res_account_id = None, res_account_name = None, res_region = None, res_span = res_span src\<rparr>)"

definition emit_rewritten :: "diagnostic + resource \<Rightarrow> exp_state \<Rightarrow> exp_state" where
  "emit_rewritten r st =
     (case r of Inl d \<Rightarrow> xs_diag d st | Inr x \<Rightarrow> st\<lparr>xs_out := xs_out st @ [x]\<rparr>)"

definition push_stack :: "path \<Rightarrow> exp_state \<Rightarrow> exp_state" where
  "push_stack p st = st\<lparr>xs_stack := xs_stack st @ [p]\<rparr>"

definition pop_stack :: "exp_state \<Rightarrow> exp_state" where
  "pop_stack st = st\<lparr>xs_stack := butlast (xs_stack st)\<rparr>"

definition nested_call :: "module_call \<Rightarrow> module_call \<Rightarrow> module_call" where
  "nested_call call nested =
     nested\<lparr>mc_inputs := substitute_inputs_in_attrs (mc_inputs nested) (mc_inputs call)\<rparr>"

lemma resolve_depth: "resolve_module_call cfg call dir depth st = (Some x, st') \<Longrightarrow> depth < xc_max_module_depth cfg"
  by (auto simp: resolve_module_call_def split: if_splits)

function expand_module_call ::
  "exp_config \<Rightarrow> module_call \<Rightarrow> path \<Rightarrow> addr_prefix \<Rightarrow> (str \<times> provider_ref) list \<Rightarrow> nat \<Rightarrow> exp_state \<Rightarrow> exp_state" where
  "expand_module_call cfg call caller_dir parent_prefix parent_map depth st =
     (case resolve_module_call cfg call caller_dir depth st of
        (None, st1) \<Rightarrow> st1
      | (Some (canonical, module_eval), st1) \<Rightarrow>
          (case call_instances cfg call st1 of (instances, st2) \<Rightarrow>
             fold (\<lambda>index s.
                 let pmap = merge_provider_maps parent_map (mc_providers call);
                     inner = PStep parent_prefix (address_call_name (mc_address call)) index;
                     s1 = fold (\<lambda>r. emit_rewritten (rewrite_resource r inner (mc_inputs call) pmap))
                            (ev_resources module_eval) (push_stack canonical s);
                     s2 = fold (\<lambda>nested s'. expand_module_call cfg (nested_call call nested)
                              (comp_path (ev_raw module_eval)) inner pmap (depth + 1) s')
                            (ev_modules module_eval) s1
                 in pop_stack s2) instances st2))"
  by pat_completeness auto
termination
  by (relation "measure (\<lambda>(cfg, call, dir, p, pm, depth, st). xc_max_module_depth cfg - depth)")
     (auto dest!: resolve_depth [OF sym])

definition flatten_modules :: "exp_config \<Rightarrow> evaluated_component \<Rightarrow> exp_state \<Rightarrow> exp_state" where
  "flatten_modules cfg parent st =
     fold (\<lambda>call. expand_module_call cfg call (comp_path (ev_raw parent)) PRoot [] 0) (ev_modules parent) st"

section \<open>Expanding a resource\<close>

definition with_indexed_address :: "resource \<Rightarrow> str \<Rightarrow> diagnostic + resource" where
  "with_indexed_address r idx_text =
     (case address_new (addr_str (res_address r) @ idx_text) of
        Inl reason \<Rightarrow>
          Inl (with_span (diagnostic_new SevWarn ''TF1507''
            (''dropping expanded resource: indexed address fails validation (''
             @ validation_error_str reason @ '') at '' @ addr_str (res_address r))) (res_span r))
      | Inr new_addr \<Rightarrow>
          Inr (r\<lparr>res_address := new_addr, res_count_expr := None, res_for_each_expr := None,
                 res_account_id := None, res_account_name := None, res_region := None\<rparr>))"

fun oks :: "('e + 'a) list \<Rightarrow> 'a list" where
  "oks [] = []"
| "oks (Inr x # xs) = x # oks xs"
| "oks (Inl e # xs) = oks xs"

fun errs :: "('e + 'a) list \<Rightarrow> 'e list" where
  "errs [] = []"
| "errs (Inr x # xs) = errs xs"
| "errs (Inl e # xs) = e # errs xs"

definition expand_with :: "expansion \<Rightarrow> resource \<Rightarrow> diagnostic list \<Rightarrow> resource list \<times> diagnostic list" where
  "expand_with x r diags =
     (case x of
        Template message \<Rightarrow> ([r], diags @ expansion_diags x (res_span r))
      | Indexed idxs \<Rightarrow> (let rows = map (with_indexed_address r) idxs in (oks rows, diags @ errs rows)))"

definition expand_with_count :: "resource \<Rightarrow> expr \<Rightarrow> nat \<Rightarrow> diagnostic list \<Rightarrow> resource list \<times> diagnostic list" where
  "expand_with_count r c cap diags = expand_with (count_expansion cap (res_address r) c) r diags"

definition expand_with_for_each :: "resource \<Rightarrow> expr \<Rightarrow> nat \<Rightarrow> diagnostic list \<Rightarrow> resource list \<times> diagnostic list" where
  "expand_with_for_each r fe cap diags = expand_with (for_each_expansion cap (res_address r) fe) r diags"

definition expand_resource :: "resource \<Rightarrow> nat \<Rightarrow> diagnostic list \<Rightarrow> resource list \<times> diagnostic list" where
  "expand_resource r cap diags =
     (case res_count_expr r of
        Some c \<Rightarrow> expand_with_count r c cap diags
      | None \<Rightarrow> (case res_for_each_expr r of
          Some fe \<Rightarrow> expand_with_for_each r fe cap diags
        | None \<Rightarrow> ([r], diags)))"

text \<open>The expansion a resource asks for, and \<open>expand_resource\<close> in terms of it.\<close>

definition resource_expansion :: "nat \<Rightarrow> resource \<Rightarrow> expansion option" where
  "resource_expansion cap r =
     (case res_count_expr r of
        Some c \<Rightarrow> Some (count_expansion cap (res_address r) c)
      | None \<Rightarrow> map_option (for_each_expansion cap (res_address r)) (res_for_each_expr r))"

lemma expand_resource_eq:
  "expand_resource r cap diags =
     (case resource_expansion cap r of None \<Rightarrow> ([r], diags) | Some x \<Rightarrow> expand_with x r diags)"
  by (simp add: expand_resource_def resource_expansion_def expand_with_count_def expand_with_for_each_def
      split: option.split)

end
