(* ===== verification/ReduceProps.thy ===== *)
theory ReduceProps
  imports ReduceSafety
begin

text \<open>The properties of the reducer, each with a witness on a small concrete scope.\<close>

section \<open>Concrete inputs\<close>

definition sp0 :: span where
  "sp0 = span_synthetic"

definition symb :: "symbol_kind \<Rightarrow> str \<Rightarrow> symbolic" where
  "symb k s = \<lparr>sym_kind = k, sym_source = s, sym_address_hint = None, sym_span = sp0\<rparr>"

definition scope_of :: "vmap \<Rightarrow> vmap \<Rightarrow> scope" where
  "scope_of vars locals =
     \<lparr>sc_vars = vars, sc_locals = locals, sc_binders = [], sc_workspace_root = [RootDir, Normal ''ws''],
      sc_env_vars = env_var_mode_default, sc_limits = eval_limits_default, sc_funcs = registry_empty,
      sc_terraform_workspace = None, sc_ryu = (\<lambda>_. [])\<rparr>"

text \<open>\<open>"web-${var.env}-${local.tier}"\<close>.\<close>

definition name_template :: expr where
  "name_template = ETemplate [Literal (VStr ''web-''), Unresolved (symb KVar ''var.env''),
     Literal (VStr ''-''), Unresolved (symb KLocal ''local.tier'')]"

definition scope_env :: scope where
  "scope_env = scope_of [(''env'', VStr ''prod'')] []"

definition scope_full :: scope where
  "scope_full = scope_of [(''env'', VStr ''prod'')] [(''tier'', VStr ''db'')]"

text \<open>The definitions the simplifier unfolds to evaluate the reducer on a concrete input.\<close>

lemmas reduce_eval = scope_of_def symb_def resolve_symbol_def lookup_var_def lookup_local_def
  lookup_binder_def strip_or_self_def split_head_def resolve_path_def reduce_for_def for_filter_def
  eval_limits_default_def i64_checked_add_def i64_checked_sub_def i64_checked_mul_def
  i64_checked_div_def trunc_div_def checked_def in_i64_def i64_min_def i64_max_def
  registry_empty_def descend_attributes.simps

lemmas example_defs = name_template_def scope_env_def scope_full_def

lemma name_template_env:
  "reduce name_template scope_env = Some (ETemplate [Literal (VStr ''web-''), Literal (VStr ''prod''),
     Literal (VStr ''-''), Unresolved (symb KLocal ''local.tier'')])"
  by (simp add: example_defs reduce_eval)

section \<open>Properties\<close>

text \<open>C4. Reducing is idempotent, as the documentation of \<open>reduce_expression\<close> promises: a second pass
  over the result in the same scope returns it unchanged, whatever the scope binds and whatever the
  registered functions do.\<close>

theorem reduce_idempotent:
  assumes "reduce e sc = Some e1"
  shows "reduce e1 sc = Some e1"
  using assms by (rule reduce_idem_aux)

theorem reduce_idempotent_witness:
  "\<exists>e1. reduce name_template scope_env = Some e1 \<and> \<not> is_literal e1 \<and> reduce e1 scope_env = Some e1"
proof -
  from name_template_env reduce_idempotent [OF name_template_env] show ?thesis by auto
qed

text \<open>C1. Reduction is staged.  Reducing an expression while only some variables and locals are bound and
  reducing the result again once more of them are bound yields what reducing it once under all of
  them yields: the same value, a residual expression in both cases, or a panic in both.  The pipeline
  relies on it when it reduces locals, then components, then the expanded graph.\<close>

theorem reduce_staged:
  assumes "scope_le sc sc'" and "reduce e sc = Some e1"
  shows "map_option as_literal (reduce e1 sc') = map_option as_literal (reduce e sc')"
  using reduce_staged_aux [OF assms] by (simp add: outcome_def)

theorem reduce_staged_witness:
  "\<exists>e1. scope_le scope_env scope_full \<and> reduce name_template scope_env = Some e1
        \<and> map_option as_literal (reduce e1 scope_full) = Some (Some (VStr ''web-prod-db''))"
proof -
  have le: "scope_le scope_env scope_full"
    by (simp add: scope_le_def scope_env_def scope_full_def scope_of_def)
  have f: "map_option as_literal (reduce name_template scope_full) = Some (Some (VStr ''web-prod-db''))"
    by (simp add: example_defs reduce_eval)
  from le name_template_env reduce_staged [OF le name_template_env] f show ?thesis by auto
qed

text \<open>C2. Nothing unresolved is replaced by a default.  A symbol in a position the reducer visits which
  the scope does not resolve is still in the result, so the result is not counted as resolved.\<close>

theorem reduce_keeps_unresolved:
  assumes "reduce e sc = Some e1" and "s \<in> strict_symbols e" and "resolve_symbol sc s = None"
  shows "s \<in> set (symbols_of e1) \<and> \<not> is_fully_resolved e1"
proof -
  from reduce_strict_symbols_aux [OF assms(1,3,2)] strict_symbols_subset
  have "s \<in> set (symbols_of e1)" by blast
  then show ?thesis by (auto simp: is_fully_resolved_iff)
qed

theorem reduce_keeps_unresolved_witness:
  "\<exists>e1. reduce name_template scope_env = Some e1 \<and> symb KLocal ''local.tier'' \<in> set (symbols_of e1)
        \<and> \<not> is_fully_resolved e1"
proof -
  have s: "symb KLocal ''local.tier'' \<in> strict_symbols name_template" by (simp add: name_template_def)
  have n: "resolve_symbol scope_env (symb KLocal ''local.tier'') = None" by (simp add: example_defs reduce_eval)
  from name_template_env reduce_keeps_unresolved [OF name_template_env s n] show ?thesis by auto
qed

text \<open>Reduction invents no reference: every symbol of the result is a symbol of the input.\<close>

theorem reduce_no_new_symbols:
  assumes "reduce e sc = Some e1"
  shows "set (symbols_of e1) \<subseteq> set (symbols_of e)"
  using assms by (rule reduce_symbols_subset_aux)

theorem reduce_no_new_symbols_witness:
  "\<exists>e1. reduce name_template scope_env = Some e1 \<and> symbols_of e1 = [symb KLocal ''local.tier'']
        \<and> set (symbols_of e1) \<subseteq> set (symbols_of name_template)"
proof -
  from name_template_env reduce_no_new_symbols [OF name_template_env] show ?thesis by auto
qed

text \<open>Reduction preserves the machine types: from an expression and a scope whose integers are in the
  range of \<open>i64\<close> and whose floats are canonical, every value in the result is too (overflow is never
  wrapped around: it leaves the operation unresolved or moves to floats).\<close>

theorem reduce_preserves_wf:
  assumes "reduce e sc = Some e1" and "expr_wf e" and "scope_wf sc"
  shows "expr_wf e1"
  using assms by (rule reduce_wf_aux)

theorem reduce_preserves_wf_witness:
  "\<exists>e1. reduce (EBinary Add (Literal (VInt i64_max)) (Literal (VInt 1)) sp0) scope_env = Some e1
        \<and> expr_wf e1"
proof -
  let ?e = "EBinary Add (Literal (VInt i64_max)) (Literal (VInt 1)) sp0"
  have r: "reduce ?e scope_env = Some ?e" by (simp add: reduce_eval)
  have wf: "expr_wf ?e" by (simp add: in_i64_def i64_min_def i64_max_def)
  have sc: "scope_wf scope_env"
    by (simp add: scope_wf_def scope_env_def scope_of_def map_wf_def registry_empty_def)
  from r reduce_preserves_wf [OF r wf sc] show ?thesis by blast
qed

text \<open>The reducer does not panic on an expression without the operator \<open>%\<close>, in any scope and with any
  registered functions; integer overflow, division by zero and type errors are all results.\<close>

theorem reduce_panic_free:
  assumes "mod_free e"
  shows "\<exists>e1. reduce e sc = Some e1"
  using reduce_total_aux [OF assms] by auto

theorem reduce_panic_free_witness:
  "\<exists>e1. reduce (EBinary Div (Literal (VInt 1)) (Literal (VInt 0)) sp0) scope_env = Some e1"
  by (rule reduce_panic_free) simp

text \<open>The exact panic of the binary operators: the Euclidean remainder of \<open>i64::MIN\<close> by \<open>-1\<close>, which
  \<open>i64::rem_euclid\<close> rejects; no other operator and no other operands.\<close>

theorem eval_binary_panics_iff:
  "eval_binary op l r = None \<longleftrightarrow> op = Mod \<and> l = VInt i64_min \<and> r = VInt (-1)"
  by (rule eval_binary_panic)

text \<open>An inner comprehension that reuses the binder of an outer one sees the outer value: the binders are
  pushed at the end and looked up from the front, so \<open>[for x in [1] : [for x in [2] : x]]\<close> is
  \<open>[[1]]\<close>, where HCL gives \<open>[[2]]\<close>.\<close>

theorem nested_for_reads_outer_binder:
  "reduce (EFor [''x''] (EArray [Literal (VInt 1)]) None
      (EFor [''x''] (EArray [Literal (VInt 2)]) None (Unresolved (symb KOther ''x'')) None False sp0)
      None False sp0) scope_env
   = Some (Literal (VList [VList [VInt 1]]))"
  by (simp add: example_defs reduce_eval)

end
