(* ===== verification/GraphExpandProps.thy ===== *)
theory GraphExpandProps
  imports GraphExpand ReduceProps
begin

text \<open>What module and resource expansion promise.\<close>

section \<open>Rows of a resource\<close>

lemma digit_char_ascii: "d < 10 \<Longrightarrow> is_ascii_digit (digit_char d)"
proof -
  assume d: "d < 10"
  have "of_char (digit_char d) = 48 + d" using d by (simp add: digit_char_def)
  then show ?thesis using d by (simp add: is_ascii_digit_def char_between_def)
qed

lemma nat_str_ascii: "c \<in> set (nat_str n) \<Longrightarrow> is_ascii_digit c"
  using nat_str_digits digit_char_ascii by blast

lemma balanced_plain: "\<forall>c \<in> set s. c \<notin> {CHR ''['', CHR '']'', CHR 0x22} \<Longrightarrow> balanced s"
  by (induction s) (auto intro: balanced.intros)

lemma ascii_digit_plain: "is_ascii_digit c \<Longrightarrow> c \<notin> {CHR ''['', CHR '']'', CHR 0x22}"
  by (auto simp: is_ascii_digit_def char_between_def)

lemma index_suffix_ok:
  "list_all is_address_byte (index_suffix i)" "balanced (index_suffix i)"
proof -
  show "list_all is_address_byte (index_suffix i)"
    using nat_str_ascii [of _ i] by (auto simp: index_suffix_def is_address_byte_def list_all_iff)
  have "balanced (nat_str i)" using nat_str_ascii ascii_digit_plain by (blast intro: balanced_plain)
  from balanced.bal_bracket [OF this balanced.bal_Nil] show "balanced (index_suffix i)"
    by (simp add: index_suffix_def)
qed

lemma index_suffix_inj [simp]: "index_suffix i = index_suffix j \<longleftrightarrow> i = j"
  by (simp add: index_suffix_def)

text \<open>An index appended to a valid address is valid as long as the length allows it.\<close>

lemma indexed_address_ok:
  assumes "address_new s = Ok a" and "length s + length (index_suffix i) \<le> 1024"
  shows "address_new (s @ index_suffix i) = Ok (Address (s @ index_suffix i))"
  using assms index_suffix_ok by (auto simp: address_new_Ok_iff intro: balanced_append)

definition indexed_row :: "resource \<Rightarrow> str \<Rightarrow> resource" where
  "indexed_row r s =
     r\<lparr>res_address := Address (addr_str (res_address r) @ s), res_count_expr := None, res_for_each_expr := None,
       res_account_id := None, res_account_name := None, res_region := None\<rparr>"

lemma with_indexed_address_Ok:
  "with_indexed_address r s = Inr x \<Longrightarrow> x = indexed_row r s"
  by (auto simp: with_indexed_address_def indexed_row_def address_new_Ok_iff split: sum.splits)

lemma oks_length: "length (oks xs) \<le> length xs"
  by (induction xs rule: oks.induct) auto

lemma oks_set: "x \<in> set (oks xs) \<longleftrightarrow> Inr x \<in> set xs"
  by (induction xs rule: oks.induct) auto

lemma oks_map_Inr: "(\<And>x. x \<in> set xs \<Longrightarrow> f x = Inr (g x)) \<Longrightarrow> oks (map f xs) = map g xs \<and> errs (map f xs) = []"
  by (induction xs) auto

lemma oks_errs_length: "length (oks xs) + length (errs xs) = length xs"
  by (induction xs rule: oks.induct) auto

lemma string_items_length: "length (string_items vs) \<le> length vs"
  by (induction vs rule: string_items.induct) auto

lemma count_expansion_bound: "count_expansion cap site e = Indexed ss \<Longrightarrow> length ss \<le> cap"
  by (auto simp: count_expansion_def split: expr.splits hval.splits if_splits)

lemma for_each_expansion_bound:
  assumes "for_each_expansion cap site e = Indexed ss"
  shows "length ss \<le> cap"
proof -
  have "string_items items = ks \<Longrightarrow> length items \<le> cap \<Longrightarrow> length ks \<le> cap" for items ks
    using string_items_length [of items] by simp
  with assms show ?thesis
    by (auto simp: for_each_expansion_def split: expr.splits hval.splits if_splits)
qed

lemma expansion_bound:
  "resource_expansion cap r = Some (Indexed ss) \<Longrightarrow> length ss \<le> cap"
  by (auto simp: resource_expansion_def split: option.splits dest: count_expansion_bound for_each_expansion_bound)

lemma expand_resource_rows:
  "x \<in> set (fst (expand_resource r cap ds)) \<Longrightarrow>
     x = r \<or> (\<exists>ss s. resource_expansion cap r = Some (Indexed ss) \<and> s \<in> set ss \<and> x = indexed_row r s)"
  by (auto simp: expand_resource_eq expand_with_def oks_set Let_def dest: with_indexed_address_Ok [OF sym]
      split: option.splits expansion.splits)

section \<open>Substitution\<close>

definition substituted_symbols :: "attribute_map \<Rightarrow> symbolic \<Rightarrow> symbolic list" where
  "substituted_symbols inputs s = symbols_of (substitute_symbol inputs s)"

lemma concat_map_flat:
  "(\<And>x. x \<in> set xs \<Longrightarrow> g (f x) = concat (map h (g x))) \<Longrightarrow>
     concat (map (\<lambda>x. g (f x)) xs) = concat (map h (concat (map g xs)))"
  by (induction xs) auto

lemma symbols_of_substitute:
  "symbols_of (substitute_inputs_in_expr inputs e) = concat (map (substituted_symbols inputs) (symbols_of e))"
proof (induction inputs e rule: substitute_inputs_in_expr.induct)
  case (5 inputs ps)
  from concat_map_flat [of ps symbols_of "substitute_inputs_in_expr inputs" "substituted_symbols inputs"] 5
  show ?case by (simp add: comp_def)
next
  case (6 inputs ps)
  from concat_map_flat [of ps symbols_of "substitute_inputs_in_expr inputs" "substituted_symbols inputs"] 6
  show ?case by (simp add: comp_def)
next
  case (7 inputs es)
  have "concat (map (\<lambda>x. (\<lambda>(k, v). symbols_of k @ symbols_of v)
          ((\<lambda>(k, v). (substitute_inputs_in_expr inputs k, substitute_inputs_in_expr inputs v)) x)) es) =
        concat (map (substituted_symbols inputs) (concat (map (\<lambda>(k, v). symbols_of k @ symbols_of v) es)))"
    by (rule concat_map_flat) (use 7 in auto)
  then show ?case by (simp add: comp_def)
next
  case (8 inputs n args sp)
  from concat_map_flat [of args symbols_of "substitute_inputs_in_expr inputs" "substituted_symbols inputs"] 8
  show ?case by (simp add: comp_def)
next
  case (10 inputs bs coll k v c obj sp)
  then show ?case by (cases k; cases c) simp_all
qed (simp_all add: substituted_symbols_def)

lemma map_idem: "(\<And>x. x \<in> set xs \<Longrightarrow> f x = x) \<Longrightarrow> map f xs = xs"
  by (induction xs) auto

lemma substitute_unbound:
  "\<forall>s \<in> set (symbols_of e). substitute_symbol inputs s = Unresolved s \<Longrightarrow>
     substitute_inputs_in_expr inputs e = e"
proof (induction inputs e rule: substitute_inputs_in_expr.induct)
  case (7 inputs es)
  then show ?case by (auto intro!: map_idem)
next
  case (10 inputs bs coll k v c obj sp)
  then show ?case by (cases k; cases c) auto
qed (auto intro!: map_idem)

section \<open>The expansion of a call\<close>

lemma xs_diag_simps [simp]:
  "xs_stack (xs_diag d st) = xs_stack st" "xs_out (xs_diag d st) = xs_out st"
  "xs_diagnostics (xs_diag d st) = xs_diagnostics st @ [d]"
  by (simp_all add: xs_diag_def)

lemma fold_xs_diag [simp]:
  "xs_stack (fold xs_diag ds st) = xs_stack st" "xs_out (fold xs_diag ds st) = xs_out st"
  by (induction ds arbitrary: st) auto

lemma resolve_keeps:
  "resolve_module_call cfg call dir depth st = (res, st') \<Longrightarrow> xs_stack st' = xs_stack st \<and> xs_out st' = xs_out st"
  by (auto simp: resolve_module_call_def split: if_splits module_source.splits sum.splits option.splits)

lemma call_instances_keeps:
  "call_instances cfg call st = (is, st') \<Longrightarrow> xs_stack st' = xs_stack st \<and> xs_out st' = xs_out st"
  by (auto simp: call_instances_def instances_for_count_def instances_for_for_each_def expansion_step_def split: option.splits)

lemma emit_rewritten_stack [simp]: "xs_stack (emit_rewritten r st) = xs_stack st"
  by (auto simp: emit_rewritten_def split: sum.splits)

lemma fold_emit_stack [simp]: "xs_stack (fold (\<lambda>r. emit_rewritten (f r)) rs st) = xs_stack st"
  by (induction rs arbitrary: st) auto

lemma fold_keeps:
  assumes "\<And>x s. x \<in> set xs \<Longrightarrow> P s \<Longrightarrow> P (f x s)" and "P s"
  shows "P (fold f xs s)"
  using assms by (induction xs arbitrary: s) auto

lemma fold_keeps_stack:
  fixes f :: "'x \<Rightarrow> exp_state \<Rightarrow> exp_state"
  assumes "\<And>x s. x \<in> set xs \<Longrightarrow> xs_stack (f x s) = xs_stack s"
  shows "xs_stack (fold f xs s) = xs_stack s"
  using assms by (induction xs arbitrary: s) auto

declare expand_module_call.simps [simp del]

lemma expand_stack: "xs_stack (expand_module_call cfg call dir p pm depth st) = xs_stack st"
proof (induction cfg call dir p pm depth st rule: expand_module_call.induct)
  case (1 cfg call dir p pm depth st)
  show ?case
  proof (cases "resolve_module_call cfg call dir depth st")
    case (Pair res st1)
    show ?thesis
    proof (cases res)
      case None
      with Pair resolve_keeps [OF Pair] show ?thesis by (simp add: expand_module_call.simps)
    next
      case (Some ce)
      obtain canonical ev where ce: "ce = (canonical, ev)" by (cases ce)
      obtain ins st2 where i: "call_instances cfg call st1 = (ins, st2)" by (cases "call_instances cfg call st1")
      note IH = 1 [OF Pair [symmetric] Some ce [symmetric] i [symmetric]]
      show ?thesis
        unfolding expand_module_call.simps [of cfg call] Pair Some ce i prod.case option.case
      proof (rule fold_keeps)
        show "xs_stack st2 = xs_stack st" using resolve_keeps [OF Pair] call_instances_keeps [OF i] by simp
      next
        fix index and s :: exp_state
        assume "index \<in> set ins" and s: "xs_stack s = xs_stack st"
        let ?pm = "merge_provider_maps pm (mc_providers call)"
        let ?inner = "PStep p (address_call_name (mc_address call)) index"
        let ?s1 = "fold (\<lambda>r. emit_rewritten (rewrite_resource r ?inner (mc_inputs call) ?pm)) (ev_resources ev) (push_stack canonical s)"
        have "xs_stack (fold (\<lambda>nested s'. expand_module_call cfg (nested_call call nested) (comp_path (ev_raw ev)) ?inner ?pm (depth + 1) s')
              (ev_modules ev) ?s1) = xs_stack ?s1"
          by (rule fold_keeps_stack) (rule IH [OF \<open>index \<in> set ins\<close> refl refl refl])
        then show "xs_stack (let pmap = ?pm; inner = PStep p (address_call_name (mc_address call)) index;
              s1 = fold (\<lambda>r. emit_rewritten (rewrite_resource r inner (mc_inputs call) pmap)) (ev_resources ev) (push_stack canonical s);
              s2 = fold (\<lambda>nested s'. expand_module_call cfg (nested_call call nested) (comp_path (ev_raw ev)) inner pmap (depth + 1) s') (ev_modules ev) s1
              in pop_stack s2) = xs_stack st"
          by (simp add: pop_stack_def push_stack_def s Let_def)
      qed
    qed
  qed
qed

fun prefix_len :: "addr_prefix \<Rightarrow> nat" where
  "prefix_len PRoot = 0"
| "prefix_len (PStep p name index) = Suc (prefix_len p)"

text \<open>Where an emitted row comes from: a resource of a registered module, under a prefix of at most the
  allowed depth.\<close>

definition row_origin :: "exp_config \<Rightarrow> resource \<Rightarrow> addr_prefix \<Rightarrow> resource \<Rightarrow> bool" where
  "row_origin cfg src p row \<longleftrightarrow>
     (\<exists>path ev. get_local (xc_registry cfg) path = Some ev \<and> src \<in> set (ev_resources ev)) \<and>
     0 < prefix_len p \<and> prefix_len p \<le> xc_max_module_depth cfg \<and>
     addr_str (res_address row) = render_prefix p @ ''.'' @ addr_str (res_address src) \<and>
     res_kind row = res_kind src \<and> res_type row = res_type src \<and> res_name row = res_name src \<and>
     res_depends_on row = res_depends_on src \<and> map fst (res_attributes row) = map fst (res_attributes src)"

lemma render_into_ne: "0 < prefix_len p \<Longrightarrow> render_into p acc \<noteq> []"
  by (cases p) (auto simp: Let_def)

lemma rewrite_resource_origin:
  assumes "rewrite_resource src p inputs pm = Inr row" and "get_local (xc_registry cfg) path = Some ev"
    and "src \<in> set (ev_resources ev)" and "0 < prefix_len p" and "prefix_len p \<le> xc_max_module_depth cfg"
  shows "row_origin cfg src p row"
proof -
  have "addr_str (res_address row) = render_prefix p @ ''.'' @ addr_str (res_address src)"
    using assms(1) render_into_ne [OF assms(4), of "[]"]
    by (auto simp: rewrite_resource_def prefix_address_def render_prefix_def address_new_Ok_iff Let_def split: sum.splits)
  moreover have "map fst (substitute_inputs_in_attrs attrs ins) = map fst attrs" for attrs ins
    by (simp add: substitute_inputs_in_attrs_def comp_def split_beta)
  ultimately show ?thesis using assms by (auto simp: row_origin_def rewrite_resource_def split: sum.splits)
qed

lemma resolve_Some:
  "resolve_module_call cfg call dir depth st = (Some (canonical, ev), st') \<Longrightarrow>
     depth < xc_max_module_depth cfg \<and> get_local (xc_registry cfg) canonical = Some ev \<and>
     canonical \<notin> set (xs_stack st) \<and> st' = st"
  by (auto simp: resolve_module_call_def split: if_splits module_source.splits sum.splits option.splits)

lemma expand_invariant:
  assumes diag: "\<And>d s. P s \<Longrightarrow> P (xs_diag d s)"
    and push: "\<And>c s. P s \<Longrightarrow> P (push_stack c s)" and pop: "\<And>s. P s \<Longrightarrow> P (pop_stack s)"
    and emit: "\<And>s src q row. P s \<Longrightarrow> row_origin cfg src q row \<Longrightarrow> P (s\<lparr>xs_out := xs_out s @ [row]\<rparr>)"
  shows "P st \<Longrightarrow> prefix_len p = depth \<Longrightarrow> P (expand_module_call cfg call dir p pm depth st)"
  using assms
proof (induction cfg call dir p pm depth st rule: expand_module_call.induct)
  case (1 cfg call dir p pm depth st)
  note P_diag = "1.prems"(3) and P_push = "1.prems"(4) and P_pop = "1.prems"(5) and P_emit = "1.prems"(6)
  have P_diags: "P s \<Longrightarrow> P (fold xs_diag ds s)" for ds s by (induction ds arbitrary: s) (auto intro: P_diag)
  show ?case
  proof (cases "resolve_module_call cfg call dir depth st")
    case (Pair res st1)
    show ?thesis
    proof (cases res)
      case None
      with Pair have "P st1"
        using "1.prems"(1) by (auto simp: resolve_module_call_def intro: P_diag
            split: if_splits module_source.splits sum.splits option.splits)
      with Pair None show ?thesis by (simp add: expand_module_call.simps)
    next
      case (Some ce)
      obtain canonical ev where ce: "ce = (canonical, ev)" by (cases ce)
      obtain ins st2 where i: "call_instances cfg call st1 = (ins, st2)" by (cases "call_instances cfg call st1")
      from resolve_Some [OF Pair [unfolded Some ce]] have rs: "depth < xc_max_module_depth cfg"
        "get_local (xc_registry cfg) canonical = Some ev" "st1 = st" by auto
      note IH = "1.IH" [OF Pair [symmetric] Some ce [symmetric] i [symmetric]]
      have step: "P (pop_stack (fold (\<lambda>nested s'. expand_module_call cfg (nested_call call nested)
            (comp_path (ev_raw ev)) (PStep p n index) (merge_provider_maps pm (mc_providers call)) (depth + 1) s') (ev_modules ev)
            (fold (\<lambda>r. emit_rewritten (rewrite_resource r (PStep p n index) (mc_inputs call) (merge_provider_maps pm (mc_providers call))))
              (ev_resources ev) (push_stack canonical s))))"
        if s: "P s" "index \<in> set ins" and n: "n = address_call_name (mc_address call)" for index s n
      proof -
        let ?pm = "merge_provider_maps pm (mc_providers call)"
        let ?inner = "PStep p n index"
        let ?s1 = "fold (\<lambda>r. emit_rewritten (rewrite_resource r ?inner (mc_inputs call) ?pm)) (ev_resources ev) (push_stack canonical s)"
        have len: "prefix_len ?inner = depth + 1" using "1.prems"(2) by simp
        have emits: "P ?s1"
        proof (rule fold_keeps)
          show "P (push_stack canonical s)" by (rule P_push [OF s(1)])
          fix r :: resource and s' :: exp_state
          assume "r \<in> set (ev_resources ev)" "P s'"
          with rs len show "P (emit_rewritten (rewrite_resource r ?inner (mc_inputs call) ?pm) s')"
            by (auto simp: emit_rewritten_def split: sum.splits
                intro!: P_diag P_emit rewrite_resource_origin [of r ?inner "mc_inputs call" ?pm])
        qed
        have "P (fold (\<lambda>nested s'. expand_module_call cfg (nested_call call nested) (comp_path (ev_raw ev)) ?inner ?pm (depth + 1) s')
              (ev_modules ev) ?s1)"
        proof (rule fold_keeps)
          fix nested :: module_call and s' :: exp_state
          assume nm: "nested \<in> set (ev_modules ev)" and ps: "P s'"
          show "P (expand_module_call cfg (nested_call call nested) (comp_path (ev_raw ev)) ?inner ?pm (depth + 1) s')"
            unfolding n
            by (rule IH [OF s(2) refl refl refl nm ps _ P_diag P_push P_pop P_emit]) (use len in simp)
        qed (rule emits)
        then show ?thesis by (rule P_pop)
      qed
      have "P st2" using i rs(3) "1.prems"(1)
        by (auto simp: call_instances_def instances_for_count_def instances_for_for_each_def expansion_step_def
            intro: P_diags split: option.splits)
      then show ?thesis
        unfolding expand_module_call.simps [of cfg call] Pair Some ce i prod.case option.case Let_def
      proof (rule fold_keeps [where P = P, rotated])
        fix index and s :: exp_state
        assume "index \<in> set ins" "P s"
        then show "P (pop_stack (fold (\<lambda>nested s'. expand_module_call cfg (nested_call call nested) (comp_path (ev_raw ev))
            (PStep p (address_call_name (mc_address call)) index) (merge_provider_maps pm (mc_providers call)) (depth + 1) s')
            (ev_modules ev) (fold (\<lambda>r. emit_rewritten (rewrite_resource r (PStep p (address_call_name (mc_address call)) index)
                (mc_inputs call) (merge_provider_maps pm (mc_providers call)))) (ev_resources ev) (push_stack canonical s))))"
          by (intro step) (assumption | rule refl)+
      qed
    qed
  qed
qed

end
