(* ===== verification/ReduceCong.thy ===== *)
theory ReduceCong
  imports ReduceLaws
begin

text \<open>What reduction may depend on: the values its symbols have, the results of the registered functions, the limit on
  iterations and the float formatter.  Two scopes that agree on these reduce an expression to the same result.\<close>

lemma for_filter_cong: "(\<And>c. cond = Some c \<Longrightarrow> c s = c s') \<Longrightarrow> for_filter cond s = for_filter cond s'"
  by (cases cond) (simp_all add: for_filter_def)

lemma for_loop_scope_cong:
  assumes b: "sc_binders sc = sc_binders sc'"
    and val: "\<And>b. val (sc\<lparr>sc_binders := b\<rparr>) = val (sc'\<lparr>sc_binders := b\<rparr>)"
    and key: "\<And>k b. key = Some k \<Longrightarrow> k (sc\<lparr>sc_binders := b\<rparr>) = k (sc'\<lparr>sc_binders := b\<rparr>)"
    and cond: "\<And>c b. cond = Some c \<Longrightarrow> c (sc\<lparr>sc_binders := b\<rparr>) = c (sc'\<lparr>sc_binders := b\<rparr>)"
  shows "for_loop bs key val cond obj sc pairs ol om = for_loop bs key val cond obj sc' pairs ol om"
proof (induction pairs arbitrary: ol om)
  case (Cons p pairs)
  obtain k v where p: "p = (k, v)" by (cases p)
  show ?case
  proof (cases "bind_names bs k v (sc_binders sc')")
    case (Some ib)
    have f: "for_filter cond (sc\<lparr>sc_binders := ib\<rparr>) = for_filter cond (sc'\<lparr>sc_binders := ib\<rparr>)"
      by (rule for_filter_cong) (rule cond)
    show ?thesis
      unfolding p for_loop.simps b Some option.case Let_def f val Cons.IH
      by (cases key) (simp_all add: key cong: option.case_cong filter_result.case_cong if_cong)
  qed (simp add: p b)
qed simp

lemma reduce_for_scope_cong:
  assumes "sc_binders sc = sc_binders sc'" "sc_limits sc = sc_limits sc'"
    and "\<And>b. val (sc\<lparr>sc_binders := b\<rparr>) = val (sc'\<lparr>sc_binders := b\<rparr>)"
    and "\<And>k b. key = Some k \<Longrightarrow> k (sc\<lparr>sc_binders := b\<rparr>) = k (sc'\<lparr>sc_binders := b\<rparr>)"
    and "\<And>c b. cond = Some c \<Longrightarrow> c (sc\<lparr>sc_binders := b\<rparr>) = c (sc'\<lparr>sc_binders := b\<rparr>)"
  shows "reduce_for bs key val cond obj coll sc = reduce_for bs key val cond obj coll sc'"
  using for_loop_scope_cong [OF assms(1,3,4,5)] assms(2) by (simp add: reduce_for_def split: option.split)

lemma map_option_list_cong2: "(\<And>x. x \<in> set xs \<Longrightarrow> f x = g x) \<Longrightarrow> map_option_list f xs = map_option_list g xs"
  by (rule map_option_list_cong) simp_all

section \<open>Agreeing scopes\<close>

definition same_call :: "scope \<Rightarrow> scope \<Rightarrow> str \<Rightarrow> bool" where
  "same_call sc sc' n \<longleftrightarrow>
     rel_option (\<lambda>f g. \<forall>vs. f vs (scope_cx sc) = g vs (scope_cx sc')) (sc_funcs sc n) (sc_funcs sc' n)"

definition scopes_agree :: "symbolic set \<Rightarrow> scope \<Rightarrow> scope \<Rightarrow> bool" where
  "scopes_agree S sc sc' \<longleftrightarrow>
     sc_binders sc = sc_binders sc' \<and> sc_limits sc = sc_limits sc' \<and> sc_ryu sc = sc_ryu sc' \<and>
     (\<forall>s \<in> S. \<forall>b. resolve_symbol (sc\<lparr>sc_binders := b\<rparr>) s = resolve_symbol (sc'\<lparr>sc_binders := b\<rparr>) s) \<and>
     (\<forall>n. same_call sc sc' n)"

lemma scopes_agree_binders: "scopes_agree S sc sc' \<Longrightarrow> scopes_agree S (sc\<lparr>sc_binders := b\<rparr>) (sc'\<lparr>sc_binders := b\<rparr>)"
proof -
  have "scope_cx (s\<lparr>sc_binders := b\<rparr>) = scope_cx s" for s :: scope by (simp add: scope_cx_def)
  then show "scopes_agree S sc sc' \<Longrightarrow> ?thesis" by (simp add: scopes_agree_def same_call_def)
qed

lemma scopes_agree_subset: "scopes_agree S sc sc' \<Longrightarrow> T \<subseteq> S \<Longrightarrow> scopes_agree T sc sc'"
  by (auto simp: scopes_agree_def)

lemma scopes_agree_resolve:
  assumes "scopes_agree S sc sc'" "s \<in> S"
  shows "resolve_symbol sc s = resolve_symbol sc' s"
proof -
  have "resolve_symbol (sc\<lparr>sc_binders := sc_binders sc\<rparr>) s = resolve_symbol (sc'\<lparr>sc_binders := sc_binders sc'\<rparr>) s"
    using assms unfolding scopes_agree_def by metis
  then show ?thesis by simp
qed

lemma reduce_scope_cong:
  "scopes_agree (set (symbols_of e)) sc sc' \<Longrightarrow> reduce e sc = reduce e sc'"
proof (induction e arbitrary: sc sc')
  case (Unresolved s)
  then show ?case by (simp add: scopes_agree_resolve)
next
  case (EFuncCall n args sp)
  have args: "map_option_list (\<lambda>a. reduce a sc) args = map_option_list (\<lambda>a. reduce a sc') args"
    by (rule map_option_list_cong2, rule EFuncCall.IH, assumption, rule scopes_agree_subset [OF EFuncCall.prems]) auto
  have "same_call sc sc' n" using EFuncCall.prems by (simp add: scopes_agree_def)
  then show ?case
    by (cases "sc_funcs sc n"; cases "sc_funcs sc' n") (simp_all add: args same_call_def split: option.split)
next
  case (ETemplate ps)
  have "map_option_list (\<lambda>a. reduce a sc) ps = map_option_list (\<lambda>a. reduce a sc') ps"
    by (rule map_option_list_cong2, rule ETemplate.IH, assumption, rule scopes_agree_subset [OF ETemplate.prems]) auto
  moreover have "sc_ryu sc = sc_ryu sc'" using ETemplate.prems by (simp add: scopes_agree_def)
  ultimately show ?case by (simp cong: option.case_cong if_cong)
next
  case (EArray ps)
  have "map_option_list (\<lambda>a. reduce a sc) ps = map_option_list (\<lambda>a. reduce a sc') ps"
    by (rule map_option_list_cong2, rule EArray.IH, assumption, rule scopes_agree_subset [OF EArray.prems]) auto
  then show ?case by simp
next
  case (EObject es)
  have "map_option_list (pair_reduce sc) es = map_option_list (pair_reduce sc') es"
  proof (rule map_option_list_cong2)
    fix p assume p: "p \<in> set es"
    obtain k v where kv: "p = (k, v)" by (cases p)
    have "set (symbols_of k) \<union> set (symbols_of v) \<subseteq> set (symbols_of (EObject es))" using p by (force simp: kv)
    then have "scopes_agree (set (symbols_of k)) sc sc'" "scopes_agree (set (symbols_of v)) sc sc'"
      using scopes_agree_subset [OF EObject.prems] by blast+
    then have "reduce k sc = reduce k sc'" "reduce v sc = reduce v sc'"
      using EObject.IH [OF p] by (simp_all add: kv)
    then show "pair_reduce sc p = pair_reduce sc' p" by (simp add: kv pair_reduce_def cong: option.case_cong)
  qed
  then show ?case unfolding reduce_object by (simp only:)
next
  case (EFor bs coll key val cond obj sp)
  have sub: "scopes_agree T (sc\<lparr>sc_binders := b\<rparr>) (sc'\<lparr>sc_binders := b\<rparr>)" "scopes_agree T sc sc'"
    if "T \<subseteq> set (symbols_of (EFor bs coll key val cond obj sp))" for T b
    using scopes_agree_subset [OF EFor.prems that] scopes_agree_binders by blast+
  have c: "reduce coll sc = reduce coll sc'" by (rule EFor.IH(1), rule sub(2)) simp
  let ?k = "case key of None \<Rightarrow> None | Some k \<Rightarrow> Some (\<lambda>s. reduce k s)"
  let ?c = "case cond of None \<Rightarrow> None | Some c \<Rightarrow> Some (\<lambda>s. reduce c s)"
  have f: "reduce_for bs ?k (\<lambda>s. reduce val s) ?c obj v sc = reduce_for bs ?k (\<lambda>s. reduce val s) ?c obj v sc'" for v
  proof (rule reduce_for_scope_cong)
    show "sc_binders sc = sc_binders sc'" "sc_limits sc = sc_limits sc'" using EFor.prems by (simp_all add: scopes_agree_def)
    show "reduce val (sc\<lparr>sc_binders := b\<rparr>) = reduce val (sc'\<lparr>sc_binders := b\<rparr>)" for b
      by (rule EFor.IH(3), rule sub(1)) auto
    show "k (sc\<lparr>sc_binders := b\<rparr>) = k (sc'\<lparr>sc_binders := b\<rparr>)" if "?k = Some k" for k b
    proof (cases key)
      case (Some x)
      then have "reduce x (sc\<lparr>sc_binders := b\<rparr>) = reduce x (sc'\<lparr>sc_binders := b\<rparr>)"
        by (intro EFor.IH(2) sub(1)) auto
      then show ?thesis using that Some by auto
    qed (use that in simp)
    show "k (sc\<lparr>sc_binders := b\<rparr>) = k (sc'\<lparr>sc_binders := b\<rparr>)" if "?c = Some k" for k b
    proof (cases cond)
      case (Some x)
      then have "reduce x (sc\<lparr>sc_binders := b\<rparr>) = reduce x (sc'\<lparr>sc_binders := b\<rparr>)"
        by (intro EFor.IH(4) sub(1)) auto
      then show ?thesis using that Some by auto
    qed (use that in simp)
  qed
  show ?case unfolding reduce.simps c f ..
next
  case (EConditional c t e sp)
  have "reduce c sc = reduce c sc'" "reduce t sc = reduce t sc'" "reduce e sc = reduce e sc'"
    by (rule EConditional.IH, rule scopes_agree_subset [OF EConditional.prems], auto)+
  then show ?case unfolding reduce.simps by (simp only:)
next
  case (EBinary op l r sp)
  have "reduce l sc = reduce l sc'" "reduce r sc = reduce r sc'"
    by (rule EBinary.IH, rule scopes_agree_subset [OF EBinary.prems], auto)+
  then show ?case by (simp cong: option.case_cong)
next
  case (EUnary op x sp)
  have "reduce x sc = reduce x sc'" using EUnary by simp
  then show ?case by (simp cong: option.case_cong)
qed simp

end
