(* ===== verification/Substitution.thy ===== *)
theory Substitution
  imports GraphExpandProps ReduceCong
begin

text \<open>Substituting literal inputs for the variables of a module body is the same as reducing the body in a
  scope that binds the variables: the two ways in which the program gives a variable its value agree.\<close>

section \<open>Comprehensions with equivalent bodies\<close>

definition red_agree :: "scope \<Rightarrow> reduction \<Rightarrow> reduction \<Rightarrow> bool" where
  "red_agree sc f g \<longleftrightarrow> (\<forall>bs. outcome (f (sc\<lparr>sc_binders := bs\<rparr>)) = outcome (g (sc\<lparr>sc_binders := bs\<rparr>)))"

lemma red_agreeD: "red_agree sc f g \<Longrightarrow> outcome (f (sc\<lparr>sc_binders := bs\<rparr>)) = outcome (g (sc\<lparr>sc_binders := bs\<rparr>))"
  by (simp add: red_agree_def)

lemma for_filter_agree:
  assumes "rel_option (red_agree sc) c d"
  shows "for_filter c (sc\<lparr>sc_binders := bs\<rparr>) = for_filter d (sc\<lparr>sc_binders := bs\<rparr>)"
proof (cases c)
  case (Some f)
  with assms obtain g where d: "d = Some g" "red_agree sc f g" by (cases d) auto
  from red_agreeD [OF d(2), of bs] show ?thesis
    by (cases rule: outcome_eq_cases) (auto simp: for_filter_def Some d(1) bool_literal_nonliteral)
qed (use assms in simp)

lemma for_loop_agree:
  assumes "rel_option (red_agree sc) key key'" and "red_agree sc val val'" and "rel_option (red_agree sc) cond cond'"
  shows "for_loop bs key val cond obj sc pairs ol om = for_loop bs key' val' cond' obj sc pairs ol om"
proof (induction pairs arbitrary: obj ol om)
  case (Cons p pairs)
  obtain k v where p: "p = (k, v)" by (cases p)
  show ?case
  proof (cases "bind_names bs k v (sc_binders sc)")
    case ib: (Some ib)
    let ?s = "sc\<lparr>sc_binders := ib\<rparr>"
    note fl = for_filter_agree [OF assms(3), of ib]
    have key: "(case key of None \<Rightarrow> Some ForStuck | Some kf \<Rightarrow> case kf ?s of None \<Rightarrow> None | Some e \<Rightarrow>
                 case str_literal e of None \<Rightarrow> Some ForStuck | Some s \<Rightarrow> for_loop bs key val cond obj sc pairs ol (om @ [(s, w)])) =
               (case key' of None \<Rightarrow> Some ForStuck | Some kf \<Rightarrow> case kf ?s of None \<Rightarrow> None | Some e \<Rightarrow>
                 case str_literal e of None \<Rightarrow> Some ForStuck | Some s \<Rightarrow> for_loop bs key' val' cond' obj sc pairs ol (om @ [(s, w)]))" for w
    proof (cases key)
      case (Some f)
      with assms(1) obtain g where g: "key' = Some g" "red_agree sc f g" by (cases key') auto
      from red_agreeD [OF g(2), of ib] show ?thesis
        by (cases rule: outcome_eq_cases) (auto simp: Some g(1) str_literal_nonliteral Cons.IH [unfolded Some g(1)] split: option.splits)
    qed (use assms(1) in simp)
    show ?thesis
    proof (cases "for_filter cond' ?s")
      case (Some fr)
      from red_agreeD [OF assms(2), of ib] show ?thesis
        by (cases rule: outcome_eq_cases; cases fr)
           (simp_all add: p ib fl Some Cons.IH key as_literal_None [THEN iffD2])
    qed (simp add: p ib fl)
  qed (simp add: p)
qed simp

lemma outcome_for_agree:
  assumes coll: "outcome (reduce coll sc) = outcome (reduce coll' sc)"
    and key: "rel_option (\<lambda>k k'. red_agree sc (reduce k) (reduce k')) key key'"
    and val: "red_agree sc (reduce val) (reduce val')"
    and cond: "rel_option (\<lambda>c c'. red_agree sc (reduce c) (reduce c')) cond cond'"
  shows "outcome (reduce (EFor bs coll key val cond obj sp) sc) = outcome (reduce (EFor bs coll' key' val' cond' obj sp) sc)"
proof -
  let ?red = "\<lambda>oe :: expr option. case oe of None \<Rightarrow> None | Some k \<Rightarrow> Some (\<lambda>s. reduce k s)"
  have "rel_option (red_agree sc) (?red key) (?red key')" using key by (cases key; cases key') auto
  moreover have "rel_option (red_agree sc) (?red cond) (?red cond')" using cond by (cases cond; cases cond') auto
  ultimately have loop: "reduce_for bs (?red key) (\<lambda>s. reduce val s) (?red cond) obj v sc =
      reduce_for bs (?red key') (\<lambda>s. reduce val' s) (?red cond') obj v sc" for v
    unfolding reduce_for_def by (subst for_loop_agree [OF _ val]) (assumption | rule refl)+
  from coll show ?thesis
  proof (cases rule: outcome_eq_cases)
    case (lit v)
    define r where "r = reduce_for bs (?red key') (\<lambda>s. reduce val' s) (?red cond') obj v sc"
    show ?thesis by (cases r; cases "the r") (simp_all add: lit loop r_def [symmetric])
  next
    case (residual p q)
    then have "as_literal p = None" "as_literal q = None" by (simp_all add: as_literal_None)
    with residual show ?thesis by simp
  qed simp
qed

section \<open>Substitution and binding\<close>

definition binds_inputs :: "scope \<Rightarrow> attribute_map \<Rightarrow> bool" where
  "binds_inputs sc inputs \<longleftrightarrow>
     (\<forall>n b. map_of inputs n = Some b \<longrightarrow> (\<exists>v. b = Literal v \<and> lookup_var sc n = Some v))"

lemma binds_inputs_binders [simp]: "binds_inputs (sc\<lparr>sc_binders := bs\<rparr>) inputs \<longleftrightarrow> binds_inputs sc inputs"
  by (simp add: binds_inputs_def lookup_var_def)

lemma substitute_symbol_outcome:
  "binds_inputs sc inputs \<Longrightarrow> reduce (substitute_symbol inputs s) sc = reduce (Unresolved s) sc"
proof (cases "var_root s")
  case (Some n)
  assume b: "binds_inputs sc inputs"
  from Some have r: "resolve_symbol sc s = lookup_var sc n"
    by (auto simp: var_root_def resolve_symbol_def resolve_path_def split: if_splits prod.splits option.split)
  show ?thesis
  proof (cases "map_of inputs n")
    case (Some e)
    with b obtain v where "e = Literal v" "lookup_var sc n = Some v" unfolding binds_inputs_def by blast
    with Some r \<open>var_root s = Some n\<close> show ?thesis by (simp add: substitute_symbol_def)
  qed (simp add: substitute_symbol_def Some)
qed (simp add: substitute_symbol_def)

lemma substitution_outcome:
  "binds_inputs sc inputs \<Longrightarrow>
     outcome (reduce (substitute_inputs_in_expr inputs e) sc) = outcome (reduce e sc)"
proof (induction inputs e arbitrary: sc rule: substitute_inputs_in_expr.induct)
  case (2 inputs s)
  then show ?case by (simp add: substitute_symbol_outcome del: reduce.simps)
next
  case (3 inputs op l r sp)
  then show ?case unfolding substitute_inputs_in_expr.simps by (intro outcome_binary)
next
  case (4 inputs op x sp)
  then show ?case unfolding substitute_inputs_in_expr.simps by (intro outcome_unary)
next
  case (5 inputs ps)
  show ?case unfolding substitute_inputs_in_expr.simps
    by (intro outcome_template map_option_list_outcome) (use 5 in \<open>auto simp: list_all2_conv_all_nth\<close>)
next
  case (6 inputs ps)
  show ?case unfolding substitute_inputs_in_expr.simps
    by (intro outcome_array map_option_list_outcome) (use 6 in \<open>auto simp: list_all2_conv_all_nth\<close>)
next
  case (7 inputs es)
  have "list_all2 (\<lambda>y x. outcome (reduce (fst y) sc) = outcome (reduce (fst x) sc) \<and>
                   outcome (reduce (snd y) sc) = outcome (reduce (snd x) sc))
        (map (\<lambda>(k, v). (substitute_inputs_in_expr inputs k, substitute_inputs_in_expr inputs v)) es) es"
    unfolding list_all2_map1 by (rule list.rel_refl_strong) (use 7 in \<open>auto split: prod.splits\<close>)
  from outcome_object [OF pairs_outcome [OF this]] show ?case by simp
next
  case (8 inputs n args sp)
  show ?case unfolding substitute_inputs_in_expr.simps
    by (intro outcome_call map_option_list_outcome) (use 8 in \<open>auto simp: list_all2_conv_all_nth\<close>)
next
  case (9 inputs c t e sp)
  then show ?case unfolding substitute_inputs_in_expr.simps by (intro outcome_cond)
next
  case (10 inputs bs coll k v c obj sp)
  show ?case unfolding substitute_inputs_in_expr.simps
  proof (rule outcome_for_agree)
    show "outcome (reduce (substitute_inputs_in_expr inputs coll) sc) = outcome (reduce coll sc)"
      by (rule 10(1) [OF "10.prems"])
    show "red_agree sc (reduce (substitute_inputs_in_expr inputs v)) (reduce v)"
      unfolding red_agree_def by (intro allI 10(3)) (simp add: "10.prems")
    have "red_agree sc (reduce (substitute_inputs_in_expr inputs x)) (reduce x)" if "k = Some x" for x
      unfolding red_agree_def by (intro allI 10(2)) (simp_all add: "10.prems" that)
    then show "rel_option (\<lambda>k k'. red_agree sc (reduce k) (reduce k')) (map_option (substitute_inputs_in_expr inputs) k) k"
      by (cases k) simp_all
    have "red_agree sc (reduce (substitute_inputs_in_expr inputs x)) (reduce x)" if "c = Some x" for x
      unfolding red_agree_def by (intro allI 10(4)) (simp_all add: "10.prems" that)
    then show "rel_option (\<lambda>k k'. red_agree sc (reduce k) (reduce k')) (map_option (substitute_inputs_in_expr inputs) c) c"
      by (cases c) simp_all
  qed
qed simp

section \<open>Substitution instead of binding\<close>

text \<open>The inputs that bind the variables \<open>vs\<close> to values, and the references they can stand for: the pass leaves a
  reference to an attribute of an input (\<open>var.tags.env\<close>) as it is.\<close>

definition literal_inputs :: "vmap \<Rightarrow> attribute_map" where
  "literal_inputs vs = map (\<lambda>(n, v). (n, Literal v)) vs"

definition whole_input :: "vmap \<Rightarrow> symbolic \<Rightarrow> bool" where
  "whole_input vs s \<longleftrightarrow>
     (sym_kind s = KVar \<longrightarrow>
        (case split_head (strip_or_self ''var.'' (sym_source s)) of (n, tail) \<Rightarrow> map_of vs n \<noteq> None \<longrightarrow> tail = []))"

lemma map_of_literal_inputs [simp]: "map_of (literal_inputs vs) n = map_option Literal (map_of vs n)"
  by (induction vs) (auto simp: literal_inputs_def)

lemma literal_inputs_bound: "binds_inputs (sc\<lparr>sc_vars := vs @ rest\<rparr>) (literal_inputs vs)"
  by (auto simp: binds_inputs_def lookup_var_def)

lemma literal_inputs_outcome:
  "outcome (reduce (substitute_inputs_in_expr (literal_inputs vs) e) (sc\<lparr>sc_vars := vs @ rest\<rparr>)) =
   outcome (reduce e (sc\<lparr>sc_vars := vs @ rest\<rparr>))"
  by (rule substitution_outcome [OF literal_inputs_bound])

lemma substituted_symbol_unbound:
  assumes "s \<in> set (symbols_of (substitute_symbol (literal_inputs vs) t))" and "whole_input vs t"
  shows "s = t" and "\<And>sc ws. resolve_symbol (sc\<lparr>sc_vars := vs @ sc_vars sc, sc_binders := ws\<rparr>) t = resolve_symbol (sc\<lparr>sc_binders := ws\<rparr>) t"
proof -
  show "s = t" using assms(1) by (auto simp: substitute_symbol_def split: option.splits)
  obtain n tail where h: "split_head (strip_or_self ''var.'' (sym_source t)) = (n, tail)" by fastforce
  have "map_of vs n = None" if "sym_kind t = KVar"
    using assms that by (auto simp: substitute_symbol_def var_root_def whole_input_def h split: option.splits if_splits)
  then show "resolve_symbol (sc\<lparr>sc_vars := vs @ sc_vars sc, sc_binders := ws\<rparr>) t = resolve_symbol (sc\<lparr>sc_binders := ws\<rparr>) t"
    for sc ws
    by (cases "sym_kind t") (simp_all add: resolve_symbol_def h lookup_var_def lookup_local_def lookup_binder_def map_add_def
      split: prod.split)
qed

text \<open>What is left after the substitution reads the same with and without the bindings.\<close>

lemma substituted_reads_no_input:
  assumes "list_all (whole_input vs) (symbols_of e)"
  shows "reduce (substitute_inputs_in_expr (literal_inputs vs) e) (sc\<lparr>sc_vars := vs @ sc_vars sc\<rparr>)
    = reduce (substitute_inputs_in_expr (literal_inputs vs) e) sc"
proof (rule reduce_scope_cong)
  have "resolve_symbol (sc\<lparr>sc_vars := vs @ sc_vars sc, sc_binders := b\<rparr>) s = resolve_symbol (sc\<lparr>sc_binders := b\<rparr>) s"
    if "s \<in> set (symbols_of (substitute_inputs_in_expr (literal_inputs vs) e))" for s b
  proof -
    from that obtain t where t: "t \<in> set (symbols_of e)" "s \<in> set (symbols_of (substitute_symbol (literal_inputs vs) t))"
      by (auto simp: symbols_of_substitute substituted_symbols_def)
    with assms have "whole_input vs t" by (simp add: list_all_iff)
    from substituted_symbol_unbound(1) [OF t(2) this] substituted_symbol_unbound(2) [OF t(2) this]
    show ?thesis by simp
  qed
  then show "scopes_agree (set (symbols_of (substitute_inputs_in_expr (literal_inputs vs) e)))
      (sc\<lparr>sc_vars := vs @ sc_vars sc\<rparr>) sc"
    by (simp add: scopes_agree_def same_call_def scope_cx_def option.rel_refl)
qed

end
