(* ===== verification/Edges.thy ===== *)
theory Edges
  imports ReduceLaws "HOL-Library.Product_Lexorder"
begin

text \<open>Inference of the dependency edges (\<open>graph/edges.rs\<close>).  The pair of the growing edge vector and the
  set of keys already seen is the record \<open>edge_sink\<close>; every collector takes and returns it.

  The second half relates the collectors to a list of candidate edges, on which the laws of the
  properties are proved.\<close>

type_synonym edge_key = "str \<times> str \<times> edge_kind"

record edge_sink =
  es_out :: "edge list"
  es_seen :: "edge_key set"

definition edge_key_of :: "edge \<Rightarrow> edge_key" where
  "edge_key_of e = (addr_str (edge_from e), addr_str (edge_to e), edge_kind e)"

definition push_edge :: "edge \<Rightarrow> edge_sink \<Rightarrow> edge_sink" where
  "push_edge e s =
     (if edge_key_of e \<in> es_seen s then s
      else \<lparr>es_out = es_out s @ [e], es_seen = insert (edge_key_of e) (es_seen s)\<rparr>)"

section \<open>Symbols\<close>

text \<open>\<open>splitn(3, '.')\<close> followed by two \<open>next()?\<close>: the first two parts.\<close>

fun two_parts :: "str list \<Rightarrow> (str \<times> str) option" where
  "two_parts (a # b # _) = Some (a, b)"
| "two_parts _ = None"

definition head_text :: "str \<Rightarrow> str option" where
  "head_text source =
     (case strip_prefix_str ''data.'' source of
        Some rest \<Rightarrow>
          map_option (\<lambda>(t, n). ''data.'' @ t @ ''.'' @ n) (two_parts (split_char (CHR ''.'') rest))
      | None \<Rightarrow>
          (case strip_prefix_str ''module.'' source of
             Some rest \<Rightarrow> Some (''module.'' @ hd (split_char (CHR ''.'') rest))
           | None \<Rightarrow> map_option (\<lambda>(t, n). t @ ''.'' @ n) (two_parts (split_char (CHR ''.'') source))))"

definition head_resource_address :: "str \<Rightarrow> address option" where
  "head_resource_address source =
     (case head_text source of
        None \<Rightarrow> None
      | Some head \<Rightarrow> (case address_new head of Inr a \<Rightarrow> Some a | Inl _ \<Rightarrow> None))"

definition render_attr :: "str list \<Rightarrow> str" where
  "render_attr path = join_str ''.'' path"

text \<open>The target of a symbol: only resources, data sources and modules are graph nodes.\<close>

definition symbol_target :: "symbolic \<Rightarrow> address option" where
  "symbol_target s =
     (if sym_kind s = KResource \<or> sym_kind s = KData \<or> sym_kind s = KModule
      then head_resource_address (sym_source s) else None)"

definition emit_symbol_edge :: "symbolic \<Rightarrow> str list \<Rightarrow> address \<Rightarrow> edge_kind \<Rightarrow> edge_sink \<Rightarrow> edge_sink" where
  "emit_symbol_edge s path from kind sink =
     (case symbol_target s of
        None \<Rightarrow> sink
      | Some target \<Rightarrow>
          push_edge \<lparr>edge_from = from, edge_to = target, edge_kind = kind, edge_attr = Some (render_attr path),
                     edge_span = sym_span s\<rparr> sink)"

section \<open>The walk\<close>

text \<open>The path is pushed and popped around a nested value; here it is an argument.\<close>

fun walk_expression :: "expr \<Rightarrow> str list \<Rightarrow> address \<Rightarrow> edge_kind \<Rightarrow> edge_sink \<Rightarrow> edge_sink" where
  "walk_expression (Literal v) path from kind s = s"
| "walk_expression (Unresolved sy) path from kind s = emit_symbol_edge sy path from kind s"
| "walk_expression (EBinary op l r sp) path from kind s =
     walk_expression r path from kind (walk_expression l path from kind s)"
| "walk_expression (EUnary op x sp) path from kind s = walk_expression x path from kind s"
| "walk_expression (ETemplate ps) path from kind s = fold (\<lambda>p s. walk_expression p path from kind s) ps s"
| "walk_expression (EArray ps) path from kind s = fold (\<lambda>p s. walk_expression p path from kind s) ps s"
| "walk_expression (EObject es) path from kind s =
     fold (\<lambda>(k, v) s.
         let path' = (case str_literal k of Some n \<Rightarrow> path @ [n] | None \<Rightarrow> path)
         in walk_expression v path' from kind (walk_expression k path from kind s)) es s"
| "walk_expression (EFuncCall n args sp) path from kind s = fold (\<lambda>p s. walk_expression p path from kind s) args s"
| "walk_expression (EConditional c t e sp) path from kind s =
     walk_expression e path from kind (walk_expression t path from kind (walk_expression c path from kind s))"
| "walk_expression (EFor bs coll k v c obj sp) path from kind s =
     (let s1 = walk_expression v path from kind (walk_expression coll path from kind s);
          s2 = (case k of None \<Rightarrow> s1 | Some k' \<Rightarrow> walk_expression k' path from kind s1)
      in case c of None \<Rightarrow> s2 | Some c' \<Rightarrow> walk_expression c' path from kind s2)"

section \<open>The collectors\<close>

definition depends_on_edge :: "resource \<Rightarrow> address \<Rightarrow> edge" where
  "depends_on_edge r target =
     \<lparr>edge_from = res_address r, edge_to = target, edge_kind = ExplicitDependsOn, edge_attr = None,
      edge_span = res_span r\<rparr>"

definition collect_resource_edges :: "resource \<Rightarrow> edge_sink \<Rightarrow> edge_sink" where
  "collect_resource_edges r s =
     fold (\<lambda>(key, e). walk_expression e [key] (res_address r) AttrRef) (res_attributes r)
       (fold (\<lambda>target. push_edge (depends_on_edge r target)) (res_depends_on r) s)"

definition collect_module_call_edges :: "module_call \<Rightarrow> edge_sink \<Rightarrow> edge_sink" where
  "collect_module_call_edges m s =
     fold (\<lambda>(key, e). walk_expression e [key] (mc_address m) ModuleInput) (mc_inputs m) s"

definition normalise_relative :: "path \<Rightarrow> str" where
  "normalise_relative p = join_str ''/'' (map component_str p)"

definition component_address :: "path \<Rightarrow> address option" where
  "component_address p =
     (case address_new (''component.'' @ normalise_relative p) of Inr a \<Rightarrow> Some a | Inl _ \<Rightarrow> None)"

definition dependency_target :: "path \<Rightarrow> dependency_block \<Rightarrow> address option" where
  "dependency_target wroot dep =
     component_address (case path_strip_prefix wroot (dep_config_path dep) of
        Some rel \<Rightarrow> rel | None \<Rightarrow> dep_config_path dep)"

definition dependency_edge :: "address \<Rightarrow> path \<Rightarrow> dependency_block \<Rightarrow> edge option" where
  "dependency_edge from wroot dep =
     map_option (\<lambda>to. \<lparr>edge_from = from, edge_to = to, edge_kind = TerragruntDependency, edge_attr = None,
                       edge_span = dep_span dep\<rparr>) (dependency_target wroot dep)"

definition push_opt :: "edge option \<Rightarrow> edge_sink \<Rightarrow> edge_sink" where
  "push_opt oe s = (case oe of None \<Rightarrow> s | Some e \<Rightarrow> push_edge e s)"

definition collect_terragrunt_edges :: "component \<Rightarrow> terragrunt_config \<Rightarrow> path \<Rightarrow> edge_sink \<Rightarrow> edge_sink" where
  "collect_terragrunt_edges c tg wroot s =
     (case component_address (comp_path c) of
        None \<Rightarrow> s
      | Some from \<Rightarrow> fold (\<lambda>dep. push_opt (dependency_edge from wroot dep)) (tgc_dependencies tg) s)"

definition collect_component_edges :: "path \<Rightarrow> component \<Rightarrow> edge_sink \<Rightarrow> edge_sink" where
  "collect_component_edges wroot c s =
     (let s1 = fold collect_resource_edges (comp_resources c) s;
          s2 = fold collect_module_call_edges (comp_modules c) s1
      in case comp_terragrunt c of None \<Rightarrow> s2 | Some tg \<Rightarrow> collect_terragrunt_edges c tg wroot s2)"

definition edge_sort_key :: "edge \<Rightarrow> str \<times> str \<times> str" where
  "edge_sort_key e = (addr_str (edge_from e), addr_str (edge_to e), edge_kind_str (edge_kind e))"

definition initial_sink :: "edge list \<Rightarrow> edge_sink" where
  "initial_sink es = \<lparr>es_out = es, es_seen = set (map edge_key_of es)\<rparr>"

definition collect_edges_in_place :: "workspace \<Rightarrow> workspace" where
  "collect_edges_in_place ws =
     ws\<lparr>ws_edges := sort_key edge_sort_key
          (es_out (fold (collect_component_edges (ws_root ws)) (ws_components ws) (initial_sink (ws_edges ws))))\<rparr>"

end
