(* ===== verification/GraphBuilder.thy ===== *)
theory GraphBuilder
  imports GraphExpand Edges
begin

text \<open>The graph builder (\<open>graph/builder.rs\<close>): for every component it flattens the module calls, expands
  \<open>count\<close> and \<open>for_each\<close>, removes colliding addresses and carries the evaluated parts over; the workspace
  is sorted by path and its edges are collected.\<close>

record graph_context =
  gc_workspace_root :: path
  gc_max_module_depth :: nat
  gc_infer_dependencies :: bool
  gc_max_expansion :: nat

definition graph_context_new :: "path \<Rightarrow> graph_context" where
  "graph_context_new wroot =
     \<lparr>gc_workspace_root = wroot, gc_max_module_depth = 8, gc_infer_dependencies = True, gc_max_expansion = 1024\<rparr>"

text \<open>The loop over resources that extends \<open>combined\<close>.\<close>

definition expand_all :: "nat \<Rightarrow> resource list \<Rightarrow> resource list \<times> diagnostic list \<Rightarrow> resource list \<times> diagnostic list" where
  "expand_all cap rs acc =
     fold (\<lambda>r (combined, ds). case expand_resource r cap ds of (rows, ds') \<Rightarrow> (combined @ rows, ds')) rs acc"

definition collision_diag :: "str \<Rightarrow> diagnostic" where
  "collision_diag key = diagnostic_new SevWarn ''TF1506'' (''address collision after expansion: '' @ key)"

fun dedupe_addresses :: "str set \<Rightarrow> resource list \<Rightarrow> resource list \<times> diagnostic list" where
  "dedupe_addresses seen [] = ([], [])"
| "dedupe_addresses seen (r # rs) =
     (let key = addr_str (res_address r) in
      if key \<in> seen then
        (case dedupe_addresses seen rs of (kept, ds) \<Rightarrow> (kept, collision_diag key # ds))
      else
        (case dedupe_addresses (insert key seen) rs of (kept, ds) \<Rightarrow> (r # kept, ds)))"

definition exp_config_of :: "graph_context \<Rightarrow> module_registry \<Rightarrow> file_system \<Rightarrow> exp_config" where
  "exp_config_of cx reg fs =
     \<lparr>xc_workspace_root = gc_workspace_root cx, xc_max_module_depth = gc_max_module_depth cx,
      xc_max_expansion = gc_max_expansion cx, xc_registry = reg, xc_fs = fs\<rparr>"

definition built_component :: "evaluated_component \<Rightarrow> resource list \<Rightarrow> component" where
  "built_component ev deduped =
     (let raw = ev_raw ev in
      \<lparr>comp_id = comp_id raw, comp_path = comp_path raw, comp_kind = comp_kind raw, comp_files = comp_files raw,
       comp_variables = ev_variables ev, comp_locals = ev_locals ev, comp_providers = ev_providers ev,
       comp_resources = deduped, comp_modules = ev_modules ev, comp_outputs = ev_outputs ev,
       comp_terragrunt = comp_terragrunt raw, comp_state_backend = comp_state_backend raw\<rparr>)"

definition build_component ::
  "exp_config \<Rightarrow> evaluated_component \<Rightarrow> diagnostic list \<Rightarrow> component \<times> diagnostic list" where
  "build_component cfg ev diagnostics =
     (let st = flatten_modules cfg ev exp_state_new;
          cap = xc_max_expansion cfg;
          acc1 = expand_all cap (ev_resources ev) ([], diagnostics @ xs_diagnostics st);
          (combined, ds2) = expand_all cap (xs_out st) acc1;
          (deduped, ds3) = dedupe_addresses {} combined
      in (built_component ev deduped, ds2 @ ds3 @ ev_diagnostics ev))"

definition is_module_kind :: "evaluated_component \<Rightarrow> bool" where
  "is_module_kind ev = (comp_kind (ev_raw ev) = CkModule)"

definition build_workspace_modules :: "evaluated_component list \<Rightarrow> module list" where
  "build_workspace_modules components =
     map (\<lambda>(i, e). \<lparr>mod_id = id_from_index i, mod_source = SrcLocal (path_str (comp_path (ev_raw e))),
                    mod_canonical_path = None, mod_component = ev_raw e\<rparr>)
       (filter (\<lambda>(i, e). is_module_kind e) (enumerate 0 components))"

definition build ::
  "evaluated_component list \<Rightarrow> module_registry \<Rightarrow> graph_context \<Rightarrow> file_system \<Rightarrow> workspace" where
  "build components reg cx fs =
     (let (out, diagnostics) =
            fold (\<lambda>ev (out, ds).
                case build_component (exp_config_of cx reg fs) ev ds of (c, ds') \<Rightarrow> (out @ [c], ds'))
              (filter (\<lambda>ev. \<not> is_module_kind ev) components) ([], []);
          ws = \<lparr>ws_root = gc_workspace_root cx, ws_components = sort_key comp_path out,
                ws_modules = build_workspace_modules components, ws_environments = [],
                ws_diagnostics = diagnostics, ws_edges = []\<rparr>
      in if gc_infer_dependencies cx then collect_edges_in_place ws else ws)"

end
