(* ===== verification/EdgesProps.thy ===== *)
theory EdgesProps
  imports Edges ReduceProps
begin

text \<open>The edge collectors as a fold of \<open>push_edge\<close> over a list of candidate edges, and the properties of
  the collected edges.\<close>

section \<open>Candidate edges\<close>

definition symbol_edges :: "symbolic \<Rightarrow> str list \<Rightarrow> address \<Rightarrow> edge_kind \<Rightarrow> edge list" where
  "symbol_edges s path from kind =
     (case symbol_target s of
        None \<Rightarrow> []
      | Some target \<Rightarrow>
          [\<lparr>edge_from = from, edge_to = target, edge_kind = kind, edge_attr = Some (render_attr path),
            edge_span = sym_span s\<rparr>])"

fun expr_edges :: "expr \<Rightarrow> str list \<Rightarrow> address \<Rightarrow> edge_kind \<Rightarrow> edge list" where
  "expr_edges (Literal v) path from kind = []"
| "expr_edges (Unresolved sy) path from kind = symbol_edges sy path from kind"
| "expr_edges (EBinary op l r sp) path from kind = expr_edges l path from kind @ expr_edges r path from kind"
| "expr_edges (EUnary op x sp) path from kind = expr_edges x path from kind"
| "expr_edges (ETemplate ps) path from kind = concat (map (\<lambda>p. expr_edges p path from kind) ps)"
| "expr_edges (EArray ps) path from kind = concat (map (\<lambda>p. expr_edges p path from kind) ps)"
| "expr_edges (EObject es) path from kind =
     concat (map (\<lambda>(k, v). expr_edges k path from kind
       @ expr_edges v (case str_literal k of Some n \<Rightarrow> path @ [n] | None \<Rightarrow> path) from kind) es)"
| "expr_edges (EFuncCall n args sp) path from kind = concat (map (\<lambda>p. expr_edges p path from kind) args)"
| "expr_edges (EConditional c t e sp) path from kind =
     expr_edges c path from kind @ expr_edges t path from kind @ expr_edges e path from kind"
| "expr_edges (EFor bs coll k v c obj sp) path from kind =
     expr_edges coll path from kind @ expr_edges v path from kind
     @ (case k of None \<Rightarrow> [] | Some k' \<Rightarrow> expr_edges k' path from kind)
     @ (case c of None \<Rightarrow> [] | Some c' \<Rightarrow> expr_edges c' path from kind)"

abbreviation push_edges :: "edge list \<Rightarrow> edge_sink \<Rightarrow> edge_sink" where
  "push_edges es s \<equiv> fold push_edge es s"

lemma push_edges_concat:
  assumes "\<And>x s. x \<in> set xs \<Longrightarrow> f x s = push_edges (g x) s"
  shows "fold f xs s = push_edges (concat (map g xs)) s"
  using assms by (induction xs arbitrary: s) auto

lemma walk_expression_edges: "walk_expression e path frm kind s = push_edges (expr_edges e path frm kind) s"
proof (induction e path frm kind arbitrary: s rule: expr_edges.induct)
  case (2 sy path frm kind)
  then show ?case by (auto simp: emit_symbol_edge_def symbol_edges_def split: option.splits)
next
  case (5 ps path frm kind)
  show ?case unfolding walk_expression.simps expr_edges.simps by (rule push_edges_concat) (rule 5)
next
  case (6 ps path frm kind)
  show ?case unfolding walk_expression.simps expr_edges.simps by (rule push_edges_concat) (rule 6)
next
  case (7 es path frm kind)
  show ?case unfolding walk_expression.simps expr_edges.simps
    by (rule push_edges_concat) (use 7 in \<open>auto simp: Let_def\<close>)
next
  case (8 n args sp path frm kind)
  show ?case unfolding walk_expression.simps expr_edges.simps by (rule push_edges_concat) (rule 8)
next
  case (10 bs coll k v c obj sp path frm kind)
  then show ?case by (cases k; cases c) (simp_all add: Let_def)
qed (simp_all add: Let_def)

definition resource_edges :: "resource \<Rightarrow> edge list" where
  "resource_edges r =
     map (depends_on_edge r) (res_depends_on r)
     @ concat (map (\<lambda>(key, e). expr_edges e [key] (res_address r) AttrRef) (res_attributes r))"

definition module_call_edges :: "module_call \<Rightarrow> edge list" where
  "module_call_edges m = concat (map (\<lambda>(key, e). expr_edges e [key] (mc_address m) ModuleInput) (mc_inputs m))"

definition terragrunt_edges :: "path \<Rightarrow> component \<Rightarrow> edge list" where
  "terragrunt_edges wroot c =
     (case (comp_terragrunt c, component_address (comp_path c)) of
        (Some tg, Some from) \<Rightarrow> List.map_filter (dependency_edge from wroot) (tgc_dependencies tg)
      | _ \<Rightarrow> [])"

definition component_edges :: "path \<Rightarrow> component \<Rightarrow> edge list" where
  "component_edges wroot c =
     concat (map resource_edges (comp_resources c)) @ concat (map module_call_edges (comp_modules c))
     @ terragrunt_edges wroot c"

lemma collect_resource_edges_eq: "collect_resource_edges r s = push_edges (resource_edges r) s"
proof -
  have "fold (\<lambda>(key, e). walk_expression e [key] (res_address r) AttrRef) (res_attributes r) s' =
      push_edges (concat (map (\<lambda>(key, e). expr_edges e [key] (res_address r) AttrRef) (res_attributes r))) s'" for s'
    by (rule push_edges_concat) (auto simp: walk_expression_edges)
  then show ?thesis by (simp add: collect_resource_edges_def resource_edges_def fold_map comp_def)
qed

lemma collect_module_call_edges_eq: "collect_module_call_edges m s = push_edges (module_call_edges m) s"
  unfolding collect_module_call_edges_def module_call_edges_def
  by (rule push_edges_concat) (auto simp: walk_expression_edges)

lemma push_opts: "fold (\<lambda>d. push_opt (f d)) ds s = push_edges (List.map_filter f ds) s"
  by (induction ds arbitrary: s) (auto simp: push_opt_def split: option.splits)

lemma collect_component_edges_eq: "collect_component_edges wroot c s = push_edges (component_edges wroot c) s"
proof -
  have "fold collect_resource_edges rs s = push_edges (concat (map resource_edges rs)) s"
    and "fold collect_module_call_edges ms s = push_edges (concat (map module_call_edges ms)) s" for rs ms s
    by (rule push_edges_concat, simp add: collect_resource_edges_eq collect_module_call_edges_eq)+
  then show ?thesis
    by (auto simp: collect_component_edges_def component_edges_def terragrunt_edges_def
        collect_terragrunt_edges_def Let_def push_opts split: option.splits)
qed

definition candidate_edges :: "workspace \<Rightarrow> edge list" where
  "candidate_edges ws = concat (map (component_edges (ws_root ws)) (ws_components ws))"

lemma collect_edges_candidates:
  "ws_edges (collect_edges_in_place ws) =
     sort_key edge_sort_key (es_out (push_edges (candidate_edges ws) (initial_sink (ws_edges ws))))"
proof -
  have "fold (collect_component_edges (ws_root ws)) cs s = push_edges (concat (map (component_edges (ws_root ws)) cs)) s" for cs s
    by (rule push_edges_concat) (simp add: collect_component_edges_eq)
  then show ?thesis by (simp add: collect_edges_in_place_def candidate_edges_def)
qed

section \<open>The sink\<close>

text \<open>The keys seen are those of the edges kept; pushing keeps the first edge of every new key.\<close>

definition sink_ok :: "edge_sink \<Rightarrow> bool" where
  "sink_ok s \<longleftrightarrow> es_seen s = edge_key_of ` set (es_out s)"

lemma sink_ok_initial [simp]: "sink_ok (initial_sink es)"
  by (simp add: sink_ok_def initial_sink_def)

lemma push_edge_ok: "sink_ok s \<Longrightarrow> sink_ok (push_edge e s)"
  by (auto simp: sink_ok_def push_edge_def)

lemma push_edges_ok: "sink_ok s \<Longrightarrow> sink_ok (push_edges es s)"
  by (induction es arbitrary: s) (auto intro: push_edge_ok)

lemma push_edges_seen: "es_seen (push_edges es s) = es_seen s \<union> edge_key_of ` set es"
  by (induction es arbitrary: s) (auto simp: push_edge_def)

lemma push_edges_keys:
  "sink_ok s \<Longrightarrow> edge_key_of ` set (es_out (push_edges es s)) = edge_key_of ` set (es_out s) \<union> edge_key_of ` set es"
  using push_edges_ok [of s es] push_edges_seen [of es s] by (simp add: sink_ok_def)

lemma push_edges_distinct:
  "sink_ok s \<Longrightarrow> distinct (map edge_key_of (es_out s)) \<Longrightarrow> distinct (map edge_key_of (es_out (push_edges es s)))"
proof (induction es arbitrary: s)
  case (Cons e es)
  have "distinct (map edge_key_of (es_out (push_edge e s)))"
    using Cons.prems by (auto simp: push_edge_def sink_ok_def)
  with Cons.IH [OF push_edge_ok] Cons.prems show ?case by simp
qed simp

lemma push_edges_known: "edge_key_of ` set es \<subseteq> es_seen s \<Longrightarrow> push_edges es s = s"
  by (induction es) (auto simp: push_edge_def)

section \<open>The specification of the edges\<close>

lemma symbol_edges_keys:
  "edge_key_of ` set (symbol_edges s path from kind) =
     {(addr_str from, addr_str t, kind) | t. symbol_target s = Some t}"
  by (auto simp: symbol_edges_def edge_key_of_def split: option.splits)

definition refers_to :: "expr \<Rightarrow> address \<Rightarrow> bool" where
  "refers_to e t \<longleftrightarrow> (\<exists>s \<in> set (symbols_of e). symbol_target s = Some t)"

lemma refers_to_simps [simp]:
  "\<not> refers_to (Literal v) t"
  "refers_to (Unresolved s) t \<longleftrightarrow> symbol_target s = Some t"
  "refers_to (EBinary op l r sp) t \<longleftrightarrow> refers_to l t \<or> refers_to r t"
  "refers_to (EUnary uop x sp) t \<longleftrightarrow> refers_to x t"
  "refers_to (ETemplate ps) t \<longleftrightarrow> (\<exists>p \<in> set ps. refers_to p t)"
  "refers_to (EArray ps) t \<longleftrightarrow> (\<exists>p \<in> set ps. refers_to p t)"
  "refers_to (EObject es) t \<longleftrightarrow> (\<exists>(k, v) \<in> set es. refers_to k t \<or> refers_to v t)"
  "refers_to (EFuncCall n ps sp) t \<longleftrightarrow> (\<exists>p \<in> set ps. refers_to p t)"
  "refers_to (EConditional c th e sp) t \<longleftrightarrow> refers_to c t \<or> refers_to th t \<or> refers_to e t"
  "refers_to (EFor bs coll okey val oc obj sp) t \<longleftrightarrow> refers_to coll t \<or> refers_to val t
     \<or> (\<exists>k'. okey = Some k' \<and> refers_to k' t) \<or> (\<exists>c'. oc = Some c' \<and> refers_to c' t)"
  unfolding refers_to_def by (auto simp: split_beta split: option.splits)

lemma expr_edges_keys:
  "key \<in> edge_key_of ` set (expr_edges e path frm kind) \<longleftrightarrow>
     (\<exists>t. refers_to e t \<and> key = (addr_str frm, addr_str t, kind))"
proof (induction e path frm kind rule: expr_edges.induct)
  case (2 sy path frm kind)
  then show ?case by (auto simp: symbol_edges_keys)
next
  case (7 es path frm kind)
  show ?case unfolding expr_edges.simps set_concat image_UN UN_iff set_map refers_to_simps
    using 7 by (fastforce simp: image_Un split: prod.splits)
next
  case (10 bs coll k v c obj sp path frm kind)
  then show ?case by (cases k; cases c) (auto simp: image_Un)
qed (auto simp: image_Un image_UN)

text \<open>When a component has an edge from \<open>f\<close> to \<open>t\<close> of a kind: the specification.\<close>

definition resource_refers :: "resource \<Rightarrow> edge_key \<Rightarrow> bool" where
  "resource_refers r key \<longleftrightarrow>
     (\<exists>t. key = (addr_str (res_address r), addr_str t, ExplicitDependsOn) \<and> t \<in> set (res_depends_on r)) \<or>
     (\<exists>t. key = (addr_str (res_address r), addr_str t, AttrRef) \<and> (\<exists>e \<in> snd ` set (res_attributes r). refers_to e t))"

definition module_refers :: "module_call \<Rightarrow> edge_key \<Rightarrow> bool" where
  "module_refers m key \<longleftrightarrow>
     (\<exists>t. key = (addr_str (mc_address m), addr_str t, ModuleInput) \<and> (\<exists>e \<in> snd ` set (mc_inputs m). refers_to e t))"

definition component_refers :: "path \<Rightarrow> component \<Rightarrow> edge_key \<Rightarrow> bool" where
  "component_refers wroot c key \<longleftrightarrow>
     (\<exists>r \<in> set (comp_resources c). resource_refers r key) \<or>
     (\<exists>m \<in> set (comp_modules c). module_refers m key) \<or>
     (\<exists>tg from dep t. comp_terragrunt c = Some tg \<and> component_address (comp_path c) = Some from \<and>
        dep \<in> set (tgc_dependencies tg) \<and> dependency_target wroot dep = Some t \<and>
        key = (addr_str from, addr_str t, TerragruntDependency))"

lemma resource_edges_keys: "key \<in> edge_key_of ` set (resource_edges r) \<longleftrightarrow> resource_refers r key"
proof -
  have "key \<in> edge_key_of ` set (map (depends_on_edge r) (res_depends_on r)) \<longleftrightarrow>
      (\<exists>t. key = (addr_str (res_address r), addr_str t, ExplicitDependsOn) \<and> t \<in> set (res_depends_on r))"
    by (auto simp: depends_on_edge_def edge_key_of_def image_iff)
  moreover have "key \<in> edge_key_of ` set (concat (map (\<lambda>(key, e). expr_edges e [key] (res_address r) AttrRef) (res_attributes r))) \<longleftrightarrow>
      (\<exists>(k, e) \<in> set (res_attributes r). key \<in> edge_key_of ` set (expr_edges e [k] (res_address r) AttrRef))"
    by fastforce
  ultimately show ?thesis
    unfolding resource_edges_def resource_refers_def set_append image_Un Un_iff expr_edges_keys
    by (auto simp: split_beta)
qed

lemma module_call_edges_keys: "key \<in> edge_key_of ` set (module_call_edges m) \<longleftrightarrow> module_refers m key"
proof -
  have "key \<in> edge_key_of ` set (module_call_edges m) \<longleftrightarrow>
      (\<exists>(k, e) \<in> set (mc_inputs m). key \<in> edge_key_of ` set (expr_edges e [k] (mc_address m) ModuleInput))"
    unfolding module_call_edges_def by fastforce
  then show ?thesis unfolding module_refers_def expr_edges_keys by (auto simp: split_beta)
qed

lemma dependency_edge_keys:
  "key \<in> edge_key_of ` set (List.map_filter (dependency_edge from wroot) ds) \<longleftrightarrow>
     (\<exists>dep \<in> set ds. \<exists>t. dependency_target wroot dep = Some t \<and> key = (addr_str from, addr_str t, TerragruntDependency))"
  by (induction ds) (auto simp: dependency_edge_def edge_key_of_def split: option.splits)

lemma component_edges_keys: "key \<in> edge_key_of ` set (component_edges wroot c) \<longleftrightarrow> component_refers wroot c key"
proof -
  have "key \<in> edge_key_of ` set (concat (map resource_edges (comp_resources c))) \<longleftrightarrow>
      (\<exists>r \<in> set (comp_resources c). resource_refers r key)"
    unfolding resource_edges_keys [symmetric] by auto
  moreover have "key \<in> edge_key_of ` set (concat (map module_call_edges (comp_modules c))) \<longleftrightarrow>
      (\<exists>m \<in> set (comp_modules c). module_refers m key)"
    unfolding module_call_edges_keys [symmetric] by auto
  moreover have "key \<in> edge_key_of ` set (terragrunt_edges wroot c) \<longleftrightarrow>
     (\<exists>tg from dep t. comp_terragrunt c = Some tg \<and> component_address (comp_path c) = Some from \<and>
        dep \<in> set (tgc_dependencies tg) \<and> dependency_target wroot dep = Some t \<and>
        key = (addr_str from, addr_str t, TerragruntDependency))"
    by (cases "comp_terragrunt c"; cases "component_address (comp_path c)")
       (simp_all add: terragrunt_edges_def dependency_edge_keys Bex_def del: image_iff)
  ultimately show ?thesis
    unfolding component_edges_def component_refers_def set_append image_Un Un_iff by blast
qed

lemma candidate_edges_keys:
  "key \<in> edge_key_of ` set (candidate_edges ws) \<longleftrightarrow> (\<exists>c \<in> set (ws_components ws). component_refers (ws_root ws) c key)"
  unfolding component_edges_keys [symmetric] candidate_edges_def by auto

lemma candidate_edges_stable: "candidate_edges (collect_edges_in_place ws) = candidate_edges ws"
  by (simp add: candidate_edges_def collect_edges_in_place_def)

section \<open>Concrete inputs\<close>

definition role_resource :: resource where
  "role_resource =
     \<lparr>res_address = Address ''aws_role.r'', res_kind = Managed, res_type = ''aws_role'', res_name = ''r'',
      res_provider_ref = None, res_count_expr = None, res_for_each_expr = None,
      res_depends_on = [Address ''aws_key.k''],
      res_attributes = [(''a'', ETemplate [Unresolved (symb KResource ''aws_key.k.arn''), Unresolved (symb KVar ''var.x'')]),
                        (''b'', Unresolved (symb KResource ''aws_key.k.id''))],
      res_account_id = None, res_account_name = None, res_region = None, res_span = sp0\<rparr>"

definition role_workspace :: workspace where
  "role_workspace =
     \<lparr>ws_root = [RootDir], ws_components = [\<lparr>comp_id = 0, comp_path = [Normal ''app''], comp_kind = CkComponent,
        comp_files = [], comp_variables = [], comp_locals = [], comp_providers = [],
        comp_resources = [role_resource], comp_modules = [], comp_outputs = [], comp_terragrunt = None,
        comp_state_backend = None\<rparr>],
      ws_modules = [], ws_environments = [], ws_diagnostics = [], ws_edges = []\<rparr>"

section \<open>Properties\<close>

text \<open>C8. The edges of a workspace are exact: after collection there is an edge of a kind between two
  addresses just when there was one before or some component refers that way, through \<open>depends_on\<close>,
  a symbol anywhere in a resource attribute or a module input, or a Terragrunt dependency.\<close>

theorem edges_exact:
  "key \<in> edge_key_of ` set (ws_edges (collect_edges_in_place ws)) \<longleftrightarrow>
     key \<in> edge_key_of ` set (ws_edges ws) \<or>
     (\<exists>c \<in> set (ws_components ws). component_refers (ws_root ws) c key)"
  by (simp add: collect_edges_candidates push_edges_keys initial_sink_def [THEN arg_cong [of _ _ es_out]]
      candidate_edges_keys [symmetric] del: image_iff)

lemma collected_edges:
  assumes "distinct (map edge_key_of (ws_edges ws))"
  shows "sorted (map edge_sort_key (ws_edges (collect_edges_in_place ws)))"
    "distinct (map edge_key_of (ws_edges (collect_edges_in_place ws)))"
proof -
  let ?out = "es_out (push_edges (candidate_edges ws) (initial_sink (ws_edges ws)))"
  have "distinct (map edge_key_of ?out)"
    by (rule push_edges_distinct) (simp_all add: assms initial_sink_def [THEN arg_cong [of _ _ es_out]])
  then have "distinct (map edge_key_of (sort_key edge_sort_key ?out))" by (simp add: distinct_map)
  then show "sorted (map edge_sort_key (ws_edges (collect_edges_in_place ws)))"
    "distinct (map edge_key_of (ws_edges (collect_edges_in_place ws)))" by (simp_all add: collect_edges_candidates)
qed

text \<open>Where no edges were there before, the edges are the references of the components, and each starts at an address its
  component declares: of a resource, of a module call, or of the component itself.\<close>

definition declared_addresses :: "component \<Rightarrow> address set" where
  "declared_addresses c =
     res_address ` set (comp_resources c) \<union> mc_address ` set (comp_modules c) \<union> set_option (component_address (comp_path c))"

lemma collected_edge_keys:
  assumes "ws_edges ws = []"
  shows "edge_key_of ` set (ws_edges (collect_edges_in_place ws)) =
    {key. \<exists>c \<in> set (ws_components ws). component_refers (ws_root ws) c key}"
proof -
  have "edge_key_of ` set (ws_edges (collect_edges_in_place ws)) = edge_key_of ` set (candidate_edges ws)"
    using assms by (simp add: collect_edges_candidates push_edges_keys initial_sink_def [THEN arg_cong [of _ _ es_out]])
  then show ?thesis unfolding set_eq_iff candidate_edges_keys by simp
qed

lemma component_refers_source:
  "component_refers wroot c key \<Longrightarrow> \<exists>a \<in> declared_addresses c. addr_str a = fst key"
  by (auto simp: component_refers_def resource_refers_def module_refers_def declared_addresses_def)

lemma edges_from_declared:
  assumes "edge_key_of ` set es = {key. \<exists>c \<in> cs. component_refers wroot c key}" and "e \<in> set es"
  shows "\<exists>c \<in> cs. edge_from e \<in> declared_addresses c"
proof -
  from assms obtain c where c: "c \<in> cs" "component_refers wroot c (edge_key_of e)" by blast
  from component_refers_source [OF c(2)] obtain a where "a \<in> declared_addresses c" "addr_str a = fst (edge_key_of e)" by blast
  then have "edge_from e \<in> declared_addresses c" by (metis address.exhaust_sel edge_key_of_def fst_conv)
  with c(1) show ?thesis by blast
qed

text \<open>The target of an edge need not be declared anywhere: \<open>aws_key.k\<close> is not, in the workspace above.\<close>

lemma edge_target_undeclared:
  "edge_key_of ` set (ws_edges (collect_edges_in_place role_workspace)) =
     {(''aws_role.r'', ''aws_key.k'', ExplicitDependsOn), (''aws_role.r'', ''aws_key.k'', AttrRef)}"
  "\<forall>c \<in> set (ws_components role_workspace). declared_addresses c = {Address ''aws_role.r'', Address ''component.app''}"
  by code_simp+

text \<open>The edges come out sorted by source, target and kind, and no two have the same source, target and
  kind unless they were already there.\<close>

theorem edges_sorted_distinct:
  assumes "distinct (map edge_key_of (ws_edges ws))"
  shows "sorted (map edge_sort_key (ws_edges (collect_edges_in_place ws))) \<and>
         distinct (map edge_key_of (ws_edges (collect_edges_in_place ws)))"
  using collected_edges [OF assms] by (rule conjI)

theorem edges_sorted_distinct_witness:
  "sorted (map edge_sort_key (ws_edges (collect_edges_in_place role_workspace)))"
  using edges_sorted_distinct [of role_workspace] by (simp add: role_workspace_def)

text \<open>Collecting is idempotent: a second pass over the workspace it produced adds nothing and does not
  reorder the edges.\<close>

theorem edges_idempotent:
  "collect_edges_in_place (collect_edges_in_place ws) = collect_edges_in_place ws"
proof -
  let ?ws = "collect_edges_in_place ws"
  have "edge_key_of ` set (candidate_edges ws) \<subseteq> edge_key_of ` set (ws_edges ?ws)"
    by (simp add: collect_edges_candidates push_edges_keys)
  then have "push_edges (candidate_edges ws) (initial_sink (ws_edges ?ws)) = initial_sink (ws_edges ?ws)"
    by (intro push_edges_known) (simp add: initial_sink_def)
  then have "ws_edges (collect_edges_in_place ?ws) = sort_key edge_sort_key (ws_edges ?ws)"
    unfolding collect_edges_candidates [of ?ws] candidate_edges_stable by (simp add: initial_sink_def)
  also have "\<dots> = ws_edges ?ws"
    by (rule sort_key_id_if_sorted) (simp add: collect_edges_candidates)
  finally show ?thesis by (simp add: collect_edges_in_place_def)
qed

text \<open>A reference to an attribute of a resource resolves to the resource: the head of \<open>type.name\<close> and of
  \<open>type.name.rest\<close> is the address \<open>type.name\<close>.\<close>

theorem head_of_reference:
  assumes "CHR ''.'' \<notin> set t" and "CHR ''.'' \<notin> set n" and "t \<noteq> ''data''" and "t \<noteq> ''module''"
    and "address_new (t @ ''.'' @ n) = Ok a"
  shows "head_resource_address (t @ ''.'' @ n) = Some a \<and>
         head_resource_address (t @ ''.'' @ n @ ''.'' @ rest) = Some a"
proof -
  have no: "strip_prefix_str (p @ ''.'') (t @ ''.'' @ s) = None" if "p \<noteq> t" "CHR ''.'' \<notin> set p" for p s
  proof (rule ccontr)
    assume "strip_prefix_str (p @ ''.'') (t @ ''.'' @ s) \<noteq> None"
    then obtain r where "t @ ''.'' @ s = p @ ''.'' @ r" by (auto simp: strip_prefix_Some_iff)
    then have "split_once_char (CHR ''.'') (t @ CHR ''.'' # s) = split_once_char (CHR ''.'') (p @ CHR ''.'' # r)"
      by simp
    with that assms(1) show False by simp
  qed
  have d: "strip_prefix_str ''data.'' (t @ ''.'' @ s) = None" for s using no [of "''data''" s] assms(3) by simp
  have m: "strip_prefix_str ''module.'' (t @ ''.'' @ s) = None" for s using no [of "''module''" s] assms(4) by simp
  have "two_parts (split_char (CHR ''.'') (t @ ''.'' @ n)) = Some (t, n)"
    using split_char_append [OF assms(1), of n] split_char_id [OF assms(2)] by simp
  moreover have "two_parts (split_char (CHR ''.'') (t @ ''.'' @ n @ ''.'' @ rest)) = Some (t, n)"
    using split_char_append [OF assms(1), of "n @ ''.'' @ rest"] split_char_append [OF assms(2), of rest] by simp
  ultimately show ?thesis using assms(5) d [of n] d [of "n @ ''.'' @ rest"] m [of n] m [of "n @ ''.'' @ rest"]
    by (simp add: head_resource_address_def head_text_def)
qed

theorem head_of_reference_witness:
  "head_resource_address ''aws_key.k.arn'' = Some (Address ''aws_key.k'')"
proof -
  have "address_new (''aws_key'' @ ''.'' @ ''k'') = Ok (Address ''aws_key.k'')" by code_simp
  from head_of_reference [OF _ _ _ _ this, of "''arn''"] show ?thesis by simp
qed

text \<open>An index key with a dot in it cuts the reference in the wrong place: the head of
  \<open>module.x["a.b"].id\<close> would be \<open>module.x["a\<close>, which is no address, so the edge is dropped.\<close>

theorem dotted_index_drops_edge:
  "symbol_target (symb KModule (''module.x['' @ [CHR 0x22] @ ''a.b'' @ [CHR 0x22] @ ''].id'')) = None \<and>
   symbol_target (symb KModule ''module.x.id'') = Some (Address ''module.x'')"
  by code_simp

end
