(* ===== verification/GraphProps.thy ===== *)
theory GraphProps
  imports Substitution GraphBuilder EdgesProps "HOL-Library.Multiset"
begin

text \<open>The properties of module expansion and of the graph builder.\<close>

section \<open>The rows of a component\<close>

lemma expand_resource_diags: "fst (expand_resource r cap ds) = fst (expand_resource r cap [])"
  by (simp add: expand_resource_eq expand_with_def Let_def split: option.split expansion.split)

definition rows_of :: "nat \<Rightarrow> resource list \<Rightarrow> resource list" where
  "rows_of cap rs = concat (map (\<lambda>r. fst (expand_resource r cap [])) rs)"

lemma expand_all_rows: "fst (expand_all cap rs acc) = fst acc @ rows_of cap rs"
proof (induction rs arbitrary: acc)
  case (Cons r rs)
  obtain combined ds where acc: "acc = (combined, ds)" by (cases acc)
  obtain rows ds' where r: "expand_resource r cap ds = (rows, ds')" by (cases "expand_resource r cap ds")
  from Cons.IH [of "(combined @ rows, ds')"] expand_resource_diags [of r cap ds] show ?case
    by (simp add: expand_all_def acc r rows_of_def)
qed (simp add: expand_all_def rows_of_def)

definition row_addr :: "resource \<Rightarrow> str" where
  "row_addr r = addr_str (res_address r)"

lemma dedupe_spec:
  assumes "dedupe_addresses seen rs = (kept, ds)"
  shows "distinct (map row_addr kept) \<and> row_addr ` set kept \<inter> seen = {} \<and>
         row_addr ` set kept \<union> seen = row_addr ` set rs \<union> seen \<and> subseq kept rs \<and>
         length kept + length ds = length rs"
  using assms
proof (induction seen rs arbitrary: kept ds rule: dedupe_addresses.induct)
  case (2 seen r rs)
  show ?case
  proof (cases "row_addr r \<in> seen")
    case True
    with "2.prems" obtain ds' where d: "dedupe_addresses seen rs = (kept, ds')" "ds = collision_diag (row_addr r) # ds'"
      by (auto simp: row_addr_def split: prod.splits)
    from 2(1) [OF refl _ d(1)] True d(2) show ?thesis by (auto simp: row_addr_def)
  next
    case False
    with "2.prems" obtain kept' where d: "dedupe_addresses (insert (row_addr r) seen) rs = (kept', ds)" "kept = r # kept'"
      by (auto simp: row_addr_def split: prod.splits)
    from 2(2) [OF refl _ d(1) [unfolded row_addr_def], folded row_addr_def] False d(2) show ?thesis by auto
  qed
qed auto

lemma build_component_resources:
  "comp_resources (fst (build_component cfg ev ds)) =
     fst (dedupe_addresses {} (rows_of (xc_max_expansion cfg)
       (ev_resources ev @ xs_out (flatten_modules cfg ev exp_state_new))))"
proof -
  let ?st = "flatten_modules cfg ev exp_state_new" and ?cap = "xc_max_expansion cfg"
  let ?acc1 = "expand_all ?cap (ev_resources ev) ([], ds @ xs_diagnostics ?st)"
  obtain combined ds2 where c: "expand_all ?cap (xs_out ?st) ?acc1 = (combined, ds2)"
    by (cases "expand_all ?cap (xs_out ?st) ?acc1")
  have "combined = rows_of ?cap (ev_resources ev @ xs_out ?st)"
    using expand_all_rows [of ?cap "xs_out ?st" ?acc1] expand_all_rows [of ?cap "ev_resources ev" "([], ds @ xs_diagnostics ?st)"]
    by (simp add: c rows_of_def)
  then show ?thesis
    by (simp add: build_component_def Let_def c built_component_def split: prod.split)
qed

lemma build_component_kept:
  "comp_path (fst (build_component cfg ev ds)) = comp_path (ev_raw ev)"
  "comp_kind (fst (build_component cfg ev ds)) = comp_kind (ev_raw ev)"
  "comp_id (fst (build_component cfg ev ds)) = comp_id (ev_raw ev)"
  by (simp_all add: build_component_def Let_def built_component_def split: prod.split)

definition build_step ::
  "exp_config \<Rightarrow> evaluated_component \<Rightarrow> component list \<times> diagnostic list \<Rightarrow> component list \<times> diagnostic list" where
  "build_step cfg ev acc = (case acc of (out, ds) \<Rightarrow> case build_component cfg ev ds of (c, ds') \<Rightarrow> (out @ [c], ds'))"

lemma build_loop:
  "\<exists>cs. fst (fold (build_step cfg) evs acc) = fst acc @ cs \<and>
        list_all2 (\<lambda>ev c. \<exists>ds. c = fst (build_component cfg ev ds)) evs cs"
proof (induction evs arbitrary: acc)
  case (Cons ev evs)
  obtain out ds where acc: "acc = (out, ds)" by (cases acc)
  obtain c ds' where b: "build_component cfg ev ds = (c, ds')" by (cases "build_component cfg ev ds")
  from Cons.IH [of "(out @ [c], ds')"] obtain cs where
    cs: "fst (fold (build_step cfg) evs (out @ [c], ds')) = out @ c # cs"
      "list_all2 (\<lambda>ev c. \<exists>ds. c = fst (build_component cfg ev ds)) evs cs" by auto
  have "\<exists>ds. c = fst (build_component cfg ev ds)" using b by (metis fst_conv)
  moreover have "build_step cfg ev acc = (out @ [c], ds')" by (simp add: acc build_step_def b)
  ultimately show ?case using cs by (intro exI [of _ "c # cs"]) (simp add: acc)
qed simp

text \<open>The components of the workspace before sorting, one per evaluated component.\<close>

definition built_from :: "exp_config \<Rightarrow> evaluated_component list \<Rightarrow> component list \<Rightarrow> bool" where
  "built_from cfg evs cs \<longleftrightarrow> list_all2 (\<lambda>ev c. \<exists>ds. c = fst (build_component cfg ev ds)) evs cs"

lemma build_components:
  "\<exists>cs. built_from (exp_config_of cx reg fs) (filter (\<lambda>ev. \<not> is_module_kind ev) evs) cs \<and>
        ws_components (build evs reg cx fs) = sort_key comp_path cs"
proof -
  let ?cfg = "exp_config_of cx reg fs" and ?evs = "filter (\<lambda>ev. \<not> is_module_kind ev) evs"
  let ?f = "fold (build_step ?cfg) ?evs ([], [])"
  have "built_from ?cfg ?evs (fst ?f)" using build_loop [of ?cfg ?evs "([], [])"] by (auto simp: built_from_def)
  moreover have "build_step ?cfg = (\<lambda>ev (out, ds). case build_component ?cfg ev ds of (c, ds') \<Rightarrow> (out @ [c], ds'))"
    by (simp add: build_step_def fun_eq_iff)
  then have "ws_components (build evs reg cx fs) = sort_key comp_path (fst ?f)"
    by (simp add: build_def Let_def collect_edges_in_place_def split: prod.split)
  ultimately show ?thesis by blast
qed

section \<open>Concrete inputs\<close>

definition counted_resource :: "int \<Rightarrow> resource" where
  "counted_resource n = role_resource\<lparr>res_count_expr := Some (Literal (VInt n))\<rparr>"

definition keyed_resource :: resource where
  "keyed_resource = role_resource\<lparr>res_for_each_expr :=
     Some (Literal (VMap [(''a'', VNull), (''a'' @ [CHR 0x22], VNull)]))\<rparr>"

definition plain_component :: "path \<Rightarrow> component_kind \<Rightarrow> resource list \<Rightarrow> module_call list \<Rightarrow> component" where
  "plain_component p kind rs ms =
     \<lparr>comp_id = 1, comp_path = p, comp_kind = kind, comp_files = [], comp_variables = [], comp_locals = [],
      comp_providers = [], comp_resources = rs, comp_modules = ms, comp_outputs = [], comp_terragrunt = None,
      comp_state_backend = None\<rparr>"

definition module_m :: evaluated_component where
  "module_m = from_component (plain_component [RootDir, Normal ''ws'', Normal ''m''] CkModule [role_resource] [])"

definition call_m :: module_call where
  "call_m = \<lparr>mc_address = Address ''module.m'', mc_source_raw = ''./m'', mc_source = SrcLocal ''./m'', mc_resolved = None,
     mc_providers = [], mc_inputs = [(''x'', Literal (VStr ''v''))], mc_count_expr = Some (Literal (VInt 2)),
     mc_for_each_expr = None, mc_span = sp0\<rparr>"

definition caller_m :: evaluated_component where
  "caller_m = from_component (plain_component [RootDir, Normal ''ws''] CkComponent [keyed_resource] [call_m])"

definition registry_m :: module_registry where
  "registry_m = insert_local registry_new [RootDir, Normal ''ws'', Normal ''m''] module_m"

definition plain_fs :: file_system where
  "plain_fs = \<lparr>fs_is_symlink = (\<lambda>_. False), fs_canonicalize = Inr\<rparr>"

definition config_m :: exp_config where
  "config_m = exp_config_of (graph_context_new [RootDir, Normal ''ws'']) registry_m plain_fs"

lemma flatten_m:
  "map (addr_str \<circ> res_address) (xs_out (flatten_modules config_m caller_m exp_state_new)) =
     [''module.m[0].aws_role.r'', ''module.m[1].aws_role.r'']"
  by code_simp

section \<open>Properties\<close>

text \<open>A literal \<open>count\<close> within the cap yields exactly that many rows, indexed from zero in order, with
  distinct addresses and without the count expression, and records no diagnostic.\<close>

theorem expand_count_rows:
  assumes "res_count_expr r = Some (Literal (VInt n))" and "0 < n" and "n \<le> int cap"
    and "address_new (addr_str (res_address r)) = Ok a"
    and "\<And>i. i < nat n \<Longrightarrow> length (addr_str (res_address r)) + length (index_suffix i) \<le> 1024"
  shows "expand_resource r cap ds = (map (\<lambda>i. indexed_row r (index_suffix i)) [0..<nat n], ds) \<and>
         distinct (map res_address (fst (expand_resource r cap ds))) \<and>
         length (fst (expand_resource r cap ds)) = nat n"
proof -
  have x: "resource_expansion cap r = Some (Indexed (map index_suffix [0..<nat n]))"
    using assms(1-3) by (simp add: resource_expansion_def count_expansion_def)
  have "with_indexed_address r (index_suffix i) = Inr (indexed_row r (index_suffix i))" if "i < nat n" for i
    using indexed_address_ok [OF assms(4) assms(5) [OF that]]
    by (simp add: with_indexed_address_def indexed_row_def)
  then have "oks (map (with_indexed_address r) (map index_suffix [0..<nat n])) =
        map (\<lambda>i. indexed_row r (index_suffix i)) [0..<nat n] \<and>
      errs (map (with_indexed_address r) (map index_suffix [0..<nat n])) = []"
    using oks_map_Inr [of "[0..<nat n]" "with_indexed_address r \<circ> index_suffix" "\<lambda>i. indexed_row r (index_suffix i)"] by simp
  with x have "expand_resource r cap ds = (map (\<lambda>i. indexed_row r (index_suffix i)) [0..<nat n], ds)"
    by (simp add: expand_resource_eq expand_with_def)
  then show ?thesis by (simp add: distinct_map inj_on_def indexed_row_def)
qed

theorem expand_count_rows_witness:
  "length (fst (expand_resource (counted_resource 2) 1024 [])) = 2"
proof -
  have a: "address_new (addr_str (res_address (counted_resource 2))) = Ok (Address ''aws_role.r'')" by code_simp
  have s: "length (index_suffix 0) = 3" "length (index_suffix 1) = 3" by code_simp+
  have l: "length (addr_str (res_address (counted_resource 2))) + length (index_suffix i) \<le> 1024" if "i < nat 2" for i
  proof -
    from that have "i = 0 \<or> i = 1" by auto
    with s show ?thesis by (auto simp: counted_resource_def role_resource_def)
  qed
  have "res_count_expr (counted_resource 2) = Some (Literal (VInt 2))" by (simp add: counted_resource_def)
  from expand_count_rows [OF this _ _ a l, of 1024 "[]"] show ?thesis by simp
qed

text \<open>Expansion is bounded: no resource yields more rows than the cap, or one when the cap is zero,
  whatever its \<open>count\<close> or \<open>for_each\<close>; every row is the resource itself or differs from it only in an
  address that extends its address and in the cleared \<open>count\<close>, \<open>for_each\<close> and resolver columns.\<close>

theorem expand_resource_bounded:
  "length (fst (expand_resource r cap ds)) \<le> max 1 cap \<and>
   set (fst (expand_resource r cap ds)) \<subseteq> insert r (range (indexed_row r))"
proof -
  have "length (oks (map f ss)) \<le> length ss" for ss :: "str list" and f :: "str \<Rightarrow> diagnostic + resource"
    using oks_length [of "map f ss"] by simp
  then have "length (fst (expand_resource r cap ds)) \<le> max 1 cap"
    by (auto simp: expand_resource_eq expand_with_def Let_def le_max_iff_disj dest!: expansion_bound
        split: option.splits expansion.splits intro: le_trans)
  moreover have "set (fst (expand_resource r cap ds)) \<subseteq> insert r (range (indexed_row r))"
    using expand_resource_rows by blast
  ultimately show ?thesis ..
qed

text \<open>C11. Flattening invents nothing: every row it emits is a resource of a registered module, under a chain of
  module names no longer than the depth limit, with the module's address as the tail of its address; and the
  stack of open modules is empty again afterwards, so sibling calls do not see each other as cycles.\<close>

theorem flatten_modules_origin:
  assumes "row \<in> set (xs_out (flatten_modules cfg ev exp_state_new))"
  shows "(\<exists>src p. row_origin cfg src p row) \<and> xs_stack (flatten_modules cfg ev exp_state_new) = []"
proof
  let ?P = "\<lambda>s. \<forall>row \<in> set (xs_out s). \<exists>src p. row_origin cfg src p row"
  have "?P (flatten_modules cfg ev exp_state_new)"
    unfolding flatten_modules_def
  proof (rule fold_keeps)
    fix call and s :: exp_state
    assume "?P s"
    then show "?P (expand_module_call cfg call (comp_path (ev_raw ev)) PRoot [] 0 s)"
      by (rule expand_invariant [rotated 4]) (auto simp: push_stack_def pop_stack_def)
  qed (simp add: exp_state_new_def)
  with assms show "\<exists>src p. row_origin cfg src p row" by blast
  show "xs_stack (flatten_modules cfg ev exp_state_new) = []"
    unfolding flatten_modules_def by (subst fold_keeps_stack) (simp_all add: expand_stack exp_state_new_def del: expand_module_call.simps)
qed

theorem flatten_modules_origin_witness:
  "\<exists>row src p. row \<in> set (xs_out (flatten_modules config_m caller_m exp_state_new)) \<and> row_origin config_m src p row"
proof -
  have "''module.m[0].aws_role.r'' \<in> set (map (addr_str \<circ> res_address) (xs_out (flatten_modules config_m caller_m exp_state_new)))"
    by (simp add: flatten_m)
  then obtain row where "row \<in> set (xs_out (flatten_modules config_m caller_m exp_state_new))" by auto
  with flatten_modules_origin [OF this] show ?thesis by blast
qed

text \<open>Substitution replaces exactly the references to input variables: the symbols of the result are those
  of the expression in the same order, with each symbol that names a bound variable replaced by the symbols
  of its input; an expression without such a symbol is returned as it is.\<close>

theorem substitution_symbols:
  "symbols_of (substitute_inputs_in_expr inputs e) =
     concat (map (\<lambda>s. symbols_of (substitute_symbol inputs s)) (symbols_of e)) \<and>
   (list_all (\<lambda>s. substitute_symbol inputs s = Unresolved s) (symbols_of e) \<longrightarrow>
      substitute_inputs_in_expr inputs e = e)"
  using symbols_of_substitute [of inputs e] substitute_unbound [of e inputs]
  by (simp add: substituted_symbols_def [abs_def] list_all_iff)

theorem substitution_symbols_witness:
  "substitute_inputs_in_expr [(''y'', Literal VNull)] (Unresolved (symb KVar ''var.x'')) = Unresolved (symb KVar ''var.x'')"
proof -
  have "list_all (\<lambda>s. substitute_symbol [(''y'', Literal VNull)] s = Unresolved s) (symbols_of (Unresolved (symb KVar ''var.x'')))"
    by (simp add: substitute_symbol_def var_root_def symb_def strip_or_self_def split_head_def)
  with substitution_symbols [of "[(''y'', Literal VNull)]" "Unresolved (symb KVar ''var.x'')"] show ?thesis by blast
qed

text \<open>C10. Substituting literal inputs for the variables of a module body replaces binding them.  The expression after
  the substitution, reduced in a scope that knows nothing of the inputs, gives the value, the residual or the panic that
  the expression itself gives in the scope in which the inputs are bound in front of the other variables, inside
  comprehensions, conditionals and calls too.  The pass does not look into attributes of an input, so no reference of the
  expression may name one.\<close>

theorem substitution_is_binding:
  assumes "list_all (whole_input vs) (symbols_of e)"
  shows "map_option as_literal (reduce (substitute_inputs_in_expr (literal_inputs vs) e) sc) =
    map_option as_literal (reduce e (sc\<lparr>sc_vars := vs @ sc_vars sc\<rparr>))"
  by (rule literal_inputs_outcome [of vs e "sc_vars sc" sc, unfolded outcome_def substituted_reads_no_input [OF assms]])

theorem substitution_is_binding_witness:
  "lookup_var (scope_of [] [(''tier'', VStr ''db'')]) ''env'' = None \<and>
   reduce (substitute_inputs_in_expr [(''env'', Literal (VStr ''prod''))] name_template) (scope_of [] [(''tier'', VStr ''db'')])
     = Some (Literal (VStr ''web-prod-db''))"
proof -
  let ?vs = "[(''env'', VStr ''prod'')]" and ?sc = "scope_of [] [(''tier'', VStr ''db'')]"
  have w: "list_all (whole_input ?vs) (symbols_of name_template)"
    by (simp add: whole_input_def name_template_def symb_def strip_or_self_def split_head_def)
  have i: "literal_inputs ?vs = [(''env'', Literal (VStr ''prod''))]" by (simp add: literal_inputs_def)
  have s: "?sc\<lparr>sc_vars := ?vs @ sc_vars ?sc\<rparr> = scope_full" by (simp add: scope_full_def scope_of_def)
  have "map_option as_literal (reduce name_template scope_full) = Some (Some (VStr ''web-prod-db''))"
    by (simp add: example_defs reduce_eval)
  with substitution_is_binding [OF w, of ?sc] have
    "reduce (substitute_inputs_in_expr [(''env'', Literal (VStr ''prod''))] name_template) ?sc
       = Some (Literal (VStr ''web-prod-db''))" unfolding i s by auto
  then show ?thesis by (simp add: scope_of_def lookup_var_def)
qed

lemma built_component_rows:
  assumes "c \<in> set (ws_components (build evs reg cx fs))"
  shows "\<exists>ev \<in> set evs. comp_path c = comp_path (ev_raw ev) \<and> comp_kind c = CkComponent \<and>
           distinct (map row_addr (comp_resources c)) \<and>
           (let cfg = exp_config_of cx reg fs;
                rows = rows_of (gc_max_expansion cx) (ev_resources ev @ xs_out (flatten_modules cfg ev exp_state_new))
            in subseq (comp_resources c) rows \<and> row_addr ` set (comp_resources c) = row_addr ` set rows)"
proof -
  let ?cfg = "exp_config_of cx reg fs"
  from build_components obtain cs where
    cs: "built_from ?cfg (filter (\<lambda>ev. \<not> is_module_kind ev) evs) cs"
      "ws_components (build evs reg cx fs) = sort_key comp_path cs" by blast
  with assms have "c \<in> set cs" by simp
  from list_all2_right [OF cs(1) [unfolded built_from_def] this] obtain ev ds where
    ev: "ev \<in> set evs" "\<not> is_module_kind ev" "c = fst (build_component ?cfg ev ds)" by auto
  let ?rows = "rows_of (gc_max_expansion cx) (ev_resources ev @ xs_out (flatten_modules ?cfg ev exp_state_new))"
  have "xc_max_expansion ?cfg = gc_max_expansion cx" by (simp add: exp_config_of_def)
  then have res: "comp_resources c = fst (dedupe_addresses {} ?rows)"
    using build_component_resources [of ?cfg ev ds] ev(3) by simp
  obtain kept ds' where d: "dedupe_addresses {} ?rows = (kept, ds')" by (cases "dedupe_addresses {} ?rows")
  have "comp_kind c = CkComponent"
    using ev build_component_kept(2) [of ?cfg ev ds] by (cases "comp_kind (ev_raw ev)") (simp_all add: is_module_kind_def)
  moreover have "comp_path c = comp_path (ev_raw ev)" using ev(3) by (simp only: build_component_kept)
  moreover have "comp_resources c = kept" using res d by simp
  moreover from dedupe_spec [OF d] have "distinct (map row_addr kept)" "subseq kept ?rows"
    "row_addr ` set kept = row_addr ` set ?rows" by simp_all
  ultimately show ?thesis using ev(1) unfolding Let_def by blast
qed

text \<open>C9. The builder keeps addresses unique and loses none: in every component of the workspace no two resources
  have the same address, the addresses are those of the expanded rows of its own resources and of its
  flattened modules, and the resources kept are a subsequence of those rows.\<close>

theorem build_addresses_unique:
  assumes "c \<in> set (ws_components (build evs reg cx fs))"
  shows "\<exists>ev \<in> set evs. comp_path c = comp_path (ev_raw ev) \<and> comp_kind c = CkComponent \<and>
           distinct (map row_addr (comp_resources c)) \<and>
           (let cfg = exp_config_of cx reg fs;
                rows = rows_of (gc_max_expansion cx) (ev_resources ev @ xs_out (flatten_modules cfg ev exp_state_new))
            in subseq (comp_resources c) rows \<and> row_addr ` set (comp_resources c) = row_addr ` set rows)"
  using assms by (rule built_component_rows)

theorem build_addresses_unique_witness:
  "\<exists>c \<in> set (ws_components (build [caller_m] registry_m (graph_context_new [RootDir, Normal ''ws'']) plain_fs)).
     distinct (map row_addr (comp_resources c))"
proof -
  let ?ws = "build [caller_m] registry_m (graph_context_new [RootDir, Normal ''ws'']) plain_fs"
  from build_components [of "graph_context_new [RootDir, Normal ''ws'']" registry_m plain_fs "[caller_m]"]
  obtain cs where cs: "built_from (exp_config_of (graph_context_new [RootDir, Normal ''ws'']) registry_m plain_fs)
      (filter (\<lambda>ev. \<not> is_module_kind ev) [caller_m]) cs" "ws_components ?ws = sort_key comp_path cs" by blast
  have "\<not> is_module_kind caller_m" by (simp add: is_module_kind_def caller_m_def from_component_def plain_component_def)
  with cs(1) obtain c where "cs = [c]" by (auto simp: built_from_def list_all2_Cons1)
  with cs(2) have "c \<in> set (ws_components ?ws)" by simp
  with build_addresses_unique [OF this] show ?thesis by blast
qed

text \<open>The workspace has one component per evaluated component that is not a module, with its id and path,
  sorted by path.\<close>

theorem build_one_component_each:
  "sorted (map comp_path (ws_components (build evs reg cx fs))) \<and>
   mset (map (\<lambda>c. (comp_id c, comp_path c)) (ws_components (build evs reg cx fs))) =
     mset (map (\<lambda>ev. (comp_id (ev_raw ev), comp_path (ev_raw ev))) (filter (\<lambda>ev. \<not> is_module_kind ev) evs))"
proof -
  from build_components obtain cs where
    cs: "built_from (exp_config_of cx reg fs) (filter (\<lambda>ev. \<not> is_module_kind ev) evs) cs"
      "ws_components (build evs reg cx fs) = sort_key comp_path cs" by blast
  from cs(1) have "map (\<lambda>c. (comp_id c, comp_path c)) cs =
      map (\<lambda>ev. (comp_id (ev_raw ev), comp_path (ev_raw ev))) (filter (\<lambda>ev. \<not> is_module_kind ev) evs)"
    unfolding built_from_def by (induction rule: list_all2_induct) (auto simp: build_component_kept)
  moreover have "mset (map f (sort_key comp_path cs)) = mset (map f cs)" for f :: "component \<Rightarrow> nat \<times> path" by simp
  moreover have "sorted (map comp_path (sort_key comp_path cs))" by simp
  ultimately show ?thesis by (simp only: cs(2) simp_thms)
qed

text \<open>Two keys of a \<open>for_each\<close> that differ only in quotes or backslashes give one address: the escaping
  drops these characters, so the second row collides with the first and the builder removes it.\<close>

theorem for_each_keys_collide:
  "map row_addr (fst (expand_resource keyed_resource 1024 [])) =
     [''aws_role.r['' @ quote_mark @ ''a'' @ quote_mark @ '']'', ''aws_role.r['' @ quote_mark @ ''a'' @ quote_mark @ '']''] \<and>
   length (fst (dedupe_addresses {} (fst (expand_resource keyed_resource 1024 [])))) = 1"
  by code_simp

end
