(* ===== verification/LocalsProps.thy ===== *)
theory LocalsProps
  imports LocalsSolve ReduceProps
begin

text \<open>The properties of the locals solver, each with a witness.\<close>

section \<open>Concrete inputs\<close>

definition local_named :: "str \<Rightarrow> expr \<Rightarrow> local_def" where
  "local_named n e = \<lparr>loc_name = n, loc_value = e, loc_span = sp0\<rparr>"

definition local_sym :: "str \<Rightarrow> expr" where
  "local_sym n = Unresolved (symb KLocal (''local.'' @ n))"

text \<open>\<open>a = [local.b, local.b]\<close> before \<open>b = 2\<close>.\<close>

definition locals_ab :: "local_def list" where
  "locals_ab = [local_named ''a'' (EArray [local_sym ''b'', local_sym ''b'']),
                local_named ''b'' (Literal (VInt 2))]"

text \<open>\<open>a = local.b\<close>, \<open>b = [local.c, local.d]\<close>, \<open>c = local.c\<close>, \<open>d = 1\<close>: only \<open>c\<close> is on a cycle.\<close>

definition locals_tail :: "local_def list" where
  "locals_tail = [local_named ''a'' (local_sym ''b''),
                  local_named ''b'' (EArray [local_sym ''c'', local_sym ''d'']),
                  local_named ''c'' (local_sym ''c''), local_named ''d'' (Literal (VInt 1))]"

lemmas locals_eval = locals_ab_def locals_tail_def local_named_def local_sym_def symb_def local_ref_name_def
  strip_or_self_def name_to_idx_def local_edges_def upt_rec List.map_filter_def


lemmas tarjan_eval = tarjan_init_def tarjan_enter_def tarjan_finish_def lower_link_def lowlink_of_def
  is_on_stack_def outgoing_of_def visited_index_def vec_get_def

text \<open>What the check returns, evaluated once.\<close>

lemma check_cycle_ab: "check_cycle remdups locals_ab = Ok ()"
  by (simp add: check_cycle_def locals_eval tarjan_first_cycle_def tarjan_eval)

section \<open>Properties\<close>

text \<open>C6. The cycle check is exact.  It reports a cycle just when the references between the locals have one,
  for every order in which the hash set of references may be iterated; so it never rejects a valid set
  of locals and never lets a cyclic one reach the solver.\<close>

theorem check_cycle_exact:
  assumes "\<And>xs. set (order xs) = set xs"
  shows "check_cycle order locals = Ok () \<longleftrightarrow> acyclic (local_dep_rel locals)"
  using assms by (rule check_cycle_Ok_iff)

theorem check_cycle_exact_witness:
  "acyclic (local_dep_rel locals_ab)"
  using check_cycle_exact [of remdups locals_ab] check_cycle_ab by simp

text \<open>C5. An acyclic set of locals of which each can be computed once the locals it mentions are known
  resolves completely, whatever the order of declaration: within the \<open>len() + 1\<close> passes the code
  allows every local is a literal, and the scope binds its name to that literal.\<close>

theorem solve_locals_resolves:
  assumes "solve_locals order locals sc = Some (r, sc')"
    and "acyclic (local_dep_rel locals)"
    and "distinct (map loc_name locals)"
    and "\<And>xs. set (order xs) = set xs"
    and "\<And>l. l \<in> set locals \<Longrightarrow> resolvable_from sc locals l"
  shows "\<exists>out. r = Ok out \<and> map loc_name out = map loc_name locals \<and>
           (\<forall>l \<in> set out. is_literal (loc_value l) \<and>
              (lookup_local sc (loc_name l) = None \<longrightarrow>
                 lookup_local sc' (loc_name l) = Some (lit_value (loc_value l))))"
proof -
  have "check_cycle order locals = Ok ()" using assms(2) check_cycle_Ok_iff [OF assms(4)] by simp
  with assms(1) obtain out where r: "r = Ok out" by (auto simp: solve_locals_def)
  with assms(1) have s: "solve_locals order locals sc = Some (Ok out, sc')" by simp
  from solve_locals_Ok [OF s assms(3)] have "map loc_name out = map loc_name locals" by blast
  with r solve_locals_resolves_aux [OF s assms(3-5)] show ?thesis by blast
qed

lemma solve_ab:
  "solve_locals remdups locals_ab (scope_of [] []) =
     Some (Ok [local_named ''a'' (Literal (VList [VInt 2, VInt 2])), local_named ''b'' (Literal (VInt 2))],
           scope_of [] [(''b'', VInt 2), (''a'', VList [VInt 2, VInt 2])])"
  by (simp add: solve_locals_def check_cycle_ab) (simp add: locals_eval reduce_eval)

lemma resolvable_ab: "l \<in> set locals_ab \<Longrightarrow> resolvable_from sc locals_ab l"
  by (auto simp: resolvable_from_def locals_eval resolve_symbol_def resolve_path_def split_head_def descend_attributes.simps)

theorem solve_locals_resolves_witness:
  "\<exists>out. solve_locals remdups locals_ab (scope_of [] [])
           = Some (Ok out, scope_of [] [(''b'', VInt 2), (''a'', VList [VInt 2, VInt 2])])
         \<and> (\<forall>l \<in> set out. is_literal (loc_value l))"
proof -
  have d: "distinct (map loc_name locals_ab)" by (simp add: locals_eval)
  have a: "acyclic (local_dep_rel locals_ab)" using check_cycle_ab check_cycle_Ok_iff [of remdups locals_ab] by simp
  have o: "\<And>xs. set (remdups xs) = set xs" by simp
  from solve_locals_resolves [OF solve_ab a d o resolvable_ab] solve_ab show ?thesis by auto
qed

text \<open>The bound on the passes is enough for every set of locals the cycle check accepts: the state the
  loop stops in is a fixpoint, in which one more pass, over the result and from the scope it left,
  changes no local and binds nothing more than the converged names.\<close>

theorem solve_locals_fixpoint:
  assumes "solve_locals order locals sc = Some (Ok out, sc')" and "distinct (map loc_name locals)"
  shows "\<exists>conv pr. solve_pass out sc' conv False = Some (out, sc', conv, pr) \<and>
           (\<forall>l \<in> set out. loc_name l \<in> set conv \<longleftrightarrow> is_literal (loc_value l)) \<and>
           (\<forall>l \<in> set out. reduce (loc_value l) sc' = Some (loc_value l))"
proof -
  from solve_locals_Ok [OF assms] obtain new where
    "check_cycle order locals = Ok ()" "sc' = push_locals sc new" "map loc_name out = map loc_name locals"
    and st: "LocalsSolve.stable out sc' (map fst new)" and "bound_in new out" "value_link sc' locals out"
    "fst ` set new \<subseteq> loc_name ` set locals" "distinct (map fst new)" .
  have fixed: "\<forall>l \<in> set out. reduce (loc_value l) sc' = Some (loc_value l)"
  proof
    fix l assume l: "l \<in> set out"
    show "reduce (loc_value l) sc' = Some (loc_value l)"
    proof (cases "loc_name l \<in> set (map fst new)")
      case True
      with st l have "is_literal (loc_value l)" unfolding LocalsSolve.stable_def settled_def by blast
      then show ?thesis by (cases "loc_value l") simp_all
    next
      case False
      with st l show ?thesis unfolding LocalsSolve.stable_def by blast
    qed
  qed
  have conv: "\<forall>l \<in> set out. loc_name l \<in> set (map fst new) \<longleftrightarrow> is_literal (loc_value l)"
    using st unfolding LocalsSolve.stable_def settled_def by blast
  from stable_pass [OF st, of False] conv fixed show ?thesis by blast
qed

theorem solve_locals_fixpoint_witness:
  "reduce (Literal (VList [VInt 2, VInt 2])) (scope_of [] [(''b'', VInt 2), (''a'', VList [VInt 2, VInt 2])])
     = Some (Literal (VList [VInt 2, VInt 2]))"
proof -
  let ?l = "local_named ''a'' (Literal (VList [VInt 2, VInt 2]))"
  have "distinct (map loc_name locals_ab)" by (simp add: locals_eval)
  from solve_locals_fixpoint [OF solve_ab this]
  have "\<forall>l \<in> set [?l, local_named ''b'' (Literal (VInt 2))].
      reduce (loc_value l) (scope_of [] [(''b'', VInt 2), (''a'', VList [VInt 2, VInt 2])]) = Some (loc_value l)"
    by blast
  then have "reduce (loc_value ?l) (scope_of [] [(''b'', VInt 2), (''a'', VList [VInt 2, VInt 2])]) = Some (loc_value ?l)"
    by (rule bspec) simp
  then show ?thesis by (simp only: local_named_def local_def.select_convs)
qed

text \<open>The participants reported with a cycle can be locals that are on none.  Of \<open>a = local.b\<close>,
  \<open>b = [local.c, local.d]\<close>, \<open>c = local.c\<close> and \<open>d = 1\<close> only \<open>c\<close> refers to itself, but the error names \<open>a\<close> and
  \<open>b\<close>: once \<open>c\<close> is found the call for \<open>d\<close> returns at the entry check without setting \<open>d\<close>'s link, whose
  initial zero lowers the link of \<open>b\<close>, and when \<open>a\<close> finishes it replaces the cycle that was found.\<close>

theorem cycle_participants_wrong:
  "check_cycle remdups locals_tail = Err (ErrCycle [Address ''local.a'', Address ''local.b''])"
proof -
  have a: "address_new ''local.a'' = Ok (Address ''local.a'')" "address_new ''local.b'' = Ok (Address ''local.b'')"
    by code_simp+
  have less: "\<not> Address ''local.b'' \<le> Address ''local.a''" by (simp add: less_eq_address_def)
  have "tarjan_first_cycle (local_edges remdups locals_tail) = Some [1, 0]"
    by (simp add: locals_eval tarjan_first_cycle_def tarjan_eval)
  moreover have "cycle_addresses locals_tail [1, 0] = [Address ''local.a'', Address ''local.b'']"
    using a less by (simp add: cycle_addresses_def locals_eval)
  ultimately show ?thesis by (simp add: check_cycle_def)
qed

end
