(* ===== verification/ComponentProps.thy ===== *)
theory ComponentProps
  imports ComponentEval LocalsProps
begin

text \<open>What the component evaluator promises: the precedence of its bindings, the fixpoint of its result,
  the treatment of a cyclic component, and totality.\<close>

section \<open>The locals solver does not panic\<close>

definition total_from :: "scope \<Rightarrow> expr \<Rightarrow> bool" where
  "total_from sc e \<longleftrightarrow> (\<forall>sc''. scope_le sc sc'' \<longrightarrow> reduce e sc'' \<noteq> None)"

lemma total_from_mod_free: "mod_free e \<Longrightarrow> total_from sc e"
  by (simp add: total_from_def reduce_total_aux)

lemma total_from_mono: "total_from sc e \<Longrightarrow> scope_le sc sc' \<Longrightarrow> total_from sc' e"
  by (auto simp: total_from_def intro: scope_le_trans)

lemma total_from_reduce:
  assumes "total_from sc e" and "reduce e sc = Some r"
  shows "total_from sc r"
  unfolding total_from_def
proof (intro allI impI)
  fix sc'' assume le: "scope_le sc sc''"
  have "outcome (reduce r sc'') = outcome (reduce e sc'')" by (rule reduce_staged_aux [OF le assms(2)])
  moreover have "reduce e sc'' \<noteq> None" using assms(1) le by (simp add: total_from_def)
  ultimately show "reduce r sc'' \<noteq> None" using outcome_simps(1) by metis
qed

definition pass_total :: "scope \<Rightarrow> (local_def list \<times> scope \<times> str list \<times> bool) option \<Rightarrow> bool" where
  "pass_total sc res \<longleftrightarrow>
     (\<exists>ls' sc' conv' pr'. res = Some (ls', sc', conv', pr') \<and> scope_le sc sc' \<and>
        (\<forall>l \<in> set ls'. total_from sc' (loc_value l)))"

lemma pass_total_cons:
  assumes "pass_total sc1 res" and "scope_le sc sc1" and "total_from sc1 (loc_value l)"
  shows "pass_total sc (map_option (\<lambda>(out, r). (l # out, r)) res)"
  using assms unfolding pass_total_def by (fastforce intro: scope_le_trans total_from_mono)

lemma solve_pass_total:
  "\<forall>l \<in> set ls. total_from sc (loc_value l) \<Longrightarrow> pass_total sc (solve_pass ls sc conv pr)"
proof (induction ls arbitrary: sc conv pr)
  case Nil
  then show ?case by (simp add: pass_total_def)
next
  case (Cons l ls)
  have tail: "\<forall>x \<in> set ls. total_from sc (loc_value x)" using Cons.prems by simp
  show ?case
  proof (cases "loc_name l \<in> set conv")
    case True
    with pass_total_cons [OF Cons.IH [OF tail] scope_le_refl] Cons.prems show ?thesis by simp
  next
    case nc: False
    from Cons.prems have "reduce (loc_value l) sc \<noteq> None"
      by (auto simp: total_from_def dest: spec [of _ sc])
    then obtain r where r: "reduce (loc_value l) sc = Some r" by blast
    have tr: "total_from sc r" using total_from_reduce [OF _ r] Cons.prems by simp
    show ?thesis
    proof (cases "as_literal r")
      case None
      have "pass_total sc (map_option (\<lambda>(out, r). (l\<lparr>loc_value := r'\<rparr> # out, r)) (solve_pass ls sc conv pr'))"
        if "r' = r" for r' pr'
        by (rule pass_total_cons [OF Cons.IH [OF tail] scope_le_refl]) (simp add: that tr)
      then show ?thesis using nc r None by simp
    next
      case (Some v)
      let ?sc = "push_locals sc [(loc_name l, v)]"
      have le: "scope_le sc ?sc" by (rule scope_le_push)
      have t: "\<forall>x \<in> set ls. total_from ?sc (loc_value x)" using tail total_from_mono [OF _ le] by blast
      have "pass_total sc (map_option (\<lambda>(out, r). (l\<lparr>loc_value := r'\<rparr> # out, r)) (solve_pass ls ?sc (conv @ [loc_name l]) True))"
        if "r' = r" for r'
        by (rule pass_total_cons [OF Cons.IH [OF t] le]) (simp add: that total_from_mono [OF tr le])
      then show ?thesis using nc r Some by (simp add: push_locals_def del: as_literal_Some)
    qed
  qed
qed

lemma solve_iter_total:
  "\<forall>l \<in> set ls. total_from sc (loc_value l) \<Longrightarrow> solve_iter k ls sc conv \<noteq> None"
proof (induction k arbitrary: ls sc conv)
  case (Suc k)
  from solve_pass_total [OF Suc.prems, of conv False] obtain ls' sc' conv' pr' where
    p: "solve_pass ls sc conv False = Some (ls', sc', conv', pr')" "\<forall>l \<in> set ls'. total_from sc' (loc_value l)"
    unfolding pass_total_def by blast
  from Suc.IH [OF p(2), of conv'] p(1) show ?case by simp
qed simp

lemma solve_locals_total:
  assumes "\<forall>l \<in> set locals. mod_free (loc_value l)"
  shows "solve_locals order locals sc \<noteq> None"
proof -
  have "solve_iter (length locals + 1) locals sc [] \<noteq> None"
    by (rule solve_iter_total) (use assms total_from_mod_free in blast)
  then show ?thesis unfolding solve_locals_def by (auto simp del: solve_iter.simps split: sum.splits)
qed

section \<open>Totality of the parts\<close>

definition opt_mod_free :: "expr option \<Rightarrow> bool" where
  "opt_mod_free oe = (case oe of None \<Rightarrow> True | Some e \<Rightarrow> mod_free e)"

definition attrs_mod_free :: "attribute_map \<Rightarrow> bool" where
  "attrs_mod_free as = list_all (\<lambda>(k, e). mod_free e) as"

definition component_mod_free :: "component \<Rightarrow> bool" where
  "component_mod_free c \<longleftrightarrow>
     list_all (\<lambda>v. opt_mod_free (var_default v)) (comp_variables c) \<and>
     list_all (\<lambda>l. mod_free (loc_value l)) (comp_locals c) \<and>
     list_all (\<lambda>p. opt_mod_free (prov_region_expr p) \<and> opt_mod_free (prov_profile_expr p)
                \<and> attrs_mod_free (prov_raw p)) (comp_providers c) \<and>
     list_all (\<lambda>r. opt_mod_free (res_count_expr r) \<and> opt_mod_free (res_for_each_expr r)
                \<and> attrs_mod_free (res_attributes r)) (comp_resources c) \<and>
     list_all (\<lambda>m. opt_mod_free (mc_count_expr m) \<and> opt_mod_free (mc_for_each_expr m)
                \<and> attrs_mod_free (mc_inputs m)) (comp_modules c) \<and>
     list_all (\<lambda>out. mod_free (out_value out)) (comp_outputs c)"

lemma reduce_opt_total: "opt_mod_free oe \<Longrightarrow> \<exists>r. reduce_opt oe sc = Some r"
  using reduce_total_aux by (auto simp: reduce_opt_def opt_mod_free_def split: option.splits)

lemma reduce_attrs_total: "attrs_mod_free as \<Longrightarrow> \<exists>r. reduce_attrs as sc = Some r"
proof -
  assume "attrs_mod_free as"
  then have "map_option_list (\<lambda>(k, v). map_option (Pair k) (reduce v sc)) as \<noteq> None"
    using reduce_total_aux by (intro map_option_list_total) (fastforce simp: attrs_mod_free_def list_all_iff)
  then show ?thesis by (auto simp: reduce_attrs_def)
qed

lemma list_total:
  assumes "list_all P xs" and "\<And>x. P x \<Longrightarrow> \<exists>y. f x = Some y"
  shows "\<exists>ys. map_option_list f xs = Some ys"
proof -
  have "map_option_list f xs \<noteq> None"
    by (rule map_option_list_total) (use assms in \<open>fastforce simp: list_all_iff\<close>)
  then show ?thesis by auto
qed

lemma bind_total:
  "\<exists>a. m = Some a \<Longrightarrow> (\<And>a. m = Some a \<Longrightarrow> \<exists>y. f a = Some y) \<Longrightarrow> \<exists>y. Option.bind m f = Some y"
  by auto

lemmas part_total = bind_total reduce_opt_total reduce_attrs_total

lemma reduce_provider_total:
  "opt_mod_free (prov_region_expr p) \<and> opt_mod_free (prov_profile_expr p) \<and> attrs_mod_free (prov_raw p)
   \<Longrightarrow> \<exists>y. reduce_provider sc p = Some y"
  by (auto simp: reduce_provider_def intro!: part_total)

lemma reduce_resource_total:
  "opt_mod_free (res_count_expr r) \<and> opt_mod_free (res_for_each_expr r) \<and> attrs_mod_free (res_attributes r)
   \<Longrightarrow> \<exists>y. reduce_resource sc r = Some y"
  by (auto simp: reduce_resource_def intro!: part_total)

lemma reduce_module_total:
  "opt_mod_free (mc_count_expr m) \<and> opt_mod_free (mc_for_each_expr m) \<and> attrs_mod_free (mc_inputs m)
   \<Longrightarrow> \<exists>y. reduce_module sc m = Some y"
  by (auto simp: reduce_module_def intro!: part_total)

lemma reduce_output_total: "mod_free (out_value out) \<Longrightarrow> \<exists>y. reduce_output sc out = Some y"
  using reduce_total_aux [of "out_value out" sc] by (auto simp: reduce_output_def)

lemma bind_variables_total:
  assumes "list_all (\<lambda>v. opt_mod_free (var_default v)) vs"
  shows "\<exists>out b. bind_variables ryu vs cx = Some (out, b)"
proof -
  have "\<exists>ys. map_option_list (bind_variable (scope_new ryu [] [] cx)) vs = Some ys"
    by (rule list_total [OF assms]) (auto simp: bind_variable_def intro!: part_total)
  then show ?thesis by (auto simp: bind_variables_def)
qed

lemma evaluate_total_aux:
  assumes "component_mod_free c"
  shows "\<exists>ev. evaluate ryu order c cx = Some ev"
proof -
  note free = assms [unfolded component_mod_free_def]
  obtain out b where b: "bind_variables ryu (comp_variables c) cx = Some (out, b)"
    using bind_variables_total free by blast
  let ?sc = "scope_new ryu (override_all b (ec_repo_vars cx)) (ec_cascade_locals cx) cx"
  have "solve_locals order (comp_locals c) ?sc \<noteq> None"
    by (rule solve_locals_total) (use free in \<open>simp add: list_all_iff\<close>)
  then obtain solved sc where s: "solve_locals order (comp_locals c) ?sc = Some (solved, sc)" by auto
  obtain locals ds where l: "locals_outcome c solved = (locals, ds)" by (cases "locals_outcome c solved")
  let ?fs = "final_scope sc (ec_cascade_locals cx) locals"
  have "\<exists>ps. map_option_list (reduce_provider ?fs) (comp_providers c) = Some ps"
    "\<exists>rs. map_option_list (reduce_resource ?fs) (comp_resources c) = Some rs"
    "\<exists>ms. map_option_list (reduce_module ?fs) (comp_modules c) = Some ms"
    "\<exists>os. map_option_list (reduce_output ?fs) (comp_outputs c) = Some os"
    by (rule list_total [OF _ reduce_provider_total] list_total [OF _ reduce_resource_total]
         list_total [OF _ reduce_module_total] list_total [OF _ reduce_output_total], use free in blast, assumption)+
  then obtain ps rs ms os where "map_option_list (reduce_provider ?fs) (comp_providers c) = Some ps"
    "map_option_list (reduce_resource ?fs) (comp_resources c) = Some rs"
    "map_option_list (reduce_module ?fs) (comp_modules c) = Some ms"
    "map_option_list (reduce_output ?fs) (comp_outputs c) = Some os"
    by blast
  then show ?thesis by (simp add: evaluate_def b s l)
qed

section \<open>Shape and fixpoint of the result\<close>

lemma evaluate_Some:
  assumes "evaluate ryu order c cx = Some ev"
  obtains vb solved sc where
    "bind_variables ryu (comp_variables c) cx = Some (ev_variables ev, vb)"
    "solve_locals order (comp_locals c)
       (scope_new ryu (override_all vb (ec_repo_vars cx)) (ec_cascade_locals cx) cx) = Some (solved, sc)"
    "locals_outcome c solved = (ev_locals ev, ev_diagnostics ev)" "ev_raw ev = c"
    "map_option_list (reduce_provider (final_scope sc (ec_cascade_locals cx) (ev_locals ev))) (comp_providers c) = Some (ev_providers ev)"
    "map_option_list (reduce_resource (final_scope sc (ec_cascade_locals cx) (ev_locals ev))) (comp_resources c) = Some (ev_resources ev)"
    "map_option_list (reduce_module (final_scope sc (ec_cascade_locals cx) (ev_locals ev))) (comp_modules c) = Some (ev_modules ev)"
    "map_option_list (reduce_output (final_scope sc (ec_cascade_locals cx) (ev_locals ev))) (comp_outputs c) = Some (ev_outputs ev)"
proof -
  from assms obtain vs vb solved sc where
    b: "bind_variables ryu (comp_variables c) cx = Some (vs, vb)"
    and s: "solve_locals order (comp_locals c)
       (scope_new ryu (override_all vb (ec_repo_vars cx)) (ec_cascade_locals cx) cx) = Some (solved, sc)"
    unfolding evaluate_def by (auto simp: bind_eq_Some_conv)
  obtain locals ds where l: "locals_outcome c solved = (locals, ds)" by (cases "locals_outcome c solved")
  from assms have "ev_variables ev = vs" "ev_locals ev = locals" "ev_diagnostics ev = ds" "ev_raw ev = c"
    "map_option_list (reduce_provider (final_scope sc (ec_cascade_locals cx) locals)) (comp_providers c) = Some (ev_providers ev)"
    "map_option_list (reduce_resource (final_scope sc (ec_cascade_locals cx) locals)) (comp_resources c) = Some (ev_resources ev)"
    "map_option_list (reduce_module (final_scope sc (ec_cascade_locals cx) locals)) (comp_modules c) = Some (ev_modules ev)"
    "map_option_list (reduce_output (final_scope sc (ec_cascade_locals cx) locals)) (comp_outputs c) = Some (ev_outputs ev)"
    unfolding evaluate_def by (auto simp: bind_eq_Some_conv b s l Let_def)
  with b s l show ?thesis by (intro that [of vb solved sc]) simp_all
qed

lemma solve_pass_vars:
  "solve_pass ls sc conv pr = Some (ls', sc', conv', pr') \<Longrightarrow> sc_vars sc' = sc_vars sc"
proof (induction ls sc conv pr arbitrary: ls' sc' conv' pr' rule: solve_pass.induct)
  case (2 l ls sc conv pr)
  show ?case
  proof (cases "loc_name l \<in> set conv")
    case True
    with "2.prems" 2(1) [OF True] show ?thesis by auto
  next
    case False
    with "2.prems" obtain r where r: "reduce (loc_value l) sc = Some r" by (auto split: option.splits)
    show ?thesis
    proof (cases "as_literal r")
      case None
      with "2.prems" 2(2) [OF False r refl refl None] False r show ?thesis by auto
    next
      case (Some v)
      with "2.prems" 2(3) [OF False r refl refl Some] False r show ?thesis by (auto simp del: as_literal_Some)
    qed
  qed
qed simp

lemma solve_iter_vars: "solve_iter k ls sc conv = Some (ls', sc') \<Longrightarrow> sc_vars sc' = sc_vars sc"
  by (induction k ls sc conv rule: solve_iter.induct)
     (auto split: option.splits if_splits dest: solve_pass_vars)

lemma solve_locals_vars: "solve_locals order locals sc = Some (r, sc') \<Longrightarrow> sc_vars sc' = sc_vars sc"
  by (auto simp: solve_locals_def simp del: solve_iter.simps split: sum.splits dest: solve_iter_vars)

lemma reduce_opt_idem: "reduce_opt oe sc = Some r \<Longrightarrow> reduce_opt r sc = Some r"
  using reduce_idem_aux by (auto simp: reduce_opt_def split: option.splits)

lemma list_idem:
  assumes "map_option_list f xs = Some ys" and "\<And>x y. f x = Some y \<Longrightarrow> f y = Some y"
  shows "map_option_list f ys = Some ys"
proof -
  have "\<exists>x. f x = Some y" if "y \<in> set ys" for y
    using map_option_list_set [OF assms(1) that] by blast
  with assms(2) have "\<forall>y \<in> set ys. f y = Some y" by blast
  then show ?thesis unfolding map_option_list_Some_iff by (simp add: list.rel_refl_strong)
qed

lemma reduce_attrs_idem: "reduce_attrs as sc = Some r \<Longrightarrow> reduce_attrs r sc = Some r"
  unfolding reduce_attrs_def by (erule list_idem) (auto dest: reduce_idem_aux)

lemma reduce_provider_idem:
  assumes "reduce_provider sc p = Some p'"
  shows "reduce_provider sc p' = Some p'"
proof -
  from assms obtain a b c where h: "reduce_opt (prov_region_expr p) sc = Some a"
    "reduce_opt (prov_profile_expr p) sc = Some b" "reduce_attrs (prov_raw p) sc = Some c"
    and p: "prov_region_expr p' = a" "prov_profile_expr p' = b" "prov_raw p' = c"
    by (auto simp: reduce_provider_def bind_eq_Some_conv)
  show ?thesis
    by (simp add: reduce_provider_def p reduce_opt_idem [OF h(1)] reduce_opt_idem [OF h(2)] reduce_attrs_idem [OF h(3)])
qed

lemma reduce_resource_idem:
  assumes "reduce_resource sc r = Some r'"
  shows "reduce_resource sc r' = Some r'"
proof -
  from assms obtain a b c where h: "reduce_opt (res_count_expr r) sc = Some a"
    "reduce_opt (res_for_each_expr r) sc = Some b" "reduce_attrs (res_attributes r) sc = Some c"
    and p: "res_count_expr r' = a" "res_for_each_expr r' = b" "res_attributes r' = c"
    "res_account_id r' = None" "res_account_name r' = None" "res_region r' = None"
    by (auto simp: reduce_resource_def bind_eq_Some_conv)
  show ?thesis
    by (simp add: reduce_resource_def p reduce_opt_idem [OF h(1)] reduce_opt_idem [OF h(2)] reduce_attrs_idem [OF h(3)])
qed

lemma reduce_module_idem:
  assumes "reduce_module sc m = Some m'"
  shows "reduce_module sc m' = Some m'"
proof -
  from assms obtain a b c where h: "reduce_opt (mc_count_expr m) sc = Some a"
    "reduce_opt (mc_for_each_expr m) sc = Some b" "reduce_attrs (mc_inputs m) sc = Some c"
    and p: "mc_count_expr m' = a" "mc_for_each_expr m' = b" "mc_inputs m' = c"
    by (auto simp: reduce_module_def bind_eq_Some_conv)
  show ?thesis
    by (simp add: reduce_module_def p reduce_opt_idem [OF h(1)] reduce_opt_idem [OF h(2)] reduce_attrs_idem [OF h(3)])
qed

lemma reduce_output_idem:
  assumes "reduce_output sc out = Some out'"
  shows "reduce_output sc out' = Some out'"
proof -
  from assms obtain v where h: "reduce (out_value out) sc = Some v" and p: "out_value out' = v"
    by (auto simp: reduce_output_def bind_eq_Some_conv)
  show ?thesis by (simp add: reduce_output_def p reduce_idem_aux [OF h])
qed

text \<open>What a resource keeps through evaluation: everything but its expressions.\<close>

lemma reduce_attrs_keys: "reduce_attrs as sc = Some r \<Longrightarrow> map fst r = map fst as"
  by (induction as arbitrary: r) (auto simp: reduce_attrs_def split: option.splits)

lemma reduce_resource_keeps:
  "reduce_resource sc r = Some r' \<Longrightarrow>
     res_address r' = res_address r \<and> res_kind r' = res_kind r \<and> res_type r' = res_type r
     \<and> res_name r' = res_name r \<and> res_provider_ref r' = res_provider_ref r
     \<and> res_depends_on r' = res_depends_on r \<and> res_span r' = res_span r
     \<and> map fst (res_attributes r') = map fst (res_attributes r)"
  by (auto simp: reduce_resource_def bind_eq_Some_conv dest: reduce_attrs_keys)

section \<open>Concrete inputs\<close>

definition context_ex :: eval_context where
  "context_ex =
     \<lparr>ec_workspace_root = [RootDir, Normal ''ws''], ec_environment = Some ''prod'', ec_env_vars = env_var_mode_default,
      ec_repo_vars = [(''env'', VStr ''prod'')], ec_cascade_locals = [(''region'', VStr ''us'')],
      ec_funcs = registry_empty, ec_limits = eval_limits_default\<rparr>"

text \<open>\<open>variable "env" \{ default = "dev" \}\<close>, the given locals, and two outputs \<open>local.region\<close>, \<open>local.name\<close>.\<close>

definition component_ex :: "local_def list \<Rightarrow> component" where
  "component_ex ls =
     \<lparr>comp_id = 0, comp_path = [Normal ''app''], comp_kind = CkComponent,
      comp_files = [\<lparr>sf_path = [Normal ''app'', Normal ''main.tf''], sf_ext = Tf, sf_size = 1\<rparr>],
      comp_variables = [\<lparr>var_name = ''env'', var_description = None, var_type_expr = None,
         var_default = Some (Literal (VStr ''dev'')), var_sensitive = False, var_span = sp0\<rparr>],
      comp_locals = ls, comp_providers = [], comp_resources = [], comp_modules = [],
      comp_outputs = [\<lparr>out_name = ''r'', out_value = local_sym ''region'', out_description = None,
                       out_sensitive = False, out_span = sp0\<rparr>,
                     \<lparr>out_name = ''n'', out_value = local_sym ''name'', out_description = None,
                       out_sensitive = False, out_span = sp0\<rparr>],
      comp_terragrunt = None, comp_state_backend = None\<rparr>"

text \<open>\<open>region = "eu"\<close> and \<open>name = "$\{local.region\}"\<close> as a symbol.\<close>

definition shadowing_locals :: "local_def list" where
  "shadowing_locals = [local_named ''region'' (Literal (VStr ''eu'')), local_named ''name'' (local_sym ''region'')]"

definition cyclic_locals :: "local_def list" where
  "cyclic_locals = [local_named ''name'' (local_sym ''name'')]"

lemmas component_ex_defs = component_ex_def context_ex_def scope_new_def reduce_opt_def reduce_attrs_def
  bind_variables_def bind_variable_def variable_binding_def default_literal_def List.map_filter_def
  local_binding_def final_scope_def override_all_def reduce_output_def

lemma check_shadowing: "check_cycle remdups shadowing_locals = Ok ()"
  by (simp add: check_cycle_def shadowing_locals_def locals_eval tarjan_first_cycle_def tarjan_eval)

lemma evaluate_shadowing:
  "\<exists>ev. evaluate (\<lambda>_. []) remdups (component_ex shadowing_locals) context_ex = Some ev \<and>
     map loc_value (ev_locals ev) = [Literal (VStr ''eu''), Literal (VStr ''us'')] \<and>
     map out_value (ev_outputs ev) = [Literal (VStr ''eu''), Literal (VStr ''us'')] \<and>
     ev_diagnostics ev = []"
  by (simp add: evaluate_def solve_locals_def component_ex_defs check_shadowing)
     (simp add: shadowing_locals_def locals_eval reduce_eval component_ex_defs)

section \<open>Properties\<close>

text \<open>Evaluation is total: a component without the operator \<open>%\<close> always evaluates, whatever its context,
  its functions and its references; a cycle, an unknown name or a failing function is never an error
  of the whole evaluation.\<close>

theorem evaluate_total:
  assumes "component_mod_free c"
  shows "\<exists>ev. evaluate ryu order c cx = Some ev"
  using assms by (rule evaluate_total_aux)

theorem evaluate_total_witness:
  "\<exists>ev. evaluate (\<lambda>_. []) remdups (component_ex cyclic_locals) context_ex = Some ev"
  by (rule evaluate_total)
     (simp add: component_mod_free_def component_ex_def cyclic_locals_def locals_eval opt_mod_free_def)

text \<open>C7. The precedence of the bindings.  Every provider, resource, module call and output is reduced in one
  scope, where a variable is the repository's value for it, else its default when that is a literal, and a
  local is the component's own local when it resolved, else the cascade's.\<close>

theorem evaluate_precedence:
  assumes "evaluate ryu order c cx = Some ev"
  shows "\<exists>sc. (\<forall>n. lookup_var sc n =
               (case map_of (rev (ec_repo_vars cx)) n of
                  Some v \<Rightarrow> Some v
                | None \<Rightarrow> map_of (List.map_filter variable_binding (ev_variables ev)) n)) \<and>
           (\<forall>n. lookup_local sc n =
               (case map_of (rev (List.map_filter local_binding (ev_locals ev))) n of
                  Some v \<Rightarrow> Some v
                | None \<Rightarrow> lookup_cascade_local cx n)) \<and>
           map_option_list (reduce_provider sc) (comp_providers c) = Some (ev_providers ev) \<and>
           map_option_list (reduce_resource sc) (comp_resources c) = Some (ev_resources ev) \<and>
           map_option_list (reduce_module sc) (comp_modules c) = Some (ev_modules ev) \<and>
           map_option_list (reduce_output sc) (comp_outputs c) = Some (ev_outputs ev)"
proof -
  from evaluate_Some [OF assms] obtain vb solved sc where
    b: "bind_variables ryu (comp_variables c) cx = Some (ev_variables ev, vb)"
    and s: "solve_locals order (comp_locals c)
       (scope_new ryu (override_all vb (ec_repo_vars cx)) (ec_cascade_locals cx) cx) = Some (solved, sc)"
    and "locals_outcome c solved = (ev_locals ev, ev_diagnostics ev)" "ev_raw ev = c"
    and parts:
    "map_option_list (reduce_provider (final_scope sc (ec_cascade_locals cx) (ev_locals ev))) (comp_providers c) = Some (ev_providers ev)"
    "map_option_list (reduce_resource (final_scope sc (ec_cascade_locals cx) (ev_locals ev))) (comp_resources c) = Some (ev_resources ev)"
    "map_option_list (reduce_module (final_scope sc (ec_cascade_locals cx) (ev_locals ev))) (comp_modules c) = Some (ev_modules ev)"
    "map_option_list (reduce_output (final_scope sc (ec_cascade_locals cx) (ev_locals ev))) (comp_outputs c) = Some (ev_outputs ev)" .
  have vb: "vb = List.map_filter variable_binding (ev_variables ev)"
    using b by (auto simp: bind_variables_def bind_eq_Some_conv)
  have vars: "sc_vars sc = override_all vb (ec_repo_vars cx)"
    using solve_locals_vars [OF s] by (simp add: scope_new_def)
  let ?fs = "final_scope sc (ec_cascade_locals cx) (ev_locals ev)"
  have "lookup_var ?fs n =
      (case map_of (rev (ec_repo_vars cx)) n of
         Some v \<Rightarrow> Some v
       | None \<Rightarrow> map_of (List.map_filter variable_binding (ev_variables ev)) n)"
    and "lookup_local ?fs n =
      (case map_of (rev (List.map_filter local_binding (ev_locals ev))) n of
         Some v \<Rightarrow> Some v
       | None \<Rightarrow> lookup_cascade_local cx n)" for n
    by (simp_all add: final_scope_def lookup_var_def lookup_local_def vars vb lookup_simps lookup_cascade_local_def
        split: option.split)
  with parts show ?thesis by blast
qed

theorem evaluate_precedence_witness:
  "\<exists>ev sc. evaluate (\<lambda>_. []) remdups (component_ex shadowing_locals) context_ex = Some ev \<and>
     lookup_var sc ''env'' = Some (VStr ''prod'') \<and>
     map_option_list (reduce_output sc) (comp_outputs (component_ex shadowing_locals)) = Some (ev_outputs ev)"
proof -
  from evaluate_shadowing obtain ev where ev:
    "evaluate (\<lambda>_. []) remdups (component_ex shadowing_locals) context_ex = Some ev" by blast
  from evaluate_precedence [OF this] obtain sc where
    v: "\<forall>n. lookup_var sc n = (case map_of (rev (ec_repo_vars context_ex)) n of
          Some v \<Rightarrow> Some v
        | None \<Rightarrow> map_of (List.map_filter variable_binding (ev_variables ev)) n)"
    and r: "map_option_list (reduce_output sc) (comp_outputs (component_ex shadowing_locals)) = Some (ev_outputs ev)"
    by blast
  from v have "lookup_var sc ''env'' = Some (VStr ''prod'')" by (simp add: context_ex_def)
  with r ev show ?thesis by blast
qed

text \<open>The result is a fixpoint: evaluating any part of it again in the scope it was evaluated in gives the
  part back, and a resource keeps its identity: address, kind, type, name, provider reference,
  \<open>depends_on\<close>, span and attribute names.\<close>

theorem evaluate_fixpoint:
  assumes "evaluate ryu order c cx = Some ev"
  shows "\<exists>sc. map_option_list (reduce_resource sc) (comp_resources c) = Some (ev_resources ev) \<and>
           map_option_list (reduce_provider sc) (ev_providers ev) = Some (ev_providers ev) \<and>
           map_option_list (reduce_resource sc) (ev_resources ev) = Some (ev_resources ev) \<and>
           map_option_list (reduce_module sc) (ev_modules ev) = Some (ev_modules ev) \<and>
           map_option_list (reduce_output sc) (ev_outputs ev) = Some (ev_outputs ev) \<and>
           list_all2 (\<lambda>r r'. res_address r' = res_address r \<and> res_kind r' = res_kind r \<and> res_type r' = res_type r
                \<and> res_name r' = res_name r \<and> res_provider_ref r' = res_provider_ref r
                \<and> res_depends_on r' = res_depends_on r \<and> res_span r' = res_span r
                \<and> map fst (res_attributes r') = map fst (res_attributes r))
             (comp_resources c) (ev_resources ev)"
proof -
  from evaluate_Some [OF assms] obtain sc where
    p: "map_option_list (reduce_provider sc) (comp_providers c) = Some (ev_providers ev)"
    "map_option_list (reduce_resource sc) (comp_resources c) = Some (ev_resources ev)"
    "map_option_list (reduce_module sc) (comp_modules c) = Some (ev_modules ev)"
    "map_option_list (reduce_output sc) (comp_outputs c) = Some (ev_outputs ev)" by metis
  note ids = list_idem [OF p(1) reduce_provider_idem] list_idem [OF p(2) reduce_resource_idem]
    list_idem [OF p(3) reduce_module_idem] list_idem [OF p(4) reduce_output_idem]
  have "list_all2 (\<lambda>r r'. reduce_resource sc r = Some r') (comp_resources c) (ev_resources ev)"
    using p(2) by (simp add: map_option_list_Some_iff)
  then have "list_all2 (\<lambda>r r'. res_address r' = res_address r \<and> res_kind r' = res_kind r \<and> res_type r' = res_type r
                \<and> res_name r' = res_name r \<and> res_provider_ref r' = res_provider_ref r
                \<and> res_depends_on r' = res_depends_on r \<and> res_span r' = res_span r
                \<and> map fst (res_attributes r') = map fst (res_attributes r))
             (comp_resources c) (ev_resources ev)"
    by (rule list.rel_mono_strong) (rule reduce_resource_keeps)
  with p(2) ids show ?thesis by (intro exI [of _ sc] conjI)
qed

theorem evaluate_fixpoint_witness:
  "\<exists>ev sc. evaluate (\<lambda>_. []) remdups (component_ex shadowing_locals) context_ex = Some ev \<and>
     map_option_list (reduce_output sc) (ev_outputs ev) = Some (ev_outputs ev)"
proof -
  from evaluate_shadowing obtain ev where ev:
    "evaluate (\<lambda>_. []) remdups (component_ex shadowing_locals) context_ex = Some ev" by blast
  from evaluate_fixpoint [OF this] ev show ?thesis by blast
qed

text \<open>A cycle in the locals is a diagnostic, not an abort: the evaluated component carries exactly one
  diagnostic, the error \<open>TF1401\<close>, just when the local references are cyclic, and then the locals are
  returned as they were written; otherwise there is none.\<close>

theorem evaluate_cycle_diagnostic:
  assumes "evaluate ryu order c cx = Some ev" and "\<And>xs. set (order xs) = set xs"
  shows "if acyclic (local_dep_rel (comp_locals c)) then ev_diagnostics ev = []
         else map diag_code (ev_diagnostics ev) = [''TF1401''] \<and> ev_locals ev = comp_locals c"
proof -
  from evaluate_Some [OF assms(1)] obtain sc0 solved sc where
    s: "solve_locals order (comp_locals c) sc0 = Some (solved, sc)"
    and l: "locals_outcome c solved = (ev_locals ev, ev_diagnostics ev)" by metis
  show ?thesis
  proof (cases "check_cycle order (comp_locals c)")
    case (Inl e)
    then obtain ps where e: "e = ErrCycle ps" by (auto simp: check_cycle_def split: option.splits)
    have "\<not> acyclic (local_dep_rel (comp_locals c))" using Inl check_cycle_Ok_iff [OF assms(2), of "comp_locals c"] by simp
    moreover have "solved = Inl (ErrCycle ps)" using s Inl e by (simp add: solve_locals_def)
    moreover from this l have "ev_locals ev = comp_locals c"
      "ev_diagnostics ev = [with_span (diagnostic_new SevError ''TF1401''
         (''cycle in locals: '' @ join_str '', '' (map addr_str ps))) (component_span_for_diag c)]" by simp_all
    ultimately show ?thesis by (simp add: with_span_def diagnostic_new_def)
  next
    case (Inr u)
    then have "acyclic (local_dep_rel (comp_locals c))" using check_cycle_Ok_iff [OF assms(2), of "comp_locals c"] by simp
    moreover obtain out where "solved = Inr out" using s Inr by (auto simp: solve_locals_def)
    ultimately show ?thesis using l by simp
  qed
qed

theorem evaluate_cycle_diagnostic_witness:
  "\<exists>ev. evaluate (\<lambda>_. []) remdups (component_ex cyclic_locals) context_ex = Some ev \<and>
     map diag_code (ev_diagnostics ev) = [''TF1401''] \<and> ev_locals ev = cyclic_locals"
proof -
  have "component_mod_free (component_ex cyclic_locals)"
    by (simp add: component_mod_free_def component_ex_def cyclic_locals_def locals_eval opt_mod_free_def)
  then obtain ev where ev: "evaluate (\<lambda>_. []) remdups (component_ex cyclic_locals) context_ex = Some ev"
    using evaluate_total_aux by blast
  have "(0, 0) \<in> local_dep_rel cyclic_locals"
    by (simp add: local_dep_rel_def cyclic_locals_def locals_eval)
  then have "\<not> acyclic (local_dep_rel cyclic_locals)" by (auto simp: acyclic_def)
  moreover have "comp_locals (component_ex cyclic_locals) = cyclic_locals" by (simp add: component_ex_def)
  ultimately show ?thesis using evaluate_cycle_diagnostic [OF ev] ev by simp
qed

text \<open>A cascade local and a local of the component with the same name are resolved inconsistently.  With
  \<open>region = "us"\<close> in the cascade and the locals \<open>region = "eu"\<close>, \<open>name = local.region\<close>, the output
  \<open>local.region\<close> is \<open>"eu"\<close> but \<open>local.name\<close> is \<open>"us"\<close>: while the locals are solved the cascade's entry
  comes first in the scope, afterwards the component's own value overrides it.\<close>

theorem cascade_local_shadows_own:
  "\<exists>ev. evaluate (\<lambda>_. []) remdups (component_ex shadowing_locals) context_ex = Some ev \<and>
     map out_value (ev_outputs ev) = [Literal (VStr ''eu''), Literal (VStr ''us'')]"
proof -
  from evaluate_shadowing obtain ev where
    "evaluate (\<lambda>_. []) remdups (component_ex shadowing_locals) context_ex = Some ev"
    "map out_value (ev_outputs ev) = [Literal (VStr ''eu''), Literal (VStr ''us'')]" by (elim exE conjE)
  then show ?thesis by (intro exI conjI)
qed

end
