(* ===== verification/ProfileMap.thy ===== *)
theory ProfileMap
  imports Messages
begin

text \<open>The profile map (\<open>provider/profile_map.rs\<close>, \<open>provider/error.rs\<close>): AWS profile names mapped to accounts,
  loaded from a YAML file or from \<open>~/.aws/config\<close>.

  The YAML and INI parsers, the \<open>validator\<close> derive with its regular expressions, and the file system are
  outside the program: their results are arguments.  The order in which a \<open>HashMap\<close> is iterated is the
  argument \<open>order\<close>.\<close>

definition profile_map_file_max_bytes :: nat where
  "profile_map_file_max_bytes = 256 * 1024"

definition aws_config_max_chain_hops :: nat where
  "aws_config_max_chain_hops = 8"

record profile_entry =
  pe_account_id :: account_id
  pe_account_name :: str
  pe_region :: "region option"
  pe_role_arn :: "str option"

text \<open>A \<open>HashMap\<close>, kept as an association list with one entry per key.\<close>

type_synonym profile_map = "(str \<times> profile_entry) list"

definition profile_lookup :: "profile_map \<Rightarrow> str \<Rightarrow> profile_entry option" where
  "profile_lookup pm name = map_of pm name"

definition profile_len :: "profile_map \<Rightarrow> nat" where
  "profile_len pm = length pm"

definition profile_is_empty :: "profile_map \<Rightarrow> bool" where
  "profile_is_empty pm = (pm = [])"

definition profile_empty :: profile_map where
  "profile_empty = []"

datatype provider_error =
    ProvIo path str
  | ProvFileTooLarge path nat nat
  | ProvIni path str
  | ProvYaml path str
  | ProvValidation path str
  | ProvInvalidEntry str validation_error
  | ProvChainTooLong str nat
  | ProvStrictUnresolved nat str

section \<open>Reading a file\<close>

text \<open>What the program asks of one file: its size, and its contents.\<close>

record file_probe =
  fp_size :: "str + nat"
  fp_bytes :: "str + str"

definition read_capped :: "path \<Rightarrow> file_probe \<Rightarrow> provider_error + str" where
  "read_capped p f =
     (case fp_size f of
        Inl e \<Rightarrow> Err (ProvIo p e)
      | Inr n \<Rightarrow>
          if n > profile_map_file_max_bytes then Err (ProvFileTooLarge p n profile_map_file_max_bytes)
          else (case fp_bytes f of Inl e \<Rightarrow> Err (ProvIo p e) | Inr bytes \<Rightarrow> Ok bytes))"

section \<open>The YAML loader\<close>

record yaml_entry =
  ye_account_id :: str
  ye_account_name :: str
  ye_region :: "str option"
  ye_role_arn :: "str option"

definition yaml_profile :: "str \<Rightarrow> yaml_entry \<Rightarrow> provider_error + profile_entry" where
  "yaml_profile name raw =
     (case account_id_new (ye_account_id raw) of
        Inl e \<Rightarrow> Err (ProvInvalidEntry name e)
      | Inr account \<Rightarrow>
          (case ye_region raw of
             None \<Rightarrow> Ok \<lparr>pe_account_id = account, pe_account_name = ye_account_name raw, pe_region = None,
                        pe_role_arn = ye_role_arn raw\<rparr>
           | Some r \<Rightarrow> (case region_new r of
               Inl e \<Rightarrow> Err (ProvInvalidEntry name e)
             | Inr region \<Rightarrow>
                 Ok \<lparr>pe_account_id = account, pe_account_name = ye_account_name raw, pe_region = Some region,
                     pe_role_arn = ye_role_arn raw\<rparr>)))"

fun yaml_profiles :: "(str \<times> yaml_entry) list \<Rightarrow> profile_map \<Rightarrow> provider_error + profile_map" where
  "yaml_profiles [] entries = Ok entries"
| "yaml_profiles ((name, raw) # rest) entries =
     (case yaml_profile name raw of
        Inl e \<Rightarrow> Err e
      | Inr entry \<Rightarrow> yaml_profiles rest (override_or_push entries name entry))"

text \<open>\<open>parse\<close> is \<open>serde_yaml::from_slice\<close> into the profiles in map order, \<open>check\<close> the derived \<open>validate()\<close>.\<close>

definition load_yaml_profile_map ::
  "(str \<Rightarrow> str + (str \<times> yaml_entry) list) \<Rightarrow> ((str \<times> yaml_entry) list \<Rightarrow> str + unit) \<Rightarrow>
   path \<Rightarrow> file_probe \<Rightarrow> provider_error + profile_map" where
  "load_yaml_profile_map parse check p f =
     (case read_capped p f of
        Inl e \<Rightarrow> Err e
      | Inr bytes \<Rightarrow> (case parse bytes of
          Inl e \<Rightarrow> Err (ProvYaml p e)
        | Inr profiles \<Rightarrow> (case check profiles of
            Inl e \<Rightarrow> Err (ProvValidation p e)
          | Inr _ \<Rightarrow> yaml_profiles profiles [])))"

section \<open>ARNs\<close>

text \<open>\<open>split_once\<close> with a string separator.\<close>

fun split_once_str :: "str \<Rightarrow> str \<Rightarrow> (str \<times> str) option" where
  "split_once_str sep [] = (if sep = [] then Some ([], []) else None)"
| "split_once_str sep (c # cs) =
     (case strip_prefix_str sep (c # cs) of
        Some rest \<Rightarrow> Some ([], rest)
      | None \<Rightarrow> map_option (\<lambda>(a, b). (c # a, b)) (split_once_str sep cs))"

definition extract_account_id :: "str \<Rightarrow> account_id option" where
  "extract_account_id role_arn =
     (case strip_prefix_str ''arn:aws:iam::'' role_arn of
        None \<Rightarrow> None
      | Some rest \<Rightarrow> (case split_once_str '':role/'' rest of
          None \<Rightarrow> None
        | Some (account, _) \<Rightarrow> (case account_id_new account of Inr a \<Rightarrow> Some a | Inl _ \<Rightarrow> None)))"

section \<open>The AWS config loader\<close>

type_synonym aws_section = "str \<Rightarrow> str option"
type_synonym aws_sections = "(str \<times> aws_section) list"

text \<open>The name a section label stands for; \<open>trim\<close> is \<open>str::trim\<close>.\<close>

definition section_name :: "(str \<Rightarrow> str) \<Rightarrow> str \<Rightarrow> str option" where
  "section_name trim s =
     (if s = ''default'' then Some ''default''
      else map_option trim (strip_prefix_str ''profile '' s))"

fun raw_sections :: "(str \<Rightarrow> str) \<Rightarrow> (str option \<times> (str \<times> str) list) list \<Rightarrow> aws_sections \<Rightarrow> aws_sections" where
  "raw_sections trim [] acc = acc"
| "raw_sections trim ((label, props) # rest) acc =
     (case Option.bind label (section_name trim) of
        None \<Rightarrow> raw_sections trim rest acc
      | Some name \<Rightarrow> raw_sections trim rest (override_or_push acc name (map_of (rev props))))"

record aws_walk =
  aw_visited :: "str list"
  aw_region :: "region option"
  aw_role_arn :: "str option"
  aw_account :: "account_id option"

definition parsed_region :: "str \<Rightarrow> region option" where
  "parsed_region r = (case region_new r of Inr x \<Rightarrow> Some x | Inl _ \<Rightarrow> None)"

definition parsed_account :: "str \<Rightarrow> account_id option" where
  "parsed_account s = (case account_id_new s of Inr x \<Rightarrow> Some x | Inl _ \<Rightarrow> None)"

text \<open>The fields one section contributes: each is set only while it is still \<open>None\<close>.\<close>

definition visit_section :: "aws_section \<Rightarrow> aws_walk \<Rightarrow> aws_walk" where
  "visit_section props w =
     (let w1 = (if aw_region w = None then w\<lparr>aw_region := Option.bind (props ''region'') parsed_region\<rparr> else w);
          w2 = (if aw_role_arn w1 = None then w1\<lparr>aw_role_arn := props ''role_arn''\<rparr> else w1);
          w3 = (if aw_account w2 = None then w2\<lparr>aw_account := Option.bind (props ''sso_account_id'') parsed_account\<rparr> else w2)
      in if aw_account w3 = None then w3\<lparr>aw_account := Option.bind (props ''role_arn'') extract_account_id\<rparr> else w3)"

definition next_profile :: "aws_section \<Rightarrow> str option" where
  "next_profile props =
     (case props ''source_profile'' of Some n \<Rightarrow> if n \<noteq> [] then Some n else None | None \<Rightarrow> None)"

function walk_chain :: "str \<Rightarrow> aws_sections \<Rightarrow> nat \<Rightarrow> str \<Rightarrow> aws_walk \<Rightarrow> provider_error + aws_walk" where
  "walk_chain name sections hops cur w =
     (if cur \<in> set (aw_visited w) then Err (ProvChainTooLong cur aws_config_max_chain_hops)
      else
        let w0 = w\<lparr>aw_visited := aw_visited w @ [cur]\<rparr> in
        case map_of sections cur of
          None \<Rightarrow> Ok w0
        | Some props \<Rightarrow>
            let w1 = visit_section props w0 in
            if aw_account w1 \<noteq> None then Ok w1
            else case next_profile props of
                None \<Rightarrow> Ok w1
              | Some nxt \<Rightarrow>
                  if hops \<ge> aws_config_max_chain_hops
                  then Err (ProvChainTooLong name aws_config_max_chain_hops)
                  else walk_chain name sections (hops + 1) nxt w1)"
  by pat_completeness auto
termination
  by (relation "measure (\<lambda>(name, sections, hops, cur, w). aws_config_max_chain_hops - hops)") auto

declare walk_chain.simps [simp del]

definition aws_walk_new :: aws_walk where
  "aws_walk_new = \<lparr>aw_visited = [], aw_region = None, aw_role_arn = None, aw_account = None\<rparr>"

definition resolve_aws_profile :: "str \<Rightarrow> aws_sections \<Rightarrow> provider_error + profile_entry option" where
  "resolve_aws_profile name sections =
     (case walk_chain name sections 0 name aws_walk_new of
        Inl e \<Rightarrow> Err e
      | Inr w \<Rightarrow> Ok (map_option (\<lambda>a.
          \<lparr>pe_account_id = a, pe_account_name = name, pe_region = aw_region w, pe_role_arn = aw_role_arn w\<rparr>)
          (aw_account w)))"

fun resolve_all :: "str list \<Rightarrow> aws_sections \<Rightarrow> profile_map \<Rightarrow> provider_error + profile_map" where
  "resolve_all [] sections entries = Ok entries"
| "resolve_all (n # ns) sections entries =
     (case resolve_aws_profile n sections of
        Inl e \<Rightarrow> Err e
      | Inr None \<Rightarrow> resolve_all ns sections entries
      | Inr (Some entry) \<Rightarrow> resolve_all ns sections (override_or_push entries n entry))"

definition load_aws_config ::
  "(str \<Rightarrow> str + str) \<Rightarrow> (str \<Rightarrow> str + (str option \<times> (str \<times> str) list) list) \<Rightarrow> (str \<Rightarrow> str) \<Rightarrow>
   (str list \<Rightarrow> str list) \<Rightarrow> path \<Rightarrow> file_probe \<Rightarrow> provider_error + profile_map" where
  "load_aws_config from_utf8 parse trim order p f =
     (case read_capped p f of
        Inl e \<Rightarrow> Err e
      | Inr bytes \<Rightarrow> (case from_utf8 bytes of
          Inl e \<Rightarrow> Err (ProvIo p e)
        | Inr text \<Rightarrow> (case parse text of
            Inl e \<Rightarrow> Err (ProvIni p e)
          | Inr ini \<Rightarrow>
              let sections = raw_sections trim ini []
              in resolve_all (order (map fst sections)) sections [])))"

end
