(* ===== verification/ProviderResolver.thy ===== *)
theory ProviderResolver
  imports ProfileMap Reduce
begin

text \<open>The provider resolver (\<open>provider/resolver.rs\<close>): it fills the account and region columns of every
  resource and of the state backends.  The \<open>BTreeSet\<close> of unresolved profile names is a strictly sorted
  list; the resolver's two mutable arguments are the record \<open>resolve_state\<close>.\<close>

record provider_context =
  pc_profile_map :: profile_map
  pc_default_region :: "region option"
  pc_strict :: bool

definition provider_context_new :: "profile_map \<Rightarrow> provider_context" where
  "provider_context_new pm = \<lparr>pc_profile_map = pm, pc_default_region = None, pc_strict = False\<rparr>"

record resolve_state =
  rs_unresolved :: "str list"
  rs_diagnostics :: "diagnostic list"

definition add_unresolved :: "str \<Rightarrow> resolve_state \<Rightarrow> resolve_state" where
  "add_unresolved p st = st\<lparr>rs_unresolved := List.insort_insert_key (\<lambda>x. x) p (rs_unresolved st)\<rparr>"

section \<open>Helpers\<close>

definition literal_str :: "expr \<Rightarrow> str option" where
  "literal_str e = str_literal e"

definition literal_region :: "expr \<Rightarrow> region option" where
  "literal_region e = Option.bind (literal_str e) parsed_region"

definition assume_role_arn :: "assume_role \<Rightarrow> str option" where
  "assume_role_arn ar = literal_str (role_arn_expr ar)"

definition attr_str :: "attribute_map \<Rightarrow> str \<Rightarrow> str option" where
  "attr_str attrs key = Option.bind (map_of attrs key) literal_str"

fun value_string :: "value \<Rightarrow> str option" where
  "value_string (VStr s) = Some s"
| "value_string _ = None"

definition cascade_region :: "terragrunt_config \<Rightarrow> region option" where
  "cascade_region tg =
     Option.bind (Option.bind (map_of (tgc_effective_locals tg) ''aws_region'') value_string) parsed_region"

definition cascade_account :: "terragrunt_config \<Rightarrow> account_id option" where
  "cascade_account tg =
     Option.bind (Option.bind (map_of (tgc_effective_locals tg) ''aws_account_id'') value_string) parsed_account"

definition or_option :: "'a option \<Rightarrow> 'a option \<Rightarrow> 'a option" where
  "or_option a b = (case a of Some x \<Rightarrow> Some x | None \<Rightarrow> b)"

section \<open>One resource\<close>

definition pick_provider :: "provider_block list \<Rightarrow> provider_ref option \<Rightarrow> provider_block option" where
  "pick_provider providers pref =
     (case pref of
        Some r \<Rightarrow> find (\<lambda>p. prov_local_name p = pref_local_name r \<and> prov_alias p = pref_alias r) providers
      | None \<Rightarrow>
          or_option (find (\<lambda>p. prov_alias p = None \<and> prov_local_name p = ''aws'') providers)
            (find (\<lambda>p. prov_alias p = None) providers))"

definition first_resolved_region ::
  "provider_block option \<Rightarrow> region option \<Rightarrow> region option \<Rightarrow> region option" where
  "first_resolved_region provider cascade dflt =
     or_option (Option.bind (Option.bind provider prov_region_expr) literal_region) (or_option cascade dflt)"

text \<open>Of the profiles with the account, the least name wins.\<close>

definition lookup_name_by_account :: "profile_map \<Rightarrow> account_id \<Rightarrow> str option" where
  "lookup_name_by_account pm i =
     (case sort_key fst (map (\<lambda>(p, e). (p, pe_account_name e)) (filter (\<lambda>(p, e). pe_account_id e = i) pm)) of
        [] \<Rightarrow> None | (p, name) # _ \<Rightarrow> Some name)"

text \<open>The account of a literal \<open>assume_role.role_arn\<close>, and the literal profile of a provider.\<close>

definition role_account :: "provider_block option \<Rightarrow> account_id option" where
  "role_account provider =
     Option.bind (Option.bind (Option.bind provider prov_assume_role) assume_role_arn) extract_account_id"

definition provider_profile :: "provider_block option \<Rightarrow> str option" where
  "provider_profile provider = Option.bind (Option.bind provider prov_profile_expr) literal_str"

definition first_resolved_account ::
  "provider_block option \<Rightarrow> provider_context \<Rightarrow> account_id option \<Rightarrow> resolve_state \<Rightarrow>
   (account_id option \<times> str option) \<times> resolve_state" where
  "first_resolved_account provider cx cascade st =
     (case role_account provider of
        Some i \<Rightarrow> ((Some i, lookup_name_by_account (pc_profile_map cx) i), st)
      | None \<Rightarrow>
          (case Option.bind (provider_profile provider) (profile_lookup (pc_profile_map cx)) of
             Some entry \<Rightarrow> ((Some (pe_account_id entry), Some (pe_account_name entry)), st)
           | None \<Rightarrow>
               let st' = (case provider_profile provider of Some p \<Rightarrow> add_unresolved p st | None \<Rightarrow> st)
               in (case cascade of
                     Some i \<Rightarrow> ((Some i, lookup_name_by_account (pc_profile_map cx) i), st')
                   | None \<Rightarrow> ((None, None), st'))))"

definition alias_name :: "provider_ref \<Rightarrow> str" where
  "alias_name r = (case pref_alias r of Some a \<Rightarrow> a | None \<Rightarrow> ''default'')"

definition alias_diag :: "path \<Rightarrow> resource \<Rightarrow> provider_ref \<Rightarrow> diagnostic" where
  "alias_diag cpath r pr =
     diagnostic_new SevWarn ''TF1602''
       (''provider alias `'' @ pref_local_name pr @ ''.'' @ alias_name pr @ ''` referenced by `''
        @ addr_str (res_address r) @ ''` not declared in component `'' @ path_str cpath @ ''`'')"

text \<open>The diagnostic of a reference with no provider, once per alias and component: the new diagnostics and
  the aliases reported so far.\<close>

definition check_alias ::
  "path \<Rightarrow> resource \<Rightarrow> provider_block option \<Rightarrow> str list \<times> resolve_state \<Rightarrow> str list \<times> resolve_state" where
  "check_alias cpath r provider acc =
     (case (provider, res_provider_ref r, acc) of
        (None, Some pr, (emitted, st)) \<Rightarrow>
          if alias_name pr \<in> set emitted then (emitted, st)
          else (emitted @ [alias_name pr], st\<lparr>rs_diagnostics := rs_diagnostics st @ [alias_diag cpath r pr]\<rparr>)
      | _ \<Rightarrow> acc)"

definition resolve_resource ::
  "component \<Rightarrow> provider_context \<Rightarrow> region option \<Rightarrow> account_id option \<Rightarrow>
   resource \<Rightarrow> str list \<times> resolve_state \<Rightarrow> resource \<times> str list \<times> resolve_state" where
  "resolve_resource c cx cascade_region_v cascade_account_v r acc =
     (let provider = pick_provider (comp_providers c) (res_provider_ref r);
          (emitted, st) = check_alias (comp_path c) r provider acc;
          region = first_resolved_region provider cascade_region_v (pc_default_region cx);
          ((account, name), st') = first_resolved_account provider cx cascade_account_v st
      in (r\<lparr>res_region := region, res_account_id := account, res_account_name := name\<rparr>, emitted, st'))"

fun resolve_resources ::
  "component \<Rightarrow> provider_context \<Rightarrow> region option \<Rightarrow> account_id option \<Rightarrow>
   resource list \<Rightarrow> str list \<times> resolve_state \<Rightarrow> resource list \<times> str list \<times> resolve_state" where
  "resolve_resources c cx rg ac [] acc = ([], acc)"
| "resolve_resources c cx rg ac (r # rs) acc =
     (case resolve_resource c cx rg ac r acc of (r', acc') \<Rightarrow>
      case resolve_resources c cx rg ac rs acc' of (rs', acc'') \<Rightarrow> (r' # rs', acc''))"

section \<open>State backends\<close>

definition fill_state_backend :: "provider_context \<Rightarrow> state_backend \<Rightarrow> resolve_state \<Rightarrow> state_backend \<times> resolve_state" where
  "fill_state_backend cx b st =
     (let attrs = sb_attributes b;
          (b1, st1) =
            (if sb_state_account_id b = None then
               (case attr_str attrs ''profile'' of
                  None \<Rightarrow> (b, st)
                | Some profile \<Rightarrow>
                    (case profile_lookup (pc_profile_map cx) profile of
                       Some entry \<Rightarrow> (b\<lparr>sb_state_account_id := Some (pe_account_id entry)\<rparr>, st)
                     | None \<Rightarrow> (b, add_unresolved profile st)))
             else (b, st));
          b2 = (if sb_state_account_id b1 = None
                then b1\<lparr>sb_state_account_id := Option.bind (attr_str attrs ''role_arn'') extract_account_id\<rparr> else b1);
          b3 = (if sb_state_region b2 = None
                then b2\<lparr>sb_state_region := Option.bind (attr_str attrs ''region'') parsed_region\<rparr> else b2)
      in (b3, st1))"

definition fill_backend_opt ::
  "provider_context \<Rightarrow> state_backend option \<Rightarrow> resolve_state \<Rightarrow> state_backend option \<times> resolve_state" where
  "fill_backend_opt cx ob st =
     (case ob of None \<Rightarrow> (None, st)
      | Some b \<Rightarrow> (case fill_state_backend cx b st of (b', st') \<Rightarrow> (Some b', st')))"

section \<open>Components and workspaces\<close>

definition resolve_component :: "provider_context \<Rightarrow> component \<Rightarrow> resolve_state \<Rightarrow> component \<times> resolve_state" where
  "resolve_component cx c st =
     (let rg = or_option (Option.bind (comp_terragrunt c) cascade_region) (pc_default_region cx);
          ac = Option.bind (comp_terragrunt c) cascade_account;
          (resources, _, st1) = resolve_resources c cx rg ac (comp_resources c) ([], st);
          (backend, st2) = fill_backend_opt cx (comp_state_backend c) st1;
          (tg, st3) =
            (case comp_terragrunt c of
               None \<Rightarrow> (None, st2)
             | Some t \<Rightarrow> (case fill_backend_opt cx (tgc_state_backend t) st2 of
                 (b, st') \<Rightarrow> (Some (t\<lparr>tgc_state_backend := b\<rparr>), st')))
      in (c\<lparr>comp_resources := resources, comp_state_backend := backend, comp_terragrunt := tg\<rparr>, st3))"

fun resolve_components :: "provider_context \<Rightarrow> component list \<Rightarrow> resolve_state \<Rightarrow> component list \<times> resolve_state" where
  "resolve_components cx [] st = ([], st)"
| "resolve_components cx (c # cs) st =
     (case resolve_component cx c st of (c', st') \<Rightarrow>
      case resolve_components cx cs st' of (cs', st'') \<Rightarrow> (c' # cs', st''))"

definition missing_profile_diag :: "str \<Rightarrow> diagnostic" where
  "missing_profile_diag profile =
     with_suggestion (diagnostic_new SevWarn ''TF1601'' (''missing profile-map entry for `'' @ profile @ ''`''))
       ''add the profile to your profile-map.yaml or to ~/.aws/config''"

text \<open>\<open>resolve\<close>: the workspace it leaves and its result.\<close>

definition resolve :: "provider_context \<Rightarrow> workspace \<Rightarrow> workspace \<times> (provider_error + unit)" where
  "resolve cx ws =
     (let (cs, st) = resolve_components cx (ws_components ws) \<lparr>rs_unresolved = [], rs_diagnostics = []\<rparr>;
          new_diags = rs_diagnostics st @ map missing_profile_diag (rs_unresolved st);
          ws' = ws\<lparr>ws_components := cs, ws_diagnostics := ws_diagnostics ws @ new_diags\<rparr>
      in (ws', case rs_unresolved st of
                 first # _ \<Rightarrow> if pc_strict cx then Err (ProvStrictUnresolved (length (rs_unresolved st)) first) else Ok ()
               | [] \<Rightarrow> Ok ()))"

end
