(* ===== verification/ProviderProps.thy ===== *)
theory ProviderProps
  imports ProviderResolver ReduceProps
begin

text \<open>What the profile map loader and the provider resolver promise.\<close>

section \<open>ARNs\<close>

lemma split_once_str_Some:
  "split_once_str sep s = Some (a, b) \<Longrightarrow> s = a @ sep @ b"
proof (induction sep s arbitrary: a rule: split_once_str.induct)
  case (2 sep c cs)
  then show ?case by (auto simp: strip_prefix_Some_iff split: option.splits)
qed (auto split: if_splits)

lemma split_once_str_plain:
  assumes "\<forall>c \<in> set a. c \<noteq> s"
  shows "split_once_str (s # ss) (a @ (s # ss) @ b) = Some (a, b)"
  using assms
proof (induction a)
  case Nil
  have "strip_prefix_str (s # ss) ((s # ss) @ b) = Some b" by (rule strip_prefix_append)
  then show ?case by simp
qed auto

lemma ascii_digit_not_colon: "is_ascii_digit c \<Longrightarrow> c \<noteq> CHR '':''"
  by (auto simp: is_ascii_digit_def char_between_def)

section \<open>The chain of an AWS profile\<close>

text \<open>The profiles reached from \<open>p\<close> through \<open>source_profile\<close> in at most \<open>k\<close> hops.\<close>

definition section_of :: "aws_sections \<Rightarrow> str \<Rightarrow> aws_section" where
  "section_of s p = (case map_of s p of Some props \<Rightarrow> props | None \<Rightarrow> (\<lambda>_. None))"

fun chain :: "aws_sections \<Rightarrow> nat \<Rightarrow> str \<Rightarrow> str list" where
  "chain s 0 p = [p]"
| "chain s (Suc k) p = p # (case next_profile (section_of s p) of None \<Rightarrow> [] | Some q \<Rightarrow> chain s k q)"

definition own_account :: "aws_section \<Rightarrow> account_id option" where
  "own_account props =
     (case Option.bind (props ''sso_account_id'') parsed_account of
        Some a \<Rightarrow> Some a | None \<Rightarrow> Option.bind (props ''role_arn'') extract_account_id)"

definition own_region :: "aws_section \<Rightarrow> region option" where
  "own_region props = Option.bind (props ''region'') parsed_region"

fun first_some :: "'a option list \<Rightarrow> 'a option" where
  "first_some [] = None"
| "first_some (Some x # xs) = Some x"
| "first_some (None # xs) = first_some xs"

text \<open>The part of a chain up to and including the first profile with an account of its own.\<close>

fun upto_account :: "aws_sections \<Rightarrow> str list \<Rightarrow> (str list \<times> account_id) option" where
  "upto_account s [] = None"
| "upto_account s (p # ps) =
     (case own_account (section_of s p) of
        Some a \<Rightarrow> Some ([p], a)
      | None \<Rightarrow> map_option (\<lambda>(qs, a). (p # qs, a)) (upto_account s ps))"

definition chain_spec :: "str \<Rightarrow> aws_sections \<Rightarrow> str list \<Rightarrow> account_id \<Rightarrow> profile_entry" where
  "chain_spec name s ps a =
     \<lparr>pe_account_id = a, pe_account_name = name,
      pe_region = first_some (map (\<lambda>p. own_region (section_of s p)) ps),
      pe_role_arn = first_some (map (\<lambda>p. section_of s p ''role_arn'') ps)\<rparr>"

lemma upto_account_None: "upto_account s ps = None \<longleftrightarrow> (\<forall>p \<in> set ps. own_account (section_of s p) = None)"
  by (induction ps) (auto split: option.splits)

lemma chain_ne [simp]: "chain s k p \<noteq> []"
  by (cases k) simp_all

text \<open>A set of profiles without accounts that is closed under \<open>source_profile\<close> holds every chain that
  starts in it.\<close>

lemma chain_closed:
  assumes "\<forall>p \<in> V. \<exists>q \<in> V. next_profile (section_of s p) = Some q" and "p \<in> V"
  shows "set (chain s k p) \<subseteq> V \<and> next_profile (section_of s (last (chain s k p))) \<noteq> None"
  using assms(2)
proof (induction k arbitrary: p)
  case (Suc k)
  with assms(1) obtain q where q: "q \<in> V" "next_profile (section_of s p) = Some q" by blast
  from Suc.IH [OF q(1)] Suc.prems q(2) show ?case by simp
next
  case 0
  with assms(1) show ?case by fastforce
qed

definition walk_inv :: "aws_sections \<Rightarrow> str \<Rightarrow> aws_walk \<Rightarrow> bool" where
  "walk_inv s cur w \<longleftrightarrow> aw_account w = None \<and>
     (\<forall>p \<in> set (aw_visited w). own_account (section_of s p) = None \<and>
        (\<exists>q. next_profile (section_of s p) = Some q \<and> (q = cur \<or> q \<in> set (aw_visited w))))"

lemma visit_section_fields:
  assumes "aw_account w = None"
  shows "aw_account (visit_section props w) = own_account props"
    and "aw_visited (visit_section props w) = aw_visited w"
    and "aw_region (visit_section props w) = (case aw_region w of Some r \<Rightarrow> Some r | None \<Rightarrow> own_region props)"
    and "aw_role_arn (visit_section props w) = (case aw_role_arn w of Some r \<Rightarrow> Some r | None \<Rightarrow> props ''role_arn'')"
  using assms by (auto simp: visit_section_def own_account_def own_region_def Let_def split: option.splits)

lemma section_of_undefined: "map_of s p = None \<Longrightarrow> own_account (section_of s p) = None \<and>
    next_profile (section_of s p) = None \<and> own_region (section_of s p) = None \<and> section_of s p x = None"
  by (simp add: section_of_def own_account_def next_profile_def own_region_def)

lemma first_some_Cons: "first_some (x # xs) = (case x of Some y \<Rightarrow> Some y | None \<Rightarrow> first_some xs)"
  by (cases x) simp_all

lemma walk_chain_spec:
  assumes "walk_inv s cur w" and "hops + k = 8"
  shows "case upto_account s (chain s k cur) of
           Some (ps, a) \<Rightarrow> \<exists>w'. walk_chain name s hops cur w = Ok w' \<and> aw_account w' = Some a \<and>
              aw_region w' = first_some (aw_region w # map (\<lambda>p. own_region (section_of s p)) ps) \<and>
              aw_role_arn w' = first_some (aw_role_arn w # map (\<lambda>p. section_of s p ''role_arn'') ps)
         | None \<Rightarrow>
             if next_profile (section_of s (last (chain s k cur))) = None
             then \<exists>w'. walk_chain name s hops cur w = Ok w' \<and> aw_account w' = None
             else \<exists>q. walk_chain name s hops cur w = Err (ProvChainTooLong q 8)"
  using assms
proof (induction k arbitrary: hops cur w)
  case (0 hops cur w)
  have hops: "hops = 8" using 0 by simp
  have acc: "aw_account w = None" using 0 by (simp add: walk_inv_def)
  show ?case
  proof (cases "cur \<in> set (aw_visited w)")
    case True
    with 0(1) have "own_account (section_of s cur) = None" "next_profile (section_of s cur) \<noteq> None"
      by (auto simp: walk_inv_def)
    with True show ?thesis by (simp add: walk_chain.simps [of name] aws_config_max_chain_hops_def)
  next
    case False
    show ?thesis
    proof (cases "map_of s cur")
      case None
      with False acc section_of_undefined [OF None] show ?thesis by (simp add: walk_chain.simps [of name])
    next
      case (Some props)
      then have sec: "section_of s cur = props" by (simp add: section_of_def)
      let ?w = "w\<lparr>aw_visited := aw_visited w @ [cur]\<rparr>"
      have "aw_account ?w = None" using acc by simp
      note f = visit_section_fields [OF this, of props]
      from False Some hops f show ?thesis
        by (cases "own_account props"; cases "next_profile props")
           (simp_all add: walk_chain.simps [of name] sec aws_config_max_chain_hops_def first_some_Cons Let_def split: option.split)
    qed
  qed
next
  case (Suc k hops cur w)
  have acc: "aw_account w = None" using Suc.prems by (simp add: walk_inv_def)
  show ?case
  proof (cases "cur \<in> set (aw_visited w)")
    case True
    let ?V = "set (aw_visited w)"
    have closed: "\<forall>p \<in> ?V. \<exists>q \<in> ?V. next_profile (section_of s p) = Some q"
      using Suc.prems(1) True by (fastforce simp: walk_inv_def)
    from chain_closed [OF closed True, of "Suc k"]
    have "set (chain s (Suc k) cur) \<subseteq> ?V" "next_profile (section_of s (last (chain s (Suc k) cur))) \<noteq> None" by auto
    moreover from this(1) Suc.prems(1) have "upto_account s (chain s (Suc k) cur) = None"
      unfolding upto_account_None by (auto simp: walk_inv_def)
    ultimately show ?thesis using True
      by (simp add: walk_chain.simps [of name] aws_config_max_chain_hops_def del: chain.simps)
  next
    case False
    show ?thesis
    proof (cases "map_of s cur")
      case None
      with False acc section_of_undefined [OF None] show ?thesis by (simp add: walk_chain.simps [of name])
    next
      case (Some props)
      then have sec: "section_of s cur = props" by (simp add: section_of_def)
      let ?w = "w\<lparr>aw_visited := aw_visited w @ [cur]\<rparr>"
      have "aw_account ?w = None" using acc by simp
      note f = visit_section_fields [OF this, of props]
      show ?thesis
      proof (cases "own_account props")
        case (Some a)
        with False \<open>map_of s cur = Some props\<close> f show ?thesis
          by (simp add: walk_chain.simps [of name] sec first_some_Cons split: option.split)
      next
        case None
        show ?thesis
        proof (cases "next_profile props")
          case np: None
          with False None \<open>map_of s cur = Some props\<close> f show ?thesis
            by (simp add: walk_chain.simps [of name] sec)
        next
          case np: (Some nxt)
          let ?w1 = "visit_section props ?w"
          have inv: "walk_inv s nxt ?w1"
            using Suc.prems(1) None np f by (auto simp: walk_inv_def sec)
          have hops: "Suc hops + k = 8" "hops < 8" using Suc.prems(2) by simp_all
          have step: "walk_chain name s hops cur w = walk_chain name s (Suc hops) nxt ?w1"
            using False \<open>map_of s cur = Some props\<close> f None np hops
            by (simp add: walk_chain.simps [of name s hops cur w] aws_config_max_chain_hops_def)
          from Suc.IH [OF inv hops(1)] None np f show ?thesis
            unfolding step by (auto simp: sec first_some_Cons split: option.splits)
        qed
      qed
    qed
  qed
qed

section \<open>The resolver as a pure map\<close>

text \<open>What the resolver computes for one resource, backend and component, without its state.\<close>

definition resource_provider :: "component \<Rightarrow> resource \<Rightarrow> provider_block option" where
  "resource_provider c r = pick_provider (comp_providers c) (res_provider_ref r)"

definition resource_region :: "provider_context \<Rightarrow> component \<Rightarrow> resource \<Rightarrow> region option" where
  "resource_region cx c r =
     first_some [Option.bind (Option.bind (resource_provider c r) prov_region_expr) literal_region,
       Option.bind (comp_terragrunt c) cascade_region, pc_default_region cx]"

definition resource_account :: "provider_context \<Rightarrow> component \<Rightarrow> resource \<Rightarrow> account_id option \<times> str option" where
  "resource_account cx c r =
     (let named = (\<lambda>i. (Some i, lookup_name_by_account (pc_profile_map cx) i)) in
      case role_account (resource_provider c r) of
        Some i \<Rightarrow> named i
      | None \<Rightarrow>
          (case Option.bind (provider_profile (resource_provider c r)) (profile_lookup (pc_profile_map cx)) of
             Some e \<Rightarrow> (Some (pe_account_id e), Some (pe_account_name e))
           | None \<Rightarrow> (case Option.bind (comp_terragrunt c) cascade_account of
               Some i \<Rightarrow> named i | None \<Rightarrow> (None, None))))"

definition resolved_resource :: "provider_context \<Rightarrow> component \<Rightarrow> resource \<Rightarrow> resource" where
  "resolved_resource cx c r =
     r\<lparr>res_region := resource_region cx c r, res_account_id := fst (resource_account cx c r),
       res_account_name := snd (resource_account cx c r)\<rparr>"

definition resolved_backend :: "provider_context \<Rightarrow> state_backend \<Rightarrow> state_backend" where
  "resolved_backend cx b =
     b\<lparr>sb_state_account_id := first_some [sb_state_account_id b,
          map_option pe_account_id (Option.bind (attr_str (sb_attributes b) ''profile'') (profile_lookup (pc_profile_map cx))),
          Option.bind (attr_str (sb_attributes b) ''role_arn'') extract_account_id],
       sb_state_region := first_some [sb_state_region b,
          Option.bind (attr_str (sb_attributes b) ''region'') parsed_region]\<rparr>"

definition resolved_component :: "provider_context \<Rightarrow> component \<Rightarrow> component" where
  "resolved_component cx c =
     c\<lparr>comp_resources := map (resolved_resource cx c) (comp_resources c),
       comp_state_backend := map_option (resolved_backend cx) (comp_state_backend c),
       comp_terragrunt := map_option (\<lambda>t. t\<lparr>tgc_state_backend := map_option (resolved_backend cx) (tgc_state_backend t)\<rparr>)
         (comp_terragrunt c)\<rparr>"

text \<open>The profile names without an entry that a resource or a backend asks for.\<close>

definition missing_profile :: "provider_context \<Rightarrow> str option \<Rightarrow> str option" where
  "missing_profile cx op =
     (case op of Some p \<Rightarrow> if profile_lookup (pc_profile_map cx) p = None then Some p else None | None \<Rightarrow> None)"

definition resource_missing :: "provider_context \<Rightarrow> component \<Rightarrow> resource \<Rightarrow> str option" where
  "resource_missing cx c r =
     (if role_account (resource_provider c r) = None
      then missing_profile cx (provider_profile (resource_provider c r)) else None)"

definition backend_missing :: "provider_context \<Rightarrow> state_backend option \<Rightarrow> str option" where
  "backend_missing cx ob =
     (case ob of None \<Rightarrow> None
      | Some b \<Rightarrow> if sb_state_account_id b = None then missing_profile cx (attr_str (sb_attributes b) ''profile'') else None)"

definition component_missing :: "provider_context \<Rightarrow> component \<Rightarrow> str set" where
  "component_missing cx c =
     {p. \<exists>r \<in> set (comp_resources c). resource_missing cx c r = Some p}
     \<union> {p. backend_missing cx (comp_state_backend c) = Some p}
     \<union> {p. \<exists>t. comp_terragrunt c = Some t \<and> backend_missing cx (tgc_state_backend t) = Some p}"

section \<open>The state of the resolver\<close>

text \<open>\<open>st'\<close> extends \<open>st\<close> by the unresolved names \<open>ps\<close> and by alias diagnostics only.\<close>

definition state_step :: "str set \<Rightarrow> resolve_state \<Rightarrow> resolve_state \<Rightarrow> bool" where
  "state_step ps st st' \<longleftrightarrow>
     (sorted (rs_unresolved st) \<and> distinct (rs_unresolved st) \<longrightarrow> sorted (rs_unresolved st') \<and> distinct (rs_unresolved st')) \<and>
     set (rs_unresolved st') = set (rs_unresolved st) \<union> ps \<and>
     (\<exists>ds. rs_diagnostics st' = rs_diagnostics st @ ds \<and> list_all (\<lambda>d. diag_code d = ''TF1602'') ds)"

lemma state_step_refl [simp]: "state_step {} st st"
  by (simp add: state_step_def)

lemma state_step_trans: "state_step a st st1 \<Longrightarrow> state_step b st1 st2 \<Longrightarrow> state_step (a \<union> b) st st2"
  by (fastforce simp: state_step_def)

lemma state_step_add: "state_step {p} st (add_unresolved p st)"
  by (auto simp: state_step_def add_unresolved_def set_insort_insert sorted_insort_insert distinct_insort_insert)

definition add_opt :: "str option \<Rightarrow> resolve_state \<Rightarrow> resolve_state" where
  "add_opt op st = (case op of Some p \<Rightarrow> add_unresolved p st | None \<Rightarrow> st)"

lemma state_step_opt: "state_step (set_option op) st (add_opt op st)"
  by (cases op) (simp_all add: add_opt_def state_step_add)

lemma check_alias_step:
  "check_alias p r pv (em, st) = (em', st') \<Longrightarrow> state_step {} st st'"
  by (auto simp: check_alias_def state_step_def alias_diag_def diagnostic_new_def split: option.splits if_splits)

lemma or_option_first_some: "or_option a b = first_some [a, b]"
  by (cases a; cases b) (simp_all add: or_option_def)

lemma first_some_nest: "first_some [a, first_some bs] = first_some (a # bs)"
  by (cases a; cases "first_some bs") simp_all

lemma resolve_resource_pure:
  assumes "resolve_resource c cx (or_option (Option.bind (comp_terragrunt c) cascade_region) (pc_default_region cx))
     (Option.bind (comp_terragrunt c) cascade_account) r (em, st) = (r', em', st')"
  shows "r' = resolved_resource cx c r \<and> state_step (set_option (resource_missing cx c r)) st st'"
proof -
  let ?pv = "resource_provider c r" and ?ac = "Option.bind (comp_terragrunt c) cascade_account"
  obtain em1 st1 where ca: "check_alias (comp_path c) r ?pv (em, st) = (em1, st1)"
    by (cases "check_alias (comp_path c) r ?pv (em, st)")
  have acc: "first_resolved_account ?pv cx ?ac st1 = (resource_account cx c r, add_opt (resource_missing cx c r) st1)"
    by (auto simp: first_resolved_account_def resource_account_def resource_missing_def missing_profile_def add_opt_def
        Let_def split: option.splits)
  have reg: "first_resolved_region ?pv (or_option (Option.bind (comp_terragrunt c) cascade_region) (pc_default_region cx))
      (pc_default_region cx) = resource_region cx c r"
    by (auto simp: first_resolved_region_def resource_region_def or_option_def first_some_Cons split: option.split)
  have "r' = resolved_resource cx c r" "st' = add_opt (resource_missing cx c r) st1"
    using assms by (auto simp: resolve_resource_def resource_provider_def [symmetric] ca acc reg Let_def
        resolved_resource_def split: prod.splits)
  with state_step_trans [OF check_alias_step [OF ca] state_step_opt] show ?thesis by simp
qed

lemma resolve_resources_pure:
  assumes "resolve_resources c cx (or_option (Option.bind (comp_terragrunt c) cascade_region) (pc_default_region cx))
     (Option.bind (comp_terragrunt c) cascade_account) rs (em, st) = (rs', em', st')"
  shows "rs' = map (resolved_resource cx c) rs \<and>
         state_step {p. \<exists>r \<in> set rs. resource_missing cx c r = Some p} st st'"
  using assms
proof (induction rs arbitrary: em st rs' em' st')
  case (Cons r rs)
  from Cons.prems obtain r1 em1 st1 rs1 where
    s: "resolve_resource c cx (or_option (Option.bind (comp_terragrunt c) cascade_region) (pc_default_region cx))
     (Option.bind (comp_terragrunt c) cascade_account) r (em, st) = (r1, em1, st1)"
    "resolve_resources c cx (or_option (Option.bind (comp_terragrunt c) cascade_region) (pc_default_region cx))
     (Option.bind (comp_terragrunt c) cascade_account) rs (em1, st1) = (rs1, em', st')" "rs' = r1 # rs1"
    by (auto split: prod.splits)
  note step = conjunct2 [OF resolve_resource_pure [OF s(1)]] and rest = conjunct2 [OF Cons.IH [OF s(2)]]
  have "rs' = map (resolved_resource cx c) (r # rs)"
    unfolding s(3) list.map conjunct1 [OF resolve_resource_pure [OF s(1)]] conjunct1 [OF Cons.IH [OF s(2)]] ..
  moreover have "set_option (resource_missing cx c r) \<union> {p. \<exists>r \<in> set rs. resource_missing cx c r = Some p} =
      {p. \<exists>x \<in> set (r # rs). resource_missing cx c x = Some p}" by (auto simp: elem_set)
  ultimately show ?case using state_step_trans [OF step rest] by (simp only: simp_thms)
qed simp

lemma fill_state_backend_pure:
  "fill_state_backend cx b st = (resolved_backend cx b, add_opt (backend_missing cx (Some b)) st)"
  by (auto simp: fill_state_backend_def resolved_backend_def backend_missing_def missing_profile_def add_opt_def
      first_some_Cons Let_def split: option.splits)

lemma fill_backend_opt_pure:
  "fill_backend_opt cx ob st = (map_option (resolved_backend cx) ob, add_opt (backend_missing cx ob) st)"
  by (cases ob) (simp_all add: fill_backend_opt_def fill_state_backend_pure add_opt_def backend_missing_def)

lemma resolve_component_pure:
  assumes "resolve_component cx c st = (c', st')"
  shows "c' = resolved_component cx c \<and> state_step (component_missing cx c) st st'"
proof -
  obtain rs em st1 where rs: "resolve_resources c cx (or_option (Option.bind (comp_terragrunt c) cascade_region) (pc_default_region cx))
     (Option.bind (comp_terragrunt c) cascade_account) (comp_resources c) ([], st) = (rs, em, st1)"
    by (metis prod_cases3)
  let ?tg = "\<lambda>t. backend_missing cx (tgc_state_backend t)"
  let ?st2 = "add_opt (backend_missing cx (comp_state_backend c)) st1"
  have c': "c' = resolved_component cx c" and st': "st' = (case comp_terragrunt c of None \<Rightarrow> ?st2 | Some t \<Rightarrow> add_opt (?tg t) ?st2)"
    using assms resolve_resources_pure [OF rs]
    by (auto simp: resolve_component_def rs fill_backend_opt_pure resolved_component_def Let_def split: option.splits)
  have "state_step {p. \<exists>r \<in> set (comp_resources c). resource_missing cx c r = Some p} st st1"
    using resolve_resources_pure [OF rs] by simp
  from state_step_trans [OF this state_step_opt]
  have "state_step ({p. \<exists>r \<in> set (comp_resources c). resource_missing cx c r = Some p}
      \<union> set_option (backend_missing cx (comp_state_backend c))) st ?st2" .
  moreover have "state_step (case comp_terragrunt c of None \<Rightarrow> {} | Some t \<Rightarrow> set_option (?tg t)) ?st2 st'"
    by (cases "comp_terragrunt c") (simp_all add: st' state_step_opt)
  ultimately have "state_step ({p. \<exists>r \<in> set (comp_resources c). resource_missing cx c r = Some p}
      \<union> set_option (backend_missing cx (comp_state_backend c))
      \<union> (case comp_terragrunt c of None \<Rightarrow> {} | Some t \<Rightarrow> set_option (?tg t))) st st'"
    by (rule state_step_trans)
  moreover have "{p. \<exists>r \<in> set (comp_resources c). resource_missing cx c r = Some p}
      \<union> set_option (backend_missing cx (comp_state_backend c))
      \<union> (case comp_terragrunt c of None \<Rightarrow> {} | Some t \<Rightarrow> set_option (?tg t)) = component_missing cx c"
    by (auto simp: component_missing_def elem_set split: option.splits)
  ultimately show ?thesis using c' by simp
qed

lemma resolve_components_pure:
  "resolve_components cx cs st = (cs', st') \<Longrightarrow>
     cs' = map (resolved_component cx) cs \<and> state_step (\<Union>c \<in> set cs. component_missing cx c) st st'"
proof (induction cs arbitrary: st cs' st')
  case (Cons c cs)
  from Cons.prems obtain c1 st1 cs1 where
    s: "resolve_component cx c st = (c1, st1)" "resolve_components cx cs st1 = (cs1, st')" "cs' = c1 # cs1"
    by (auto split: prod.splits)
  have "cs' = map (resolved_component cx) (c # cs)"
    using resolve_component_pure [OF s(1)] Cons.IH [OF s(2)] s(3) by simp
  moreover have "state_step (component_missing cx c \<union> (\<Union>c \<in> set cs. component_missing cx c)) st st'"
    using resolve_component_pure [OF s(1)] Cons.IH [OF s(2)] state_step_trans by blast
  ultimately show ?case by simp
qed simp


section \<open>Properties\<close>

text \<open>The cascades of section 4 of \<open>specs/16-provider-resolver.md\<close>.  The region an environment of the workspace gives
  is an argument: the section lists it between the Terragrunt local and the default.\<close>

definition documented_region :: "provider_context \<Rightarrow> component \<Rightarrow> region option \<Rightarrow> resource \<Rightarrow> region option" where
  "documented_region cx c environment r =
     first_some [Option.bind (Option.bind (resource_provider c r) prov_region_expr) literal_region,
       Option.bind (comp_terragrunt c) cascade_region, environment, pc_default_region cx]"

definition documented_account :: "provider_context \<Rightarrow> component \<Rightarrow> resource \<Rightarrow> account_id option" where
  "documented_account cx c r =
     first_some [role_account (resource_provider c r),
       map_option pe_account_id (Option.bind (provider_profile (resource_provider c r)) (profile_lookup (pc_profile_map cx))),
       Option.bind (comp_terragrunt c) cascade_account]"

definition documented_name :: "provider_context \<Rightarrow> component \<Rightarrow> resource \<Rightarrow> str option" where
  "documented_name cx c r =
     map_option pe_account_name (Option.bind (provider_profile (resource_provider c r)) (profile_lookup (pc_profile_map cx)))"

lemma resource_columns:
  "resource_region cx c r = documented_region cx c None r"
  "fst (resource_account cx c r) = documented_account cx c r"
  "snd (resource_account cx c r) =
     (if role_account (resource_provider c r) = None \<and> documented_name cx c r \<noteq> None then documented_name cx c r
      else Option.bind (documented_account cx c r) (lookup_name_by_account (pc_profile_map cx)))"
  by (auto simp: resource_region_def documented_region_def resource_account_def documented_account_def documented_name_def
      first_some_Cons Let_def split: option.splits)

text \<open>C12. The resolver is a pure map over the components that changes nothing of the workspace but the columns it owns and
  the diagnostics.  The account of a resource is that of the cascade of specs/16, the region that of the cascade without
  its environment step, which the code does not have.  The account name is the documented one, of the provider's profile,
  only when no role ARN is given and the profile is known; otherwise the code looks the account up in the profile map
  in reverse, which the specification does not do.  The state backends are filled in the same way, and a field of theirs that has
  a value keeps it.\<close>

theorem resolve_pure:
  "(\<exists>ds. fst (resolve cx ws) =
     ws\<lparr>ws_components := map (resolved_component cx) (ws_components ws), ws_diagnostics := ws_diagnostics ws @ ds\<rparr>) \<and>
   res_region (resolved_resource cx c r) = documented_region cx c None r \<and>
   res_account_id (resolved_resource cx c r) = documented_account cx c r \<and>
   res_account_name (resolved_resource cx c r) =
     (if role_account (resource_provider c r) = None \<and> documented_name cx c r \<noteq> None then documented_name cx c r
      else Option.bind (documented_account cx c r) (lookup_name_by_account (pc_profile_map cx)))"
proof -
  obtain cs st where r: "resolve_components cx (ws_components ws) \<lparr>rs_unresolved = [], rs_diagnostics = []\<rparr> = (cs, st)"
    by (cases "resolve_components cx (ws_components ws) \<lparr>rs_unresolved = [], rs_diagnostics = []\<rparr>")
  have "cs = map (resolved_component cx) (ws_components ws)" using resolve_components_pure [OF r] by (rule conjunct1)
  then have "\<exists>ds. fst (resolve cx ws) =
     ws\<lparr>ws_components := map (resolved_component cx) (ws_components ws), ws_diagnostics := ws_diagnostics ws @ ds\<rparr>"
    by (auto simp: resolve_def r Let_def)
  then show ?thesis by (simp add: resolved_resource_def resource_columns)
qed

text \<open>C13. The resolver reports exactly the profile names that some resource or state backend asks for and the
  profile map lacks, each once, in order, after the alias warnings (TF1602); it fails exactly in strict mode with at
  least one such name, and the error carries their number and the least of them.\<close>

theorem resolve_reports:
  "\<exists>ds ps. ws_diagnostics (fst (resolve cx ws)) = ws_diagnostics ws @ ds @ map missing_profile_diag ps \<and>
     list_all (\<lambda>d. diag_code d = ''TF1602'') ds \<and> sorted ps \<and> distinct ps \<and>
     set ps = (\<Union>c \<in> set (ws_components ws). component_missing cx c) \<and>
     snd (resolve cx ws) = (if pc_strict cx \<and> ps \<noteq> [] then Err (ProvStrictUnresolved (length ps) (Min (set ps))) else Ok ())"
proof -
  obtain cs st where r: "resolve_components cx (ws_components ws) \<lparr>rs_unresolved = [], rs_diagnostics = []\<rparr> = (cs, st)"
    by (cases "resolve_components cx (ws_components ws) \<lparr>rs_unresolved = [], rs_diagnostics = []\<rparr>")
  have step: "state_step (\<Union>c \<in> set (ws_components ws). component_missing cx c) \<lparr>rs_unresolved = [], rs_diagnostics = []\<rparr> st"
    using resolve_components_pure [OF r] by (rule conjunct2)
  then have ps: "sorted (rs_unresolved st)" "distinct (rs_unresolved st)"
    "set (rs_unresolved st) = (\<Union>c \<in> set (ws_components ws). component_missing cx c)"
    and ds: "list_all (\<lambda>d. diag_code d = ''TF1602'') (rs_diagnostics st)"
    by (simp_all add: state_step_def)
  have "snd (resolve cx ws) = (if pc_strict cx \<and> rs_unresolved st \<noteq> []
      then Err (ProvStrictUnresolved (length (rs_unresolved st)) (Min (set (rs_unresolved st)))) else Ok ())"
    using ps(1) by (auto simp: resolve_def r Let_def Min_insert2 split: list.split)
  moreover have "ws_diagnostics (fst (resolve cx ws)) =
      ws_diagnostics ws @ rs_diagnostics st @ map missing_profile_diag (rs_unresolved st)"
    by (simp add: resolve_def r Let_def)
  ultimately show ?thesis using ps ds by blast
qed

text \<open>C14. Resolving a profile of the AWS config walks its \<open>source_profile\<close> chain up to the first profile with an
  account (a valid \<open>sso_account_id\<close>, else the account of \<open>role_arn\<close>) and returns it with the first region and role ARN
  on the way; a chain that stops without an account gives no entry, and one that would go beyond eight hops, or round
  a cycle, is an error.\<close>

theorem resolve_aws_profile_spec:
  "case upto_account s (chain s 8 name) of
     Some (ps, a) \<Rightarrow> resolve_aws_profile name s = Ok (Some (chain_spec name s ps a))
   | None \<Rightarrow>
       if next_profile (section_of s (last (chain s 8 name))) = None
       then resolve_aws_profile name s = Ok None
       else (\<exists>q. resolve_aws_profile name s = Err (ProvChainTooLong q 8))"
proof -
  have "walk_inv s name aws_walk_new" by (simp add: walk_inv_def aws_walk_new_def)
  from walk_chain_spec [OF this, of 0 8 name] show ?thesis
    by (auto simp: resolve_aws_profile_def chain_spec_def aws_walk_new_def split: option.splits if_splits)
qed

text \<open>An account is read from a role ARN exactly when the ARN is \<open>arn:aws:iam::\<close>, twelve decimal digits,
  \<open>:role/\<close> and any rest; the account is those digits.\<close>

theorem extract_account_exact:
  "extract_account_id arn = Some a \<longleftrightarrow>
     (\<exists>rest. arn = ''arn:aws:iam::'' @ account_str a @ '':role/'' @ rest) \<and>
     length (account_str a) = 12 \<and> list_all is_ascii_digit (account_str a)"
proof
  assume "extract_account_id arn = Some a"
  then obtain r d e where "strip_prefix_str ''arn:aws:iam::'' arn = Some r" "split_once_str '':role/'' r = Some (d, e)"
    "account_id_new d = Ok a" unfolding extract_account_id_def
    by (auto split: option.splits sum.splits)
  then show "(\<exists>rest. arn = ''arn:aws:iam::'' @ account_str a @ '':role/'' @ rest) \<and>
     length (account_str a) = 12 \<and> list_all is_ascii_digit (account_str a)"
    by (auto simp: strip_prefix_Some_iff account_id_new_Ok_iff dest!: split_once_str_Some)
next
  assume a: "(\<exists>rest. arn = ''arn:aws:iam::'' @ account_str a @ '':role/'' @ rest) \<and>
     length (account_str a) = 12 \<and> list_all is_ascii_digit (account_str a)"
  then obtain rest where rest: "arn = ''arn:aws:iam::'' @ account_str a @ '':role/'' @ rest" by blast
  have 1: "strip_prefix_str ''arn:aws:iam::'' arn = Some (account_str a @ '':role/'' @ rest)"
    unfolding rest by (rule strip_prefix_append)
  have "\<forall>c \<in> set (account_str a). c \<noteq> CHR '':''"
    using a ascii_digit_not_colon by (auto simp: list_all_iff)
  from split_once_str_plain [OF this, of "''role/''" rest]
  have 2: "split_once_str '':role/'' (account_str a @ '':role/'' @ rest) = Some (account_str a, rest)" .
  have 3: "account_id_new (account_str a) = Ok a" using a by (simp add: account_id_new_Ok_iff)
  show "extract_account_id arn = Some a" unfolding extract_account_id_def 1 option.case 2 prod.case 3 sum.case ..
qed

end
