(* ===== verification/StdText.thy ===== *)
theory StdText
  imports Messages
begin

text \<open>The text routines of Rust's standard library the registered functions call: characters of a
  UTF-8 string, \<open>trim\<close>, \<open>replace\<close>, \<open>String::from_utf8\<close>, and the number parsers.  A \<open>char\<close> of a
  Rust string is the list of its bytes.  Unicode tables (case mapping and printability beyond ASCII)
  are not restated: the functions that need them take them as arguments and apply them to strings with
  a byte above \<open>0x7F\<close> only.\<close>

section \<open>Characters\<close>

definition byte_nat :: "char \<Rightarrow> nat" where
  "byte_nat c = of_char c"

definition is_ascii_byte :: "char \<Rightarrow> bool" where
  "is_ascii_byte c = (byte_nat c < 128)"

text \<open>A continuation byte \<open>10xxxxxx\<close>.\<close>

definition is_cont_byte :: "char \<Rightarrow> bool" where
  "is_cont_byte c = (128 \<le> byte_nat c \<and> byte_nat c < 192)"

text \<open>\<open>s.chars()\<close>: every character starts at a byte that is not a continuation byte.\<close>

function utf8_chars :: "str \<Rightarrow> str list" where
  "utf8_chars [] = []"
| "utf8_chars (c # cs) = (c # takeWhile is_cont_byte cs) # utf8_chars (dropWhile is_cont_byte cs)"
  by pat_completeness auto
termination by (relation "measure length") (auto simp: le_imp_less_Suc length_dropWhile_le)

lemma concat_utf8_chars [simp]: "concat (utf8_chars s) = s"
  by (induction s rule: utf8_chars.induct) auto

lemma utf8_chars_ascii: "list_all is_ascii_byte s \<Longrightarrow> utf8_chars s = map (\<lambda>c. [c]) s"
proof (induction s rule: utf8_chars.induct)
  case (2 c cs)
  then have "takeWhile is_cont_byte cs = []" "dropWhile is_cont_byte cs = cs"
    by (cases cs; auto simp: is_ascii_byte_def is_cont_byte_def)+
  with 2 show ?case by simp
qed simp

definition bytes_of :: "nat list \<Rightarrow> str" where
  "bytes_of ns = map char_of ns"

text \<open>\<open>char::is_whitespace\<close>: the Unicode property \<open>White_Space\<close>, as UTF-8 sequences.\<close>

definition unicode_spaces :: "str list" where
  "unicode_spaces =
     map bytes_of ([[9], [10], [11], [12], [13], [32], [194, 133], [194, 160], [225, 154, 128]]
       @ map (\<lambda>b. [226, 128, b]) [128, 129, 130, 131, 132, 133, 134, 135, 136, 137, 138, 168, 169, 175]
       @ [[226, 129, 159], [227, 128, 128]])"

text \<open>\<open>s.trim_matches(p)\<close> and \<open>s.trim()\<close>.\<close>

definition trim_matches :: "(str \<Rightarrow> bool) \<Rightarrow> str \<Rightarrow> str" where
  "trim_matches p s = concat (rev (dropWhile p (rev (dropWhile p (utf8_chars s)))))"

definition str_trim :: "str \<Rightarrow> str" where
  "str_trim s = trim_matches (\<lambda>c. c \<in> set unicode_spaces) s"

text \<open>\<open>s.to_lowercase()\<close>, \<open>s.to_uppercase()\<close>.\<close>

definition ascii_lower :: "char \<Rightarrow> char" where
  "ascii_lower c = (if char_between (CHR ''A'') (CHR ''Z'') c then char_of (byte_nat c + 32) else c)"

definition ascii_upper :: "char \<Rightarrow> char" where
  "ascii_upper c = (if char_between (CHR ''a'') (CHR ''z'') c then char_of (byte_nat c - 32) else c)"

definition to_lowercase :: "(str \<Rightarrow> str) \<Rightarrow> str \<Rightarrow> str" where
  "to_lowercase unicode s = (if list_all is_ascii_byte s then map ascii_lower s else unicode s)"

definition to_uppercase :: "(str \<Rightarrow> str) \<Rightarrow> str \<Rightarrow> str" where
  "to_uppercase unicode s = (if list_all is_ascii_byte s then map ascii_upper s else unicode s)"

text \<open>\<open>s.replace(pat, to)\<close>: the non-overlapping matches from the left; an empty pattern matches at every
  character boundary.\<close>

function replace_nonempty :: "str \<Rightarrow> str \<Rightarrow> str \<Rightarrow> str" where
  "replace_nonempty pat to s =
     (case s of
        [] \<Rightarrow> []
      | c # cs \<Rightarrow>
          (if pat = [] then s
           else case strip_prefix_str pat s of
             Some rest \<Rightarrow> to @ replace_nonempty pat to rest
           | None \<Rightarrow> c # replace_nonempty pat to cs))"
  by auto
termination by (relation "measure (\<lambda>(_, _, s). length s)") (auto simp: strip_prefix_Some_iff)

declare replace_nonempty.simps [simp del]

definition str_replace :: "str \<Rightarrow> str \<Rightarrow> str \<Rightarrow> str" where
  "str_replace pat to s =
     (if pat = [] then to @ concat (map (\<lambda>c. c @ to) (utf8_chars s)) else replace_nonempty pat to s)"

text \<open>\<open>{:?}\<close> of a string; \<open>unicode\<close> is the escaped form of a character beyond ASCII.\<close>

definition debug_char :: "(str \<Rightarrow> str) \<Rightarrow> str \<Rightarrow> str" where
  "debug_char unicode ch =
     (case ch of
        [c] \<Rightarrow>
          (let n = byte_nat c; bs = CHR 0x5C in
           if n = 0 then [bs, CHR ''0''] else if n = 9 then [bs, CHR ''t''] else if n = 10 then [bs, CHR ''n'']
           else if n = 13 then [bs, CHR ''r''] else if n = 34 \<or> c = bs then [bs, c]
           else if n < 32 \<or> n = 127 then [bs] @ ''u{'' @ hex_str n @ ''}''
           else if n < 128 then [c] else unicode ch)
      | _ \<Rightarrow> unicode ch)"

definition str_debug :: "(str \<Rightarrow> str) \<Rightarrow> str \<Rightarrow> str" where
  "str_debug unicode s = quote_mark @ concat (map (debug_char unicode) (utf8_chars s)) @ quote_mark"

section \<open>UTF-8 validation\<close>

text \<open>The number of bytes of the character with this first byte, and the range of its second byte.\<close>

definition utf8_width :: "nat \<Rightarrow> nat" where
  "utf8_width b =
     (if b < 128 then 1 else if 194 \<le> b \<and> b < 224 then 2 else if 224 \<le> b \<and> b < 240 then 3
      else if 240 \<le> b \<and> b < 245 then 4 else 0)"

definition utf8_second :: "nat \<Rightarrow> nat \<Rightarrow> bool" where
  "utf8_second b n =
     (if b = 224 then 160 \<le> n \<and> n < 192 else if b = 237 then 128 \<le> n \<and> n < 160
      else if b = 240 then 144 \<le> n \<and> n < 192 else if b = 244 then 128 \<le> n \<and> n < 144
      else 128 \<le> n \<and> n < 192)"

text \<open>The first defect, if any: its position and the length of the invalid sequence (\<open>None\<close> when the input
  ends inside a character).\<close>

datatype utf8_step = StepOk nat | StepBad "nat option"

definition utf8_step :: "str \<Rightarrow> utf8_step" where
  "utf8_step s =
     (case s of [] \<Rightarrow> StepOk 0
      | c # r \<Rightarrow>
          let b = byte_nat c; w = utf8_width b in
          if w = 0 then StepBad (Some 1)
          else if w = 1 then StepOk 1
          else (case r of [] \<Rightarrow> StepBad None
            | c2 # r2 \<Rightarrow> if \<not> utf8_second b (byte_nat c2) then StepBad (Some 1)
              else if w = 2 then StepOk 2
              else (case r2 of [] \<Rightarrow> StepBad None
                | c3 # r3 \<Rightarrow> if \<not> is_cont_byte c3 then StepBad (Some 2)
                  else if w = 3 then StepOk 3
                  else (case r3 of [] \<Rightarrow> StepBad None
                    | c4 # r4 \<Rightarrow> if \<not> is_cont_byte c4 then StepBad (Some 3) else StepOk 4))))"

function utf8_defect :: "nat \<Rightarrow> str \<Rightarrow> (nat \<times> nat option) option" where
  "utf8_defect pos s =
     (if s = [] then None
      else case utf8_step s of
        StepBad len \<Rightarrow> Some (pos, len)
      | StepOk n \<Rightarrow> utf8_defect (pos + max 1 n) (drop (max 1 n) s))"
  by auto
termination by (relation "measure (\<lambda>(_, s). length s)") auto

declare utf8_defect.simps [simp del]

text \<open>\<open>String::from_utf8\<close>, with the text of its error.\<close>

definition utf8_error_str :: "nat \<times> nat option \<Rightarrow> str" where
  "utf8_error_str e =
     (case e of
        (pos, Some len) \<Rightarrow> ''invalid utf-8 sequence of '' @ nat_str len @ '' bytes from index '' @ nat_str pos
      | (pos, None) \<Rightarrow> ''incomplete utf-8 byte sequence from index '' @ nat_str pos)"

definition from_utf8 :: "str \<Rightarrow> str + str" where
  "from_utf8 bytes = (case utf8_defect 0 bytes of None \<Rightarrow> Ok bytes | Some e \<Rightarrow> Err (utf8_error_str e))"

section \<open>Numbers\<close>

definition split_sign :: "str \<Rightarrow> bool \<times> str" where
  "split_sign s =
     (case s of c # r \<Rightarrow> if c = CHR ''-'' then (True, r) else if c = CHR ''+'' then (False, r) else (False, s)
      | [] \<Rightarrow> (False, []))"

text \<open>\<open>s.parse::<i64>()\<close>.\<close>

definition parse_i64 :: "str \<Rightarrow> int option" where
  "parse_i64 s =
     (case split_sign s of (neg, ds) \<Rightarrow>
        if ds = [] \<or> \<not> list_all is_ascii_digit ds then None
        else let n = (if neg then - int (str_nat ds) else int (str_nat ds))
             in if in_i64 n then Some n else None)"

text \<open>\<open>s.parse::<f64>()\<close>: \<open>inf\<close>, \<open>infinity\<close>, \<open>nan\<close> in any case, or decimal digits with an optional point
  and exponent; the value is the exact decimal, rounded once.\<close>

definition parse_exponent :: "str \<Rightarrow> int option" where
  "parse_exponent s =
     (case s of
        [] \<Rightarrow> Some 0
      | c # r \<Rightarrow>
          if c = CHR ''e'' \<or> c = CHR ''E'' then
            (case split_sign r of (neg, ds) \<Rightarrow>
               if ds = [] \<or> \<not> list_all is_ascii_digit ds then None
               else Some (if neg then - int (str_nat ds) else int (str_nat ds)))
          else None)"

definition decimal_f64 :: "bool \<Rightarrow> nat \<Rightarrow> int \<Rightarrow> f64" where
  "decimal_f64 neg m e =
     (if e \<ge> 0 then round_ratio neg (m * 10 ^ nat e) 1 else round_ratio neg m (10 ^ nat (- e)))"

definition parse_decimal :: "bool \<Rightarrow> str \<Rightarrow> f64 option" where
  "parse_decimal neg s =
     (let whole = takeWhile is_ascii_digit s; r = dropWhile is_ascii_digit s;
          (frac, r') = (case r of
              c # r1 \<Rightarrow> if c = CHR ''.'' then (takeWhile is_ascii_digit r1, dropWhile is_ascii_digit r1) else ([], r)
            | [] \<Rightarrow> ([], []))
      in if whole @ frac = [] then None
         else map_option (\<lambda>e. decimal_f64 neg (str_nat (whole @ frac)) (e - int (length frac))) (parse_exponent r'))"

definition parse_f64 :: "str \<Rightarrow> f64 option" where
  "parse_f64 s =
     (case split_sign s of (neg, r) \<Rightarrow>
        if map ascii_lower r \<in> {''inf'', ''infinity''} then Some (Inf neg)
        else if map ascii_lower r = ''nan'' then Some NaN
        else parse_decimal neg r)"

lemma decimal_f64_canonical [wf_intros]: "f64_canonical (decimal_f64 neg m e)"
  by (simp add: decimal_f64_def round_ratio_canonical)

lemma parse_f64_canonical [wf_intros]: "parse_f64 s = Some f \<Longrightarrow> f64_canonical f"
  by (auto simp: parse_f64_def parse_decimal_def Let_def decimal_f64_canonical split: prod.splits if_splits)

lemma parse_i64_wf [wf_intros]: "parse_i64 s = Some n \<Longrightarrow> in_i64 n"
  by (auto simp: parse_i64_def Let_def split: prod.splits if_splits)

end
