(* ===== verification/Stdlib.thy ===== *)
theory Stdlib
  imports StdText Reduce
begin

text \<open>The HCL standard library (\<open>eval/stdlib.rs\<close>) and the Terraform functions (\<open>eval/tf_funcs.rs\<close>), one
  definition per \<open>HclFunc::call\<close>.

  What the functions take from third-party crates and from the process is the record \<open>host\<close>: float
  formatting (\<open>ryu\<close>), Unicode tables, the JSON reader and writer of \<open>serde_json\<close>, base64, SHA-2, the
  timestamp parsers of \<open>jiff\<close>, the environment, and the glob compiler of \<open>globset\<close>.\<close>

section \<open>The host\<close>

text \<open>\<open>serde_json::Value\<close>; its numbers are machine integers or finite floats, its objects \<open>BTreeMap\<close>s.\<close>

datatype json =
    JNull
  | JBool bool
  | JInt int
  | JFloat f64
  | JStr str
  | JArr "json list"
  | JObj "(str \<times> json) list"

record civil_time =
  ct_year :: int
  ct_month :: int
  ct_day :: int
  ct_hour :: int
  ct_minute :: int
  ct_second :: int

record host =
  h_ryu :: "f64 \<Rightarrow> str"
  h_lower :: "str \<Rightarrow> str"
  h_upper :: "str \<Rightarrow> str"
  h_debug :: "str \<Rightarrow> str"
  h_json_print :: "json \<Rightarrow> str"
  h_json_parse :: "str \<Rightarrow> str + json"
  h_b64_encode :: "str \<Rightarrow> str"
  h_b64_decode :: "str \<Rightarrow> str + str"
  h_sha256 :: "str \<Rightarrow> str"
  h_sha512 :: "str \<Rightarrow> str"
  h_timestamps :: "(str \<Rightarrow> civil_time option) list"
  h_env :: "str \<Rightarrow> str option"
  h_glob :: "str \<Rightarrow> str + (str \<Rightarrow> bool)"

section \<open>Arguments and limits\<close>

fun type_name :: "value \<Rightarrow> str" where
  "type_name VNull = ''null''"
| "type_name (VBool _) = ''bool''"
| "type_name (VInt _) = ''number''"
| "type_name (VNumber _) = ''number''"
| "type_name (VStr _) = ''string''"
| "type_name (VList _) = ''list''"
| "type_name (VMap _) = ''map''"

definition arg_get :: "value list \<Rightarrow> nat \<Rightarrow> value option" where
  "arg_get args i = (if i < length args then Some (args ! i) else None)"

definition arg_str :: "str \<Rightarrow> value list \<Rightarrow> nat \<Rightarrow> func_error + str" where
  "arg_str name args i =
     (case arg_get args i of
        Some (VStr s) \<Rightarrow> Ok s
      | Some other \<Rightarrow> Err (FType name i ''string'' (type_name other))
      | None \<Rightarrow> Err (FArity name (i + 1) (length args)))"

definition arg_first :: "str \<Rightarrow> value list \<Rightarrow> func_error + value" where
  "arg_first name args = (case args of v # _ \<Rightarrow> Ok v | [] \<Rightarrow> Err (FArity name 1 0))"

definition arg_list :: "str \<Rightarrow> value list \<Rightarrow> func_error + value list" where
  "arg_list name args =
     and_then (arg_first name args) (\<lambda>v. case v of
        VList items \<Rightarrow> Ok items | other \<Rightarrow> Err (FType name 0 ''list'' (type_name other)))"

definition arg_map :: "str \<Rightarrow> value list \<Rightarrow> func_error + vmap" where
  "arg_map name args =
     and_then (arg_first name args) (\<lambda>v. case v of
        VMap entries \<Rightarrow> Ok entries | other \<Rightarrow> Err (FType name 0 ''map'' (type_name other)))"

definition check_str_size :: "str \<Rightarrow> str \<Rightarrow> call_cx \<Rightarrow> func_error + unit" where
  "check_str_size name s cx =
     (if length s > max_str_size (cx_limits cx)
      then Err (FLimit name LkStringSize (length s) (max_str_size (cx_limits cx))) else Ok ())"

definition check_list_len :: "str \<Rightarrow> nat \<Rightarrow> call_cx \<Rightarrow> func_error + unit" where
  "check_list_len name len cx =
     (if len > max_list_len (cx_limits cx)
      then Err (FLimit name LkListLength len (max_list_len (cx_limits cx))) else Ok ())"

text \<open>The end of every string function that checks its result.\<close>

definition sized_str :: "str \<Rightarrow> call_cx \<Rightarrow> str \<Rightarrow> func_error + value" where
  "sized_str name cx out = and_then (check_str_size name out cx) (\<lambda>_. Ok (VStr out))"

section \<open>String functions\<close>

definition float_to_i64_truncated :: "f64 \<Rightarrow> int" where
  "float_to_i64_truncated f =
     (if \<not> f64_is_finite f then 0
      else let t = f64_trunc_int f in
        if t \<le> i64_min then i64_min else if t \<ge> 2 ^ 63 then i64_max else t)"

fun value_to_display :: "(f64 \<Rightarrow> str) \<Rightarrow> value \<Rightarrow> str" where
  "value_to_display ryu VNull = ''null''"
| "value_to_display ryu (VBool b) = bool_str b"
| "value_to_display ryu (VInt n) = int_str n"
| "value_to_display ryu (VNumber f) = ryu f"
| "value_to_display ryu (VStr s) = s"
| "value_to_display ryu (VList items) = ''['' @ join_str '', '' (map (value_to_display ryu) items) @ '']''"
| "value_to_display ryu (VMap entries) =
     ''{ '' @ join_str '', '' (map (\<lambda>(k, v). k @ '' = '' @ value_to_display ryu v) entries) @ '' }''"

definition format_arg :: "value list \<Rightarrow> nat \<Rightarrow> func_error + value" where
  "format_arg args idx =
     (case arg_get args idx of Some v \<Rightarrow> Ok v | None \<Rightarrow> Err (FArity ''format'' (idx + 2) (length args + 1)))"

definition format_int :: "value \<Rightarrow> nat \<Rightarrow> func_error + int" where
  "format_int v idx =
     (case v of
        VInt n \<Rightarrow> Ok n
      | VNumber f \<Rightarrow> Ok (float_to_i64_truncated f)
      | other \<Rightarrow> Err (FType ''format'' (idx + 1) ''number'' (type_name other)))"

text \<open>The loop over the characters of the format string; \<open>verb\<close> is the character after a \<open>%\<close>.\<close>

fun render_format_from :: "(f64 \<Rightarrow> str) \<Rightarrow> value list \<Rightarrow> str list \<Rightarrow> nat \<Rightarrow> str \<Rightarrow> func_error + str" where
  "render_format_from ryu args [] idx out = Ok out"
| "render_format_from ryu args (c # cs) idx out =
     (if c \<noteq> ''%'' then render_format_from ryu args cs idx (out @ c)
      else case cs of
        [] \<Rightarrow> Err (FOther ''format'' ''trailing `%` in format string'')
      | verb # cs' \<Rightarrow>
          (if verb = ''%'' then render_format_from ryu args cs' idx (out @ ''%'')
           else if verb = ''s'' \<or> verb = ''v'' then
             and_then (format_arg args idx) (\<lambda>v.
               render_format_from ryu args cs' (idx + 1) (out @ value_to_display ryu v))
           else if verb = ''d'' then
             and_then (format_arg args idx) (\<lambda>v.
             and_then (format_int v idx) (\<lambda>n. render_format_from ryu args cs' (idx + 1) (out @ int_str n)))
           else Err (FOther ''format'' (''unsupported verb `%'' @ verb @ ''`''))))"

definition render_format :: "(f64 \<Rightarrow> str) \<Rightarrow> str \<Rightarrow> value list \<Rightarrow> func_error + str" where
  "render_format ryu fmt args = render_format_from ryu args (utf8_chars fmt) 0 []"

definition format_fn :: "host \<Rightarrow> hcl_func" where
  "format_fn h args cx =
     and_then (arg_str ''format'' args 0) (\<lambda>fmt.
     and_then (render_format (h_ryu h) fmt (drop 1 args)) (\<lambda>out. sized_str ''format'' cx out))"

definition lower_fn :: "host \<Rightarrow> hcl_func" where
  "lower_fn h args cx =
     and_then (arg_str ''lower'' args 0) (\<lambda>s. sized_str ''lower'' cx (to_lowercase (h_lower h) s))"

definition upper_fn :: "host \<Rightarrow> hcl_func" where
  "upper_fn h args cx =
     and_then (arg_str ''upper'' args 0) (\<lambda>s. sized_str ''upper'' cx (to_uppercase (h_upper h) s))"

definition trim_fn :: hcl_func where
  "trim_fn args cx =
     and_then (arg_str ''trim'' args 0) (\<lambda>s.
     and_then (arg_str ''trim'' args 1) (\<lambda>cutset.
     Ok (VStr (trim_matches (\<lambda>c. c \<in> set (utf8_chars cutset)) s))))"

definition trimspace_fn :: hcl_func where
  "trimspace_fn args cx = and_then (arg_str ''trimspace'' args 0) (\<lambda>s. Ok (VStr (str_trim s)))"

definition replace_fn :: hcl_func where
  "replace_fn args cx =
     and_then (arg_str ''replace'' args 0) (\<lambda>s.
     and_then (arg_str ''replace'' args 1) (\<lambda>pat.
     and_then (arg_str ''replace'' args 2) (\<lambda>to. sized_str ''replace'' cx (str_replace pat to s))))"

section \<open>Collection functions\<close>

definition saturate_i64 :: "nat \<Rightarrow> int" where
  "saturate_i64 n = min (int n) i64_max"

definition length_fn :: hcl_func where
  "length_fn args cx =
     and_then (arg_first ''length'' args) (\<lambda>v. case v of
        VStr s \<Rightarrow> Ok (VInt (saturate_i64 (length (utf8_chars s))))
      | VList items \<Rightarrow> Ok (VInt (saturate_i64 (length items)))
      | VMap entries \<Rightarrow> Ok (VInt (saturate_i64 (length entries)))
      | other \<Rightarrow> Err (FType ''length'' 0 ''string|list|map'' (type_name other)))"

definition keys_fn :: hcl_func where
  "keys_fn args cx =
     and_then (arg_map ''keys'' args) (\<lambda>entries.
     and_then (check_list_len ''keys'' (length entries) cx) (\<lambda>_.
     Ok (VList (map VStr (sort (map fst entries))))))"

definition values_fn :: hcl_func where
  "values_fn args cx =
     and_then (arg_map ''values'' args) (\<lambda>entries.
     and_then (check_list_len ''values'' (length entries) cx) (\<lambda>_.
     Ok (VList (map snd (sort_key fst entries)))))"

fun merge_args :: "nat \<Rightarrow> value list \<Rightarrow> vmap \<Rightarrow> func_error + vmap" where
  "merge_args i [] out = Ok out"
| "merge_args i (VMap entries # args) out = merge_args (Suc i) args (override_all out entries)"
| "merge_args i (a # args) out = Err (FType ''merge'' i ''map'' (type_name a))"

definition merge_fn :: hcl_func where
  "merge_fn args cx = and_then (merge_args 0 args []) (\<lambda>out. Ok (VMap out))"

fun concat_args :: "nat \<Rightarrow> value list \<Rightarrow> call_cx \<Rightarrow> value list \<Rightarrow> func_error + value list" where
  "concat_args i [] cx out = Ok out"
| "concat_args i (VList items # args) cx out =
     and_then (check_list_len ''concat'' (length (out @ items)) cx) (\<lambda>_. concat_args (Suc i) args cx (out @ items))"
| "concat_args i (a # args) cx out = Err (FType ''concat'' i ''list'' (type_name a))"

definition concat_fn :: hcl_func where
  "concat_fn args cx = and_then (concat_args 0 args cx []) (\<lambda>out. Ok (VList out))"

fun compact_keeps :: "value \<Rightarrow> bool" where
  "compact_keeps VNull = False"
| "compact_keeps (VStr s) = (s \<noteq> [])"
| "compact_keeps _ = True"

definition compact_fn :: hcl_func where
  "compact_fn args cx = and_then (arg_list ''compact'' args) (\<lambda>items. Ok (VList (filter compact_keeps items)))"

definition lookup_fn :: hcl_func where
  "lookup_fn args cx =
     (case args of
        target # needle # rest \<Rightarrow>
          (case target of
             VMap m \<Rightarrow>
               (case needle of
                  VStr key \<Rightarrow>
                    (case map_of m key of
                       Some v \<Rightarrow> Ok v
                     | None \<Rightarrow> Ok (case rest of d # _ \<Rightarrow> d | [] \<Rightarrow> VNull))
                | other \<Rightarrow> Err (FType ''lookup'' 1 ''string'' (type_name other)))
           | other \<Rightarrow> Err (FType ''lookup'' 0 ''map'' (type_name other)))
      | _ \<Rightarrow> Err (FArity ''lookup'' 2 (length args)))"

definition contains_fn :: hcl_func where
  "contains_fn args cx =
     (case args of
        target # needle # _ \<Rightarrow>
          (case target of
             VList items \<Rightarrow> Ok (VBool (list_ex (\<lambda>v. value_eq v needle) items))
           | other \<Rightarrow> Err (FType ''contains'' 0 ''list'' (type_name other)))
      | _ \<Rightarrow> Err (FArity ''contains'' 2 (length args)))"

fun flatten_into :: "value list \<Rightarrow> value list \<Rightarrow> call_cx \<Rightarrow> func_error + value list"
and flatten_item :: "value \<Rightarrow> value list \<Rightarrow> call_cx \<Rightarrow> func_error + value list" where
  "flatten_into [] out cx = Ok out"
| "flatten_into (v # vs) out cx =
     and_then (flatten_item v out cx) (\<lambda>out'.
     and_then (check_list_len ''flatten'' (length out') cx) (\<lambda>_. flatten_into vs out' cx))"
| "flatten_item (VList inner) out cx = flatten_into inner out cx"
| "flatten_item other out cx = Ok (out @ [other])"

definition flatten_fn :: hcl_func where
  "flatten_fn args cx =
     and_then (arg_list ''flatten'' args) (\<lambda>items.
     and_then (flatten_into items [] cx) (\<lambda>out. Ok (VList out)))"

section \<open>Type coercion\<close>

definition tostring_fn :: "host \<Rightarrow> hcl_func" where
  "tostring_fn h args cx =
     and_then (arg_first ''tostring'' args) (\<lambda>v. sized_str ''tostring'' cx (value_to_display (h_ryu h) v))"

definition tonumber_fn :: "host \<Rightarrow> hcl_func" where
  "tonumber_fn h args cx =
     and_then (arg_first ''tonumber'' args) (\<lambda>v. case v of
        VInt _ \<Rightarrow> Ok v
      | VNumber _ \<Rightarrow> Ok v
      | VStr s \<Rightarrow>
          (case parse_i64 s of
             Some n \<Rightarrow> Ok (VInt n)
           | None \<Rightarrow> (case parse_f64 s of
               Some f \<Rightarrow> Ok (VNumber f)
             | None \<Rightarrow> Err (FOther ''tonumber'' (''not a number: '' @ str_debug (h_debug h) s))))
      | other \<Rightarrow> Err (FType ''tonumber'' 0 ''number|string'' (type_name other)))"

definition tobool_fn :: "host \<Rightarrow> hcl_func" where
  "tobool_fn h args cx =
     and_then (arg_first ''tobool'' args) (\<lambda>v. case v of
        VBool _ \<Rightarrow> Ok v
      | VStr s \<Rightarrow>
          (if s = ''true'' then Ok (VBool True)
           else if s = ''false'' then Ok (VBool False)
           else Err (FOther ''tobool'' (''not a bool literal: '' @ str_debug (h_debug h) s)))
      | other \<Rightarrow> Err (FType ''tobool'' 0 ''bool|string'' (type_name other)))"

definition tolist_fn :: hcl_func where
  "tolist_fn args cx =
     and_then (arg_first ''tolist'' args) (\<lambda>v. case v of
        VList _ \<Rightarrow> Ok v
      | other \<Rightarrow> Err (FType ''tolist'' 0 ''list'' (type_name other)))"

fun dedupe_values :: "value list \<Rightarrow> value list \<Rightarrow> value list" where
  "dedupe_values [] out = out"
| "dedupe_values (item # items) out =
     (if list_ex (\<lambda>x. value_eq x item) out then dedupe_values items out else dedupe_values items (out @ [item]))"

definition toset_fn :: hcl_func where
  "toset_fn args cx = and_then (arg_list ''toset'' args) (\<lambda>items. Ok (VList (dedupe_values items [])))"

section \<open>Encoding\<close>

text \<open>\<open>BTreeMap::insert\<close> on a list sorted by key.\<close>

fun btree_insert :: "str \<Rightarrow> 'a \<Rightarrow> (str \<times> 'a) list \<Rightarrow> (str \<times> 'a) list" where
  "btree_insert k v [] = [(k, v)]"
| "btree_insert k v ((l, w) # m) =
     (if k < l then (k, v) # (l, w) # m else if k = l then (k, v) # m else (l, w) # btree_insert k v m)"

fun value_to_json :: "value \<Rightarrow> json" where
  "value_to_json VNull = JNull"
| "value_to_json (VBool b) = JBool b"
| "value_to_json (VInt n) = JInt n"
| "value_to_json (VNumber f) = (if f64_is_finite f then JFloat f else JNull)"
| "value_to_json (VStr s) = JStr s"
| "value_to_json (VList items) = JArr (map value_to_json items)"
| "value_to_json (VMap entries) =
     JObj (fold (\<lambda>(k, j). btree_insert k j) (map (\<lambda>(k, v). (k, value_to_json v)) entries) [])"

definition jsonencode_fn :: "host \<Rightarrow> hcl_func" where
  "jsonencode_fn h args cx =
     and_then (arg_first ''jsonencode'' args) (\<lambda>v. sized_str ''jsonencode'' cx (h_json_print h (value_to_json v)))"

fun json_to_value :: "str \<Rightarrow> call_cx \<Rightarrow> json \<Rightarrow> func_error + value" where
  "json_to_value name cx JNull = Ok VNull"
| "json_to_value name cx (JBool b) = Ok (VBool b)"
| "json_to_value name cx (JInt i) = Ok (if in_i64 i then VInt i else VNumber (f64_of_int i))"
| "json_to_value name cx (JFloat f) = Ok (VNumber f)"
| "json_to_value name cx (JStr s) = Ok (VStr s)"
| "json_to_value name cx (JArr items) =
     and_then (check_list_len name (length items) cx) (\<lambda>_.
     and_then (map_result (\<lambda>i. json_to_value name cx i) items) (\<lambda>out. Ok (VList out)))"
| "json_to_value name cx (JObj entries) =
     and_then (map_result (\<lambda>(k, j). and_then (json_to_value name cx j) (\<lambda>v. Ok (k, v))) entries) (\<lambda>out. Ok (VMap out))"

definition jsondecode_fn :: "host \<Rightarrow> hcl_func" where
  "jsondecode_fn h args cx =
     and_then (arg_str ''jsondecode'' args 0) (\<lambda>s.
     and_then (map_err (\<lambda>e. FOther ''jsondecode'' (''invalid JSON: '' @ e)) (h_json_parse h s)) (\<lambda>j.
     json_to_value ''jsondecode'' cx j))"

definition base64encode_fn :: "host \<Rightarrow> hcl_func" where
  "base64encode_fn h args cx =
     and_then (arg_str ''base64encode'' args 0) (\<lambda>s. sized_str ''base64encode'' cx (h_b64_encode h s))"

definition base64decode_fn :: "host \<Rightarrow> hcl_func" where
  "base64decode_fn h args cx =
     and_then (arg_str ''base64decode'' args 0) (\<lambda>s.
     and_then (map_err (\<lambda>e. FOther ''base64decode'' (''invalid base64: '' @ e)) (h_b64_decode h s)) (\<lambda>bytes.
     and_then (map_err (\<lambda>e. FOther ''base64decode'' (''base64 decoded to invalid utf-8: '' @ e)) (from_utf8 bytes)) (\<lambda>out.
     sized_str ''base64decode'' cx out)))"

section \<open>Terraform functions\<close>

definition bytes_to_hex :: "str \<Rightarrow> str" where
  "bytes_to_hex bytes = concat (map (\<lambda>c. [hex_digit (byte_nat c div 16), hex_digit (byte_nat c mod 16)]) bytes)"

definition sha256_fn :: "host \<Rightarrow> hcl_func" where
  "sha256_fn h args cx =
     and_then (arg_str ''sha256'' args 0) (\<lambda>s. sized_str ''sha256'' cx (bytes_to_hex (h_sha256 h s)))"

definition sha512_fn :: "host \<Rightarrow> hcl_func" where
  "sha512_fn h args cx =
     and_then (arg_str ''sha512'' args 0) (\<lambda>s. sized_str ''sha512'' cx (bytes_to_hex (h_sha512 h s)))"

text \<open>\<open>{:0w}\<close> of an integer: the sign counts towards the width.\<close>

definition zero_pad :: "nat \<Rightarrow> int \<Rightarrow> str" where
  "zero_pad w i =
     (let digits = nat_str (nat \<bar>i\<bar>); sign = (if i < 0 then ''-'' else [])
      in sign @ replicate (w - length sign - length digits) (CHR ''0'') @ digits)"

text \<open>The fields of the format, in the order the loop tries them.\<close>

definition date_fields :: "civil_time \<Rightarrow> (str \<times> str) list" where
  "date_fields t =
     [(''YYYY'', zero_pad 4 (ct_year t)), (''MM'', zero_pad 2 (ct_month t)), (''DD'', zero_pad 2 (ct_day t)),
      (''hh'', zero_pad 2 (ct_hour t)), (''mm'', zero_pad 2 (ct_minute t)), (''ss'', zero_pad 2 (ct_second t))]"

lemma date_field_found: "find (\<lambda>(p, _). starts_with s p) (date_fields t) = Some (p, x) \<Longrightarrow> p \<noteq> []"
  by (simp add: date_fields_def split: if_splits) (auto simp: date_fields_def split: if_splits)

lemma utf8_head_ne: "s \<noteq> [] \<Longrightarrow> hd (utf8_chars s) \<noteq> []"
  by (cases s) auto

function render_formatdate :: "civil_time \<Rightarrow> str \<Rightarrow> str" where
  "render_formatdate t s =
     (if s = [] then []
      else case find (\<lambda>(p, _). starts_with s p) (date_fields t) of
        Some (p, txt) \<Rightarrow> txt @ render_formatdate t (drop (length p) s)
      | None \<Rightarrow> hd (utf8_chars s) @ render_formatdate t (drop (length (hd (utf8_chars s))) s))"
  by auto
termination
  by (relation "measure (\<lambda>(_, s). length s)") (auto dest!: date_field_found simp: utf8_head_ne)

declare render_formatdate.simps [simp del]

definition parse_timestamp :: "host \<Rightarrow> str \<Rightarrow> str \<Rightarrow> func_error + civil_time" where
  "parse_timestamp h name s =
     (case List.map_filter (\<lambda>p. p s) (h_timestamps h) of
        t # _ \<Rightarrow> Ok t
      | [] \<Rightarrow> Err (FOther name (''cannot parse timestamp `'' @ s @ ''`'')))"

definition formatdate_fn :: "host \<Rightarrow> hcl_func" where
  "formatdate_fn h args cx =
     and_then (arg_str ''formatdate'' args 0) (\<lambda>spec.
     and_then (arg_str ''formatdate'' args 1) (\<lambda>raw.
     and_then (parse_timestamp h ''formatdate'' raw) (\<lambda>t.
     sized_str ''formatdate'' cx (render_formatdate t spec))))"

definition timestamp_fn :: hcl_func where
  "timestamp_fn args cx =
     Err (FOther ''timestamp'' ''non-deterministic: source-only parser does not embed wall-clock time'')"

definition strcontains_fn :: hcl_func where
  "strcontains_fn args cx =
     and_then (arg_str ''strcontains'' args 0) (\<lambda>haystack.
     and_then (arg_str ''strcontains'' args 1) (\<lambda>needle. Ok (VBool (str_contains haystack needle))))"

definition get_env_default :: "value list \<Rightarrow> func_error + str" where
  "get_env_default args =
     (case arg_get args 1 of
        None \<Rightarrow> Ok []
      | Some VNull \<Rightarrow> Ok []
      | Some (VStr s) \<Rightarrow> Ok s
      | Some other \<Rightarrow> Err (FType ''get_env'' 1 ''string'' (type_name other)))"

definition get_env_fn :: "host \<Rightarrow> hcl_func" where
  "get_env_fn h args cx =
     and_then (arg_str ''get_env'' args 0) (\<lambda>name.
     and_then (get_env_default args) (\<lambda>dflt.
     if env_is_mock (cx_env_vars cx) then Ok (VStr dflt)
     else if \<not> env_allows (cx_env_vars cx) name then Ok (VStr dflt)
     else Ok (VStr (case h_env h name of Some v \<Rightarrow> v | None \<Rightarrow> dflt))))"

section \<open>Registration\<close>

text \<open>\<open>stdlib::register\<close> and \<open>tf_funcs::register\<close>, in registration order.\<close>

definition stdlib_table :: "host \<Rightarrow> (str \<times> hcl_func) list" where
  "stdlib_table h =
     [(''format'', format_fn h), (''lower'', lower_fn h), (''upper'', upper_fn h), (''trim'', trim_fn),
      (''trimspace'', trimspace_fn), (''replace'', replace_fn), (''length'', length_fn), (''keys'', keys_fn),
      (''values'', values_fn), (''merge'', merge_fn), (''concat'', concat_fn), (''compact'', compact_fn),
      (''lookup'', lookup_fn), (''contains'', contains_fn), (''flatten'', flatten_fn), (''tostring'', tostring_fn h),
      (''tonumber'', tonumber_fn h), (''tobool'', tobool_fn h), (''tolist'', tolist_fn), (''toset'', toset_fn),
      (''jsonencode'', jsonencode_fn h), (''jsondecode'', jsondecode_fn h),
      (''base64encode'', base64encode_fn h), (''base64decode'', base64decode_fn h)]"

definition tf_table :: "host \<Rightarrow> (str \<times> hcl_func) list" where
  "tf_table h =
     [(''sha256'', sha256_fn h), (''sha512'', sha512_fn h), (''formatdate'', formatdate_fn h),
      (''timestamp'', timestamp_fn), (''strcontains'', strcontains_fn), (''get_env'', get_env_fn h)]"

definition register_all :: "func_registry \<Rightarrow> (str \<times> hcl_func) list \<Rightarrow> func_registry" where
  "register_all reg fs = foldl (\<lambda>reg (name, f). registry_register reg name f) reg fs"

end
