(* ===== verification/FileFns.thy ===== *)
theory FileFns
  imports Stdlib
begin

text \<open>The sandboxed file functions (\<open>eval/files.rs\<close>) and the default registry
  (\<open>FuncRegistry::default_with_stdlib\<close> of \<open>eval/registry.rs\<close>).

  The file system answers four more queries than the sandbox of \<open>Paths\<close> asks: \<open>fs::metadata\<close> (size and
  whether it is a directory), \<open>fs::read\<close>, and the entries an \<open>ignore::Walk\<close> yields under a directory, each
  with its path and whether it is a regular file, or an error text.\<close>

record disk = file_system +
  fs_metadata :: "path \<Rightarrow> str + nat \<times> bool"
  fs_read :: "path \<Rightarrow> str + str"
  fs_walk :: "path \<Rightarrow> (str + path \<times> bool) list"

definition disk_fs :: "disk \<Rightarrow> file_system" where
  "disk_fs d = file_system.truncate d"

section \<open>Sandbox and capped read\<close>

definition resolve_inside :: "disk \<Rightarrow> str \<Rightarrow> path \<Rightarrow> str \<Rightarrow> func_error + path" where
  "resolve_inside d name wroot candidate =
     (case canonicalize_inside (disk_fs d) (parse_path candidate) wroot Reject of
        Inr p \<Rightarrow> Ok p
      | Inl (Escape _ _) \<Rightarrow> Err (FPathEscape name (parse_path candidate))
      | Inl (UnexpectedSymlink p) \<Rightarrow> Err (FPathEscape name p)
      | Inl (NulByte p) \<Rightarrow> Err (FPathEscape name p)
      | Inl (PathIo p e) \<Rightarrow> Err (FOther name (''i/o resolving '' @ path_str p @ '': '' @ e)))"

definition io_err :: "str \<Rightarrow> path \<Rightarrow> str \<Rightarrow> func_error" where
  "io_err name p e = FOther name (''i/o reading '' @ path_str p @ '': '' @ e)"

definition file_read_capped :: "disk \<Rightarrow> str \<Rightarrow> path \<Rightarrow> nat \<Rightarrow> func_error + str" where
  "file_read_capped d name p cap =
     (case fs_metadata d p of
        Inl e \<Rightarrow> Err (io_err name p e)
      | Inr (len, _) \<Rightarrow>
          if len > cap then Err (FLimit name LkFileSize len cap)
          else map_err (io_err name p) (fs_read d p))"

definition read_text :: "disk \<Rightarrow> str \<Rightarrow> path \<Rightarrow> call_cx \<Rightarrow> func_error + str" where
  "read_text d name p cx =
     and_then (file_read_capped d name p (max_file_bytes (cx_limits cx))) (\<lambda>bytes.
     map_err (\<lambda>e. FOther name (''invalid utf-8 in '' @ path_str p @ '': '' @ e)) (from_utf8 bytes))"

section \<open>The functions\<close>

definition file_fn :: "disk \<Rightarrow> hcl_func" where
  "file_fn d args cx =
     and_then (arg_str ''file'' args 0) (\<lambda>raw.
     and_then (resolve_inside d ''file'' (cx_workspace_root cx) raw) (\<lambda>p.
     and_then (read_text d ''file'' p cx) (\<lambda>txt. Ok (VStr txt))))"

definition fileexists_fn :: "disk \<Rightarrow> hcl_func" where
  "fileexists_fn d args cx =
     and_then (arg_str ''fileexists'' args 0) (\<lambda>raw.
     (case canonicalize_inside (disk_fs d) (parse_path raw) (cx_workspace_root cx) Reject of
        Inr p \<Rightarrow> Ok (VBool (is_ok (fs_metadata d p)))
      | Inl (Escape _ _) \<Rightarrow> Err (FPathEscape ''fileexists'' (parse_path raw))
      | Inl (UnexpectedSymlink p) \<Rightarrow> Err (FPathEscape ''fileexists'' p)
      | Inl (NulByte p) \<Rightarrow> Err (FPathEscape ''fileexists'' p)
      | Inl (PathIo _ _) \<Rightarrow> Ok (VBool False)))"

definition is_alpha_byte :: "char \<Rightarrow> bool" where
  "is_alpha_byte c = (char_between (CHR ''A'') (CHR ''Z'') c \<or> char_between (CHR ''a'') (CHR ''z'') c)"

definition is_plain_ident :: "str \<Rightarrow> bool" where
  "is_plain_ident s =
     (case s of
        [] \<Rightarrow> False
      | b # bs \<Rightarrow> (is_alpha_byte b \<or> b = CHR ''_'') \<and>
          list_all (\<lambda>b. is_alpha_byte b \<or> is_ascii_digit b \<or> b = CHR ''_'') bs)"

definition template_other :: "str \<Rightarrow> func_error" where
  "template_other msg = FOther ''templatefile'' msg"

text \<open>The text a reference \<open>${name}\<close> stands for.\<close>

definition template_ref :: "vmap \<Rightarrow> str \<Rightarrow> func_error + str" where
  "template_ref vars name =
     (if \<not> is_plain_ident name then Err (template_other (''unresolvable template ref `'' @ name @ ''`''))
      else case map_of vars name of
        Some (VStr s) \<Rightarrow> Ok s
      | Some other \<Rightarrow> Err (FType ''templatefile'' 1 ''string-valued binding'' (type_name other))
      | None \<Rightarrow> Err (template_other (''template ref `'' @ name @ ''` not bound'')))"

function render_template_from :: "vmap \<Rightarrow> str \<Rightarrow> str \<Rightarrow> func_error + str" where
  "render_template_from vars s out =
     (if s = [] then Ok out
      else case strip_prefix_str ''$${'' s of
        Some rest \<Rightarrow> render_template_from vars rest (out @ ''${'')
      | None \<Rightarrow> (case strip_prefix_str ''${'' s of
          Some rest \<Rightarrow>
            (case split_once_char (CHR ''}'') rest of
               None \<Rightarrow> Err (template_other ''unterminated `${` in template'')
             | Some (inner, after) \<Rightarrow>
                 (case template_ref vars (str_trim inner) of
                    Inl e \<Rightarrow> Err e
                  | Inr txt \<Rightarrow> render_template_from vars after (out @ txt)))
        | None \<Rightarrow>
            render_template_from vars (drop (length (hd (utf8_chars s))) s) (out @ hd (utf8_chars s))))"
  by auto
termination
  by (relation "measure (\<lambda>(_, s, _). length s)")
     (auto simp: strip_prefix_Some_iff split_once_char_Some utf8_head_ne)

declare render_template_from.simps [simp del]

definition render_template :: "str \<Rightarrow> vmap \<Rightarrow> func_error + str" where
  "render_template src vars = render_template_from vars src []"

definition template_vars :: "value list \<Rightarrow> func_error + vmap" where
  "template_vars args =
     (case arg_get args 1 of
        Some (VMap m) \<Rightarrow> Ok m
      | Some other \<Rightarrow> Err (FType ''templatefile'' 1 ''map'' (type_name other))
      | None \<Rightarrow> Err (FArity ''templatefile'' 2 (length args)))"

definition templatefile_fn :: "disk \<Rightarrow> hcl_func" where
  "templatefile_fn d args cx =
     and_then (arg_str ''templatefile'' args 0) (\<lambda>raw.
     and_then (template_vars args) (\<lambda>vars.
     and_then (resolve_inside d ''templatefile'' (cx_workspace_root cx) raw) (\<lambda>p.
     and_then (read_text d ''templatefile'' p cx) (\<lambda>template.
     and_then (render_template template vars) (\<lambda>out. sized_str ''templatefile'' cx out)))))"

text \<open>The loop of \<open>fileset\<close>: an error entry stops it, and the limit is checked after every match.\<close>

fun fileset_loop ::
  "path \<Rightarrow> (str \<Rightarrow> bool) \<Rightarrow> nat \<Rightarrow> (str + path \<times> bool) list \<Rightarrow> str list \<Rightarrow> func_error + str list" where
  "fileset_loop dir glob cap [] matches = Ok matches"
| "fileset_loop dir glob cap (Inl e # entries) matches = Err (FOther ''fileset'' (''walk error: '' @ e))"
| "fileset_loop dir glob cap (Inr (p, is_file) # entries) matches =
     (if \<not> is_file then fileset_loop dir glob cap entries matches
      else case path_strip_prefix dir p of
        None \<Rightarrow> fileset_loop dir glob cap entries matches
      | Some rel \<Rightarrow>
          (if rel = [] then fileset_loop dir glob cap entries matches
           else let s = join_str ''/'' (map component_str rel) in
             if \<not> glob s then fileset_loop dir glob cap entries matches
             else if length matches + 1 > cap then Err (FLimit ''fileset'' LkListLength (length matches + 1) cap)
             else fileset_loop dir glob cap entries (matches @ [s])))"

definition fileset_fn :: "host \<Rightarrow> disk \<Rightarrow> hcl_func" where
  "fileset_fn h d args cx =
     and_then (arg_str ''fileset'' args 0) (\<lambda>raw_dir.
     and_then (arg_str ''fileset'' args 1) (\<lambda>pattern.
     if length pattern > 256 then Err (FOther ''fileset'' ''glob pattern exceeds 256-byte cap'')
     else and_then (resolve_inside d ''fileset'' (cx_workspace_root cx) raw_dir) (\<lambda>dir.
     and_then (map_err (io_err ''fileset'' dir) (fs_metadata d dir)) (\<lambda>(_, is_dir).
     if \<not> is_dir then Err (FOther ''fileset'' (''`fileset` base is not a directory: '' @ path_str dir))
     else and_then (map_err (\<lambda>e. FOther ''fileset'' (''invalid glob `'' @ pattern @ ''`: '' @ e)) (h_glob h pattern)) (\<lambda>glob.
     and_then (fileset_loop dir glob (max_list_len (cx_limits cx)) (fs_walk d dir) []) (\<lambda>matches.
     Ok (VList (map VStr (sort matches)))))))))"

section \<open>The default registry\<close>

definition files_table :: "host \<Rightarrow> disk \<Rightarrow> (str \<times> hcl_func) list" where
  "files_table h d =
     [(''file'', file_fn d), (''fileexists'', fileexists_fn d), (''templatefile'', templatefile_fn d),
      (''fileset'', fileset_fn h d)]"

definition default_with_stdlib :: "host \<Rightarrow> disk \<Rightarrow> func_registry" where
  "default_with_stdlib h d =
     register_all (register_all (register_all registry_empty (stdlib_table h)) (tf_table h)) (files_table h d)"

end
