(* ===== verification/FuncLaws.thy ===== *)
theory FuncLaws
  imports FileFns ReduceSafety
begin

text \<open>Laws of the registered functions: lookups in the default registry, well-formed and bounded results,
  and what a result may depend on.\<close>

section \<open>Lookups\<close>

lemma register_all_lookup:
  "register_all reg fs n = (case map_of (rev fs) n of Some f \<Rightarrow> Some f | None \<Rightarrow> reg n)"
proof (induction fs rule: rev_induct)
  case (snoc x fs)
  then show ?case by (cases x) (auto simp: register_all_def)
qed (simp add: register_all_def)

definition default_table :: "host \<Rightarrow> disk \<Rightarrow> (str \<times> hcl_func) list" where
  "default_table h d = stdlib_table h @ tf_table h @ files_table h d"

lemma default_registry_rev: "default_with_stdlib h d n = map_of (rev (default_table h d)) n"
  by (simp add: default_with_stdlib_def register_all_lookup default_table_def registry_empty_def map_add_def
      split: option.split)

lemma default_table_names:
  "map fst (default_table h d) = map fst (default_table h' d')"
  by (simp add: default_table_def stdlib_table_def tf_table_def files_table_def)

lemma default_table_distinct: "distinct (map fst (default_table h d))"
  by (simp add: default_table_def stdlib_table_def tf_table_def files_table_def)

lemma default_registry_lookup: "default_with_stdlib h d n = map_of (default_table h d) n"
  by (simp add: default_registry_rev map_of_rev_distinct [OF default_table_distinct])

lemma default_registry_in: "default_with_stdlib h d n = Some f \<Longrightarrow> (n, f) \<in> set (default_table h d)"
  by (simp add: default_registry_lookup map_of_SomeD)

text \<open>A property of every entry of the table, one entry at a time.\<close>

lemma default_table_all:
  "list_all P (default_table h d) \<longleftrightarrow>
     list_all P (stdlib_table h) \<and> list_all P (tf_table h) \<and> list_all P (files_table h d)"
  by (simp add: default_table_def)

lemmas arg_defs = arg_str_def arg_first_def arg_list_def arg_map_def arg_get_def

lemmas string_fn_defs = format_fn_def lower_fn_def upper_fn_def trim_fn_def trimspace_fn_def replace_fn_def
  tostring_fn_def jsonencode_fn_def base64encode_fn_def base64decode_fn_def sha256_fn_def sha512_fn_def
  formatdate_fn_def timestamp_fn_def strcontains_fn_def get_env_fn_def file_fn_def fileexists_fn_def
  templatefile_fn_def sized_str_def

lemma arg_str_Ok: "arg_str n args i = Ok s \<longleftrightarrow> i < length args \<and> args ! i = VStr s"
  by (auto simp: arg_str_def arg_get_def split: hval.split_asm)

lemma arg_first_Ok: "arg_first n args = Ok v \<longleftrightarrow> (\<exists>vs. args = v # vs)"
  by (auto simp: arg_first_def split: list.split_asm)

lemma arg_list_Ok: "arg_list n args = Ok items \<longleftrightarrow> (\<exists>vs. args = VList items # vs)"
  by (auto simp: arg_list_def arg_first_Ok split: hval.split_asm)

lemma arg_map_Ok: "arg_map n args = Ok entries \<longleftrightarrow> (\<exists>vs. args = VMap entries # vs)"
  by (auto simp: arg_map_def arg_first_Ok split: hval.split_asm)

lemmas arg_Ok = arg_str_Ok arg_first_Ok arg_list_Ok arg_map_Ok

lemma check_str_size_Ok: "check_str_size n s cx = Ok u \<longleftrightarrow> length s \<le> max_str_size (cx_limits cx)"
  by (simp add: check_str_size_def)

lemma check_list_len_Ok: "check_list_len n k cx = Ok u \<longleftrightarrow> k \<le> max_list_len (cx_limits cx)"
  by (simp add: check_list_len_def)

lemma sized_str_Ok: "sized_str n cx s = Ok v \<longleftrightarrow> v = VStr s \<and> length s \<le> max_str_size (cx_limits cx)"
  by (auto simp: sized_str_def check_str_size_Ok)

lemmas fn_Ok = arg_Ok check_str_size_Ok check_list_len_Ok sized_str_Ok

section \<open>Properties that results inherit from arguments\<close>

text \<open>A property of values that a list or map has when its items have it.  Well-formedness and the size
  bounds are two; the functions that only rearrange their arguments preserve both.\<close>

locale hereditary =
  fixes good :: "call_cx \<Rightarrow> value \<Rightarrow> bool"
  assumes good_list: "good cx (VList vs) \<Longrightarrow> v \<in> set vs \<Longrightarrow> good cx v"
    and good_map: "good cx (VMap es) \<Longrightarrow> e \<in> set es \<Longrightarrow> good cx (snd e)"
    and good_sublist: "good cx (VList vs) \<Longrightarrow> set ws \<subseteq> set vs \<Longrightarrow> length ws \<le> length vs \<Longrightarrow> good cx (VList ws)"
    and good_atoms: "good cx VNull" "good cx (VBool b)" "in_i64 i \<Longrightarrow> good cx (VInt i)" "f64_canonical f \<Longrightarrow> good cx (VNumber f)"
begin

definition keeps :: "hcl_func \<Rightarrow> bool" where
  "keeps f \<longleftrightarrow> (\<forall>vs cx v. list_all (good cx) vs \<longrightarrow> f vs cx = Ok v \<longrightarrow> good cx v)"

lemma keeps_compact: "keeps compact_fn"
  by (auto simp: keeps_def compact_fn_def fn_Ok intro: good_sublist)

lemma keeps_tolist: "keeps tolist_fn"
  by (auto simp: keeps_def tolist_fn_def fn_Ok split: hval.split_asm)

lemma keeps_tobool: "keeps (tobool_fn h)"
  by (auto simp: keeps_def tobool_fn_def fn_Ok good_atoms split: hval.split_asm if_split_asm)

lemma keeps_tonumber: "keeps (tonumber_fn h)"
  by (auto simp: keeps_def tonumber_fn_def fn_Ok good_atoms parse_i64_wf parse_f64_canonical
      split: hval.split_asm option.split_asm)

lemma keeps_length: "keeps length_fn"
proof -
  have "in_i64 (saturate_i64 n)" for n by (simp add: saturate_i64_def in_i64_def i64_min_def i64_max_def)
  then show ?thesis by (auto simp: keeps_def length_fn_def fn_Ok good_atoms split: hval.split_asm)
qed

lemma keeps_lookup: "keeps lookup_fn"
proof -
  have "good cx v" if "good cx (VMap m)" "map_of m k = Some v" for cx m k v
    using good_map [OF that(1) map_of_SomeD [OF that(2)]] by simp
  then show ?thesis
    by (auto simp: keeps_def lookup_fn_def good_atoms split: list.split_asm hval.split_asm option.split_asm)
qed

lemma keeps_contains: "keeps contains_fn"
  by (auto simp: keeps_def contains_fn_def good_atoms split: list.split_asm hval.split_asm)

lemma dedupe_values_sub: "set (dedupe_values vs out) \<subseteq> set out \<union> set vs \<and> length (dedupe_values vs out) \<le> length out + length vs"
proof (induction vs arbitrary: out)
  case (Cons v vs)
  from Cons.IH [of out] Cons.IH [of "out @ [v]"] show ?case by auto
qed simp

lemma keeps_toset: "keeps toset_fn"
proof -
  have "good cx (VList (dedupe_values vs []))" if "good cx (VList vs)" for cx vs
    using good_sublist [OF that] dedupe_values_sub [of vs "[]"] by simp
  then show ?thesis by (auto simp: keeps_def toset_fn_def fn_Ok)
qed

lemma keeps_flags: "keeps strcontains_fn" "keeps (fileexists_fn d)" "keeps timestamp_fn"
  by (auto simp: keeps_def strcontains_fn_def fileexists_fn_def timestamp_fn_def good_atoms
      split: sum.split_asm path_safety_error.split_asm)

lemmas keeps_rearranging = keeps_compact keeps_tolist keeps_tobool keeps_tonumber keeps_length keeps_lookup
  keeps_contains keeps_toset keeps_flags

end

section \<open>Well-formed results\<close>

lemma map_result_set: "map_result f xs = Ok ys \<Longrightarrow> y \<in> set ys \<Longrightarrow> \<exists>x \<in> set xs. f x = Ok y"
  by (induction xs arbitrary: ys) auto

interpretation wf: hereditary "\<lambda>_. value_wf"
  by unfold_locales (auto simp: list_all_iff)

fun json_wf :: "json \<Rightarrow> bool" where
  "json_wf (JFloat f) = f64_canonical f"
| "json_wf (JArr items) = list_all json_wf items"
| "json_wf (JObj entries) = list_all (\<lambda>e. json_wf (snd e)) entries"
| "json_wf _ = True"

lemma json_to_value_wf: "json_to_value n cx j = Ok v \<Longrightarrow> json_wf j \<Longrightarrow> value_wf v"
proof (induction j arbitrary: v)
  case (JArr items)
  then obtain out where out: "map_result (json_to_value n cx) items = Ok out" "v = VList out" by auto
  have "value_wf w" if "w \<in> set out" for w
  proof -
    from map_result_set [OF out(1) that] obtain j where "j \<in> set items" "json_to_value n cx j = Ok w" by blast
    with JArr show ?thesis by (auto simp: list_all_iff)
  qed
  with out(2) show ?case by (simp add: list_all_iff)
next
  case (JObj entries)
  then obtain out where out: "v = VMap out"
    "map_result (\<lambda>(k, j). and_then (json_to_value n cx j) (\<lambda>v. Ok (k, v))) entries = Ok out" by auto
  have "value_wf (snd e)" if e: "e \<in> set out" for e
  proof -
    from map_result_set [OF out(2) e] obtain k j where "(k, j) \<in> set entries" "json_to_value n cx j = Ok (snd e)" by auto
    with JObj show ?thesis by (fastforce simp: list_all_iff)
  qed
  with out(1) show ?case by (simp add: list_all_iff)
qed (auto simp: f64_of_int_canonical)

lemma override_all_wf: "map_wf m \<Longrightarrow> map_wf es \<Longrightarrow> map_wf (override_all m es)"
proof -
  have "map_wf (override_or_push m k v)" if "map_wf m" "value_wf v" for m k v
    using that set_override_or_push [of m k v] by (fastforce simp: map_wf_def list_all_iff)
  then show "map_wf m \<Longrightarrow> map_wf es \<Longrightarrow> map_wf (override_all m es)"
    unfolding override_all_def by (induction es arbitrary: m) (auto simp: map_wf_def)
qed

lemma merge_args_wf: "merge_args i args out = Ok m \<Longrightarrow> list_all value_wf args \<Longrightarrow> map_wf out \<Longrightarrow> map_wf m"
proof (induction i args out rule: merge_args.induct)
  case (2 i entries args out)
  then show ?case using override_all_wf [of out entries] by (simp add: map_wf_def)
qed auto

lemma concat_args_wf:
  "concat_args i args cx out = Ok vs \<Longrightarrow> list_all value_wf args \<Longrightarrow> list_all value_wf out \<Longrightarrow> list_all value_wf vs"
  by (induction i args cx out rule: concat_args.induct) auto

lemma flatten_wf:
  "flatten_into vs out cx = Ok ws \<Longrightarrow> list_all value_wf vs \<Longrightarrow> list_all value_wf out \<Longrightarrow> list_all value_wf ws"
  "flatten_item v out cx = Ok ws \<Longrightarrow> value_wf v \<Longrightarrow> list_all value_wf out \<Longrightarrow> list_all value_wf ws"
  by (induction vs out cx and v out cx arbitrary: ws and ws rule: flatten_into_flatten_item.induct) auto

lemma wf_strings:
  "wf.keeps (format_fn h)" "wf.keeps (lower_fn h)" "wf.keeps (upper_fn h)" "wf.keeps trim_fn" "wf.keeps trimspace_fn"
  "wf.keeps replace_fn" "wf.keeps (tostring_fn h)" "wf.keeps (jsonencode_fn h)" "wf.keeps (base64encode_fn h)"
  "wf.keeps (base64decode_fn h)" "wf.keeps (sha256_fn h)" "wf.keeps (sha512_fn h)" "wf.keeps (formatdate_fn h)"
  "wf.keeps (get_env_fn h)" "wf.keeps (file_fn d)" "wf.keeps (templatefile_fn d)"
  by (auto simp: wf.keeps_def string_fn_defs split: if_split_asm)

lemma wf_keys: "wf.keeps keys_fn"
  by (auto simp: wf.keeps_def keys_fn_def fn_Ok list_all_iff)

lemma wf_fileset: "wf.keeps (fileset_fn h d)"
  by (auto simp: wf.keeps_def fileset_fn_def list_all_iff split: if_split_asm prod.split_asm)

lemma wf_collections:
  "wf.keeps values_fn" "wf.keeps merge_fn" "wf.keeps concat_fn" "wf.keeps flatten_fn"
  by (auto simp: wf.keeps_def values_fn_def merge_fn_def concat_fn_def flatten_fn_def fn_Ok list_all_iff map_wf_def
      dest!: merge_args_wf concat_args_wf flatten_wf(1))

definition host_wf :: "host \<Rightarrow> bool" where
  "host_wf h \<longleftrightarrow> (\<forall>s j. h_json_parse h s = Ok j \<longrightarrow> json_wf j)"

lemma wf_jsondecode: "host_wf h \<Longrightarrow> wf.keeps (jsondecode_fn h)"
  by (auto simp: wf.keeps_def jsondecode_fn_def host_wf_def intro: json_to_value_wf)

lemma default_table_wf: "host_wf h \<Longrightarrow> list_all (\<lambda>e. wf.keeps (snd e)) (default_table h d)"
  by (simp add: default_table_all stdlib_table_def tf_table_def files_table_def wf_strings wf_keys wf_fileset
      wf_collections wf_jsondecode wf.keeps_rearranging)

section \<open>Bounded results\<close>

text \<open>No string longer than \<open>max_str_size\<close> and no list longer than \<open>max_list_len\<close>, at any depth.\<close>

fun bounded :: "eval_limits \<Rightarrow> value \<Rightarrow> bool" where
  "bounded l (VStr s) = (length s \<le> max_str_size l)"
| "bounded l (VList vs) = (length vs \<le> max_list_len l \<and> list_all (bounded l) vs)"
| "bounded l (VMap es) = list_all (\<lambda>e. length (fst e) \<le> max_str_size l \<and> bounded l (snd e)) es"
| "bounded l _ = True"

interpretation bd: hereditary "\<lambda>cx. bounded (cx_limits cx)"
  by unfold_locales (auto simp: list_all_iff)

definition map_bounded :: "eval_limits \<Rightarrow> vmap \<Rightarrow> bool" where
  "map_bounded l m \<longleftrightarrow> bounded l (VMap m)"

lemma override_all_bounded: "map_bounded l m \<Longrightarrow> map_bounded l es \<Longrightarrow> map_bounded l (override_all m es)"
proof -
  have "map_bounded l (override_or_push m k v)" if "map_bounded l m" "length k \<le> max_str_size l" "bounded l v" for m k v
    using that set_override_or_push [of m k v] by (fastforce simp: map_bounded_def list_all_iff)
  then show "map_bounded l m \<Longrightarrow> map_bounded l es \<Longrightarrow> map_bounded l (override_all m es)"
    unfolding override_all_def by (induction es arbitrary: m) (auto simp: map_bounded_def)
qed

lemma merge_args_bounded:
  "merge_args i args out = Ok m \<Longrightarrow> list_all (bounded l) args \<Longrightarrow> map_bounded l out \<Longrightarrow> map_bounded l m"
proof (induction i args out rule: merge_args.induct)
  case (2 i entries args out)
  then show ?case using override_all_bounded [of l out entries] by (simp add: map_bounded_def)
qed auto

lemma concat_args_bounded:
  "concat_args i args cx out = Ok vs \<Longrightarrow> list_all (bounded (cx_limits cx)) args \<Longrightarrow> bounded (cx_limits cx) (VList out) \<Longrightarrow>
   bounded (cx_limits cx) (VList vs)"
  by (induction i args cx out rule: concat_args.induct) (auto simp: check_list_len_Ok)

text \<open>\<open>flatten\<close> checks the length after every item, so the items of a nested list are checked too.\<close>

lemma flatten_bounded:
  "flatten_into vs out cx = Ok ws \<Longrightarrow> list_all (bounded (cx_limits cx)) vs \<Longrightarrow> bounded (cx_limits cx) (VList out) \<Longrightarrow>
     bounded (cx_limits cx) (VList ws)"
  "flatten_item v out cx = Ok ws \<Longrightarrow> bounded (cx_limits cx) v \<Longrightarrow> bounded (cx_limits cx) (VList out) \<Longrightarrow>
     length ws \<le> max_list_len (cx_limits cx) \<Longrightarrow> bounded (cx_limits cx) (VList ws)"
proof (induction vs out cx and v out cx arbitrary: ws and ws rule: flatten_into_flatten_item.induct)
  case (2 v vs out cx)
  from 2(3) obtain out' where s: "flatten_item v out cx = Ok out'" "length out' \<le> max_list_len (cx_limits cx)"
    "flatten_into vs out' cx = Ok ws" by (auto simp: check_list_len_Ok)
  from 2(1) [OF s(1)] 2(4,5) s(2) have "bounded (cx_limits cx) (VList out')" by simp
  with 2(2) [OF s(1) _ s(3)] s(2) 2(4) show ?case by (simp add: check_list_len_def)
qed auto

lemma length_concat_dropWhile: "length (concat (dropWhile p xs)) \<le> length (concat xs)"
  by (induction xs) auto

lemma length_trim_matches: "length (trim_matches p s) \<le> length s"
proof -
  let ?d = "dropWhile p (utf8_chars s)"
  have "length (concat (rev (dropWhile p (rev ?d)))) = length (concat (dropWhile p (rev ?d)))"
    by (simp add: length_concat rev_map [symmetric] sum_list_rev)
  also have "\<dots> \<le> length (concat (rev ?d))" by (rule length_concat_dropWhile)
  also have "\<dots> = length (concat ?d)" by (simp add: length_concat rev_map [symmetric] sum_list_rev)
  also have "\<dots> \<le> length (concat (utf8_chars s))" by (rule length_concat_dropWhile)
  finally show ?thesis by (simp add: trim_matches_def)
qed

lemma bd_sized: "v = VStr s \<and> length s \<le> max_str_size l \<Longrightarrow> bounded l v"
  by simp

lemma bd_strings:
  "bd.keeps (format_fn h)" "bd.keeps (lower_fn h)" "bd.keeps (upper_fn h)"
  "bd.keeps replace_fn" "bd.keeps (tostring_fn h)" "bd.keeps (jsonencode_fn h)" "bd.keeps (base64encode_fn h)"
  "bd.keeps (base64decode_fn h)" "bd.keeps (sha256_fn h)" "bd.keeps (sha512_fn h)" "bd.keeps (formatdate_fn h)"
  "bd.keeps (templatefile_fn d)"
  unfolding bd.keeps_def format_fn_def lower_fn_def upper_fn_def replace_fn_def tostring_fn_def jsonencode_fn_def
    base64encode_fn_def base64decode_fn_def sha256_fn_def sha512_fn_def formatdate_fn_def templatefile_fn_def
    and_then_Ok_iff sized_str_Ok
  by (blast intro: bd_sized)+

lemma bounded_arg_str:
  "list_all (bounded l) vs \<Longrightarrow> arg_str n vs i = Ok s \<Longrightarrow> length (trim_matches p s) \<le> max_str_size l"
  by (metis arg_str_Ok bounded.simps(1) length_trim_matches list_all_length order_trans)

lemma bd_trim: "bd.keeps trim_fn" "bd.keeps trimspace_fn"
  unfolding bd.keeps_def trim_fn_def trimspace_fn_def str_trim_def and_then_Ok_iff
  by (blast intro: bd_sized bounded_arg_str)+

lemma bd_keys: "bd.keeps keys_fn"
  by (auto simp: bd.keeps_def keys_fn_def fn_Ok list_all_iff)

lemma bd_values: "bd.keeps values_fn"
  by (auto simp: bd.keeps_def values_fn_def fn_Ok list_all_iff)

lemma bd_merge: "bd.keeps merge_fn"
  using merge_args_bounded [of 0 _ "[]"] by (auto simp: bd.keeps_def merge_fn_def map_bounded_def)

lemma bd_concat: "bd.keeps concat_fn"
  using concat_args_bounded [of 0 _ _ "[]"] by (auto simp: bd.keeps_def concat_fn_def)

lemma bd_flatten: "bd.keeps flatten_fn"
  using flatten_bounded(1) [of _ "[]"] by (auto simp: bd.keeps_def flatten_fn_def fn_Ok)

text \<open>The functions whose result no check bounds.\<close>

definition unbounded_names :: "str list" where
  "unbounded_names = [''jsondecode'', ''file'', ''fileset'', ''get_env'']"

lemma default_table_bounded:
  "list_all (\<lambda>e. fst e \<notin> set unbounded_names \<longrightarrow> bd.keeps (snd e)) (default_table h d)"
  by (simp add: default_table_all stdlib_table_def tf_table_def files_table_def unbounded_names_def bd_strings bd_trim
      bd_keys bd_values bd_merge bd_concat bd_flatten bd.keeps_rearranging)

end
