(* ===== verification/FuncProps.thy ===== *)
theory FuncProps
  imports FuncLaws ReduceCong
begin

text \<open>The properties of the registered functions and of the file sandbox.\<close>

section \<open>The files of a root\<close>

text \<open>The paths that name something of the root itself: in canonical form, under the root, and not through a symbolic link
  below it.  The root has no links when every path under it is of this kind.\<close>

definition own_path :: "path \<Rightarrow> disk \<Rightarrow> path \<Rightarrow> bool" where
  "own_path wroot d p \<longleftrightarrow> prefix wroot p \<and> canonical_form p \<and>
     (\<forall>q. prefix q p \<longrightarrow> strict_prefix wroot q \<longrightarrow> \<not> fs_is_symlink d q)"

definition no_links_below :: "path \<Rightarrow> disk \<Rightarrow> bool" where
  "no_links_below wroot d \<longleftrightarrow> (\<forall>q. strict_prefix wroot q \<longrightarrow> canonical_form q \<longrightarrow> \<not> fs_is_symlink d q)"

definition same_entry :: "disk \<Rightarrow> disk \<Rightarrow> path \<Rightarrow> bool" where
  "same_entry d d' p \<longleftrightarrow> fs_metadata d p = fs_metadata d' p \<and> fs_read d p = fs_read d' p \<and> fs_walk d p = fs_walk d' p"

text \<open>Two disks with the same links whose entries of the root are the same.\<close>

definition disks_agree :: "path \<Rightarrow> disk \<Rightarrow> disk \<Rightarrow> bool" where
  "disks_agree wroot d d' \<longleftrightarrow> fs_is_symlink d = fs_is_symlink d' \<and> no_links_below wroot d \<and>
     (\<forall>p. own_path wroot d p \<longrightarrow> same_entry d d' p)"

lemma canonical_form_prefix: "canonical_form p \<Longrightarrow> prefix q p \<Longrightarrow> canonical_form q"
  by (cases q; cases p) (auto simp: canonical_form_def prefix_def)

lemma disks_agree_entry:
  assumes "disks_agree wroot d d'" "prefix wroot p" "canonical_form p"
  shows "same_entry d d' p"
proof -
  have "own_path wroot d p"
    using assms canonical_form_prefix [OF assms(3)] by (auto simp: disks_agree_def own_path_def no_links_below_def)
  with assms(1) show ?thesis by (simp add: disks_agree_def)
qed

section \<open>The sandbox as an interface\<close>

text \<open>What a client of the sandbox relies on: a candidate resolves to an error or to a path under the root in canonical
  form.  Two disks that agree on the root then hold the same thing there.\<close>

locale sandbox =
  fixes resolve :: "'c \<Rightarrow> path \<Rightarrow> 'e + path"
  assumes inside: "resolve c wroot = Ok p \<Longrightarrow> prefix wroot p"
    and canonical: "resolve c wroot = Ok p \<Longrightarrow> canonical_form p"
begin

lemma entry: "disks_agree wroot d d' \<Longrightarrow> resolve c wroot = Ok p \<Longrightarrow> same_entry d d' p"
  by (rule disks_agree_entry [OF _ inside canonical])

end

lemma canonicalize_inside_prefix: "canonicalize_inside fs c wroot policy = Ok p \<Longrightarrow> prefix wroot p"
  by (auto elim: canonicalize_inside_Ok_cases)

interpretation canon: sandbox "\<lambda>c wroot. canonicalize_inside fs c wroot Reject" for fs
  by unfold_locales (auto elim!: canonicalize_inside_Ok_cases intro: lexically_normalize_canonical)

lemma resolve_inside_Ok:
  "resolve_inside d n wroot c = Ok p \<longleftrightarrow> canonicalize_inside (disk_fs d) (parse_path c) wroot Reject = Ok p"
  by (auto simp: resolve_inside_def split: sum.splits path_safety_error.splits)

interpretation files: sandbox "\<lambda>c wroot. resolve_inside d n wroot c" for d n
  by unfold_locales (auto simp: resolve_inside_Ok dest: canon.inside canon.canonical)

section \<open>What a function may depend on\<close>

text \<open>Without following links the sandbox asks the file system for links only.\<close>

lemma check_no_symlink_from_cong:
  "fs_is_symlink fs = fs_is_symlink fs' \<Longrightarrow> check_no_symlink_from fs probe cs = check_no_symlink_from fs' probe cs"
  by (induction cs arbitrary: probe) (simp_all add: Let_def)

lemma canonicalize_reject_cong:
  assumes "fs_is_symlink fs = fs_is_symlink fs'"
  shows "canonicalize_inside fs c wroot Reject = canonicalize_inside fs' c wroot Reject"
proof -
  have "check_no_symlink_ancestors fs = check_no_symlink_ancestors fs'"
    by (rule ext) (simp add: check_no_symlink_ancestors_def check_no_symlink_from_cong [OF assms])
  then show ?thesis unfolding canonicalize_inside_def symlink_policy.case by (rule arg_cong)
qed

lemma disks_agree_links: "disks_agree wroot d d' \<Longrightarrow> fs_is_symlink (disk_fs d) = fs_is_symlink (disk_fs d')"
  by (simp add: disks_agree_def disk_fs_def file_system.truncate_def)

definition hosts_agree :: "env_var_mode \<Rightarrow> host \<Rightarrow> host \<Rightarrow> bool" where
  "hosts_agree mode h h' \<longleftrightarrow> h' = h\<lparr>h_env := h_env h'\<rparr> \<and> (\<forall>n. env_allows mode n \<longrightarrow> h_env h n = h_env h' n)"

definition fn_agree :: "call_cx \<Rightarrow> hcl_func \<Rightarrow> hcl_func \<Rightarrow> bool" where
  "fn_agree cx f g \<longleftrightarrow> (\<forall>vs. f vs cx = g vs cx)"

lemma fn_agree_refl [simp]: "fn_agree cx f f"
  by (simp add: fn_agree_def)

lemma read_text_agree:
  "fs_metadata d p = fs_metadata d' p \<Longrightarrow> fs_read d p = fs_read d' p \<Longrightarrow> read_text d n p cx = read_text d' n p cx"
  by (cases "fs_metadata d' p") (auto simp: read_text_def file_read_capped_def)

lemma disks_agreeD:
  assumes "disks_agree wroot d d'"
  shows "canonicalize_inside (disk_fs d) q r Reject = canonicalize_inside (disk_fs d') q r Reject"
    and "resolve_inside d n r c = resolve_inside d' n r c"
    and "resolve_inside d' n wroot c = Ok p \<Longrightarrow> read_text d n' p cx = read_text d' n' p cx"
proof -
  show same: "canonicalize_inside (disk_fs d) q r Reject = canonicalize_inside (disk_fs d') q r Reject" for q r
    by (rule canonicalize_reject_cong [OF disks_agree_links [OF assms]])
  then show "resolve_inside d n r c = resolve_inside d' n r c" by (simp add: resolve_inside_def)
  show "resolve_inside d' n wroot c = Ok p \<Longrightarrow> read_text d n' p cx = read_text d' n' p cx"
    by (drule files.entry [OF assms]) (auto simp: same_entry_def intro: read_text_agree)
qed

lemma file_agree: "disks_agree (cx_workspace_root cx) d d' \<Longrightarrow> fn_agree cx (file_fn d) (file_fn d')"
  by (auto simp: fn_agree_def file_fn_def disks_agreeD(2) intro!: and_then_cong dest: disks_agreeD(3))

lemma templatefile_agree:
  "disks_agree (cx_workspace_root cx) d d' \<Longrightarrow> fn_agree cx (templatefile_fn d) (templatefile_fn d')"
  by (auto simp: fn_agree_def templatefile_fn_def disks_agreeD(2) intro!: and_then_cong dest: disks_agreeD(3))

lemma fileset_agree:
  assumes "disks_agree (cx_workspace_root cx) d d'"
  shows "fn_agree cx (fileset_fn h d) (fileset_fn h d')"
proof -
  have "fs_metadata d p = fs_metadata d' p" "fs_walk d p = fs_walk d' p"
    if "resolve_inside d' n (cx_workspace_root cx) c = Ok p" for n c p
    using files.entry [OF assms that] by (simp_all add: same_entry_def)
  then show ?thesis
    by (auto simp: fn_agree_def fileset_fn_def disks_agreeD(2) [OF assms] intro!: and_then_cong)
qed

lemma fileexists_agree:
  assumes "disks_agree (cx_workspace_root cx) d d'"
  shows "fn_agree cx (fileexists_fn d) (fileexists_fn d')"
proof -
  have "fs_metadata d p = fs_metadata d' p"
    if "canonicalize_inside (disk_fs d') c (cx_workspace_root cx) Reject = Ok p" for c p
    using canon.entry [OF assms that] by (simp add: same_entry_def)
  then show ?thesis
    by (auto simp: fn_agree_def fileexists_fn_def disks_agreeD(1) [OF assms] intro!: and_then_cong
        split: sum.split path_safety_error.split)
qed

lemma get_env_agree: "hosts_agree (cx_env_vars cx) h h' \<Longrightarrow> fn_agree cx (get_env_fn h) (get_env_fn h')"
  by (auto simp: fn_agree_def get_env_fn_def hosts_agree_def intro!: and_then_cong)

lemma host_env_sel:
  "h_ryu (h\<lparr>h_env := e\<rparr>) = h_ryu h" "h_lower (h\<lparr>h_env := e\<rparr>) = h_lower h" "h_upper (h\<lparr>h_env := e\<rparr>) = h_upper h"
  "h_debug (h\<lparr>h_env := e\<rparr>) = h_debug h" "h_json_print (h\<lparr>h_env := e\<rparr>) = h_json_print h"
  "h_json_parse (h\<lparr>h_env := e\<rparr>) = h_json_parse h" "h_b64_encode (h\<lparr>h_env := e\<rparr>) = h_b64_encode h"
  "h_b64_decode (h\<lparr>h_env := e\<rparr>) = h_b64_decode h" "h_sha256 (h\<lparr>h_env := e\<rparr>) = h_sha256 h"
  "h_sha512 (h\<lparr>h_env := e\<rparr>) = h_sha512 h" "h_timestamps (h\<lparr>h_env := e\<rparr>) = h_timestamps h"
  "h_glob (h\<lparr>h_env := e\<rparr>) = h_glob h"
  by simp_all

lemma host_fns_env:
  "format_fn (h\<lparr>h_env := e\<rparr>) = format_fn h" "lower_fn (h\<lparr>h_env := e\<rparr>) = lower_fn h" "upper_fn (h\<lparr>h_env := e\<rparr>) = upper_fn h"
  "tostring_fn (h\<lparr>h_env := e\<rparr>) = tostring_fn h" "tonumber_fn (h\<lparr>h_env := e\<rparr>) = tonumber_fn h"
  "tobool_fn (h\<lparr>h_env := e\<rparr>) = tobool_fn h" "jsonencode_fn (h\<lparr>h_env := e\<rparr>) = jsonencode_fn h"
  "jsondecode_fn (h\<lparr>h_env := e\<rparr>) = jsondecode_fn h" "base64encode_fn (h\<lparr>h_env := e\<rparr>) = base64encode_fn h"
  "base64decode_fn (h\<lparr>h_env := e\<rparr>) = base64decode_fn h" "sha256_fn (h\<lparr>h_env := e\<rparr>) = sha256_fn h"
  "sha512_fn (h\<lparr>h_env := e\<rparr>) = sha512_fn h" "formatdate_fn (h\<lparr>h_env := e\<rparr>) = formatdate_fn h"
  "fileset_fn (h\<lparr>h_env := e\<rparr>) = fileset_fn h"
  unfolding fun_eq_iff format_fn_def lower_fn_def upper_fn_def tostring_fn_def tonumber_fn_def tobool_fn_def
    jsonencode_fn_def jsondecode_fn_def base64encode_fn_def base64decode_fn_def sha256_fn_def sha512_fn_def
    formatdate_fn_def parse_timestamp_def fileset_fn_def host_env_sel
  by blast+

lemma default_table_agree:
  assumes "disks_agree (cx_workspace_root cx) d d'" and "hosts_agree (cx_env_vars cx) h h'"
  shows "list_all2 (\<lambda>e e'. fst e = fst e' \<and> fn_agree cx (snd e) (snd e')) (default_table h d) (default_table h' d')"
proof -
  obtain e where h': "h' = h\<lparr>h_env := e\<rparr>" using assms(2) by (auto simp: hosts_agree_def)
  show ?thesis
    using file_agree [OF assms(1)] templatefile_agree [OF assms(1)] fileset_agree [OF assms(1)]
      fileexists_agree [OF assms(1)] get_env_agree [OF assms(2)]
    by (simp add: default_table_def stdlib_table_def tf_table_def files_table_def h' host_fns_env)
qed

definition funcs_agree :: "call_cx \<Rightarrow> func_registry \<Rightarrow> func_registry \<Rightarrow> bool" where
  "funcs_agree cx fs fs' \<longleftrightarrow> (\<forall>n. rel_option (fn_agree cx) (fs n) (fs' n))"

lemma map_of_agree:
  "list_all2 (\<lambda>e e'. fst e = fst e' \<and> R (snd e) (snd e')) xs ys \<Longrightarrow> rel_option R (map_of xs n) (map_of ys n)"
  by (induction rule: list_all2_induct) auto

lemma default_registry_agree:
  assumes "disks_agree (cx_workspace_root cx) d d'" and "hosts_agree (cx_env_vars cx) h h'"
  shows "funcs_agree cx (default_with_stdlib h d) (default_with_stdlib h' d')"
  using default_table_agree [OF assms] by (simp add: funcs_agree_def default_registry_lookup map_of_agree)

section \<open>Reduction under agreeing registries\<close>

definition with_funcs :: "func_registry \<Rightarrow> scope \<Rightarrow> scope" where
  "with_funcs fs sc = sc\<lparr>sc_funcs := fs\<rparr>"

lemma with_funcs_simps [simp]:
  "sc_funcs (with_funcs fs sc) = fs" "scope_cx (with_funcs fs sc) = scope_cx sc"
  "sc_binders (with_funcs fs sc) = sc_binders sc" "sc_limits (with_funcs fs sc) = sc_limits sc"
  "sc_ryu (with_funcs fs sc) = sc_ryu sc" "resolve_symbol (with_funcs fs sc) s = resolve_symbol sc s"
  by (simp_all add: with_funcs_def scope_cx_def resolve_symbol_def lookup_var_def lookup_local_def lookup_binder_def
      split: symbol_kind.split prod.split)

lemma with_funcs_binders:
  "(with_funcs fs sc)\<lparr>sc_binders := b\<rparr> = with_funcs fs (sc\<lparr>sc_binders := b\<rparr>)"
  by (simp add: with_funcs_def)

lemma reduce_funcs_cong:
  assumes "funcs_agree (scope_cx sc) fs fs'"
  shows "reduce e (with_funcs fs sc) = reduce e (with_funcs fs' sc)"
proof (rule reduce_scope_cong)
  have "same_call (with_funcs fs sc) (with_funcs fs' sc) n" for n
    using assms by (simp add: same_call_def funcs_agree_def fn_agree_def [abs_def])
  then show "scopes_agree (set (symbols_of e)) (with_funcs fs sc) (with_funcs fs' sc)"
    by (simp add: scopes_agree_def with_funcs_binders)
qed

text \<open>A host for examples.\<close>

definition json_doc :: "value" where
  "json_doc = VMap [(''b'', VInt 1), (''a'', VList [VBool True, VNumber (Inf False)])]"

definition host_ex :: "(str \<Rightarrow> str option) \<Rightarrow> host" where
  "host_ex env =
     \<lparr>h_ryu = (\<lambda>_. ''0''), h_lower = (\<lambda>s. s), h_upper = (\<lambda>s. s), h_debug = (\<lambda>s. s),
      h_json_print = (\<lambda>_. ''doc''), h_json_parse = (\<lambda>_. Ok (value_to_json json_doc)),
      h_b64_encode = (\<lambda>s. s), h_b64_decode = Ok, h_sha256 = (\<lambda>s. s), h_sha512 = (\<lambda>s. s),
      h_timestamps = [], h_env = env, h_glob = (\<lambda>_. Err [])\<rparr>"

end
