(* ===== verification/SandboxProps.thy ===== *)
theory SandboxProps
  imports FuncProps ReduceProps
begin

text \<open>The path sandbox against concrete file systems, the JSON round trip, and the properties of the default
  function registry.\<close>

section \<open>The path sandbox\<close>

lemma component_of_kinds: "component_of s \<in> range Normal \<union> {ParentDir}"
  by (auto simp: component_of_def)

lemma path_body_kinds: "c \<in> set (path_body ps) \<Longrightarrow> c = ParentDir \<or> (\<exists>n. c = Normal n)"
  using component_of_kinds by (auto simp: path_body_def)

lemma parse_path_cases:
  obtains b where "parse_path s = RootDir # b" "set b \<subseteq> range Normal \<union> {ParentDir}"
  | b where "parse_path s = CurDir # b" "set b \<subseteq> range Normal \<union> {ParentDir}"
  | "set (parse_path s) \<subseteq> range Normal \<union> {ParentDir}"
  using path_body_kinds by (cases s) (fastforce simp: parse_path_def split: if_splits)+

lemma joined_canonical:
  assumes "canonical_form wroot" "is_absolute wroot" "ParentDir \<notin> set (parse_path s)"
  shows "canonical_form (if is_absolute (parse_path s) then parse_path s else path_join wroot (parse_path s))"
proof -
  obtain r where r: "wroot = RootDir # r" using assms(2) by (auto simp: is_absolute_def split: list.splits path_component.splits)
  show ?thesis
  proof (cases rule: parse_path_cases [of s])
    case (1 b)
    with assms(3) show ?thesis by (auto simp: is_absolute_def canonical_form_def)
  next
    case (2 b)
    with assms r show ?thesis by (auto simp: is_absolute_def canonical_form_def path_join_def)
  next
    case 3
    with assms r show ?thesis
      by (cases "parse_path s") (auto simp: is_absolute_def canonical_form_def path_join_def split: path_component.splits)
  qed
qed

lemma no_symlink_prefix:
  assumes "check_no_symlink_ancestors fs p = Ok ()" "prefix q p" "q \<noteq> []" "last q \<noteq> RootDir"
  shows "\<not> fs_is_symlink fs q"
proof -
  obtain r where r: "p = q @ r" using assms(2) by (auto simp: prefix_def)
  let ?k = "length q - 1"
  have "?k < length p" "take (Suc ?k) p = q" "p ! ?k = last q"
    using assms(3) by (cases q; simp add: r nth_append last_conv_nth)+
  with assms(1,4) show ?thesis by (metis check_no_symlink_ancestors_Ok)
qed

text \<open>A small file system: which canonical absolute paths are directories, files with contents, or symbolic
  links.  \<open>lookup_path\<close> walks a path the way the kernel does, one component at a time: every component before
  the last must be an existing directory, and \<open>..\<close> goes back to the parent of the directory reached.\<close>

datatype node = NodeDir | NodeFile str | NodeLink path

type_synonym tree = "(path \<times> node) list"

fun lookup_from :: "tree \<Rightarrow> path \<Rightarrow> path \<Rightarrow> path option" where
  "lookup_from t cur [] = Some cur"
| "lookup_from t cur (c # cs) =
     (if map_of t cur \<noteq> Some NodeDir then None
      else case c of
        RootDir \<Rightarrow> lookup_from t [RootDir] cs
      | CurDir \<Rightarrow> lookup_from t cur cs
      | ParentDir \<Rightarrow> lookup_from t (path_pop cur) cs
      | Normal n \<Rightarrow> lookup_from t (cur @ [Normal n]) cs)"

definition lookup_path :: "tree \<Rightarrow> path \<Rightarrow> node option" where
  "lookup_path t p = Option.bind (lookup_from t [RootDir] p) (map_of t)"

text \<open>\<open>stat\<close> and \<open>read\<close> follow one link.\<close>

definition follow :: "tree \<Rightarrow> path \<Rightarrow> node option" where
  "follow t p = (case lookup_path t p of Some (NodeLink q) \<Rightarrow> lookup_path t q | r \<Rightarrow> r)"

definition disk_of :: "tree \<Rightarrow> disk" where
  "disk_of t =
     \<lparr>fs_is_symlink = (\<lambda>p. case lookup_path t p of Some (NodeLink _) \<Rightarrow> True | _ \<Rightarrow> False),
      fs_canonicalize = (\<lambda>p. Err ''''),
      fs_metadata = (\<lambda>p. case follow t p of
          Some (NodeFile s) \<Rightarrow> Ok (length s, False) | Some NodeDir \<Rightarrow> Ok (0, True) | _ \<Rightarrow> Err ''not found''),
      fs_read = (\<lambda>p. case follow t p of Some (NodeFile s) \<Rightarrow> Ok s | _ \<Rightarrow> Err ''not found''),
      fs_walk = (\<lambda>_. [])\<rparr>"

definition ws_dir :: path where
  "ws_dir = [RootDir, Normal ''ws'']"

text \<open>A workspace with a link to a file outside it.\<close>

definition linked_tree :: tree where
  "linked_tree =
     [([RootDir], NodeDir), (ws_dir, NodeDir), (ws_dir @ [Normal ''link''], NodeLink [RootDir, Normal ''secret'']),
      ([RootDir, Normal ''secret''], NodeFile ''key'')]"

definition limits_ex :: eval_limits where
  "limits_ex = \<lparr>max_func_args = 8, max_str_size = 8, max_list_len = 8, max_iterations = 8, max_file_bytes = 8\<rparr>"

definition call_cx_ex :: call_cx where
  "call_cx_ex = \<lparr>cx_workspace_root = ws_dir, cx_env_vars = Mock, cx_limits = limits_ex\<rparr>"

lemmas tree_eval = linked_tree_def ws_dir_def disk_of_def lookup_path_def follow_def call_cx_ex_def
  parse_path_def path_body_def component_of_def is_absolute_def path_join_def path_pop_def path_parent_def

section \<open>JSON\<close>

text \<open>The value a round trip through JSON returns: objects sorted by key with the last binding of a key,
  non-finite numbers \<open>null\<close>.\<close>

fun json_canon :: "value \<Rightarrow> value" where
  "json_canon (VNumber f) = (if f64_is_finite f then VNumber f else VNull)"
| "json_canon (VList vs) = VList (map json_canon vs)"
| "json_canon (VMap es) =
     VMap (fold (\<lambda>(k, j). btree_insert k j) (map (\<lambda>(k, v). (k, json_canon v)) es) [])"
| "json_canon v = v"

lemma btree_insert_map: "map (\<lambda>(k, v). (k, f v)) (btree_insert k v m) = btree_insert k (f v) (map (\<lambda>(k, v). (k, f v)) m)"
  by (induction k v m rule: btree_insert.induct) auto

lemma fold_btree_map:
  "map (\<lambda>(k, v). (k, f v)) (fold (\<lambda>(k, j). btree_insert k j) es m) =
   fold (\<lambda>(k, j). btree_insert k j) (map (\<lambda>(k, v). (k, f v)) es) (map (\<lambda>(k, v). (k, f v)) m)"
  by (induction es arbitrary: m) (auto simp: btree_insert_map)

lemma set_btree_insert: "set (btree_insert k v m) \<subseteq> insert (k, v) (set m)"
  by (induction k v m rule: btree_insert.induct) auto

lemma set_fold_btree: "set (fold (\<lambda>(k, j). btree_insert k j) es m) \<subseteq> set es \<union> set m"
proof (induction es arbitrary: m)
  case (Cons e es)
  obtain k j where e: "e = (k, j)" by (cases e)
  from Cons.IH [of "btree_insert k j m"] set_btree_insert [of k j m] show ?case by (auto simp: e)
qed simp

lemma map_result_map_Ok: "(\<And>x. x \<in> set xs \<Longrightarrow> f x = Ok (g x)) \<Longrightarrow> map_result f xs = Ok (map g xs)"
  by (induction xs) auto

text \<open>The lists of a value are within the limit \<open>jsondecode\<close> checks.\<close>

fun lists_within :: "nat \<Rightarrow> value \<Rightarrow> bool" where
  "lists_within n (VList vs) = (length vs \<le> n \<and> list_all (lists_within n) vs)"
| "lists_within n (VMap es) = list_all (\<lambda>e. lists_within n (snd e)) es"
| "lists_within n _ = True"

lemma json_to_value_to_json:
  "value_wf v \<Longrightarrow> lists_within (max_list_len (cx_limits cx)) v \<Longrightarrow> json_to_value n cx (value_to_json v) = Ok (json_canon v)"
proof (induction v)
  case (VList vs)
  have "map_result (\<lambda>i. json_to_value n cx i) (map value_to_json vs) = Ok (map json_canon vs)"
  proof -
    have "map_result (\<lambda>v. json_to_value n cx (value_to_json v)) vs = Ok (map json_canon vs)"
      by (rule map_result_map_Ok) (use VList in \<open>auto simp: list_all_iff\<close>)
    moreover have "map_result f (map g xs) = map_result (\<lambda>x. f (g x)) xs" for f :: "json \<Rightarrow> func_error + value" and g and xs :: "value list"
      by (induction xs) simp_all
    ultimately show ?thesis by simp
  qed
  with VList.prems show ?case by (simp add: check_list_len_def)
next
  case (VMap es)
  let ?js = "fold (\<lambda>(k, j). btree_insert k j) es []"
  have ok: "json_to_value n cx (value_to_json v) = Ok (json_canon v)" if "(k, v) \<in> set es" for k v
    using VMap.IH [OF that] VMap.prems that by (fastforce simp: list_all_iff)
  have "value_to_json (VMap es) = JObj (map (\<lambda>(k, v). (k, value_to_json v)) ?js)"
    by (simp only: value_to_json.simps fold_btree_map list.map)
  moreover have "map_result (\<lambda>(k, j). and_then (json_to_value n cx j) (\<lambda>v. Ok (k, v))) (map (\<lambda>(k, v). (k, value_to_json v)) js) =
      Ok (map (\<lambda>(k, v). (k, json_canon v)) js)" if "set js \<subseteq> set es" for js
    using that ok by (induction js) auto
  moreover have "set ?js \<subseteq> set es" using set_fold_btree [of es "[]"] by simp
  ultimately have "json_to_value n cx (value_to_json (VMap es)) = Ok (VMap (map (\<lambda>(k, v). (k, json_canon v)) ?js))"
    by simp
  then show ?case by (simp only: json_canon.simps fold_btree_map list.map)
qed simp_all

section \<open>Properties\<close>

text \<open>A host for the examples: the JSON printer and reader know one document.\<close>

text \<open>C16. What the path sandbox accepts without following links lies under the root, in canonical form, and, if the
  candidate does not go up with \<open>..\<close>, no component of it is a symbolic link.\<close>

theorem canonicalize_inside_safe:
  assumes "canonicalize_inside fs (parse_path s) wroot Reject = Ok p" and "canonical_form wroot" and "is_absolute wroot"
  shows "prefix wroot p \<and> canonical_form p \<and>
    (ParentDir \<notin> set (parse_path s) \<longrightarrow> (\<forall>q. prefix q p \<longrightarrow> q \<noteq> [] \<longrightarrow> last q \<noteq> RootDir \<longrightarrow> \<not> fs_is_symlink fs q))"
proof -
  let ?j = "if is_absolute (parse_path s) then parse_path s else path_join wroot (parse_path s)"
  from assms(1) have p: "p = lexically_normalize ?j" and n: "check_no_symlink_ancestors fs ?j = Ok ()" and r: "prefix wroot p"
    by (auto elim!: canonicalize_inside_Ok_cases)
  have "\<not> fs_is_symlink fs q" if up: "ParentDir \<notin> set (parse_path s)" and q: "prefix q p" "q \<noteq> []" "last q \<noteq> RootDir" for q
  proof -
    have "p = ?j" unfolding p by (rule lexically_normalize_id [OF joined_canonical [OF assms(2,3) up]])
    with no_symlink_prefix [OF n _ q(2,3)] q(1) show ?thesis by simp
  qed
  with p r lexically_normalize_canonical show ?thesis by blast
qed

theorem canonicalize_inside_safe_witness:
  "prefix ws_dir (ws_dir @ [Normal ''main.tf'']) \<and> \<not> fs_is_symlink (disk_fs (disk_of linked_tree)) (ws_dir @ [Normal ''main.tf''])"
proof -
  let ?fs = "disk_fs (disk_of linked_tree)" and ?p = "ws_dir @ [Normal ''main.tf'']"
  have c: "canonicalize_inside ?fs (parse_path ''main.tf'') ws_dir Reject = Ok ?p" by code_simp
  have f: "canonical_form ws_dir" "is_absolute ws_dir" "ParentDir \<notin> set (parse_path ''main.tf'')" by code_simp+
  from canonicalize_inside_safe [OF c f(1,2)] f(3) show ?thesis by simp
qed

text \<open>A candidate that goes up through a missing directory passes the symlink check: every \<open>lstat\<close> on the way
  fails, which the check takes for harmless, and normalising the path then names a link it never looked at.  So
  \<open>file("link")\<close> is refused and \<open>file("missing/../link")\<close> returns the contents of the file outside the root.\<close>

theorem symlink_check_bypass:
  "canonicalize_inside (disk_fs (disk_of linked_tree)) (parse_path ''link'') ws_dir Reject
     = Err (UnexpectedSymlink (ws_dir @ [Normal ''link''])) \<and>
   canonicalize_inside (disk_fs (disk_of linked_tree)) (parse_path ''missing/../link'') ws_dir Reject
     = Ok (ws_dir @ [Normal ''link'']) \<and>
   file_fn (disk_of linked_tree) [VStr ''missing/../link''] call_cx_ex = Ok (VStr ''key'')"
  by code_simp

text \<open>C15. Evaluation is sandboxed where the root holds no symbolic links.  With the default functions, reducing any
  expression gives the same result on two hosts that differ in the contents, the existence and the listings of everything
  outside the workspace root and in the environment variables the mode does not allow: neither can reach the output.
  Two things are not hidden, and the hypotheses name them.  Without a link below the root there is none to bypass the check
  with (\<open>symlink_check_bypass\<close>); and which paths of the host are links must be the same, because a candidate may go
  through directories outside the root and back (\<open>outside_links_visible\<close>).\<close>

theorem evaluation_sandboxed:
  assumes "disks_agree (sc_workspace_root sc) d d'" and "hosts_agree (sc_env_vars sc) h h'"
  shows "reduce e (with_funcs (default_with_stdlib h d) sc) = reduce e (with_funcs (default_with_stdlib h' d') sc)"
proof (rule reduce_funcs_cong)
  show "funcs_agree (scope_cx sc) (default_with_stdlib h d) (default_with_stdlib h' d')"
    by (rule default_registry_agree) (use assms in \<open>simp_all add: scope_cx_def\<close>)
qed

text \<open>Two hosts with the same workspace and different secrets next to it.\<close>

definition secret_tree :: "str \<Rightarrow> tree" where
  "secret_tree s =
     [([RootDir], NodeDir), (ws_dir, NodeDir), (ws_dir @ [Normal ''main''], NodeFile ''abc''),
      ([RootDir, Normal ''secret''], NodeFile s)]"

lemma secret_tree_lookup:
  "map_of (secret_tree s) p \<noteq> Some (NodeLink q)"
  "map_of (secret_tree s) p = Some NodeDir \<longleftrightarrow> p = [RootDir] \<or> p = ws_dir"
  "p \<noteq> [RootDir, Normal ''secret''] \<Longrightarrow> map_of (secret_tree s) p = map_of (secret_tree t) p"
  by (auto simp: secret_tree_def ws_dir_def)

lemma secret_tree_walk: "lookup_from (secret_tree s) cur cs = lookup_from (secret_tree t) cur cs"
  by (induction cs arbitrary: cur) (auto simp: secret_tree_lookup(2) split: path_component.split)

lemma lookup_from_normals:
  "set cs \<subseteq> range Normal \<Longrightarrow> lookup_from t cur cs = Some p \<Longrightarrow> p = cur @ cs"
  by (induction t cur cs rule: lookup_from.induct) (auto split: if_splits)

lemma secret_tree_below:
  assumes "prefix ws_dir p" "canonical_form p"
  shows "lookup_path (secret_tree s) p = lookup_path (secret_tree t) p"
proof -
  obtain r where r: "p = ws_dir @ r" using assms(1) by (auto simp: prefix_def)
  have "set r \<subseteq> range Normal"
  proof
    fix c assume "c \<in> set r"
    with assms(2) show "c \<in> range Normal" by (cases c) (auto simp: r ws_dir_def canonical_form_def)
  qed
  then have "q = ws_dir @ r" if "lookup_from (secret_tree t) [RootDir] p = Some q" for q
    using that lookup_from_normals [of "Normal ''ws'' # r" "secret_tree t" "[RootDir]" q]
    by (auto simp: r ws_dir_def split: if_splits)
  then show ?thesis
    unfolding lookup_path_def secret_tree_walk [of s _ _ t]
    by (cases "lookup_from (secret_tree t) [RootDir] p") (auto simp: ws_dir_def intro!: secret_tree_lookup(3))
qed

lemma secret_disks_agree: "disks_agree ws_dir (disk_of (secret_tree s)) (disk_of (secret_tree t))"
proof -
  have no_link: "lookup_path (secret_tree s) p \<noteq> Some (NodeLink q)" for s p q
    using secret_tree_lookup(1) by (cases "lookup_from (secret_tree s) [RootDir] p") (simp_all add: lookup_path_def)
  then have plain: "fs_is_symlink (disk_of (secret_tree s)) = (\<lambda>_. False)" for s
    by (auto simp: disk_of_def fun_eq_iff split: option.split node.split)
  have "follow (secret_tree s) p = follow (secret_tree t) p" if "prefix ws_dir p" "canonical_form p" for p
    using secret_tree_below [OF that, of s t] no_link by (auto simp: follow_def split: option.split node.split)
  then show ?thesis
    by (auto simp: disks_agree_def no_links_below_def own_path_def plain same_entry_def) (simp_all add: disk_of_def)
qed

theorem evaluation_sandboxed_witness:
  "reduce (EArray [EFuncCall ''file'' [Literal (VStr ''main'')] sp0, EFuncCall ''file'' [Literal (VStr ''/secret'')] sp0])
      (with_funcs (default_with_stdlib (host_ex (\<lambda>_. Some ''/root'')) (disk_of (secret_tree ''key''))) scope_env)
   = reduce (EArray [EFuncCall ''file'' [Literal (VStr ''main'')] sp0, EFuncCall ''file'' [Literal (VStr ''/secret'')] sp0])
      (with_funcs (default_with_stdlib (host_ex (\<lambda>_. None)) (disk_of (secret_tree ''other''))) scope_env) \<and>
   file_fn (disk_of (secret_tree ''key'')) [VStr ''main''] call_cx_ex = Ok (VStr ''abc'')"
proof (rule conjI [OF evaluation_sandboxed])
  show "disks_agree (sc_workspace_root scope_env) (disk_of (secret_tree ''key'')) (disk_of (secret_tree ''other''))"
    using secret_disks_agree by (simp add: scope_env_def scope_of_def ws_dir_def)
  show "hosts_agree (sc_env_vars scope_env) (host_ex (\<lambda>_. Some ''/root'')) (host_ex (\<lambda>_. None))"
    by (simp add: hosts_agree_def host_ex_def scope_env_def scope_of_def env_var_mode_default_def)
  show "file_fn (disk_of (secret_tree ''key'')) [VStr ''main''] call_cx_ex = Ok (VStr ''abc'')" by code_simp
qed

text \<open>Whether a path outside the root is a link does reach the output: the candidate \<open>../x/../ws/main\<close> names a file
  of the workspace, and is read or refused depending on what \<open>/x\<close> is.\<close>

lemma outside_links_visible:
  "file_fn (disk_of (([RootDir, Normal ''x''], NodeDir) # secret_tree s)) [VStr ''../x/../ws/main''] call_cx_ex = Ok (VStr ''abc'')"
  "file_fn (disk_of (([RootDir, Normal ''x''], NodeLink ws_dir) # secret_tree s)) [VStr ''../x/../ws/main''] call_cx_ex
     = Err (FPathEscape ''file'' (ws_dir @ [ParentDir, Normal ''x'']))"
  by code_simp+

text \<open>C17. The results of the functions are bounded: from arguments without a string longer than \<open>max_str_size\<close> or a
  list longer than \<open>max_list_len\<close> at any depth, every registered function but \<open>jsondecode\<close>, \<open>file\<close>, \<open>fileset\<close> and
  \<open>get_env\<close> returns a value with the same bounds.\<close>

theorem default_functions_bounded:
  assumes "default_with_stdlib h d n = Some f" and "n \<notin> set unbounded_names"
    and "list_all (bounded (cx_limits cx)) vs" and "f vs cx = Ok v"
  shows "bounded (cx_limits cx) v"
proof -
  from default_registry_in [OF assms(1)] default_table_bounded [of h d] assms(2) have "bd.keeps f"
    by (auto simp: list_all_iff)
  with assms(3,4) show ?thesis by (auto simp: bd.keeps_def)
qed

theorem default_functions_bounded_witness:
  "bounded limits_ex (VList [VInt 1, VInt 2])"
proof -
  have r: "default_with_stdlib (host_ex (\<lambda>_. None)) (disk_of linked_tree) ''flatten'' = Some flatten_fn"
    by (simp add: default_registry_lookup default_table_def stdlib_table_def)
  have n: "''flatten'' \<notin> set unbounded_names" by code_simp
  have l: "cx_limits call_cx_ex = limits_ex" by (simp add: call_cx_ex_def)
  have a: "list_all (bounded (cx_limits call_cx_ex)) [VList [VInt 1, VList [VInt 2]]]"
    by (simp add: l limits_ex_def)
  have v: "flatten_fn [VList [VInt 1, VList [VInt 2]]] call_cx_ex = Ok (VList [VInt 1, VInt 2])" by code_simp
  from default_functions_bounded [OF r n a v] show ?thesis by (simp only: l)
qed

text \<open>C18. \<open>jsondecode\<close> inverts \<open>jsonencode\<close>: if the JSON reader reads back the text the writer gives for this
  document, decoding the encoding of a value returns the value with its maps sorted by key, the last binding of
  a repeated key kept, and non-finite numbers replaced by \<open>null\<close>.\<close>

theorem json_roundtrip:
  assumes "h_json_parse h (h_json_print h (value_to_json v)) = Ok (value_to_json v)"
    and "value_wf v" and "lists_within (max_list_len (cx_limits cx)) v"
    and "jsonencode_fn h [v] cx = Ok w"
  shows "jsondecode_fn h [w] cx = Ok (json_canon v)"
  using assms json_to_value_to_json [OF assms(2,3)]
  by (auto simp: jsonencode_fn_def jsondecode_fn_def arg_first_def arg_str_def arg_get_def sized_str_Ok)

theorem json_roundtrip_witness:
  "jsondecode_fn (host_ex (\<lambda>_. None)) [VStr ''doc''] call_cx_ex = Ok (VMap [(''a'', VList [VBool True, VNull]), (''b'', VInt 1)])"
proof -
  let ?h = "host_ex (\<lambda>_. None)"
  have p: "h_json_parse ?h (h_json_print ?h (value_to_json json_doc)) = Ok (value_to_json json_doc)"
    by (simp add: host_ex_def)
  have w: "value_wf json_doc" by (simp add: json_doc_def in_i64_def i64_min_def i64_max_def)
  have l: "lists_within (max_list_len (cx_limits call_cx_ex)) json_doc"
    by (simp add: json_doc_def call_cx_ex_def limits_ex_def)
  have e: "jsonencode_fn ?h [json_doc] call_cx_ex = Ok (VStr ''doc'')"
    by (simp add: jsonencode_fn_def arg_first_def sized_str_Ok host_ex_def call_cx_ex_def limits_ex_def)
  have c: "json_canon json_doc = VMap [(''a'', VList [VBool True, VNull]), (''b'', VInt 1)]" by code_simp
  from json_roundtrip [OF p w l e] show ?thesis by (simp only: c)
qed

text \<open>With the default registry the scope hypothesis of the reducer's type preservation holds.\<close>

lemma default_scope_wf:
  "host_wf h \<Longrightarrow> map_wf (sc_vars sc) \<Longrightarrow> map_wf (sc_locals sc) \<Longrightarrow> map_wf (sc_binders sc) \<Longrightarrow>
   scope_wf (with_funcs (default_with_stdlib h d) sc)"
proof -
  assume a: "host_wf h" "map_wf (sc_vars sc)" "map_wf (sc_locals sc)" "map_wf (sc_binders sc)"
  have "wf.keeps f" if "default_with_stdlib h d n = Some f" for n f
    using default_table_wf [OF a(1), of d] default_registry_in [OF that] by (auto simp: list_all_iff)
  with a(2-4) show ?thesis
    by (auto simp: scope_wf_def with_funcs_def wf.keeps_def)
qed

end
