(* ===== verification/Discovery.thy ===== *)
theory Discovery
  imports FileFns ProfileMap
begin

text \<open>Workspace discovery (\<open>discovery/\<close>): the options and their glob sets, the directory classifier, and the
  consumer loop of the walk with the grouping of files by directory.

  Three crates are arguments.  \<open>globset\<close> is the record \<open>glob_engine\<close> (compile a pattern, build a set, whose
  value is the match predicate on paths); \<open>regex\<close> is \<open>regex_set\<close>, from the pattern texts to the predicate
  that tells which of them match a text; \<open>ignore\<close> is \<open>walker\<close>, from its configuration to the entries it yields, in
  order, each an error text or an entry.\<close>

section \<open>Errors (\<open>error.rs\<close>, \<open>ExportError\<close> of \<open>exporter/mod.rs\<close>)\<close>

datatype export_error =
    XOutputExists path
  | XOutDirMissing path
  | XOutDirNotDir path
  | XIo path str
  | XParquet path str
  | XArrow path str
  | XManifest path str

datatype core_error =
    CoreValidation validation_error
  | CoreIo path str
  | CoreLimit limit_kind nat nat
  | CoreProvider provider_error
  | CoreExport export_error

section \<open>Output types (\<open>types.rs\<close>) and reasons (\<open>classifier.rs\<close>)\<close>

datatype dir_kind = DkComponent | DkModule | DkEnvironments | DkFiles | DkOther

datatype classification_reason =
    CrTerragruntInclude | CrBackendBlock | CrHasResources | CrModuleGlob | CrVariablesOnly
  | CrEnvironmentsDir | CrDataOnly | CrUnknown

record discovered_file =
  df_path :: path
  df_ext :: file_ext
  df_size :: nat

record discovered_dir =
  dd_path :: path
  dd_kind :: dir_kind
  dd_reason :: classification_reason
  dd_files :: "discovered_file list"

record discovered =
  dc_root :: path
  dc_components :: "discovered_dir list"
  dc_modules :: "discovered_dir list"
  dc_envs_dir :: "path option"
  dc_root_hcl :: "path option"
  dc_diagnostics :: "diagnostic list"

definition discovered_dir_new ::
  "path \<Rightarrow> dir_kind \<Rightarrow> classification_reason \<Rightarrow> discovered_file list \<Rightarrow> discovered_dir" where
  "discovered_dir_new p kind reason files = \<lparr>dd_path = p, dd_kind = kind, dd_reason = reason, dd_files = files\<rparr>"

section \<open>Options (\<open>options.rs\<close>)\<close>

definition max_glob_pattern_bytes :: nat where
  "max_glob_pattern_bytes = 256"

definition max_discovery_threads :: nat where
  "max_discovery_threads = 8"

type_synonym glob_set = "path \<Rightarrow> bool"

record 'g glob_engine =
  ge_new :: "str \<Rightarrow> str + 'g"
  ge_build :: "'g list \<Rightarrow> str + glob_set"

datatype glob_config_error = GlobTooLong str nat nat | GlobInvalid str str

definition glob_set_empty :: glob_set where
  "glob_set_empty = (\<lambda>_. False)"

definition compile_glob :: "'g glob_engine \<Rightarrow> str \<Rightarrow> glob_config_error + 'g" where
  "compile_glob ge pat =
     (if length pat > max_glob_pattern_bytes then Err (GlobTooLong pat (length pat) max_glob_pattern_bytes)
      else map_err (GlobInvalid pat) (ge_new ge pat))"

definition compile_glob_set :: "'g glob_engine \<Rightarrow> str list \<Rightarrow> glob_config_error + glob_set" where
  "compile_glob_set ge pats =
     and_then (map_result (compile_glob ge) pats) (\<lambda>globs. map_err (GlobInvalid []) (ge_build ge globs))"

definition or_empty_set :: "glob_config_error + glob_set \<Rightarrow> glob_set" where
  "or_empty_set r = (case r of Inl _ \<Rightarrow> glob_set_empty | Inr s \<Rightarrow> s)"

definition default_exclude_globset :: "'g glob_engine \<Rightarrow> glob_set" where
  "default_exclude_globset ge = or_empty_set (compile_glob_set ge
     [''**/.git'', ''**/.git/**'', ''**/.terraform'', ''**/.terraform/**'', ''**/.terragrunt-cache'',
      ''**/.terragrunt-cache/**''])"

definition default_module_globset :: "'g glob_engine \<Rightarrow> glob_set" where
  "default_module_globset ge = or_empty_set (compile_glob_set ge
     [''modules/*'', ''modules/**'', ''modules-tf12/*'', ''modules-tf12/**'', ''**/modules/*'', ''**/modules-tf12/*''])"

record discovery_options =
  do_follow_symlinks :: bool
  do_max_depth :: nat
  do_max_file_size_bytes :: nat
  do_max_total_files :: nat
  do_exclude_globs :: glob_set
  do_module_globs :: glob_set
  do_threads :: nat

definition discovery_defaults :: "'g glob_engine \<Rightarrow> discovery_options" where
  "discovery_defaults ge =
     \<lparr>do_follow_symlinks = False, do_max_depth = 16, do_max_file_size_bytes = 8 * 1024 * 1024,
      do_max_total_files = 200000, do_exclude_globs = default_exclude_globset ge,
      do_module_globs = default_module_globset ge, do_threads = 0\<rparr>"

definition effective_threads :: "discovery_options \<Rightarrow> nat" where
  "effective_threads opts =
     (if do_threads opts > max_discovery_threads then max_discovery_threads else do_threads opts)"

section \<open>The probes (\<open>classifier.rs\<close>)\<close>

record file_signals =
  sig_terraform :: bool
  sig_backend :: bool
  sig_resource :: bool
  sig_data :: bool
  sig_variable :: bool
  sig_include :: bool

definition no_signals :: file_signals where
  "no_signals = \<lparr>sig_terraform = False, sig_backend = False, sig_resource = False, sig_data = False,
     sig_variable = False, sig_include = False\<rparr>"

definition signals_merge :: "file_signals \<Rightarrow> file_signals \<Rightarrow> file_signals" where
  "signals_merge a b =
     \<lparr>sig_terraform = (sig_terraform a \<or> sig_terraform b), sig_backend = (sig_backend a \<or> sig_backend b),
      sig_resource = (sig_resource a \<or> sig_resource b), sig_data = (sig_data a \<or> sig_data b),
      sig_variable = (sig_variable a \<or> sig_variable b), sig_include = (sig_include a \<or> sig_include b)\<rparr>"

text \<open>The pattern texts, from the fragments they share: a line start, optional and mandatory white space, a
  quoted label, and the opening brace.\<close>

definition rx_space :: str where "rx_space = [CHR 0x5C] @ ''s*''"
definition rx_spaces :: str where "rx_spaces = [CHR 0x5C] @ ''s+''"
definition rx_line :: str where "rx_line = ''(?m)^'' @ rx_space"
definition rx_label :: str where "rx_label = [CHR 0x22] @ ''[^'' @ [CHR 0x22] @ '']+'' @ [CHR 0x22]"
definition rx_brace :: str where "rx_brace = rx_space @ [CHR 0x5C] @ ''{''"

definition probe_patterns :: "str list" where
  "probe_patterns =
     [rx_line @ ''terraform'' @ rx_brace,
      rx_line @ ''backend'' @ rx_spaces @ rx_label @ rx_brace,
      rx_line @ ''resource'' @ rx_spaces @ rx_label @ rx_spaces @ rx_label @ rx_brace,
      rx_line @ ''data'' @ rx_spaces @ rx_label @ rx_spaces @ rx_label @ rx_brace,
      rx_line @ ''variable'' @ rx_spaces @ rx_label @ rx_brace,
      rx_line @ ''include('' @ rx_spaces @ [CHR 0x22] @ ''[^'' @ [CHR 0x22] @ '']*'' @ [CHR 0x22] @ '')?'' @ rx_brace]"

type_synonym regex_set = "str list \<Rightarrow> str + (str \<Rightarrow> nat \<Rightarrow> bool)"

definition probe_set :: "regex_set \<Rightarrow> str \<Rightarrow> nat \<Rightarrow> bool" where
  "probe_set rx = (case rx probe_patterns of Inl _ \<Rightarrow> (\<lambda>_ _. False) | Inr s \<Rightarrow> s)"

definition probe_file :: "regex_set \<Rightarrow> str \<Rightarrow> file_signals" where
  "probe_file rx bytes =
     (case from_utf8 bytes of
        Inl _ \<Rightarrow> no_signals
      | Inr s \<Rightarrow>
          \<lparr>sig_terraform = probe_set rx s 0, sig_backend = probe_set rx s 1, sig_resource = probe_set rx s 2,
           sig_data = probe_set rx s 3, sig_variable = probe_set rx s 4, sig_include = probe_set rx s 5\<rparr>)"

section \<open>Classification (\<open>classifier.rs\<close>)\<close>

definition component_reason ::
  "bool \<Rightarrow> bool \<Rightarrow> file_signals \<Rightarrow> classification_reason option" where
  "component_reason has_terragrunt_hcl module_glob_match signals =
     (if has_terragrunt_hcl \<and> sig_include signals then Some CrTerragruntInclude
      else if sig_backend signals \<and> sig_terraform signals then Some CrBackendBlock
      else if (sig_resource signals \<or> sig_data signals) \<and> \<not> module_glob_match then Some CrHasResources
      else None)"

definition classify ::
  "path \<Rightarrow> file_signals \<Rightarrow> discovered_file list \<Rightarrow> discovery_options \<Rightarrow> bool \<Rightarrow>
   dir_kind \<times> classification_reason \<times> bool" where
  "classify rel signals files opts is_envs =
     (if is_envs then (DkEnvironments, CrEnvironmentsDir, False)
      else
        let module_glob_match = do_module_globs opts rel;
            has_terragrunt_hcl = list_ex (\<lambda>f. df_ext f = TerragruntHcl) files in
        (case component_reason has_terragrunt_hcl module_glob_match signals of
           Some reason \<Rightarrow> (DkComponent, reason, module_glob_match)
         | None \<Rightarrow>
             if module_glob_match then (DkModule, CrModuleGlob, False)
             else if sig_variable signals \<and> \<not> sig_resource signals \<and> \<not> sig_data signals
               \<and> \<not> sig_backend signals \<and> \<not> has_terragrunt_hcl then (DkModule, CrVariablesOnly, False)
             else if \<not> list_ex (\<lambda>f. is_hcl (df_ext f)) files \<and> files \<noteq> [] then (DkFiles, CrDataOnly, False)
             else (DkOther, CrUnknown, False)))"

section \<open>The walk (\<open>fs_walker.rs\<close>)\<close>

datatype file_type = FtDir | FtFile | FtSymlink | FtOther

record walk_entry =
  we_depth :: nat
  we_path :: path
  we_file_type :: "file_type option"
  we_metadata :: "str + nat"

record walk_config =
  wc_root :: path
  wc_follow_links :: bool
  wc_max_depth :: nat
  wc_standard_filters :: bool
  wc_git_ignore :: bool
  wc_git_exclude :: bool
  wc_git_global :: bool
  wc_require_git :: bool
  wc_hidden :: bool

type_synonym walker = "walk_config \<Rightarrow> (str + walk_entry) list"

definition build_walker :: "path \<Rightarrow> discovery_options \<Rightarrow> walk_config" where
  "build_walker wroot opts =
     \<lparr>wc_root = wroot, wc_follow_links = do_follow_symlinks opts, wc_max_depth = do_max_depth opts,
      wc_standard_filters = True, wc_git_ignore = True, wc_git_exclude = True, wc_git_global = True,
      wc_require_git = False, wc_hidden = True\<rparr>"

text \<open>The keys of \<open>groups\<close> are only looked up; \<open>seen_dirs\<close> is iterated in the order of paths.\<close>

record walk_state =
  ws_groups :: "path \<Rightarrow> discovered_file list option"
  ws_seen_dirs :: "path list"
  ws_diags :: "diagnostic list"
  ws_total_files :: nat

definition walk_state_new :: walk_state where
  "walk_state_new = \<lparr>ws_groups = (\<lambda>_. None), ws_seen_dirs = [[]], ws_diags = [], ws_total_files = 0\<rparr>"

definition push_diag :: "diagnostic \<Rightarrow> walk_state \<Rightarrow> walk_state" where
  "push_diag d st = st\<lparr>ws_diags := ws_diags st @ [d]\<rparr>"

definition see_dir :: "path \<Rightarrow> walk_state \<Rightarrow> walk_state" where
  "see_dir p st = st\<lparr>ws_seen_dirs := insort_insert p (ws_seen_dirs st)\<rparr>"

definition u64_max :: nat where
  "u64_max = 18446744073709551615"

text \<open>The last part of \<open>process_walk_entry\<close>, for a regular file that passed the filters.\<close>

definition record_file :: "discovery_options \<Rightarrow> path \<Rightarrow> file_ext \<Rightarrow> nat \<Rightarrow> walk_state \<Rightarrow> core_error + walk_state" where
  "record_file opts rel ext len st =
     (if ws_total_files st \<ge> u64_max then Err (CoreLimit LkTotalFiles u64_max (do_max_total_files opts))
      else
        let total = ws_total_files st + 1;
            parent_rel = (case path_parent rel of None \<Rightarrow> [] | Some p \<Rightarrow> p);
            file = \<lparr>df_path = rel, df_ext = ext, df_size = len\<rparr>;
            st = see_dir parent_rel (st\<lparr>ws_total_files := total\<rparr>)
        in if total > do_max_total_files opts then Err (CoreLimit LkTotalFiles total (do_max_total_files opts))
           else Ok (st\<lparr>ws_groups := (ws_groups st)(parent_rel \<mapsto>
                  (case ws_groups st parent_rel of None \<Rightarrow> [] | Some fs \<Rightarrow> fs) @ [file])\<rparr>))"

definition process_file :: "discovery_options \<Rightarrow> path \<Rightarrow> str + nat \<Rightarrow> walk_state \<Rightarrow> core_error + walk_state" where
  "process_file opts rel metadata st =
     (case metadata of
        Inl e \<Rightarrow> Ok (push_diag (diagnostic_new SevWarn ''TF1102''
                  (''metadata error for '' @ path_str rel @ '': '' @ e)) st)
      | Inr len \<Rightarrow>
          if len > do_max_file_size_bytes opts then
            Ok (push_diag (diagnostic_limit LkFileSize ''TF1103''
              (''file exceeds size limit and was skipped: '' @ path_str rel @ '' ('' @ nat_str len @ '' > ''
               @ nat_str (do_max_file_size_bytes opts) @ '')'')) st)
          else (case file_ext_classify rel of
            None \<Rightarrow> Ok st
          | Some ext \<Rightarrow> record_file opts rel ext len st))"

definition process_walk_entry ::
  "path \<Rightarrow> discovery_options \<Rightarrow> walk_entry \<Rightarrow> walk_state \<Rightarrow> core_error + walk_state" where
  "process_walk_entry canonical_root opts entry st =
     (if we_depth entry = 0 then Ok st
      else case path_strip_prefix canonical_root (we_path entry) of
        None \<Rightarrow> Ok (push_diag (diagnostic_new SevWarn ''TF1101''
                  (''dropping entry outside workspace root: '' @ path_str (we_path entry))) st)
      | Some rel \<Rightarrow>
          if do_exclude_globs opts rel then Ok st
          else (case we_file_type entry of
            None \<Rightarrow> Ok st
          | Some FtDir \<Rightarrow> Ok (see_dir rel st)
          | Some FtSymlink \<Rightarrow> Ok (push_diag (diagnostic_new SevTrace ''TF1110''
                              (''skipped symlink: '' @ path_str rel)) st)
          | Some FtOther \<Rightarrow> Ok st
          | Some FtFile \<Rightarrow> process_file opts rel (we_metadata entry) st))"

definition walk_error_to_diagnostic :: "str \<Rightarrow> diagnostic" where
  "walk_error_to_diagnostic e = diagnostic_new SevWarn ''TF1100'' (''walk error: '' @ e)"

fun walk_entries ::
  "path \<Rightarrow> discovery_options \<Rightarrow> (str + walk_entry) list \<Rightarrow> walk_state \<Rightarrow> core_error + walk_state" where
  "walk_entries canonical_root opts [] st = Ok st"
| "walk_entries canonical_root opts (r # rs) st =
     (case r of
        Inl e \<Rightarrow> walk_entries canonical_root opts rs (push_diag (walk_error_to_diagnostic e) st)
      | Inr entry \<Rightarrow> and_then (process_walk_entry canonical_root opts entry st) (walk_entries canonical_root opts rs))"

definition walk_workspace :: "walker \<Rightarrow> path \<Rightarrow> discovery_options \<Rightarrow> core_error + walk_state" where
  "walk_workspace wk canonical_root opts =
     walk_entries canonical_root opts (wk (build_walker canonical_root opts)) walk_state_new"

section \<open>Grouping and classification (\<open>fs_walker.rs\<close>)\<close>

text \<open>The file system as the workspace code queries it: \<open>Path::exists\<close> and \<open>Path::is_file\<close> besides the calls
  of \<open>disk\<close>.\<close>

record workspace_disk = disk +
  fs_exists :: "path \<Rightarrow> bool"
  fs_is_file :: "path \<Rightarrow> bool"

definition aggregate_signals :: "regex_set \<Rightarrow> workspace_disk \<Rightarrow> path \<Rightarrow> discovered_file list \<Rightarrow> nat \<Rightarrow> file_signals" where
  "aggregate_signals rx d wroot files max_bytes =
     fold (\<lambda>f signals.
        if \<not> is_hcl (df_ext f) then signals
        else if df_size f > max_bytes then signals
        else (case fs_read d (path_join wroot (df_path f)) of
            Inl _ \<Rightarrow> signals
          | Inr bytes \<Rightarrow> signals_merge signals (probe_file rx bytes))) files no_signals"

definition is_workspace_environments_dir :: "path \<Rightarrow> bool" where
  "is_workspace_environments_dir rel = (case rel of [c] \<Rightarrow> component_str c = ''environments'' | _ \<Rightarrow> False)"

record classified =
  cl_components :: "discovered_dir list"
  cl_modules :: "discovered_dir list"
  cl_envs_dir :: "path option"
  cl_diags :: "diagnostic list"

definition dir_files :: "walk_state \<Rightarrow> path \<Rightarrow> discovered_file list" where
  "dir_files st rel = (case ws_groups st rel of None \<Rightarrow> [] | Some fs \<Rightarrow> fs)"

definition dir_class ::
  "regex_set \<Rightarrow> workspace_disk \<Rightarrow> path \<Rightarrow> discovery_options \<Rightarrow> walk_state \<Rightarrow> path \<Rightarrow>
   dir_kind \<times> classification_reason \<times> bool" where
  "dir_class rx d canonical_root opts st rel =
     classify rel (aggregate_signals rx d canonical_root (dir_files st rel) (do_max_file_size_bytes opts))
       (dir_files st rel) opts (is_workspace_environments_dir rel)"

definition ambiguity_diag :: "path \<Rightarrow> diagnostic" where
  "ambiguity_diag rel = diagnostic_new SevInfo ''TF1120''
     (''directory is ambiguous (matches both component and module heuristics); component classification kept: ''
      @ path_str rel)"

definition classify_dir ::
  "regex_set \<Rightarrow> workspace_disk \<Rightarrow> path \<Rightarrow> discovery_options \<Rightarrow> walk_state \<Rightarrow> path \<Rightarrow> classified \<Rightarrow> classified" where
  "classify_dir rx d canonical_root opts st rel acc =
     (let files = dir_files st rel;
          (kind, reason, ambiguous) = dir_class rx d canonical_root opts st rel;
          acc = (if ambiguous then acc\<lparr>cl_diags := cl_diags acc @ [ambiguity_diag rel]\<rparr> else acc)
      in (case kind of
            DkComponent \<Rightarrow>
              acc\<lparr>cl_components := cl_components acc @ [discovered_dir_new rel kind reason files]\<rparr>
          | DkModule \<Rightarrow> acc\<lparr>cl_modules := cl_modules acc @ [discovered_dir_new rel kind reason files]\<rparr>
          | DkEnvironments \<Rightarrow> acc\<lparr>cl_envs_dir := Some rel\<rparr>
          | DkFiles \<Rightarrow> acc
          | DkOther \<Rightarrow> acc))"

definition classify_dirs ::
  "regex_set \<Rightarrow> workspace_disk \<Rightarrow> path \<Rightarrow> discovery_options \<Rightarrow> walk_state \<Rightarrow> classified" where
  "classify_dirs rx d canonical_root opts st =
     fold (classify_dir rx d canonical_root opts st) (ws_seen_dirs st)
       \<lparr>cl_components = [], cl_modules = [], cl_envs_dir = None, cl_diags = ws_diags st\<rparr>"

definition find_root_hcl :: "workspace_disk \<Rightarrow> path \<Rightarrow> path option" where
  "find_root_hcl d canonical_root =
     find (\<lambda>rel. fs_is_file d (path_join canonical_root rel))
       [parse_path ''root.hcl'', parse_path ''terraform/root.hcl'']"

definition canonicalize_root :: "workspace_disk \<Rightarrow> path \<Rightarrow> discovery_options \<Rightarrow> core_error + path" where
  "canonicalize_root d wroot opts =
     (let policy = (if do_follow_symlinks opts then Follow else Reject) in
      case reject_nul wroot of
        Inl _ \<Rightarrow> Err (CoreIo wroot ''path contains NUL'')
      | Inr _ \<Rightarrow>
          if \<not> fs_exists d wroot then Err (CoreIo wroot ''workspace root not found'')
          else (case fs_canonicalize d wroot of
            Inl e \<Rightarrow> Err (CoreIo wroot e)
          | Inr canonical \<Rightarrow>
              (case canonicalize_inside (file_system.truncate d) canonical canonical policy of
                 Inl (PathIo p e) \<Rightarrow> Err (CoreIo p e)
               | Inl other \<Rightarrow> Err (CoreIo canonical (path_safety_error_str other))
               | Inr resolved \<Rightarrow> Ok resolved)))"

definition discover ::
  "regex_set \<Rightarrow> walker \<Rightarrow> workspace_disk \<Rightarrow> path \<Rightarrow> discovery_options \<Rightarrow> core_error + discovered" where
  "discover rx wk d wroot opts =
     and_then (canonicalize_root d wroot opts) (\<lambda>canonical_root.
     and_then (walk_workspace wk canonical_root opts) (\<lambda>st.
       let cl = classify_dirs rx d canonical_root opts st in
       Ok \<lparr>dc_root = canonical_root,
           dc_components = sort_key (\<lambda>dir. path_str (dd_path dir)) (cl_components cl),
           dc_modules = sort_key (\<lambda>dir. path_str (dd_path dir)) (cl_modules cl),
           dc_envs_dir = cl_envs_dir cl, dc_root_hcl = find_root_hcl d canonical_root,
           dc_diagnostics = cl_diags cl\<rparr>))"

end
