(* ===== verification/DiscoveryProps.thy ===== *)
theory DiscoveryProps
  imports Discovery
begin

text \<open>Discovery computes what its specification says: the walk keeps exactly the files that pass its filters,
  in walk order under their directory, up to the file cap; every directory seen is classified once, and the
  result is sorted by path text.\<close>

section \<open>The specification\<close>

definition entry_rel :: "path \<Rightarrow> discovery_options \<Rightarrow> str + walk_entry \<Rightarrow> path option" where
  "entry_rel r opts e =
     (case e of
        Inl _ \<Rightarrow> None
      | Inr en \<Rightarrow>
          if we_depth en = 0 then None
          else (case path_strip_prefix r (we_path en) of
            None \<Rightarrow> None | Some rel \<Rightarrow> if do_exclude_globs opts rel then None else Some rel))"

definition entry_file :: "path \<Rightarrow> discovery_options \<Rightarrow> str + walk_entry \<Rightarrow> discovered_file option" where
  "entry_file r opts e =
     (case e of
        Inl _ \<Rightarrow> None
      | Inr en \<Rightarrow> (case (entry_rel r opts e, we_file_type en, we_metadata en) of
          (Some rel, Some FtFile, Inr n) \<Rightarrow>
            if n > do_max_file_size_bytes opts then None
            else map_option (\<lambda>ext. \<lparr>df_path = rel, df_ext = ext, df_size = n\<rparr>) (file_ext_classify rel)
        | _ \<Rightarrow> None))"

definition entry_dir :: "path \<Rightarrow> discovery_options \<Rightarrow> str + walk_entry \<Rightarrow> path option" where
  "entry_dir r opts e =
     (case e of
        Inl _ \<Rightarrow> None
      | Inr en \<Rightarrow> if we_file_type en = Some FtDir then entry_rel r opts e else None)"

definition parent_dir :: "path \<Rightarrow> path" where
  "parent_dir rel = (case path_parent rel of None \<Rightarrow> [] | Some p \<Rightarrow> p)"

definition walked_files :: "path \<Rightarrow> discovery_options \<Rightarrow> (str + walk_entry) list \<Rightarrow> discovered_file list" where
  "walked_files r opts es = List.map_filter (entry_file r opts) es"

definition walked_dirs :: "path \<Rightarrow> discovery_options \<Rightarrow> (str + walk_entry) list \<Rightarrow> path list" where
  "walked_dirs r opts es =
     sorted_list_of_set (insert [] (set (List.map_filter (entry_dir r opts) es)
       \<union> (\<lambda>f. parent_dir (df_path f)) ` set (walked_files r opts es)))"

definition files_of :: "discovered_file list \<Rightarrow> path \<Rightarrow> discovered_file list" where
  "files_of fs p = filter (\<lambda>f. parent_dir (df_path f) = p) fs"

section \<open>The walk\<close>

lemma sorted_insort_insert [simp]: "sorted xs \<Longrightarrow> sorted (insort_insert x xs)"
  by (simp add: insort_insert_key_def sorted_insort)

lemma distinct_insort_insert [simp]: "distinct xs \<Longrightarrow> distinct (insort_insert x xs)"
  by (simp add: insort_insert_key_def distinct_insort)

definition walk_inv :: "discovered_file list \<Rightarrow> path set \<Rightarrow> walk_state \<Rightarrow> bool" where
  "walk_inv fs ds st \<longleftrightarrow>
     (\<forall>p. dir_files st p = files_of fs p) \<and> ws_total_files st = length fs
     \<and> set (ws_seen_dirs st) = ds \<and> sorted (ws_seen_dirs st) \<and> distinct (ws_seen_dirs st)"

lemma walk_invI:
  "(\<And>p. dir_files st p = files_of fs p) \<Longrightarrow> ws_total_files st = length fs \<Longrightarrow> set (ws_seen_dirs st) = ds \<Longrightarrow>
   sorted (ws_seen_dirs st) \<Longrightarrow> distinct (ws_seen_dirs st) \<Longrightarrow> walk_inv fs ds st"
  by (simp add: walk_inv_def)

lemma walk_inv_new: "walk_inv [] {[]} walk_state_new"
  by (simp add: walk_inv_def walk_state_new_def dir_files_def files_of_def)

lemma walk_inv_push [simp]: "walk_inv fs ds (push_diag x st) = walk_inv fs ds st"
  by (simp add: walk_inv_def push_diag_def dir_files_def)

lemma walk_inv_see: "walk_inv fs ds st \<Longrightarrow> walk_inv fs (insert p ds) (see_dir p st)"
  by (auto simp: walk_inv_def see_dir_def dir_files_def set_insort_insert)

definition capped :: "discovery_options \<Rightarrow> discovered_file list \<Rightarrow> path set \<Rightarrow> core_error + walk_state \<Rightarrow> bool" where
  "capped opts fs ds r \<longleftrightarrow>
     (case r of Inl e \<Rightarrow> do_max_total_files opts < length fs
                       \<and> e = CoreLimit LkTotalFiles (do_max_total_files opts + 1) (do_max_total_files opts)
      | Inr st \<Rightarrow> length fs \<le> do_max_total_files opts \<and> walk_inv fs ds st)"

lemma record_file_capped:
  assumes "walk_inv fs ds st" "length fs \<le> do_max_total_files opts" "do_max_total_files opts < u64_max"
  shows "capped opts (fs @ [\<lparr>df_path = rel, df_ext = ext, df_size = n\<rparr>]) (insert (parent_dir rel) ds)
           (record_file opts rel ext n st)"
proof -
  let ?f = "\<lparr>df_path = rel, df_ext = ext, df_size = n\<rparr>"
  let ?st = "see_dir (parent_dir rel) (st\<lparr>ws_total_files := ws_total_files st + 1\<rparr>)"
  let ?st' = "?st\<lparr>ws_groups := (ws_groups ?st)(parent_dir rel \<mapsto>
                  (case ws_groups ?st (parent_dir rel) of None \<Rightarrow> [] | Some fs \<Rightarrow> fs) @ [?f])\<rparr>"
  have total: "ws_total_files st = length fs" using assms(1) by (simp add: walk_inv_def)
  have inv: "walk_inv (fs @ [?f]) (insert (parent_dir rel) ds) ?st'"
  proof (rule walk_invI)
    show "dir_files ?st' p = files_of (fs @ [?f]) p" for p
      using assms(1) by (simp add: walk_inv_def dir_files_def files_of_def see_dir_def)
  qed (use assms(1) in \<open>auto simp: walk_inv_def see_dir_def set_insort_insert\<close>)
  have eq: "record_file opts rel ext n st =
      (if length fs + 1 > do_max_total_files opts
       then Err (CoreLimit LkTotalFiles (length fs + 1) (do_max_total_files opts)) else Ok ?st')"
    using assms(2,3) by (simp add: record_file_def Let_def total parent_dir_def)
  show ?thesis
    unfolding eq capped_def using inv assms(2) by auto
qed

definition entry_seen :: "path \<Rightarrow> discovery_options \<Rightarrow> str + walk_entry \<Rightarrow> path set" where
  "entry_seen r opts e =
     set_option (entry_dir r opts e) \<union> (\<lambda>f. parent_dir (df_path f)) ` set_option (entry_file r opts e)"

lemma entry_capped:
  assumes "walk_inv fs ds st" "length fs \<le> do_max_total_files opts" "do_max_total_files opts < u64_max"
  shows "capped opts (fs @ List.map_filter (entry_file r opts) [Inr e]) (entry_seen r opts (Inr e) \<union> ds)
           (process_walk_entry r opts e st)"
proof (cases "entry_rel r opts (Inr e)")
  case None
  then show ?thesis
    using assms by (auto simp: entry_rel_def process_walk_entry_def entry_file_def entry_dir_def entry_seen_def
        capped_def List.map_filter_def split: option.splits if_splits)
next
  case (Some rel)
  have step: "process_walk_entry r opts e st =
      (case we_file_type e of
            None \<Rightarrow> Ok st
          | Some FtDir \<Rightarrow> Ok (see_dir rel st)
          | Some FtSymlink \<Rightarrow> Ok (push_diag (diagnostic_new SevTrace ''TF1110''
                              (''skipped symlink: '' @ path_str rel)) st)
          | Some FtOther \<Rightarrow> Ok st
          | Some FtFile \<Rightarrow> process_file opts rel (we_metadata e) st)"
    using Some by (auto simp: entry_rel_def process_walk_entry_def split: option.splits if_splits)
  show ?thesis
  proof (cases "we_file_type e")
    case None
    then show ?thesis
      using assms by (simp add: step entry_file_def entry_dir_def entry_seen_def capped_def List.map_filter_def
        split: option.splits)
  next
    case ft: (Some t)
    show ?thesis
    proof (cases t)
      case FtDir
      then show ?thesis
        using assms walk_inv_see [OF assms(1)] Some
        by (simp add: step ft entry_file_def entry_dir_def entry_seen_def capped_def List.map_filter_def)
    next
      case FtFile
      show ?thesis
      proof (cases "we_metadata e")
        case (Inl x)
        then show ?thesis
          using assms Some by (simp add: step ft FtFile process_file_def entry_file_def entry_dir_def
              entry_seen_def capped_def List.map_filter_def)
      next
        case (Inr n)
        show ?thesis
        proof (cases "n > do_max_file_size_bytes opts \<or> file_ext_classify rel = None")
          case True
          then show ?thesis
            using assms Some Inr by (auto simp: step ft FtFile process_file_def entry_file_def entry_dir_def
                entry_seen_def capped_def List.map_filter_def)
        next
          case False
          then obtain ext where ext: "file_ext_classify rel = Some ext" "\<not> n > do_max_file_size_bytes opts" by auto
          have "entry_file r opts (Inr e) = Some \<lparr>df_path = rel, df_ext = ext, df_size = n\<rparr>"
            using Some Inr ext by (simp add: ft FtFile entry_file_def)
          then show ?thesis
            using record_file_capped [OF assms, of rel ext n] Some Inr ext
            by (simp add: step ft FtFile process_file_def entry_dir_def entry_seen_def List.map_filter_def)
        qed
      qed
    next
      case FtSymlink
      then show ?thesis
        using assms by (simp add: step ft entry_file_def entry_dir_def entry_seen_def capped_def
            List.map_filter_def split: option.splits)
    next
      case FtOther
      then show ?thesis
        using assms by (simp add: step ft entry_file_def entry_dir_def entry_seen_def capped_def
            List.map_filter_def split: option.splits)
    qed
  qed
qed

lemma map_filter_append [simp]: "List.map_filter f (xs @ ys) = List.map_filter f xs @ List.map_filter f ys"
  by (simp add: List.map_filter_def)

lemma set_map_filter_Cons: "set (List.map_filter f (x # xs)) = set_option (f x) \<union> set (List.map_filter f xs)"
  by (auto simp: List.map_filter_def split: option.splits)

lemma capped_mono_error:
  "capped opts fs ds (Inl e) \<Longrightarrow> capped opts (fs @ gs) ds' (Inl e)"
  by (simp add: capped_def)

lemma walk_entries_capped:
  assumes "walk_inv fs ds st" "length fs \<le> do_max_total_files opts" "do_max_total_files opts < u64_max"
  shows "capped opts (fs @ walked_files r opts es) (\<Union>(entry_seen r opts ` set es) \<union> ds) (walk_entries r opts es st)"
  using assms
proof (induction es arbitrary: fs ds st)
  case (Cons e es)
  show ?case
  proof (cases e)
    case (Inl x)
    have "capped opts (fs @ walked_files r opts es) (\<Union>(entry_seen r opts ` set es) \<union> ds)
        (walk_entries r opts es (push_diag (walk_error_to_diagnostic x) st))"
      by (rule Cons.IH) (use Cons.prems in simp_all)
    then show ?thesis
      by (simp add: Inl walked_files_def entry_seen_def entry_file_def entry_dir_def List.map_filter_def)
  next
    case (Inr en)
    let ?fs = "fs @ List.map_filter (entry_file r opts) [e]"
    let ?ds = "entry_seen r opts e \<union> ds"
    have files: "?fs @ walked_files r opts es = fs @ walked_files r opts (e # es)"
      by (simp add: walked_files_def List.map_filter_def)
    have one: "capped opts ?fs ?ds (process_walk_entry r opts en st)"
      using entry_capped [OF Cons.prems, of r en] by (simp add: Inr)
    show ?thesis
    proof (cases "process_walk_entry r opts en st")
      case (Inl err)
      with one show ?thesis
        unfolding files [symmetric] by (simp add: Inr capped_def)
    next
      case ok: (Inr st')
      have "capped opts (?fs @ walked_files r opts es) (\<Union>(entry_seen r opts ` set es) \<union> ?ds) (walk_entries r opts es st')"
        by (rule Cons.IH) (use one Cons.prems in \<open>simp_all add: ok capped_def\<close>)
      then show ?thesis
        unfolding files by (simp add: Inr ok Un_assoc Un_left_commute)
    qed
  qed
qed (simp add: capped_def walked_files_def List.map_filter_def)

lemma seen_all:
  "\<Union>(entry_seen r opts ` set es) =
   set (List.map_filter (entry_dir r opts) es) \<union> (\<lambda>f. parent_dir (df_path f)) ` set (walked_files r opts es)"
  unfolding walked_files_def
  by (induction es) (auto simp: entry_seen_def set_map_filter_Cons List.map_filter_def split: option.splits)

lemma walk_workspace_spec:
  assumes "do_max_total_files opts < u64_max" and "es = wk (build_walker r opts)"
  shows "if length (walked_files r opts es) > do_max_total_files opts
         then walk_workspace wk r opts = Err (CoreLimit LkTotalFiles (do_max_total_files opts + 1) (do_max_total_files opts))
         else \<exists>st. walk_workspace wk r opts = Ok st \<and> ws_seen_dirs st = walked_dirs r opts es
                \<and> (\<forall>p. dir_files st p = files_of (walked_files r opts es) p)"
proof -
  have c: "capped opts (walked_files r opts es) (\<Union>(entry_seen r opts ` set es) \<union> {[]}) (walk_workspace wk r opts)"
    using walk_entries_capped [OF walk_inv_new _ assms(1), of r es] by (simp add: walk_workspace_def assms(2))
  show ?thesis
  proof (cases "walk_workspace wk r opts")
    case (Inl e)
    with c show ?thesis by (simp add: capped_def)
  next
    case (Inr st)
    have inv: "walk_inv (walked_files r opts es) (\<Union>(entry_seen r opts ` set es) \<union> {[]}) st"
      and len: "length (walked_files r opts es) \<le> do_max_total_files opts"
      using c by (simp_all add: capped_def Inr)
    have "ws_seen_dirs st = walked_dirs r opts es"
      using inv unfolding walk_inv_def walked_dirs_def seen_all
      by (metis Un_commute insert_is_Un sorted_list_of_set.idem_if_sorted_distinct)
    then show ?thesis
      using inv len Inr by (simp add: walk_inv_def)
  qed
qed

section \<open>Classification\<close>

definition spec_class ::
  "regex_set \<Rightarrow> workspace_disk \<Rightarrow> path \<Rightarrow> discovery_options \<Rightarrow> discovered_file list \<Rightarrow> path \<Rightarrow>
   dir_kind \<times> classification_reason \<times> bool" where
  "spec_class rx d r opts fs rel =
     classify rel (aggregate_signals rx d r (files_of fs rel) (do_max_file_size_bytes opts)) (files_of fs rel) opts
       (is_workspace_environments_dir rel)"

definition dirs_of_kind ::
  "dir_kind \<Rightarrow> (path \<Rightarrow> dir_kind \<times> classification_reason \<times> bool) \<Rightarrow> discovered_file list \<Rightarrow> path list \<Rightarrow>
   discovered_dir list" where
  "dirs_of_kind k cls fs rels =
     map (\<lambda>rel. discovered_dir_new rel k (fst (snd (cls rel))) (files_of fs rel)) (filter (\<lambda>rel. fst (cls rel) = k) rels)"

lemma classify_fold:
  assumes files: "\<And>p. dir_files st p = files_of fs p"
  shows "let cl = fold (classify_dir rx d r opts st) rels acc; cls = spec_class rx d r opts fs in
     cl_components cl = cl_components acc @ dirs_of_kind DkComponent cls fs rels
     \<and> cl_modules cl = cl_modules acc @ dirs_of_kind DkModule cls fs rels
     \<and> cl_envs_dir cl = fold (\<lambda>rel e. if fst (cls rel) = DkEnvironments then Some rel else e) rels (cl_envs_dir acc)
     \<and> cl_diags cl = cl_diags acc @ map ambiguity_diag (filter (\<lambda>rel. snd (snd (cls rel))) rels)"
proof (induction rels arbitrary: acc)
  case Nil
  show ?case by (simp add: dirs_of_kind_def)
next
  case (Cons rel rels)
  obtain k reason amb where cls: "spec_class rx d r opts fs rel = (k, reason, amb)"
    by (cases "spec_class rx d r opts fs rel") auto
  have dc: "dir_class rx d r opts st rel = (k, reason, amb)"
    using cls by (simp add: dir_class_def spec_class_def files)
  show ?case
    using Cons.IH [of "classify_dir rx d r opts st rel acc"]
    by (cases k) (simp_all add: Let_def classify_dir_def dc cls dirs_of_kind_def files)
qed

lemma spec_class_envs: "fst (spec_class rx d r opts fs rel) = DkEnvironments \<longleftrightarrow> rel = [Normal ''environments'']"
proof -
  have env: "is_workspace_environments_dir rel \<longleftrightarrow> rel = [Normal ''environments'']"
    unfolding is_workspace_environments_dir_def
    by (cases rel; cases "hd rel"; cases "tl rel") (auto split: path_component.splits)
  have "fst (classify rel s xs opts b) = DkEnvironments \<longleftrightarrow> b" for s xs b
    by (auto simp: classify_def Let_def split: option.splits)
  then show ?thesis by (simp add: spec_class_def env)
qed

lemma fold_envs:
  "fold (\<lambda>rel e. if rel = x then Some rel else e) rels e0 = (if x \<in> set rels then Some x else e0)"
  by (induction rels arbitrary: e0) auto

section \<open>Diagnostics\<close>

definition entry_diag :: "path \<Rightarrow> discovery_options \<Rightarrow> str + walk_entry \<Rightarrow> diagnostic option" where
  "entry_diag r opts e =
     (case e of
        Inl x \<Rightarrow> Some (walk_error_to_diagnostic x)
      | Inr en \<Rightarrow>
          if we_depth en = 0 then None
          else (case path_strip_prefix r (we_path en) of
            None \<Rightarrow> Some (diagnostic_new SevWarn ''TF1101''
                      (''dropping entry outside workspace root: '' @ path_str (we_path en)))
          | Some rel \<Rightarrow>
              if do_exclude_globs opts rel then None
              else (case (we_file_type en, we_metadata en) of
                (Some FtSymlink, _) \<Rightarrow>
                  Some (diagnostic_new SevTrace ''TF1110'' (''skipped symlink: '' @ path_str rel))
              | (Some FtFile, Inl x) \<Rightarrow>
                  Some (diagnostic_new SevWarn ''TF1102'' (''metadata error for '' @ path_str rel @ '': '' @ x))
              | (Some FtFile, Inr n) \<Rightarrow>
                  if n > do_max_file_size_bytes opts then
                    Some (diagnostic_limit LkFileSize ''TF1103''
                      (''file exceeds size limit and was skipped: '' @ path_str rel @ '' ('' @ nat_str n @ '' > ''
                       @ nat_str (do_max_file_size_bytes opts) @ '')''))
                  else None
              | _ \<Rightarrow> None)))"

lemma record_file_diags: "record_file opts rel ext n st = Ok st' \<Longrightarrow> ws_diags st' = ws_diags st"
  by (auto simp: record_file_def Let_def see_dir_def split: if_splits)

lemma process_file_diags:
  "process_file opts rel m st = Ok st' \<Longrightarrow> ws_diags st' = ws_diags st @
     (case m of Inl x \<Rightarrow> [diagnostic_new SevWarn ''TF1102'' (''metadata error for '' @ path_str rel @ '': '' @ x)]
      | Inr n \<Rightarrow> if n > do_max_file_size_bytes opts then
                    [diagnostic_limit LkFileSize ''TF1103''
                      (''file exceeds size limit and was skipped: '' @ path_str rel @ '' ('' @ nat_str n @ '' > ''
                       @ nat_str (do_max_file_size_bytes opts) @ '')'')]
                  else [])"
  by (auto simp: process_file_def push_diag_def dest: record_file_diags split: sum.splits if_splits option.splits)

lemma process_entry_diags:
  assumes "process_walk_entry r opts en st = Ok st'"
  shows "ws_diags st' = ws_diags st @ List.map_filter (entry_diag r opts) [Inr en]"
proof (cases "we_depth en = 0 \<or> path_strip_prefix r (we_path en) = None")
  case True
  then show ?thesis
    using assms by (auto simp: process_walk_entry_def entry_diag_def push_diag_def List.map_filter_def)
next
  case False
  then obtain rel where rel: "path_strip_prefix r (we_path en) = Some rel" and depth: "we_depth en \<noteq> 0" by auto
  show ?thesis
  proof (cases "we_file_type en = Some FtFile \<and> \<not> do_exclude_globs opts rel")
    case True
    then have "process_file opts rel (we_metadata en) st = Ok st'"
      using assms by (simp add: process_walk_entry_def rel depth)
    then show ?thesis
      using True by (auto dest!: process_file_diags simp: entry_diag_def rel depth List.map_filter_def split: sum.splits)
  next
    case other: False
    then show ?thesis
      using assms by (auto simp: process_walk_entry_def entry_diag_def rel depth push_diag_def see_dir_def
          List.map_filter_def split: option.splits file_type.splits if_splits)
  qed
qed

lemma walk_entries_diags:
  "walk_entries r opts es st = Ok st' \<Longrightarrow> ws_diags st' = ws_diags st @ List.map_filter (entry_diag r opts) es"
proof (induction es arbitrary: st)
  case Nil
  then show ?case by (simp add: List.map_filter_def)
next
  case (Cons e es)
  show ?case
  proof (cases e)
    case (Inl x)
    then show ?thesis
      using Cons.IH [of "push_diag (walk_error_to_diagnostic x) st"] Cons.prems
      by (simp add: push_diag_def entry_diag_def List.map_filter_def)
  next
    case (Inr en)
    with Cons.prems obtain st1 where st1: "process_walk_entry r opts en st = Ok st1" "walk_entries r opts es st1 = Ok st'"
      by auto
    then show ?thesis
      using Cons.IH [OF st1(2)] process_entry_diags [OF st1(1)] by (simp add: Inr List.map_filter_def)
  qed
qed

section \<open>Discovery\<close>

definition discover_spec ::
  "regex_set \<Rightarrow> walker \<Rightarrow> workspace_disk \<Rightarrow> discovery_options \<Rightarrow> path \<Rightarrow> core_error + discovered" where
  "discover_spec rx wk d opts r =
     (let es = wk (build_walker r opts); fs = walked_files r opts es; rels = walked_dirs r opts es;
          cls = spec_class rx d r opts fs
      in if length fs > do_max_total_files opts
         then Err (CoreLimit LkTotalFiles (do_max_total_files opts + 1) (do_max_total_files opts))
         else Ok \<lparr>dc_root = r,
              dc_components = sort_key (\<lambda>dir. path_str (dd_path dir)) (dirs_of_kind DkComponent cls fs rels),
              dc_modules = sort_key (\<lambda>dir. path_str (dd_path dir)) (dirs_of_kind DkModule cls fs rels),
              dc_envs_dir = (if [Normal ''environments''] \<in> set rels then Some [Normal ''environments''] else None),
              dc_root_hcl = find_root_hcl d r,
              dc_diagnostics = List.map_filter (entry_diag r opts) es
                @ map ambiguity_diag (filter (\<lambda>rel. snd (snd (cls rel))) rels)\<rparr>)"

lemma discover_eq:
  assumes "do_max_total_files opts < u64_max"
  shows "discover rx wk d wroot opts = and_then (canonicalize_root d wroot opts) (discover_spec rx wk d opts)"
proof (cases "canonicalize_root d wroot opts")
  case (Inr r)
  define es where "es = wk (build_walker r opts)"
  note spec = walk_workspace_spec [where wk = wk and r = r, OF assms es_def]
  show ?thesis
  proof (cases "length (walked_files r opts es) > do_max_total_files opts")
    case True
    then show ?thesis
      using spec by (simp add: discover_def Inr discover_spec_def Let_def es_def)
  next
    case False
    with spec obtain st where st: "walk_workspace wk r opts = Ok st" "ws_seen_dirs st = walked_dirs r opts es"
      and files: "\<And>p. dir_files st p = files_of (walked_files r opts es) p" by auto
    have diags: "ws_diags st = List.map_filter (entry_diag r opts) es"
      using walk_entries_diags [of r opts es walk_state_new st] st(1)
      by (simp add: walk_workspace_def es_def walk_state_new_def)
    note cl = classify_fold [OF files, of rx d r opts "walked_dirs r opts es"
        "\<lparr>cl_components = [], cl_modules = [], cl_envs_dir = None, cl_diags = ws_diags st\<rparr>",
        unfolded Let_def spec_class_envs fold_envs]
    show ?thesis
      using False cl by (simp add: discover_def Inr st classify_dirs_def discover_spec_def Let_def es_def [symmetric] diags)
  qed
qed (simp add: discover_def)


text \<open>C19. Discovery is a fold of the walk into a declarative specification: when the root resolves, it fails exactly if
  more files pass the filters than \<open>max_total_files\<close>, and otherwise classifies every directory that was walked or
  contains a kept file once, each with the kept files directly under it in walk order, sorts components and modules by path
  text, and reports the walk's diagnostics followed by one per ambiguous directory.\<close>

theorem discover_refines:
  assumes "do_max_total_files opts < u64_max"
  shows "discover rx wk d wroot opts = and_then (canonicalize_root d wroot opts) (discover_spec rx wk d opts)"
  using assms by (rule discover_eq)

definition ex_disk :: workspace_disk where
  "ex_disk = \<lparr>fs_is_symlink = (\<lambda>_. False), fs_canonicalize = Inr, fs_metadata = (\<lambda>_. Inr (10, False)),
     fs_read = (\<lambda>_. Inr []), fs_walk = (\<lambda>_. []), fs_exists = (\<lambda>_. True), fs_is_file = (\<lambda>_. False)\<rparr>"

definition ex_options :: discovery_options where
  "ex_options = \<lparr>do_follow_symlinks = False, do_max_depth = 16, do_max_file_size_bytes = 100, do_max_total_files = 2,
     do_exclude_globs = (\<lambda>_. False), do_module_globs = (\<lambda>p. p = [Normal ''m'']), do_threads = 0\<rparr>"

definition ex_walker :: walker where
  "ex_walker = (\<lambda>_. [Inl ''bad'',
     Inr \<lparr>we_depth = 2, we_path = [RootDir, Normal ''w'', Normal ''m'', Normal ''a.tf''], we_file_type = Some FtFile,
          we_metadata = Inr 10\<rparr>])"

theorem discover_refines_witness:
  "do_max_total_files ex_options < u64_max
   \<and> discover (\<lambda>_. Inl []) ex_walker ex_disk [RootDir, Normal ''w''] ex_options
     = and_then (canonicalize_root ex_disk [RootDir, Normal ''w''] ex_options)
         (discover_spec (\<lambda>_. Inl []) ex_walker ex_disk ex_options)"
  using discover_refines [of ex_options "\<lambda>_. Inl []" ex_walker ex_disk "[RootDir, Normal ''w'']"]
  by (simp add: ex_options_def u64_max_def)

section \<open>What the result guarantees\<close>

lemma discover_okD:
  assumes "discover rx wk d wroot opts = Ok dc" "do_max_total_files opts < u64_max"
  obtains r fs cls rels where "canonicalize_root d wroot opts = Ok r" "fs = walked_files r opts (wk (build_walker r opts))"
    "rels = walked_dirs r opts (wk (build_walker r opts))" "length fs \<le> do_max_total_files opts" "dc_root dc = r"
    "dc_components dc = sort_key (\<lambda>dir. path_str (dd_path dir)) (dirs_of_kind DkComponent cls fs rels)"
    "dc_modules dc = sort_key (\<lambda>dir. path_str (dd_path dir)) (dirs_of_kind DkModule cls fs rels)"
proof -
  from assms obtain r where r: "canonicalize_root d wroot opts = Ok r"
    and spec: "discover_spec rx wk d opts r = Ok dc"
    using discover_eq [OF assms(2), of rx wk d wroot] by auto
  show thesis
    by (rule that [OF r refl refl]) (use spec in \<open>auto simp: discover_spec_def Let_def split: if_splits\<close>)
qed

lemma entry_file_Some:
  assumes "entry_file r opts e = Some f"
  shows "\<exists>en. e = Inr en \<and> we_path en = r @ df_path f \<and> we_file_type en = Some FtFile
      \<and> we_metadata en = Inr (df_size f) \<and> df_size f \<le> do_max_file_size_bytes opts
      \<and> \<not> do_exclude_globs opts (df_path f) \<and> file_ext_classify (df_path f) = Some (df_ext f)"
  using assms
  by (auto simp: entry_file_def entry_rel_def path_strip_prefix_def prefix_def
      split: sum.splits option.splits if_splits file_type.splits)

lemma walked_files_sound:
  assumes "f \<in> set (walked_files r opts es)"
  shows "\<exists>en. Inr en \<in> set es \<and> we_path en = r @ df_path f \<and> we_file_type en = Some FtFile
      \<and> we_metadata en = Inr (df_size f) \<and> df_size f \<le> do_max_file_size_bytes opts
      \<and> \<not> do_exclude_globs opts (df_path f) \<and> file_ext_classify (df_path f) = Some (df_ext f)"
proof -
  from assms obtain e where "e \<in> set es" "entry_file r opts e = Some f"
    unfolding walked_files_def by (auto simp: List.map_filter_def)
  with entry_file_Some [of r opts e f] show ?thesis by auto
qed

lemma dirs_of_kind_member:
  "dir \<in> set (dirs_of_kind k cls fs rels) \<Longrightarrow>
   dd_kind dir = k \<and> dd_path dir \<in> set rels \<and> fst (cls (dd_path dir)) = k \<and> dd_files dir = files_of fs (dd_path dir)"
  by (auto simp: dirs_of_kind_def discovered_dir_new_def)

lemma dirs_of_kind_paths: "map dd_path (dirs_of_kind k cls fs rels) = filter (\<lambda>rel. fst (cls rel) = k) rels"
  by (simp add: dirs_of_kind_def discovered_dir_new_def comp_def)

lemma distinct_map_sort_key: "distinct (map f xs) \<Longrightarrow> distinct (map f (sort_key g xs))"
  by (metis distinct_map distinct_sort set_sort)


lemma files_of_count: "distinct rels \<Longrightarrow> (\<Sum>rel\<leftarrow>rels. length (files_of fs rel)) \<le> length fs"
proof (induction rels arbitrary: fs)
  case (Cons rel rels)
  let ?rest = "filter (\<lambda>f. parent_dir (df_path f) \<noteq> rel) fs"
  have same: "files_of fs x = files_of ?rest x" if "x \<in> set rels" for x
    unfolding files_of_def filter_filter using that Cons.prems by (intro filter_cong) auto
  have "(\<Sum>x\<leftarrow>rels. length (files_of fs x)) = (\<Sum>x\<leftarrow>rels. length (files_of ?rest x))"
    by (intro arg_cong [of _ _ sum_list] map_cong) (simp_all add: same)
  also have "\<dots> \<le> length ?rest"
    by (rule Cons.IH) (use Cons.prems in simp)
  finally show ?case
    using sum_length_filter_compl [of "\<lambda>f. parent_dir (df_path f) = rel" fs] by (simp add: files_of_def)
qed simp

lemma sum_list_filters:
  "(\<Sum>x\<leftarrow>filter P xs. f x) + (\<Sum>x\<leftarrow>filter Q xs. f x) \<le> (\<Sum>x\<leftarrow>xs. f x :: nat)" if "\<And>x. \<not> (P x \<and> Q x)"
  by (induction xs) (use that in auto)

lemma sum_sort_key: "(\<Sum>x\<leftarrow>sort_key g xs. f x :: nat) = (\<Sum>x\<leftarrow>xs. f x)"
proof -
  have "(\<Sum>x\<leftarrow>insort_key g y ys. f x) = f y + (\<Sum>x\<leftarrow>ys. f x)" for y ys
    by (induction ys) auto
  then show ?thesis by (induction xs) simp_all
qed

lemma walked_dirs_distinct: "distinct (walked_dirs r opts es)"
  unfolding walked_dirs_def by (rule sorted_list_of_set.distinct_sorted_key_list_of_set)

lemma discovered_dirs:
  assumes "discover rx wk d wroot opts = Ok dc" "do_max_total_files opts < u64_max"
  shows "distinct (map dd_path (dc_components dc @ dc_modules dc))"
    "dir \<in> set (dc_components dc) \<Longrightarrow> dd_kind dir = DkComponent" "dir \<in> set (dc_modules dc) \<Longrightarrow> dd_kind dir = DkModule"
proof -
  from discover_okD [OF assms] obtain r fs cls rels where
    rels: "rels = walked_dirs r opts (wk (build_walker r opts))"
    and comps: "dc_components dc = sort_key (\<lambda>dir. path_str (dd_path dir)) (dirs_of_kind DkComponent cls fs rels)"
    and mods: "dc_modules dc = sort_key (\<lambda>dir. path_str (dd_path dir)) (dirs_of_kind DkModule cls fs rels)"
    by metis
  have dist: "distinct rels" by (simp add: rels walked_dirs_distinct)
  then show "distinct (map dd_path (dc_components dc @ dc_modules dc))"
    by (auto simp: comps mods distinct_map_sort_key dirs_of_kind_paths dest!: dirs_of_kind_member)
  show "dir \<in> set (dc_components dc) \<Longrightarrow> dd_kind dir = DkComponent" "dir \<in> set (dc_modules dc) \<Longrightarrow> dd_kind dir = DkModule"
    by (auto simp: comps mods dirs_of_kind_def discovered_dir_new_def)
qed

text \<open>C20. What a successful discovery guarantees: components and modules are listed in path order and no directory
  twice, together they hold at most \<open>max_total_files\<close> files, and each file is a regular file the walk yielded directly
  under its directory, of a known extension, within the size cap and not excluded.\<close>

theorem discovery_sound:
  assumes "discover rx wk d wroot opts = Ok dc" "do_max_total_files opts < u64_max"
  shows "sorted (map (\<lambda>dir. path_str (dd_path dir)) (dc_components dc))
    \<and> sorted (map (\<lambda>dir. path_str (dd_path dir)) (dc_modules dc))
    \<and> distinct (map dd_path (dc_components dc @ dc_modules dc))
    \<and> (\<Sum>dir\<leftarrow>dc_components dc @ dc_modules dc. length (dd_files dir)) \<le> do_max_total_files opts
    \<and> (\<forall>dir \<in> set (dc_components dc @ dc_modules dc). \<forall>f \<in> set (dd_files dir).
         parent_dir (df_path f) = dd_path dir \<and> file_ext_classify (df_path f) = Some (df_ext f)
         \<and> df_size f \<le> do_max_file_size_bytes opts \<and> \<not> do_exclude_globs opts (df_path f)
         \<and> (\<exists>en. Inr en \<in> set (wk (build_walker (dc_root dc) opts)) \<and> we_path en = dc_root dc @ df_path f
              \<and> we_file_type en = Some FtFile \<and> we_metadata en = Inr (df_size f)))"
proof -
  from discover_okD [OF assms] obtain r fs cls rels where r: "dc_root dc = r"
    and fs: "fs = walked_files r opts (wk (build_walker r opts))" "length fs \<le> do_max_total_files opts"
    and rels: "rels = walked_dirs r opts (wk (build_walker r opts))"
    and comps: "dc_components dc = sort_key (\<lambda>dir. path_str (dd_path dir)) (dirs_of_kind DkComponent cls fs rels)"
    and mods: "dc_modules dc = sort_key (\<lambda>dir. path_str (dd_path dir)) (dirs_of_kind DkModule cls fs rels)"
    by metis
  have dist: "distinct rels" by (simp add: rels walked_dirs_distinct)
  have len: "(\<Sum>dir\<leftarrow>dirs_of_kind k cls fs rels. length (dd_files dir))
      = (\<Sum>x\<leftarrow>filter (\<lambda>rel. fst (cls rel) = k) rels. length (files_of fs x))" for k
    by (simp add: dirs_of_kind_def discovered_dir_new_def comp_def)
  have "distinct (map dd_path (dc_components dc @ dc_modules dc))"
    by (rule discovered_dirs [OF assms])
  moreover have "(\<Sum>dir\<leftarrow>dc_components dc @ dc_modules dc. length (dd_files dir)) \<le> do_max_total_files opts"
    using sum_list_filters [of "\<lambda>rel. fst (cls rel) = DkComponent" "\<lambda>rel. fst (cls rel) = DkModule"
        "\<lambda>x. length (files_of fs x)" rels] files_of_count [OF dist, of fs] fs(2)
    by (simp add: comps mods sum_sort_key len)
  moreover have "parent_dir (df_path f) = dd_path dir \<and> file_ext_classify (df_path f) = Some (df_ext f)
         \<and> df_size f \<le> do_max_file_size_bytes opts \<and> \<not> do_exclude_globs opts (df_path f)
         \<and> (\<exists>en. Inr en \<in> set (wk (build_walker (dc_root dc) opts)) \<and> we_path en = dc_root dc @ df_path f
              \<and> we_file_type en = Some FtFile \<and> we_metadata en = Inr (df_size f))"
    if "dir \<in> set (dc_components dc @ dc_modules dc)" "f \<in> set (dd_files dir)" for dir f
  proof -
    have "dd_files dir = files_of fs (dd_path dir)"
      using that(1) by (auto simp: comps mods dest: dirs_of_kind_member)
    then have "f \<in> set fs" and parent: "parent_dir (df_path f) = dd_path dir"
      using that(2) by (simp_all add: files_of_def)
    with walked_files_sound [of f r opts "wk (build_walker r opts)"] show ?thesis
      unfolding r fs(1) by blast
  qed
  moreover have "sorted (map (\<lambda>dir. path_str (dd_path dir)) (dc_components dc))"
    "sorted (map (\<lambda>dir. path_str (dd_path dir)) (dc_modules dc))"
    unfolding comps mods by simp_all
  ultimately show ?thesis by blast
qed

theorem discovery_sound_witness:
  "\<exists>dc. discover (\<lambda>_. Inl []) ex_walker ex_disk [RootDir, Normal ''w''] ex_options = Ok dc
     \<and> map dd_path (dc_modules dc) = [[Normal ''m'']] \<and> distinct (map dd_path (dc_components dc @ dc_modules dc))"
proof -
  have cap: "do_max_total_files ex_options < u64_max"
    by (simp add: ex_options_def u64_max_def)
  have eval: "(case and_then (canonicalize_root ex_disk [RootDir, Normal ''w''] ex_options)
      (discover_spec (\<lambda>_. Inl []) ex_walker ex_disk ex_options) of
      Inl _ \<Rightarrow> [] | Inr dc \<Rightarrow> map dd_path (dc_modules dc)) = [[Normal ''m'']]"
    by code_simp
  obtain dc where dc: "discover (\<lambda>_. Inl []) ex_walker ex_disk [RootDir, Normal ''w''] ex_options = Ok dc"
    "map dd_path (dc_modules dc) = [[Normal ''m'']]"
    using eval unfolding discover_eq [OF cap, symmetric] by (auto split: sum.splits)
  have "distinct (map dd_path (dc_components dc @ dc_modules dc))"
    using discovery_sound [OF dc(1) cap] by (elim conjE)
  with dc show ?thesis by (intro exI [of _ dc] conjI)
qed

end
