(* ===== verification/Loader.thy ===== *)
theory Loader
  imports Discovery "HOL-Library.AList"
begin

text \<open>The loader (\<open>loader/\<close>): its output types (\<open>raw.rs\<close>), its limits (\<open>limits.rs\<close>), the line index
  and source cache (\<open>source_map.rs\<close>), and the driver that reads the files of a directory (\<open>traits.rs\<close>).

  Parsing HCL text is the crate \<open>hcl_edit\<close>; it and the walk over its syntax tree (\<open>lowering.rs\<close>) are the
  record \<open>front_end\<close>, an argument of the driver.  \<open>Lowering\<close> models the walk and puts the two together
  (\<open>hcl_front_end\<close>).\<close>

section \<open>Blocks (\<open>raw.rs\<close>, \<open>BlockKind\<close> of \<open>ir/resource.rs\<close>)\<close>

datatype block_kind =
    BkResource | BkData | BkModule | BkProvider | BkVariable | BkLocals | BkOutput | BkTerraform
  | BkInclude | BkGenerate | BkDependency | BkInputs | BkUnknown

record raw_block =
  rb_kind :: block_kind
  rb_labels :: "str list"
  rb_body :: attribute_map
  rb_span :: span
  rb_source :: path

record raw_component =
  rc_path :: path
  rc_kind :: component_kind
  rc_blocks :: "raw_block list"
  rc_diagnostics :: "diagnostic list"

definition raw_component_new :: "path \<Rightarrow> component_kind \<Rightarrow> raw_component" where
  "raw_component_new p kind = \<lparr>rc_path = p, rc_kind = kind, rc_blocks = [], rc_diagnostics = []\<rparr>"

text \<open>The \<open>Debug\<close> names of the kinds.\<close>

fun block_kind_debug :: "block_kind \<Rightarrow> str" where
  "block_kind_debug BkResource = ''Resource''"
| "block_kind_debug BkData = ''Data''"
| "block_kind_debug BkModule = ''Module''"
| "block_kind_debug BkProvider = ''Provider''"
| "block_kind_debug BkVariable = ''Variable''"
| "block_kind_debug BkLocals = ''Locals''"
| "block_kind_debug BkOutput = ''Output''"
| "block_kind_debug BkTerraform = ''Terraform''"
| "block_kind_debug BkInclude = ''Include''"
| "block_kind_debug BkGenerate = ''Generate''"
| "block_kind_debug BkDependency = ''Dependency''"
| "block_kind_debug BkInputs = ''Inputs''"
| "block_kind_debug BkUnknown = ''Unknown''"

section \<open>Limits (\<open>limits.rs\<close>)\<close>

record loader_limits =
  ll_max_file_bytes :: nat
  ll_max_blocks_per_file :: nat
  ll_max_attr_depth :: nat
  ll_max_template_parts :: nat

definition loader_limits_default :: loader_limits where
  "loader_limits_default =
     \<lparr>ll_max_file_bytes = 4 * 1024 * 1024, ll_max_blocks_per_file = 10000, ll_max_attr_depth = 64,
      ll_max_template_parts = 1024\<rparr>"

section \<open>Lines (\<open>source_map.rs\<close>)\<close>

record line_col =
  lc_line :: nat
  lc_column :: nat

text \<open>\<open>u32::try_from(n).unwrap_or(u32::MAX)\<close>.\<close>

definition saturate_u32 :: "nat \<Rightarrow> nat" where
  "saturate_u32 n = min n u32_max"

definition newline_byte :: char where
  "newline_byte = CHR 0x0A"

fun line_starts_from :: "nat \<Rightarrow> str \<Rightarrow> nat list" where
  "line_starts_from i [] = []"
| "line_starts_from i (b # bs) =
     (if b = newline_byte then saturate_u32 (Suc i) # line_starts_from (Suc i) bs else line_starts_from (Suc i) bs)"

definition line_index_build :: "str \<Rightarrow> nat list" where
  "line_index_build src = 0 # line_starts_from 0 src"

text \<open>\<open>slice::partition_point\<close>: the binary search of the standard library for the first element that fails
  the predicate, on the range \<open>[lo, hi)\<close>.\<close>

function partition_point_in :: "(nat \<Rightarrow> bool) \<Rightarrow> nat list \<Rightarrow> nat \<Rightarrow> nat \<Rightarrow> nat" where
  "partition_point_in p xs lo hi =
     (if lo \<ge> hi then lo
      else let mid = (lo + hi) div 2 in
        if p (xs ! mid) then partition_point_in p xs (Suc mid) hi else partition_point_in p xs lo mid)"
  by auto
termination by (relation "measure (\<lambda>(_, _, lo, hi). hi - lo)") auto

declare partition_point_in.simps [simp del]

definition partition_point :: "(nat \<Rightarrow> bool) \<Rightarrow> nat list \<Rightarrow> nat" where
  "partition_point p xs = partition_point_in p xs 0 (length xs)"

definition locate :: "nat list \<Rightarrow> nat \<Rightarrow> line_col" where
  "locate starts byte =
     (let i = partition_point (\<lambda>start. start \<le> byte) starts - 1;
          line_start = (if i < length starts then starts ! i else 0)
      in \<lparr>lc_line = saturate_u32 (i + 1), lc_column = min (byte - line_start + 1) u32_max\<rparr>)"

text \<open>The cache: a map from canonical paths to sources, kept as an association list so that it can be counted.
  The line index of a source is a function of it, so the \<open>OnceLock\<close> that holds it needs no state.\<close>

type_synonym source_map = "(path \<times> str) list"

definition source_map_new :: source_map where
  "source_map_new = []"

definition source_map_get :: "source_map \<Rightarrow> path \<Rightarrow> str option" where
  "source_map_get sm p = map_of sm p"

definition source_map_insert :: "source_map \<Rightarrow> path \<Rightarrow> str \<Rightarrow> source_map" where
  "source_map_insert sm p src = AList.update p src sm"

definition source_line_index :: "source_map \<Rightarrow> path \<Rightarrow> nat list option" where
  "source_line_index sm p = map_option line_index_build (source_map_get sm p)"

definition source_map_len :: "source_map \<Rightarrow> nat" where
  "source_map_len sm = length sm"

definition source_map_is_empty :: "source_map \<Rightarrow> bool" where
  "source_map_is_empty sm = (source_map_len sm = 0)"

section \<open>The driver (\<open>traits.rs\<close>)\<close>

text \<open>\<open>hcl_edit\<close> and the walk over its syntax tree: \<open>parse_body\<close> of a text, and \<open>lower_body\<close> of a tree, with the
  path, the line index, the limits and the length of the text.\<close>

record 'ast front_end =
  fe_parse_body :: "str \<Rightarrow> str + 'ast"
  fe_lower_body :: "'ast \<Rightarrow> path \<Rightarrow> nat list \<Rightarrow> loader_limits \<Rightarrow> nat \<Rightarrow> raw_block list \<times> diagnostic list"

record parse_result =
  pr_blocks :: "raw_block list"
  pr_diagnostics :: "diagnostic list"

definition parse_bytes :: "'ast front_end \<Rightarrow> str \<Rightarrow> path \<Rightarrow> loader_limits \<Rightarrow> parse_result" where
  "parse_bytes fe bytes p limits =
     (if length bytes > ll_max_file_bytes limits then
        \<lparr>pr_blocks = [], pr_diagnostics = [diagnostic_limit LkFileSize ''TF1201''
          (''file exceeds loader byte cap ('' @ nat_str (length bytes) @ '' > '' @ nat_str (ll_max_file_bytes limits)
           @ ''); skipped'')]\<rparr>
      else (case from_utf8 bytes of
        Inl e \<Rightarrow> \<lparr>pr_blocks = [], pr_diagnostics =
          [diagnostic_new SevWarn ''TF1202'' (''file is not valid UTF-8: '' @ e)]\<rparr>
      | Inr src \<Rightarrow> (case fe_parse_body fe src of
          Inl e \<Rightarrow> \<lparr>pr_blocks = [], pr_diagnostics = [diagnostic_new SevWarn ''TF1203'' (''HCL parse error: '' @ e)]\<rparr>
        | Inr body \<Rightarrow>
            (let (blocks, ds) = fe_lower_body fe body p (line_index_build src) limits (length src)
             in \<lparr>pr_blocks = blocks, pr_diagnostics = ds\<rparr>))))"

datatype loader_read_error = LrTooLarge nat nat | LrIo str

definition loader_read_file :: "disk \<Rightarrow> path \<Rightarrow> nat \<Rightarrow> loader_read_error + str" where
  "loader_read_file d p max_bytes =
     (case fs_metadata d p of
        Inl e \<Rightarrow> Err (LrIo e)
      | Inr (len, _) \<Rightarrow> if len > max_bytes then Err (LrTooLarge len max_bytes) else map_err LrIo (fs_read d p))"

definition resolve_under_root :: "disk \<Rightarrow> path \<Rightarrow> path \<Rightarrow> diagnostic + path" where
  "resolve_under_root d rel wroot =
     map_err (\<lambda>e. diagnostic_new SevWarn ''TF1206'' (''path safety: '' @ path_safety_error_str e))
       (canonicalize_inside (disk_fs d) (path_join wroot rel) wroot Reject)"

definition file_ext_supports_block_kind :: "file_ext \<Rightarrow> block_kind \<Rightarrow> bool" where
  "file_ext_supports_block_kind ext kind =
     (case ext of
        Tfvars \<Rightarrow> kind = BkUnknown
      | Json \<Rightarrow> False
      | Tf \<Rightarrow> kind \<notin> {BkInclude, BkGenerate, BkDependency, BkInputs}
      | _ \<Rightarrow> True)"


fun file_ext_debug :: "file_ext \<Rightarrow> str" where
  "file_ext_debug Tf = ''Tf''"
| "file_ext_debug Tfvars = ''Tfvars''"
| "file_ext_debug Hcl = ''Hcl''"
| "file_ext_debug TerragruntHcl = ''TerragruntHcl''"
| "file_ext_debug Json = ''Json''"

definition unexpected_block_diag :: "discovered_file \<Rightarrow> raw_block \<Rightarrow> diagnostic" where
  "unexpected_block_diag f b = diagnostic_new SevTrace ''TF1205''
     (''block `'' @ block_kind_debug (rb_kind b) @ ''` in unexpected file extension `'' @ file_ext_debug (df_ext f)
      @ ''`: '' @ path_str (df_path f))"

definition push_block :: "discovered_file \<Rightarrow> raw_block \<Rightarrow> raw_component \<Rightarrow> raw_component" where
  "push_block f b raw =
     (let raw = (if file_ext_supports_block_kind (df_ext f) (rb_kind b) then raw
                 else raw\<lparr>rc_diagnostics := rc_diagnostics raw @ [unexpected_block_diag f b]\<rparr>)
      in raw\<lparr>rc_blocks := rc_blocks raw @ [b]\<rparr>)"

text \<open>Reading one file up to its text: the diagnostic it ends with, or the absolute path and the text.\<close>

definition read_source :: "disk \<Rightarrow> path \<Rightarrow> loader_limits \<Rightarrow> discovered_file \<Rightarrow> diagnostic + path \<times> str" where
  "read_source d wroot limits f =
     and_then (resolve_under_root d (df_path f) wroot) (\<lambda>abs_path.
       (case loader_read_file d abs_path (ll_max_file_bytes limits) of
          Inl (LrTooLarge observed limit) \<Rightarrow>
            Err (diagnostic_limit LkFileSize ''TF1201''
              (''file exceeds loader byte cap ('' @ nat_str observed @ '' > '' @ nat_str limit @ ''); skipped: ''
               @ path_str (df_path f)))
        | Inl (LrIo e) \<Rightarrow>
            Err (diagnostic_new SevWarn ''TF1204'' (''i/o error reading '' @ path_str (df_path f) @ '': '' @ e))
        | Inr bytes \<Rightarrow> (case from_utf8 bytes of
            Inl e \<Rightarrow>
              Err (diagnostic_new SevWarn ''TF1202''
                (''file is not valid UTF-8: '' @ path_str (df_path f) @ '' ('' @ e @ '')''))
          | Inr src \<Rightarrow> Ok (abs_path, src))))"

definition load_file ::
  "'ast front_end \<Rightarrow> disk \<Rightarrow> path \<Rightarrow> loader_limits \<Rightarrow> discovered_file \<Rightarrow> raw_component \<times> source_map \<Rightarrow>
   raw_component \<times> source_map" where
  "load_file fe d wroot limits f st =
     (let (raw, sources) = st in
      if \<not> is_hcl (df_ext f) then (raw, sources)
      else (case read_source d wroot limits f of
        Inl diag \<Rightarrow> (raw\<lparr>rc_diagnostics := rc_diagnostics raw @ [diag]\<rparr>, sources)
      | Inr (abs_path, src) \<Rightarrow>
          let sources = source_map_insert sources abs_path src in
          (case fe_parse_body fe src of
             Inl e \<Rightarrow>
               (raw\<lparr>rc_diagnostics := rc_diagnostics raw @ [diagnostic_new SevWarn ''TF1203''
                  (''HCL parse error in '' @ path_str (df_path f) @ '': '' @ e)]\<rparr>, sources)
           | Inr body \<Rightarrow>
               let (blocks, ds) = fe_lower_body fe body (df_path f) (line_index_build src) limits (length src)
               in (fold (push_block f) blocks (raw\<lparr>rc_diagnostics := rc_diagnostics raw @ ds\<rparr>), sources))))"

definition load_kind :: "dir_kind \<Rightarrow> component_kind" where
  "load_kind k = (case k of DkComponent \<Rightarrow> CkComponent | _ \<Rightarrow> CkModule)"

text \<open>\<open>load\<close> never fails: every error is a diagnostic of the component.\<close>

definition load ::
  "'ast front_end \<Rightarrow> disk \<Rightarrow> path \<Rightarrow> loader_limits \<Rightarrow> discovered_dir \<Rightarrow> source_map \<Rightarrow>
   core_error + raw_component \<times> source_map" where
  "load fe d wroot limits dir sources =
     Ok (fold (load_file fe d wroot limits) (dd_files dir)
          (raw_component_new (dd_path dir) (load_kind (dd_kind dir)), sources))"

end
