(* ===== verification/LoaderProps.thy ===== *)
theory LoaderProps
  imports Loader FuncProps
begin

text \<open>The line index agrees with scanning the text; loading a directory treats its files one by one, and reads
  only inside the workspace root.\<close>

section \<open>Binary search\<close>

lemma partition_point_in_spec:
  assumes "sorted xs" "lo \<le> hi" "hi \<le> length xs"
    and "\<And>i. i < lo \<Longrightarrow> xs ! i \<le> b" and "\<And>i. hi \<le> i \<Longrightarrow> i < length xs \<Longrightarrow> \<not> xs ! i \<le> b"
  shows "partition_point_in (\<lambda>s. s \<le> b) xs lo hi \<le> length xs
    \<and> (\<forall>i < length xs. xs ! i \<le> b \<longleftrightarrow> i < partition_point_in (\<lambda>s. s \<le> b) xs lo hi)"
  using assms
proof (induction "\<lambda>s. s \<le> b" xs lo hi rule: partition_point_in.induct)
  case (1 xs lo hi)
  let ?mid = "(lo + hi) div 2"
  show ?case
  proof (cases "lo \<ge> hi")
    case True
    then have eq: "partition_point_in (\<lambda>s. s \<le> b) xs lo hi = lo" "lo = hi"
      using "1.prems"(2) by (subst partition_point_in.simps, simp_all)
    have "xs ! i \<le> b \<longleftrightarrow> i < lo" if "i < length xs" for i
      using "1.prems"(4) [of i] "1.prems"(5) [of i] that eq(2) by (cases "i < lo") simp_all
    then show ?thesis
      unfolding eq(1) using "1.prems"(3) eq(2) by simp
  next
    case False
    then have mid: "lo \<le> ?mid" "?mid < hi" "?mid < length xs" using "1.prems"(3) by auto
    show ?thesis
    proof (cases "xs ! ?mid \<le> b")
      case True
      have "xs ! i \<le> b" if "i < Suc ?mid" for i
        using sorted_nth_mono [OF "1.prems"(1), of i ?mid] that mid(3) True by simp
      note below = this
      have rec: "partition_point_in (\<lambda>s. s \<le> b) xs lo hi = partition_point_in (\<lambda>s. s \<le> b) xs (Suc ?mid) hi"
        by (subst partition_point_in.simps) (simp add: False True Let_def)
      show ?thesis
        unfolding rec
        by (rule "1.hyps"(1) [OF False refl True "1.prems"(1) _ "1.prems"(3) below "1.prems"(5)])
           (use mid in simp_all)
    next
      case no: False
      have "\<not> xs ! i \<le> b" if "?mid \<le> i" "i < length xs" for i
        using sorted_nth_mono [OF "1.prems"(1), of ?mid i] that no by simp
      note above = this
      have rec: "partition_point_in (\<lambda>s. s \<le> b) xs lo hi = partition_point_in (\<lambda>s. s \<le> b) xs lo ?mid"
        by (subst partition_point_in.simps) (simp add: False no Let_def)
      show ?thesis
        unfolding rec
        by (rule "1.hyps"(2) [OF False refl no "1.prems"(1) mid(1) _ "1.prems"(4) above])
           (use mid in simp_all)
    qed
  qed
qed

lemma takeWhile_length_unique:
  assumes "n \<le> length xs" "\<And>i. i < length xs \<Longrightarrow> P (xs ! i) \<longleftrightarrow> i < n"
  shows "length (takeWhile P xs) = n"
proof -
  have "takeWhile P xs = take n xs"
    by (rule takeWhile_eq_take_P_nth) (use assms in auto)
  then show ?thesis using assms(1) by simp
qed

lemma partition_point_takeWhile:
  assumes "sorted xs"
  shows "partition_point (\<lambda>s. s \<le> b) xs = length (takeWhile (\<lambda>s. s \<le> b) xs)"
proof -
  have "partition_point_in (\<lambda>s. s \<le> b) xs 0 (length xs) \<le> length xs
    \<and> (\<forall>i < length xs. xs ! i \<le> b \<longleftrightarrow> i < partition_point_in (\<lambda>s. s \<le> b) xs 0 (length xs))"
    by (rule partition_point_in_spec [OF assms]) simp_all
  then show ?thesis
    unfolding partition_point_def by (intro takeWhile_length_unique [symmetric]) auto
qed

section \<open>The line index\<close>

text \<open>The reference: read the text up to the offset, counting.\<close>

fun scan_position :: "nat \<Rightarrow> nat \<Rightarrow> nat \<Rightarrow> str \<Rightarrow> line_col" where
  "scan_position line col 0 src = \<lparr>lc_line = line, lc_column = col\<rparr>"
| "scan_position line col (Suc n) [] = \<lparr>lc_line = line, lc_column = col + Suc n\<rparr>"
| "scan_position line col (Suc n) (c # cs) =
     (if c = newline_byte then scan_position (line + 1) 1 n cs else scan_position line (col + 1) n cs)"

lemma line_starts_above: "i + length src \<le> u32_max \<Longrightarrow> s \<in> set (line_starts_from i src) \<Longrightarrow> i < s"
  by (induction i src rule: line_starts_from.induct) (auto simp: saturate_u32_def split: if_splits)

lemma line_starts_sorted: "i + length src \<le> u32_max \<Longrightarrow> sorted (line_starts_from i src)"
proof (induction i src rule: line_starts_from.induct)
  case (2 i b bs)
  then show ?case
    using line_starts_above [of "Suc i" bs] by (auto simp: saturate_u32_def less_imp_le)
qed simp

lemma line_starts_length: "length (line_starts_from i src) \<le> length src"
  by (induction i src rule: line_starts_from.induct) auto

lemma scan_line_starts:
  assumes "i + length src \<le> u32_max" "s \<le> i" "i \<le> byte"
  shows "scan_position line (i - s + 1) (byte - i) src =
    (let n = length (takeWhile (\<lambda>x. x \<le> byte) (line_starts_from i src))
     in \<lparr>lc_line = line + n, lc_column = byte - (s # line_starts_from i src) ! n + 1\<rparr>)"
  using assms
proof (induction i src arbitrary: s line rule: line_starts_from.induct)
  case (1 i)
  then show ?case by (cases "byte - i") auto
next
  case (2 i b bs)
  show ?case
  proof (cases "byte = i")
    case True
    have "takeWhile (\<lambda>x. x \<le> byte) (line_starts_from i (b # bs)) = []"
      unfolding takeWhile_eq_Nil_iff True
      using line_starts_above [OF "2.prems"(1), of "hd (line_starts_from i (b # bs))"] by fastforce
    then show ?thesis using True "2.prems" by (simp del: line_starts_from.simps)
  next
    case False
    then obtain n where n: "byte - i = Suc n" "n = byte - Suc i" "Suc i \<le> byte"
      using "2.prems"(3) by (cases "byte - i") auto
    have sat: "saturate_u32 (Suc i) = Suc i" using "2.prems"(1) by (simp add: saturate_u32_def)
    show ?thesis
    proof (cases "b = newline_byte")
      case True
      show ?thesis
        using "2.IH"(1) [OF True, of "Suc i" "line + 1"] "2.prems"(1) n(3)
        by (simp add: n(1,2) True sat Let_def)
    next
      case no: False
      have "Suc (Suc i - s) = Suc (Suc (i - s))" using "2.prems"(2) by simp
      then show ?thesis
        using "2.IH"(2) [OF no, of s line] "2.prems"(1,2) n(3)
        by (simp add: n(1,2) no Let_def)
    qed
  qed
qed

text \<open>C21. The line index is correct: for sources and offsets below the 32-bit limit, the binary search over the line
  starts returns the line and column reached by reading the text up to the offset, also for offsets past its end
  (where the column goes on counting).\<close>

theorem locate_scans:
  assumes "length src < u32_max" and "byte < u32_max"
  shows "locate (line_index_build src) byte = scan_position 1 1 byte src"
proof -
  let ?s = "line_starts_from 0 src"
  define n where "n = length (takeWhile (\<lambda>x. x \<le> byte) ?s)"
  have n: "n \<le> length ?s" unfolding n_def by (rule length_takeWhile_le)
  then have line: "n + 1 \<le> u32_max" using line_starts_length [of 0 src] assms(1) by linarith
  have "sorted (0 # ?s)" using line_starts_sorted [of 0 src] assms(1) by simp
  then have "partition_point (\<lambda>s. s \<le> byte) (0 # ?s) = Suc n"
    by (simp add: partition_point_takeWhile n_def)
  then have "locate (line_index_build src) byte = \<lparr>lc_line = 1 + n, lc_column = byte - (0 # ?s) ! n + 1\<rparr>"
    using n line assms(2) by (simp add: locate_def line_index_build_def saturate_u32_def Let_def)
  also have "\<dots> = scan_position 1 1 byte src"
    using scan_line_starts [of 0 src 0 byte 1] assms(1) by (simp add: n_def Let_def)
  finally show ?thesis .
qed

theorem locate_scans_witness:
  "locate (line_index_build [CHR ''a'', CHR 0x0A, CHR ''b'']) 2 = \<lparr>lc_line = 2, lc_column = 1\<rparr>
   \<and> locate (line_index_build [CHR ''a'', CHR 0x0A, CHR ''b'']) 9 = \<lparr>lc_line = 2, lc_column = 8\<rparr>"
proof -
  let ?src = "[CHR ''a'', CHR 0x0A, CHR ''b'']"
  have small: "length ?src < u32_max" "2 < u32_max" "9 < u32_max" by (simp_all add: u32_max_def)
  have "scan_position 1 1 2 ?src = \<lparr>lc_line = 2, lc_column = 1\<rparr>"
    "scan_position 1 1 9 ?src = \<lparr>lc_line = 2, lc_column = 8\<rparr>" by code_simp+
  then show ?thesis
    unfolding locate_scans [OF small(1,2)] locate_scans [OF small(1,3)] by (rule conjI)
qed


section \<open>Loading a directory\<close>

text \<open>What one file contributes: its blocks, its diagnostics, and its cached source.\<close>

definition file_outcome ::
  "'ast front_end \<Rightarrow> disk \<Rightarrow> path \<Rightarrow> loader_limits \<Rightarrow> discovered_file \<Rightarrow>
   raw_block list \<times> diagnostic list \<times> (path \<times> str) list" where
  "file_outcome fe d wroot limits f =
     (if \<not> is_hcl (df_ext f) then ([], [], [])
      else (case read_source d wroot limits f of
        Inl diag \<Rightarrow> ([], [diag], [])
      | Inr (p, src) \<Rightarrow> (case fe_parse_body fe src of
          Inl e \<Rightarrow> ([], [diagnostic_new SevWarn ''TF1203''
                  (''HCL parse error in '' @ path_str (df_path f) @ '': '' @ e)], [(p, src)])
        | Inr body \<Rightarrow>
            (let (blocks, ds) = fe_lower_body fe body (df_path f) (line_index_build src) limits (length src) in
             (blocks, ds @ map (unexpected_block_diag f)
                (filter (\<lambda>b. \<not> file_ext_supports_block_kind (df_ext f) (rb_kind b)) blocks), [(p, src)])))))"

definition add_outcome ::
  "raw_block list \<times> diagnostic list \<times> (path \<times> str) list \<Rightarrow> raw_component \<times> source_map \<Rightarrow> raw_component \<times> source_map" where
  "add_outcome oc st =
     (case (oc, st) of ((blocks, ds, srcs), raw, sources) \<Rightarrow>
        (raw\<lparr>rc_blocks := rc_blocks raw @ blocks, rc_diagnostics := rc_diagnostics raw @ ds\<rparr>,
         fold (\<lambda>(p, src) sm. source_map_insert sm p src) srcs sources))"

lemma push_blocks:
  "fold (push_block f) blocks raw =
     raw\<lparr>rc_blocks := rc_blocks raw @ blocks,
         rc_diagnostics := rc_diagnostics raw @ map (unexpected_block_diag f)
           (filter (\<lambda>b. \<not> file_ext_supports_block_kind (df_ext f) (rb_kind b)) blocks)\<rparr>"
  by (induction blocks arbitrary: raw) (auto simp: push_block_def Let_def)

lemma load_file_outcome: "load_file fe d wroot limits f st = add_outcome (file_outcome fe d wroot limits f) st"
  by (auto simp: load_file_def file_outcome_def add_outcome_def push_blocks Let_def
      split: prod.split sum.split)

lemma fold_add_outcome:
  "fold add_outcome ocs (raw, sources) =
     (raw\<lparr>rc_blocks := rc_blocks raw @ concat (map fst ocs),
          rc_diagnostics := rc_diagnostics raw @ concat (map (fst \<circ> snd) ocs)\<rparr>,
      fold (\<lambda>(p, src) sm. source_map_insert sm p src) (concat (map (snd \<circ> snd) ocs)) sources)"
  by (induction ocs arbitrary: raw sources) (auto simp: add_outcome_def split: prod.split)

lemma load_files:
  "load fe d wroot limits dir sources =
     (let ocs = map (file_outcome fe d wroot limits) (dd_files dir) in
      Ok (\<lparr>rc_path = dd_path dir, rc_kind = load_kind (dd_kind dir), rc_blocks = concat (map fst ocs),
           rc_diagnostics = concat (map (fst \<circ> snd) ocs)\<rparr>,
          fold (\<lambda>(p, src) sm. source_map_insert sm p src) (concat (map (snd \<circ> snd) ocs)) sources))"
proof -
  have "fold (load_file fe d wroot limits) fs st = fold add_outcome (map (file_outcome fe d wroot limits) fs) st" for fs st
    by (simp add: fold_map comp_def load_file_outcome [abs_def])
  then show ?thesis
    by (simp add: load_def Let_def fold_add_outcome raw_component_new_def)
qed

section \<open>The loader stays inside the root\<close>

lemma resolve_under_root_Ok:
  "resolve_under_root d rel wroot = Ok p \<longleftrightarrow> canonicalize_inside (disk_fs d) (path_join wroot rel) wroot Reject = Ok p"
  by (cases "canonicalize_inside (disk_fs d) (path_join wroot rel) wroot Reject") (simp_all add: resolve_under_root_def)

interpretation under_root: sandbox "\<lambda>(d, rel) wroot. resolve_under_root d rel wroot"
  by unfold_locales (auto simp: resolve_under_root_Ok dest: canon.inside canon.canonical)

lemma read_source_agree:
  assumes "disks_agree wroot d d'"
  shows "read_source d wroot limits f = read_source d' wroot limits f"
proof -
  have same: "resolve_under_root d (df_path f) wroot = resolve_under_root d' (df_path f) wroot"
    by (simp add: resolve_under_root_def disks_agreeD(1) [OF assms])
  have "loader_read_file d p n = loader_read_file d' p n" if "resolve_under_root d' (df_path f) wroot = Ok p" for p n
  proof -
    have "same_entry d d' p" using under_root.entry [OF assms, of "(d', df_path f)" p] that by simp
    then have eq: "fs_metadata d p = fs_metadata d' p" "fs_read d p = fs_read d' p" by (simp_all add: same_entry_def)
    show ?thesis unfolding loader_read_file_def eq ..
  qed
  then show ?thesis unfolding read_source_def same by (intro and_then_cong) simp_all
qed

lemma load_agree:
  assumes "disks_agree wroot d d'"
  shows "load fe d wroot limits dir sources = load fe d' wroot limits dir sources"
proof -
  have "file_outcome fe d wroot limits = file_outcome fe d' wroot limits"
    unfolding file_outcome_def [abs_def] read_source_agree [OF assms] ..
  then show ?thesis unfolding load_files by simp
qed

end
