(* ===== verification/Projection.thy ===== *)
theory Projection
  imports Loader
begin

text \<open>From blocks to the typed model (\<open>projection/mod.rs\<close>): every block of a loaded directory becomes a resource,
  provider, module call, variable, local or output, or is left to another phase.  A function that may refuse a block
  returns an option; diagnostics are returned in the order they are pushed.\<close>

section \<open>Provider references\<close>

definition is_provider_segment :: "str \<Rightarrow> bool" where
  "is_provider_segment seg =
     (case seg of
        [] \<Rightarrow> False
      | b # bs \<Rightarrow> (char_between (CHR ''a'') (CHR ''z'') b \<or> b = CHR ''_'') \<and>
          list_all (\<lambda>b. char_between (CHR ''a'') (CHR ''z'') b \<or> is_ascii_digit b \<or> b = CHR ''_'') bs)"

definition is_provider_identifier :: "str \<Rightarrow> bool" where
  "is_provider_identifier s =
     (case split_char (CHR ''.'') s of
        [] \<Rightarrow> False
      | [a] \<Rightarrow> is_provider_segment a
      | [a, b] \<Rightarrow> is_provider_segment a \<and> is_provider_segment b
      | _ \<Rightarrow> False)"

definition provider_ref_of :: "symbolic \<Rightarrow> provider_ref" where
  "provider_ref_of s =
     (case split_once_char (CHR ''.'') (sym_source s) of
        None \<Rightarrow> \<lparr>pref_local_name = sym_source s, pref_alias = None, pref_span = sym_span s\<rparr>
      | Some (a, b) \<Rightarrow> \<lparr>pref_local_name = a, pref_alias = Some b, pref_span = sym_span s\<rparr>)"

definition extract_provider_ref :: "expr \<Rightarrow> provider_ref option" where
  "extract_provider_ref e =
     (case e of
        Unresolved s \<Rightarrow>
          if sym_kind s \<notin> {KOther, KResource} then None
          else if \<not> is_provider_identifier (sym_source s) then None
          else Some (provider_ref_of s)
      | _ \<Rightarrow> None)"

definition extract_providers_map :: "expr \<Rightarrow> (str \<times> provider_ref) list" where
  "extract_providers_map e =
     (case e of
        EObject entries \<Rightarrow> List.map_filter (\<lambda>(k, v).
          case k of
            Literal (VStr s) \<Rightarrow> map_option (Pair s) (extract_provider_ref v)
          | _ \<Rightarrow> None) entries
      | _ \<Rightarrow> [])"

section \<open>Dependencies\<close>

definition rejected_entry :: "str \<Rightarrow> validation_error \<Rightarrow> diagnostic" where
  "rejected_entry s e = diagnostic_new SevTrace ''TF1306''
     (''depends_on entry rejected (`'' @ s @ ''`): '' @ validation_error_str e)"

definition depends_on_str :: "str \<Rightarrow> address list \<times> diagnostic list" where
  "depends_on_str s = (case address_new s of Inr a \<Rightarrow> ([a], []) | Inl e \<Rightarrow> ([], [rejected_entry s e]))"

fun depends_on_value :: "value \<Rightarrow> address list \<times> diagnostic list" where
  "depends_on_value (VStr s) = depends_on_str s"
| "depends_on_value _ = ([], [])"

fun depends_on_expr :: "expr \<Rightarrow> address list \<times> diagnostic list" where
  "depends_on_expr (Unresolved s) =
     (case sym_address_hint s of
        Some hint \<Rightarrow> ([hint], [])
      | None \<Rightarrow> (case address_new (sym_source s) of
          Inr a \<Rightarrow> ([a], [])
        | Inl _ \<Rightarrow> ([], [diagnostic_new SevTrace ''TF1306''
                      (''depends_on entry not a static reference: '' @ sym_source s)])))"
| "depends_on_expr (Literal (VStr s)) = depends_on_str s"
| "depends_on_expr _ = ([], [diagnostic_new SevTrace ''TF1306'' ''depends_on entry not a static reference''])"

definition collect_pairs :: "('a list \<times> 'b list) list \<Rightarrow> 'a list \<times> 'b list" where
  "collect_pairs xs = (concat (map fst xs), concat (map snd xs))"

fun extract_depends_on :: "expr \<Rightarrow> address list \<times> diagnostic list" where
  "extract_depends_on (Literal (VList items)) = collect_pairs (map depends_on_value items)"
| "extract_depends_on (EArray items) = collect_pairs (map depends_on_expr items)"
| "extract_depends_on _ = ([], [])"

section \<open>Resources\<close>

record resource_acc =
  ra_attributes :: attribute_map
  ra_count :: "expr option"
  ra_for_each :: "expr option"
  ra_provider :: "provider_ref option"
  ra_depends_on :: "address list"
  ra_diags :: "diagnostic list"

definition resource_acc_new :: resource_acc where
  "resource_acc_new = \<lparr>ra_attributes = [], ra_count = None, ra_for_each = None, ra_provider = None,
     ra_depends_on = [], ra_diags = []\<rparr>"

definition provider_ignored_diag :: "str \<Rightarrow> path \<Rightarrow> diagnostic" where
  "provider_ignored_diag addr src = diagnostic_new SevTrace ''TF1303''
     (''ignored non-static provider expression on '' @ addr @ '' in '' @ path_str src)"

definition resource_attr :: "str \<Rightarrow> path \<Rightarrow> str \<times> expr \<Rightarrow> resource_acc \<Rightarrow> resource_acc" where
  "resource_attr addr src kv acc =
     (let (key, v) = kv in
      if key = ''count'' then acc\<lparr>ra_count := Some v\<rparr>
      else if key = ''for_each'' then acc\<lparr>ra_for_each := Some v\<rparr>
      else if key = ''provider'' then
        acc\<lparr>ra_provider := extract_provider_ref v,
            ra_diags := ra_diags acc @ (if extract_provider_ref v = None then [provider_ignored_diag addr src] else [])\<rparr>
      else if key = ''depends_on'' then
        acc\<lparr>ra_depends_on := ra_depends_on acc @ fst (extract_depends_on v),
            ra_diags := ra_diags acc @ snd (extract_depends_on v)\<rparr>
      else acc\<lparr>ra_attributes := ra_attributes acc @ [(key, v)]\<rparr>)"

definition resource_head :: "raw_block \<Rightarrow> (str \<times> str \<times> resource_kind \<times> str) option" where
  "resource_head block =
     (case rb_labels block of
        t # n # _ \<Rightarrow>
          (case rb_kind block of
             BkResource \<Rightarrow> Some (t, n, Managed, t @ ''.'' @ n)
           | BkData \<Rightarrow> Some (t, n, DataSource, ''data.'' @ t @ ''.'' @ n)
           | _ \<Rightarrow> None)
      | _ \<Rightarrow> None)"

definition bad_address_diag :: "str \<Rightarrow> str \<Rightarrow> str \<Rightarrow> validation_error \<Rightarrow> path \<Rightarrow> diagnostic" where
  "bad_address_diag code what addr e src = diagnostic_new SevWarn code
     (''invalid '' @ what @ '' address `'' @ addr @ ''` in '' @ path_str src @ '': '' @ validation_error_str e)"

definition project_resource :: "raw_block \<Rightarrow> resource option \<times> diagnostic list" where
  "project_resource block =
     (case resource_head block of
        None \<Rightarrow> (None, [])
      | Some (t, n, kind, addr) \<Rightarrow>
          (case address_new addr of
             Inl e \<Rightarrow> (None, [bad_address_diag ''TF1302'' ''resource'' addr e (rb_source block)])
           | Inr address \<Rightarrow>
               let acc = fold (resource_attr addr (rb_source block)) (rb_body block) resource_acc_new in
               (Some \<lparr>res_address = address, res_kind = kind, res_type = t, res_name = n,
                     res_provider_ref = ra_provider acc, res_count_expr = ra_count acc,
                     res_for_each_expr = ra_for_each acc, res_depends_on = ra_depends_on acc,
                     res_attributes = ra_attributes acc, res_account_id = None, res_account_name = None,
                     res_region = None, res_span = rb_span block\<rparr>, ra_diags acc)))"

section \<open>Providers\<close>

record provider_acc =
  pa_alias :: "str option"
  pa_region :: "expr option"
  pa_profile :: "expr option"
  pa_raw :: attribute_map

definition provider_attr :: "str \<times> expr \<Rightarrow> provider_acc \<Rightarrow> provider_acc" where
  "provider_attr kv acc =
     (let (key, v) = kv; keep = acc\<lparr>pa_raw := pa_raw acc @ [(key, v)]\<rparr> in
      if key = ''alias'' then (case v of Literal (VStr s) \<Rightarrow> acc\<lparr>pa_alias := Some s\<rparr> | _ \<Rightarrow> keep)
      else if key = ''region'' then keep\<lparr>pa_region := Some v\<rparr>
      else if key = ''profile'' then keep\<lparr>pa_profile := Some v\<rparr>
      else keep)"

definition project_provider :: "raw_block \<Rightarrow> provider_block option \<times> diagnostic list" where
  "project_provider block =
     (case rb_labels block of
        [] \<Rightarrow> (None, [diagnostic_new SevWarn ''TF1304''
                (''provider block missing label in '' @ path_str (rb_source block))])
      | local_name # _ \<Rightarrow>
          let acc = fold provider_attr (rb_body block) \<lparr>pa_alias = None, pa_region = None, pa_profile = None, pa_raw = []\<rparr>
          in (Some \<lparr>prov_local_name = local_name, prov_alias = pa_alias acc, prov_source_addr = None,
                prov_region_expr = pa_region acc, prov_profile_expr = pa_profile acc, prov_assume_role = None,
                prov_raw = pa_raw acc, prov_span = rb_span block\<rparr>, []))"

section \<open>Module calls\<close>

record module_acc =
  ma_source :: str
  ma_inputs :: attribute_map
  ma_count :: "expr option"
  ma_for_each :: "expr option"
  ma_providers :: "(str \<times> provider_ref) list"

definition module_attr :: "str \<times> expr \<Rightarrow> module_acc \<Rightarrow> module_acc" where
  "module_attr kv acc =
     (let (key, v) = kv in
      if key = ''source'' then (case v of Literal (VStr s) \<Rightarrow> acc\<lparr>ma_source := s\<rparr> | _ \<Rightarrow> acc)
      else if key = ''count'' then acc\<lparr>ma_count := Some v\<rparr>
      else if key = ''for_each'' then acc\<lparr>ma_for_each := Some v\<rparr>
      else if key = ''providers'' then acc\<lparr>ma_providers := ma_providers acc @ extract_providers_map v\<rparr>
      else acc\<lparr>ma_inputs := ma_inputs acc @ [(key, v)]\<rparr>)"

definition project_module_call :: "raw_block \<Rightarrow> module_call option \<times> diagnostic list" where
  "project_module_call block =
     (case rb_labels block of
        [] \<Rightarrow> (None, [])
      | name # _ \<Rightarrow>
          (case address_new (''module.'' @ name) of
             Inl e \<Rightarrow> (None, [bad_address_diag ''TF1305'' ''module'' (''module.'' @ name) e (rb_source block)])
           | Inr address \<Rightarrow>
               let acc = fold module_attr (rb_body block)
                 \<lparr>ma_source = [], ma_inputs = [], ma_count = None, ma_for_each = None, ma_providers = []\<rparr>
               in (Some \<lparr>mc_address = address, mc_source_raw = ma_source acc,
                     mc_source = module_source_classify (ma_source acc), mc_resolved = None,
                     mc_providers = ma_providers acc, mc_inputs = ma_inputs acc, mc_count_expr = ma_count acc,
                     mc_for_each_expr = ma_for_each acc, mc_span = rb_span block\<rparr>, [])))"

section \<open>Variables, locals, outputs\<close>

definition is_terraform_type_keyword :: "str \<Rightarrow> bool" where
  "is_terraform_type_keyword s =
     (s \<in> {''string'', ''number'', ''bool'', ''any'', ''null'', ''list'', ''map'', ''set'', ''tuple'', ''object''})"

fun normalize_variable_type :: "expr \<Rightarrow> expr" where
  "normalize_variable_type (Unresolved s) =
     (if sym_kind s = KOther \<and> is_terraform_type_keyword (sym_source s) then Literal (VStr (sym_source s))
      else Unresolved s)"
| "normalize_variable_type (EFuncCall name args sp) = EFuncCall name (map normalize_variable_type args) sp"
| "normalize_variable_type (EObject entries) = EObject (map (\<lambda>e. (fst e, normalize_variable_type (snd e))) entries)"
| "normalize_variable_type (EArray items) = EArray (map normalize_variable_type items)"
| "normalize_variable_type other = other"

definition variable_attr :: "str \<times> expr \<Rightarrow> variable \<Rightarrow> variable" where
  "variable_attr kv v =
     (let (key, e) = kv in
      if key = ''description'' then
        (case e of Literal (VStr s) \<Rightarrow> v\<lparr>var_description := Some s\<rparr> | _ \<Rightarrow> v)
      else if key = ''type'' then v\<lparr>var_type_expr := Some (normalize_variable_type e)\<rparr>
      else if key = ''default'' then v\<lparr>var_default := Some e\<rparr>
      else if key = ''sensitive'' then (case e of Literal (VBool b) \<Rightarrow> v\<lparr>var_sensitive := b\<rparr> | _ \<Rightarrow> v)
      else v)"

definition project_variable :: "raw_block \<Rightarrow> variable option" where
  "project_variable block =
     (case rb_labels block of
        [] \<Rightarrow> None
      | name # _ \<Rightarrow> Some (fold variable_attr (rb_body block)
          \<lparr>var_name = name, var_description = None, var_type_expr = None, var_default = None,
           var_sensitive = False, var_span = rb_span block\<rparr>))"

definition project_locals :: "raw_block \<Rightarrow> local_def list" where
  "project_locals block = map (\<lambda>(k, v). \<lparr>loc_name = k, loc_value = v, loc_span = rb_span block\<rparr>) (rb_body block)"

record output_acc =
  oa_value :: "expr option"
  oa_description :: "str option"
  oa_sensitive :: bool

definition output_attr :: "str \<times> expr \<Rightarrow> output_acc \<Rightarrow> output_acc" where
  "output_attr kv acc =
     (let (key, e) = kv in
      if key = ''value'' then acc\<lparr>oa_value := Some e\<rparr>
      else if key = ''description'' then
        (case e of Literal (VStr s) \<Rightarrow> acc\<lparr>oa_description := Some s\<rparr> | _ \<Rightarrow> acc)
      else if key = ''sensitive'' then (case e of Literal (VBool b) \<Rightarrow> acc\<lparr>oa_sensitive := b\<rparr> | _ \<Rightarrow> acc)
      else acc)"

definition project_output :: "raw_block \<Rightarrow> output_def option" where
  "project_output block =
     (case rb_labels block of
        [] \<Rightarrow> None
      | name # _ \<Rightarrow>
          let acc = fold output_attr (rb_body block)
                \<lparr>oa_value = None, oa_description = None, oa_sensitive = False\<rparr>
          in map_option (\<lambda>v. \<lparr>out_name = name, out_value = v, out_description = oa_description acc,
               out_sensitive = oa_sensitive acc, out_span = rb_span block\<rparr>) (oa_value acc))"

section \<open>Components\<close>

definition missing_labels_diag :: "raw_block \<Rightarrow> diagnostic" where
  "missing_labels_diag block = diagnostic_new SevWarn ''TF1301''
     (''resource/data block missing labels in '' @ path_str (rb_source block))"

definition push_projected :: "'a list \<Rightarrow> 'a option \<Rightarrow> 'a list" where
  "push_projected xs r = xs @ (case r of None \<Rightarrow> [] | Some x \<Rightarrow> [x])"

definition project_block :: "raw_block \<Rightarrow> component \<times> diagnostic list \<Rightarrow> component \<times> diagnostic list" where
  "project_block block st =
     (let (c, ds) = st; k = rb_kind block in
          if k = BkResource \<or> k = BkData then
            let (r, rds) = project_resource block in
            (c\<lparr>comp_resources := push_projected (comp_resources c) r\<rparr>,
             ds @ rds @ (if r = None then [missing_labels_diag block] else []))
          else if k = BkProvider then
            let (p, pds) = project_provider block in
            (c\<lparr>comp_providers := push_projected (comp_providers c) p\<rparr>, ds @ pds)
          else if k = BkModule then
            let (m, mds) = project_module_call block in
            (c\<lparr>comp_modules := push_projected (comp_modules c) m\<rparr>, ds @ mds)
          else if k = BkVariable then
            (c\<lparr>comp_variables := push_projected (comp_variables c) (project_variable block)\<rparr>, ds)
          else if k = BkLocals then (c\<lparr>comp_locals := comp_locals c @ project_locals block\<rparr>, ds)
          else if k = BkOutput then
            (c\<lparr>comp_outputs := push_projected (comp_outputs c) (project_output block)\<rparr>, ds)
          else (c, ds))"

text \<open>\<open>Component::builder()\<close> with only the identity fields set.\<close>

definition component_new :: "nat \<Rightarrow> path \<Rightarrow> component_kind \<Rightarrow> component" where
  "component_new cid p kind =
     \<lparr>comp_id = cid, comp_path = p, comp_kind = kind, comp_files = [], comp_variables = [], comp_locals = [],
      comp_providers = [], comp_resources = [], comp_modules = [], comp_outputs = [], comp_terragrunt = None,
      comp_state_backend = None\<rparr>"

definition project_component :: "raw_component \<Rightarrow> nat \<Rightarrow> component \<times> diagnostic list" where
  "project_component raw cid = fold project_block (rc_blocks raw) (component_new cid (rc_path raw) (rc_kind raw), [])"

end
