(* ===== verification/ProjectionProps.thy ===== *)
theory ProjectionProps
  imports Projection
begin

text \<open>Closed forms of the projection: what each block becomes, and that the typed lists of a component are the
  projections of its blocks of that kind, in order.\<close>

section \<open>Resources\<close>

definition resource_meta :: "str set" where
  "resource_meta = {''count'', ''for_each'', ''provider'', ''depends_on''}"

text \<open>The last binding of a key.\<close>

definition last_binding :: "attribute_map \<Rightarrow> str \<Rightarrow> expr option" where
  "last_binding body key = map_of (rev body) key"

definition bindings_of :: "attribute_map \<Rightarrow> str \<Rightarrow> expr list" where
  "bindings_of body key = map snd (filter (\<lambda>kv. fst kv = key) body)"

definition resource_attr_diags :: "str \<Rightarrow> path \<Rightarrow> str \<times> expr \<Rightarrow> diagnostic list" where
  "resource_attr_diags addr src kv =
     (if fst kv = ''provider'' \<and> extract_provider_ref (snd kv) = None then [provider_ignored_diag addr src]
      else if fst kv = ''depends_on'' then snd (extract_depends_on (snd kv)) else [])"

lemma last_binding_Nil [simp]: "last_binding [] key = None"
  by (simp add: last_binding_def)

lemma last_binding_Cons:
  "last_binding (kv # body) key = (case last_binding body key of None \<Rightarrow> if fst kv = key then Some (snd kv) else None
     | Some v \<Rightarrow> Some v)"
  by (cases kv) (simp add: last_binding_def map_add_def split: option.split)

lemma resource_fold:
  defines "acc' \<equiv> \<lambda>addr src body acc. fold (resource_attr addr src) body acc"
  shows "ra_attributes (acc' addr src body acc) = ra_attributes acc @ filter (\<lambda>kv. fst kv \<notin> resource_meta) body"
    and "ra_count (acc' addr src body acc) =
      (case last_binding body ''count'' of None \<Rightarrow> ra_count acc | Some v \<Rightarrow> Some v)"
    and "ra_for_each (acc' addr src body acc) =
      (case last_binding body ''for_each'' of None \<Rightarrow> ra_for_each acc | Some v \<Rightarrow> Some v)"
    and "ra_provider (acc' addr src body acc) =
      (case last_binding body ''provider'' of None \<Rightarrow> ra_provider acc | Some v \<Rightarrow> extract_provider_ref v)"
    and "ra_depends_on (acc' addr src body acc) =
      ra_depends_on acc @ concat (map (\<lambda>v. fst (extract_depends_on v)) (bindings_of body ''depends_on''))"
    and "ra_diags (acc' addr src body acc) = ra_diags acc @ concat (map (resource_attr_diags addr src) body)"
  unfolding acc'_def
  by (induction body arbitrary: acc)
     (simp_all add: resource_attr_def Let_def resource_meta_def last_binding_Cons bindings_of_def
        resource_attr_diags_def split_beta split: option.split)

definition resource_of :: "raw_block \<Rightarrow> str \<Rightarrow> str \<Rightarrow> resource_kind \<Rightarrow> address \<Rightarrow> resource" where
  "resource_of block t n kind a =
     \<lparr>res_address = a, res_kind = kind, res_type = t, res_name = n,
      res_provider_ref = Option.bind (last_binding (rb_body block) ''provider'') extract_provider_ref,
      res_count_expr = last_binding (rb_body block) ''count'',
      res_for_each_expr = last_binding (rb_body block) ''for_each'',
      res_depends_on = concat (map (\<lambda>v. fst (extract_depends_on v)) (bindings_of (rb_body block) ''depends_on'')),
      res_attributes = filter (\<lambda>kv. fst kv \<notin> resource_meta) (rb_body block),
      res_account_id = None, res_account_name = None, res_region = None, res_span = rb_span block\<rparr>"

lemma project_resource_closed:
  "project_resource block =
     (case resource_head block of
        None \<Rightarrow> (None, [])
      | Some (t, n, kind, addr) \<Rightarrow>
          (case address_new addr of
             Inl e \<Rightarrow> (None, [bad_address_diag ''TF1302'' ''resource'' addr e (rb_source block)])
           | Inr a \<Rightarrow> (Some (resource_of block t n kind a),
                       concat (map (resource_attr_diags addr (rb_source block)) (rb_body block)))))"
  by (auto simp: project_resource_def resource_of_def resource_fold resource_acc_new_def Let_def
      split: option.splits sum.splits)

section \<open>Components\<close>

definition of_kinds :: "raw_component \<Rightarrow> block_kind set \<Rightarrow> raw_block list" where
  "of_kinds raw ks = filter (\<lambda>b. rb_kind b \<in> ks) (rc_blocks raw)"

definition block_diags :: "raw_block \<Rightarrow> diagnostic list" where
  "block_diags b =
     (if rb_kind b \<in> {BkResource, BkData} then
        snd (project_resource b) @ (if fst (project_resource b) = None then [missing_labels_diag b] else [])
      else if rb_kind b = BkProvider then snd (project_provider b)
      else if rb_kind b = BkModule then snd (project_module_call b)
      else [])"

lemma project_blocks_fold:
  assumes "fold project_block blocks (c, ds) = (c', ds')"
  shows "comp_resources c' = comp_resources c @ List.map_filter (\<lambda>b. fst (project_resource b))
      (filter (\<lambda>b. rb_kind b \<in> {BkResource, BkData}) blocks)
    \<and> comp_providers c' = comp_providers c @ List.map_filter (\<lambda>b. fst (project_provider b))
      (filter (\<lambda>b. rb_kind b \<in> {BkProvider}) blocks)
    \<and> comp_modules c' = comp_modules c @ List.map_filter (\<lambda>b. fst (project_module_call b))
      (filter (\<lambda>b. rb_kind b \<in> {BkModule}) blocks)
    \<and> comp_variables c' = comp_variables c @ List.map_filter project_variable
      (filter (\<lambda>b. rb_kind b \<in> {BkVariable}) blocks)
    \<and> comp_locals c' = comp_locals c @ concat (map project_locals (filter (\<lambda>b. rb_kind b \<in> {BkLocals}) blocks))
    \<and> comp_outputs c' = comp_outputs c @ List.map_filter project_output
      (filter (\<lambda>b. rb_kind b \<in> {BkOutput}) blocks)
    \<and> ds' = ds @ concat (map block_diags blocks)
    \<and> comp_id c' = comp_id c \<and> comp_path c' = comp_path c \<and> comp_kind c' = comp_kind c"
  using assms
proof (induction blocks arbitrary: c ds)
  case (Cons b bs)
  obtain c1 ds1 where step: "project_block b (c, ds) = (c1, ds1)" by fastforce
  then have "fold project_block bs (c1, ds1) = (c', ds')" using Cons.prems by simp
  note ih = Cons.IH [OF this]
  show ?case
    using step ih
    by (cases "rb_kind b") (auto simp: project_block_def Let_def push_projected_def block_diags_def List.map_filter_simps
        split: prod.splits option.splits)
qed (auto simp: List.map_filter_def)

text \<open>C22. The projection of a component, in closed form: each typed list is the projection of the blocks of its kind in
  block order, and a resource or data block becomes a resource exactly when it has two labels that form a valid address;
  its attributes are the body without the four meta-arguments, whose last binding counts, and its dependencies are those
  of every \<open>depends_on\<close>. Each refused resource block is reported.\<close>

theorem project_component_exact:
  assumes "project_component raw cid = (c, ds)"
  shows "comp_resources c = List.map_filter (\<lambda>b. case resource_head b of None \<Rightarrow> None
        | Some (t, n, kind, addr) \<Rightarrow> (case address_new addr of Inl _ \<Rightarrow> None | Inr a \<Rightarrow> Some (resource_of b t n kind a)))
        (of_kinds raw {BkResource, BkData})
    \<and> comp_providers c = List.map_filter (\<lambda>b. fst (project_provider b)) (of_kinds raw {BkProvider})
    \<and> comp_modules c = List.map_filter (\<lambda>b. fst (project_module_call b)) (of_kinds raw {BkModule})
    \<and> comp_variables c = List.map_filter project_variable (of_kinds raw {BkVariable})
    \<and> comp_locals c = concat (map project_locals (of_kinds raw {BkLocals}))
    \<and> comp_outputs c = List.map_filter project_output (of_kinds raw {BkOutput})
    \<and> comp_id c = cid \<and> comp_path c = rc_path raw \<and> comp_kind c = rc_kind raw
    \<and> ds = concat (map block_diags (rc_blocks raw))
    \<and> (\<forall>b \<in> set (of_kinds raw {BkResource, BkData}). fst (project_resource b) = None \<longrightarrow> missing_labels_diag b \<in> set ds)"
proof -
  have res: "(\<lambda>b. fst (project_resource b)) = (\<lambda>b. case resource_head b of None \<Rightarrow> None
        | Some (t, n, kind, addr) \<Rightarrow> (case address_new addr of Inl _ \<Rightarrow> None | Inr a \<Rightarrow> Some (resource_of b t n kind a)))"
    by (rule ext) (simp add: project_resource_closed split: option.split sum.split)
  have diag: "ds = concat (map block_diags (rc_blocks raw))"
    using project_blocks_fold [OF assms [unfolded project_component_def]] by simp
  have "missing_labels_diag b \<in> set ds" if "b \<in> set (of_kinds raw {BkResource, BkData})" "fst (project_resource b) = None" for b
    unfolding diag using that by (auto simp: of_kinds_def block_diags_def intro!: bexI [of _ b])
  with project_blocks_fold [OF assms [unfolded project_component_def]] show ?thesis
    unfolding of_kinds_def res by (simp add: component_new_def)
qed

definition ex_block :: raw_block where
  "ex_block = \<lparr>rb_kind = BkResource, rb_labels = [''aws_vpc'', ''main''],
     rb_body = [(''count'', Literal (VInt 2)), (''cidr'', Literal (VStr ''x''))], rb_span = span_synthetic, rb_source = []\<rparr>"

definition ex_raw :: raw_component where
  "ex_raw = \<lparr>rc_path = [], rc_kind = CkComponent, rc_blocks = [ex_block], rc_diagnostics = []\<rparr>"

theorem project_component_exact_witness:
  "(case project_component ex_raw 1 of (c, ds) \<Rightarrow>
      map res_attributes (comp_resources c) = [[(''cidr'', Literal (VStr ''x''))]]
      \<and> map res_count_expr (comp_resources c) = [Some (Literal (VInt 2))] \<and> ds = [])"
proof -
  obtain c ds where c: "project_component ex_raw 1 = (c, ds)" by fastforce
  have kinds: "of_kinds ex_raw {BkResource, BkData} = [ex_block]"
    by (simp add: of_kinds_def ex_raw_def ex_block_def)
  have addr: "address_new ''aws_vpc.main'' = Ok (Address ''aws_vpc.main'')" by code_simp
  have head: "resource_head ex_block = Some (''aws_vpc'', ''main'', Managed, ''aws_vpc.main'')"
    by (simp add: resource_head_def ex_block_def)
  have "comp_resources c = [resource_of ex_block ''aws_vpc'' ''main'' Managed (Address ''aws_vpc.main'')]"
    using project_component_exact [OF c] by (simp add: kinds head addr List.map_filter_def)
  moreover have "ds = []"
    using project_component_exact [OF c]
    by (simp add: ex_raw_def block_diags_def project_resource_closed head addr, simp add: ex_block_def resource_attr_diags_def)
  ultimately show ?thesis
    unfolding c prod.case by (simp add: resource_of_def ex_block_def resource_meta_def last_binding_def)
qed

end
