(* ===== verification/TgMerge.thy ===== *)
theory TgMerge
  imports Loader
begin

text \<open>Terragrunt: the merge strategies of \<open>include\<close> (\<open>terragrunt/merge.rs\<close>) and the structural projection of a
  parsed file (\<open>terragrunt/parsed.rs\<close>).\<close>

section \<open>Merge strategies (\<open>merge.rs\<close>)\<close>

datatype merge_strategy = DeepMapOnly | Deep | Shallow | NoMerge

definition merge_strategy_default :: merge_strategy where
  "merge_strategy_default = DeepMapOnly"

definition merge_strategy_parse :: "str \<Rightarrow> merge_strategy option" where
  "merge_strategy_parse s =
     (if s = ''deep_map_only'' then Some DeepMapOnly
      else if s = ''deep'' then Some Deep
      else if s = ''shallow'' then Some Shallow
      else if s = ''no_merge'' then Some NoMerge
      else None)"

text \<open>Each loop runs over the child's entries with the result so far; the parent is the initial result.\<close>

fun merge_shallow :: "vmap \<Rightarrow> vmap \<Rightarrow> vmap" where
  "merge_shallow out [] = out"
| "merge_shallow out ((k, v) # child) = merge_shallow (override_or_push out k v) child"

function merge_deep_map_only :: "vmap \<Rightarrow> vmap \<Rightarrow> vmap" where
  "merge_deep_map_only out [] = out"
| "merge_deep_map_only out ((k, v) # child) =
     merge_deep_map_only
       (override_or_push out k
          (case (map_of out k, v) of
             (Some (VMap parent_inner), VMap child_inner) \<Rightarrow> VMap (merge_deep_map_only parent_inner child_inner)
           | _ \<Rightarrow> v)) child"
  by pat_completeness auto
termination
  by (relation "measure (\<lambda>(_, child). size (VMap child))") auto

function merge_deep :: "vmap \<Rightarrow> vmap \<Rightarrow> vmap" where
  "merge_deep out [] = out"
| "merge_deep out ((k, v) # child) =
     merge_deep
       (override_or_push out k
          (case (map_of out k, v) of
             (Some (VMap parent_inner), VMap child_inner) \<Rightarrow> VMap (merge_deep parent_inner child_inner)
           | (Some (VList parent_inner), VList child_inner) \<Rightarrow> VList (parent_inner @ child_inner)
           | _ \<Rightarrow> v)) child"
  by pat_completeness auto
termination
  by (relation "measure (\<lambda>(_, child). size (VMap child))") auto

definition merge_locals :: "vmap \<Rightarrow> vmap \<Rightarrow> merge_strategy \<Rightarrow> vmap" where
  "merge_locals parent child strategy =
     (case strategy of
        NoMerge \<Rightarrow> child
      | Shallow \<Rightarrow> merge_shallow parent child
      | DeepMapOnly \<Rightarrow> merge_deep_map_only parent child
      | Deep \<Rightarrow> merge_deep parent child)"

section \<open>Parsed files (\<open>parsed.rs\<close>)\<close>

record include_raw =
  ir_label :: str
  ir_path_expr :: "expr option"
  ir_merge_strategy_expr :: "expr option"
  ir_span :: span

record labelled_raw =
  lr_label :: str
  lr_attrs :: attribute_map
  lr_span :: span

type_synonym generate_raw = labelled_raw
type_synonym dependency_raw = labelled_raw

record parsed_terragrunt =
  pt_locals :: "local_def list"
  pt_inputs :: "attribute_map option"
  pt_includes :: "include_raw list"
  pt_generates :: "generate_raw list"
  pt_dependencies :: "dependency_raw list"
  pt_remote_state :: "attribute_map option"
  pt_terraform :: "attribute_map list"
  pt_diagnostics :: "diagnostic list"

definition parsed_default :: parsed_terragrunt where
  "parsed_default = \<lparr>pt_locals = [], pt_inputs = None, pt_includes = [], pt_generates = [], pt_dependencies = [],
     pt_remote_state = None, pt_terraform = [], pt_diagnostics = []\<rparr>"

fun object_to_attribute_map :: "expr \<Rightarrow> attribute_map" where
  "object_to_attribute_map (EObject entries) =
     List.map_filter (\<lambda>(k, v). case k of Literal (VStr s) \<Rightarrow> Some (s, v) | _ \<Rightarrow> None) entries"
| "object_to_attribute_map (Literal (VMap entries)) = map (\<lambda>(k, v). (k, Literal v)) entries"
| "object_to_attribute_map _ = []"

definition first_label :: "raw_block \<Rightarrow> str" where
  "first_label block = (case rb_labels block of [] \<Rightarrow> [] | l # _ \<Rightarrow> l)"

definition include_attr :: "str \<times> expr \<Rightarrow> include_raw \<Rightarrow> include_raw" where
  "include_attr kv inc =
     (if fst kv = ''path'' then inc\<lparr>ir_path_expr := Some (snd kv)\<rparr>
      else if fst kv = ''merge_strategy'' then inc\<lparr>ir_merge_strategy_expr := Some (snd kv)\<rparr>
      else inc)"

definition project_include :: "raw_block \<Rightarrow> include_raw" where
  "project_include block =
     fold include_attr (rb_body block)
       \<lparr>ir_label = first_label block, ir_path_expr = None, ir_merge_strategy_expr = None, ir_span = rb_span block\<rparr>"

definition project_labelled :: "raw_block \<Rightarrow> labelled_raw" where
  "project_labelled block = \<lparr>lr_label = first_label block, lr_attrs = rb_body block, lr_span = rb_span block\<rparr>"

fun is_object_or_literal :: "expr \<Rightarrow> bool" where
  "is_object_or_literal (EObject _) = True"
| "is_object_or_literal (Literal _) = True"
| "is_object_or_literal _ = False"

definition project_unknown :: "raw_block \<Rightarrow> parsed_terragrunt \<Rightarrow> parsed_terragrunt" where
  "project_unknown block out =
     (case rb_body block of
        [] \<Rightarrow> out
      | (key, v) # _ \<Rightarrow>
          if key = ''inputs'' \<and> is_object_or_literal v then out\<lparr>pt_inputs := Some (object_to_attribute_map v)\<rparr>
          else if key = ''remote_state'' then out\<lparr>pt_remote_state := Some (object_to_attribute_map v)\<rparr>
          else out)"

definition unexpected_kind_diag :: "block_kind \<Rightarrow> diagnostic" where
  "unexpected_kind_diag k = diagnostic_new SevTrace ''TG2101''
     (''unexpected block kind `'' @ block_kind_debug k @ ''` in terragrunt file; ignored'')"

definition block_locals :: "raw_block \<Rightarrow> local_def list" where
  "block_locals block = map (\<lambda>(n, v). \<lparr>loc_name = n, loc_value = v, loc_span = rb_span block\<rparr>) (rb_body block)"

definition project_tg_block :: "raw_block \<Rightarrow> parsed_terragrunt \<Rightarrow> parsed_terragrunt" where
  "project_tg_block block out =
     (case rb_kind block of
        BkLocals \<Rightarrow> out\<lparr>pt_locals := pt_locals out @ block_locals block\<rparr>
      | BkInputs \<Rightarrow> out\<lparr>pt_inputs := Some (rb_body block)\<rparr>
      | BkInclude \<Rightarrow> out\<lparr>pt_includes := pt_includes out @ [project_include block]\<rparr>
      | BkGenerate \<Rightarrow> out\<lparr>pt_generates := pt_generates out @ [project_labelled block]\<rparr>
      | BkDependency \<Rightarrow> out\<lparr>pt_dependencies := pt_dependencies out @ [project_labelled block]\<rparr>
      | BkTerraform \<Rightarrow> out\<lparr>pt_terraform := pt_terraform out @ [rb_body block]\<rparr>
      | BkUnknown \<Rightarrow> project_unknown block out
      | k \<Rightarrow> out\<lparr>pt_diagnostics := pt_diagnostics out @ [unexpected_kind_diag k]\<rparr>)"

definition project_terragrunt :: "parse_result \<Rightarrow> parsed_terragrunt" where
  "project_terragrunt parsed =
     fold project_tg_block (pr_blocks parsed) (parsed_default\<lparr>pt_diagnostics := pr_diagnostics parsed\<rparr>)"

end
