(* ===== verification/TgFuncs.thy ===== *)
theory TgFuncs
  imports TgMerge FuncProps
begin

text \<open>Terragrunt's functions (\<open>terragrunt/funcs.rs\<close>).  A function object closes over the shared \<open>TgState\<close>, so
  each is a function of that state; only the resolver changes it, between two reductions, when it enters an include.\<close>

record tg_state =
  tg_workspace_root :: path
  tg_component_dir :: path
  tg_active_include :: "path option"

definition tg_state_new :: "path \<Rightarrow> path \<Rightarrow> tg_state" where
  "tg_state_new wroot dir = \<lparr>tg_workspace_root = wroot, tg_component_dir = dir, tg_active_include = None\<rparr>"

fun tg_type_name :: "value \<Rightarrow> str" where
  "tg_type_name VNull = ''null''"
| "tg_type_name (VBool _) = ''bool''"
| "tg_type_name (VInt _) = ''int''"
| "tg_type_name (VNumber _) = ''number''"
| "tg_type_name (VStr _) = ''string''"
| "tg_type_name (VList _) = ''list''"
| "tg_type_name (VMap _) = ''map''"

definition nullary :: "str \<Rightarrow> value \<Rightarrow> hcl_func" where
  "nullary name v args cx = (if args \<noteq> [] then Err (FArity name 0 (length args)) else Ok v)"

definition get_terragrunt_dir_fn :: "tg_state \<Rightarrow> hcl_func" where
  "get_terragrunt_dir_fn st = nullary ''get_terragrunt_dir'' (VStr (path_str (tg_component_dir st)))"

definition get_repo_root_fn :: "tg_state \<Rightarrow> hcl_func" where
  "get_repo_root_fn st = nullary ''get_repo_root'' (VStr (path_str (tg_workspace_root st)))"

text \<open>The directory of the active include, the component's own directory without one.\<close>

definition active_dir :: "tg_state \<Rightarrow> path" where
  "active_dir st =
     (case Option.bind (tg_active_include st) path_parent of None \<Rightarrow> tg_component_dir st | Some p \<Rightarrow> p)"

definition get_parent_terragrunt_dir_fn :: "tg_state \<Rightarrow> hcl_func" where
  "get_parent_terragrunt_dir_fn st = nullary ''get_parent_terragrunt_dir'' (VStr (path_str (active_dir st)))"

text \<open>The walk up from \<open>cursor\<close>.\<close>

function find_up :: "workspace_disk \<Rightarrow> path \<Rightarrow> path \<Rightarrow> path \<Rightarrow> path option" where
  "find_up d name wroot cursor =
     (let candidate = path_join cursor name;
          found = (if fs_exists d candidate
                   then canonicalize_inside (file_system.truncate d) candidate wroot Follow
                   else Err (PathIo candidate []))
      in case found of
           Inr canonical \<Rightarrow> Some canonical
         | Inl _ \<Rightarrow>
             if \<not> is_descendant cursor wroot then None
             else if cursor = wroot then None
             else (case path_parent cursor of None \<Rightarrow> None | Some up \<Rightarrow> find_up d name wroot up))"
  by auto
termination
  by (relation "measure (\<lambda>(_, _, _, cursor). length cursor)") (auto simp: path_parent_def split: if_splits)

declare find_up.simps [simp del]

definition find_in_parents :: "workspace_disk \<Rightarrow> path \<Rightarrow> str \<Rightarrow> path \<Rightarrow> path option" where
  "find_in_parents d start name wroot =
     find_up d (parse_path name) wroot (if is_absolute start then start else path_join wroot start)"

definition find_in_parent_folders_fn :: "workspace_disk \<Rightarrow> tg_state \<Rightarrow> hcl_func" where
  "find_in_parent_folders_fn d st args cx =
     (let search = (\<lambda>name.
        case find_in_parents d (tg_component_dir st) name (tg_workspace_root st) of
          Some p \<Rightarrow> Ok (VStr (path_str p))
        | None \<Rightarrow> (case arg_get args 1 of
            Some (VStr fb) \<Rightarrow> Ok (VStr fb)
          | _ \<Rightarrow> Err (FOther ''find_in_parent_folders''
                   (''no `'' @ name @ ''` found above `'' @ path_str (tg_component_dir st) @ ''`''))))
      in case arg_get args 0 of
           Some (VStr s) \<Rightarrow> search s
         | None \<Rightarrow> search ''terragrunt.hcl''
         | Some other \<Rightarrow> Err (FType ''find_in_parent_folders'' 0 ''string'' (tg_type_name other)))"

definition find_in_parent_folders_from_fn :: "workspace_disk \<Rightarrow> tg_state \<Rightarrow> hcl_func" where
  "find_in_parent_folders_from_fn d st args cx =
     (let fname = ''find_in_parent_folders_from'' in
      case arg_get args 0 of
        None \<Rightarrow> Err (FArity fname 1 0)
      | Some (VStr s) \<Rightarrow>
          (let search = (\<lambda>name.
             case find_in_parents d (parse_path s) name (tg_workspace_root st) of
               Some p \<Rightarrow> Ok (VStr (path_str p))
             | None \<Rightarrow> Err (FOther fname (''no `'' @ name @ ''` found above `'' @ path_str (parse_path s) @ ''`'')))
           in case arg_get args 1 of
                Some (VStr n) \<Rightarrow> search n
              | None \<Rightarrow> search ''terragrunt.hcl''
              | Some other \<Rightarrow> Err (FType fname 1 ''string'' (tg_type_name other)))
      | Some other \<Rightarrow> Err (FType fname 0 ''string'' (tg_type_name other)))"

definition relative_str :: "path \<Rightarrow> path \<Rightarrow> str" where
  "relative_str base p =
     (case path_strip_prefix base p of
        None \<Rightarrow> ''.''
      | Some rel \<Rightarrow> if rel = [] then ''.'' else path_str rel)"

definition path_relative_to_include_fn :: "tg_state \<Rightarrow> hcl_func" where
  "path_relative_to_include_fn st =
     nullary ''path_relative_to_include'' (VStr (relative_str (active_dir st) (tg_component_dir st)))"

definition path_relative_from_include_fn :: "tg_state \<Rightarrow> hcl_func" where
  "path_relative_from_include_fn st =
     nullary ''path_relative_from_include'' (VStr (relative_str (tg_component_dir st) (active_dir st)))"

definition tg_try_fn :: hcl_func where
  "tg_try_fn args cx =
     (case arg_get args 0 of
        Some v \<Rightarrow> Ok v
      | None \<Rightarrow> (case arg_get args 1 of Some fb \<Rightarrow> Ok fb | None \<Rightarrow> Err (FArity ''try'' 1 0)))"

text \<open>\<open>build_func_registry\<close>: the standard functions and, over them, Terragrunt's.  \<open>rtc\<close> is the registered
  \<open>read_terragrunt_config\<close> (see \<open>TgRead\<close>).\<close>

definition build_func_registry :: "host \<Rightarrow> workspace_disk \<Rightarrow> tg_state \<Rightarrow> hcl_func \<Rightarrow> func_registry" where
  "build_func_registry h d st rtc =
     register_all (default_with_stdlib h (disk.truncate d))
       [(''get_terragrunt_dir'', get_terragrunt_dir_fn st), (''get_repo_root'', get_repo_root_fn st),
        (''get_parent_terragrunt_dir'', get_parent_terragrunt_dir_fn st),
        (''find_in_parent_folders'', find_in_parent_folders_fn d st),
        (''find_in_parent_folders_from'', find_in_parent_folders_from_fn d st),
        (''path_relative_to_include'', path_relative_to_include_fn st),
        (''path_relative_from_include'', path_relative_from_include_fn st),
        (''try'', tg_try_fn), (''read_terragrunt_config'', rtc)]"

section \<open>Laws\<close>

lemma find_up_inside: "find_up d name wroot cursor = Some p \<Longrightarrow> prefix wroot p"
proof (induction d name wroot cursor rule: find_up.induct)
  case (1 d name wroot cursor)
  let ?c = "path_join cursor name"
  let ?found = "if fs_exists d ?c then canonicalize_inside (file_system.truncate d) ?c wroot Follow
                else Err (PathIo ?c [])"
  show ?case
  proof (cases ?found)
    case (Inr q)
    then have "canonicalize_inside (file_system.truncate d) ?c wroot Follow = Ok q" by (simp split: if_splits)
    moreover have "p = q" using "1.prems" Inr by (subst (asm) find_up.simps) (simp add: Let_def)
    ultimately show ?thesis by (simp add: canonicalize_inside_prefix)
  next
    case (Inl e)
    have step: "(if \<not> is_descendant cursor wroot then None else if cursor = wroot then None
        else case path_parent cursor of None \<Rightarrow> None | Some up \<Rightarrow> find_up d name wroot up) = Some p"
      using "1.prems" Inl by (subst (asm) find_up.simps) (simp add: Let_def)
    then obtain up where up: "path_parent cursor = Some up" "find_up d name wroot up = Some p"
      and guards: "\<not> \<not> is_descendant cursor wroot" "cursor \<noteq> wroot"
      by (auto split: if_splits option.splits)
    show ?thesis
      by (rule "1.IH" [OF refl refl Inl guards up(1) up(2)])
  qed
qed

lemma find_in_parents_inside: "find_in_parents d start name wroot = Some p \<Longrightarrow> prefix wroot p"
  by (simp add: find_in_parents_def find_up_inside)

text \<open>The search starts at the directory it is given, not at its parent: a file of the name there is the answer.\<close>

lemma find_up_here:
  assumes "fs_exists d (path_join cursor name)"
    and "canonicalize_inside (file_system.truncate d) (path_join cursor name) wroot Follow = Ok p"
  shows "find_up d name wroot cursor = Some p"
  by (subst find_up.simps) (simp add: assms Let_def)

end
