(* ===== verification/TgResolver.thy ===== *)
theory TgResolver
  imports TgFuncs ComponentEval
begin

text \<open>The Terragrunt resolver (\<open>terragrunt/resolver.rs\<close>): reading a file, the include chain, the merge cascade, the
  evaluation of the merged file, and the state backend.

  A panic of the reducer is \<open>None\<close>.  \<open>tg_env\<close> holds what one resolution does not change: the float formatters, the
  file system, the front end, the context, and \<open>read_terragrunt_config\<close> as a function of the active include (its
  own state is modelled in \<open>TgRead\<close>).\<close>

record tg_context =
  tc_workspace_root :: path
  tc_environment :: "str option"
  tc_env_var_mode :: env_var_mode
  tc_allowed_env :: "str list"
  tc_max_include_depth :: nat

definition tg_context_new :: "path \<Rightarrow> tg_context" where
  "tg_context_new wroot = \<lparr>tc_workspace_root = wroot, tc_environment = None, tc_env_var_mode = env_var_mode_default,
     tc_allowed_env = [], tc_max_include_depth = 32\<rparr>"

record 'ast tg_env =
  te_host :: host
  te_show_f64 :: "f64 \<Rightarrow> str"  \<comment> \<open>\<open>f64::to_string\<close> of the standard library\<close>
  te_disk :: workspace_disk
  te_front_end :: "'ast front_end"
  te_ctx :: tg_context
  te_read_config :: "path option \<Rightarrow> hcl_func"

definition te_root :: "'ast tg_env \<Rightarrow> path" where
  "te_root env = tc_workspace_root (te_ctx env)"

definition te_fs :: "'ast tg_env \<Rightarrow> file_system" where
  "te_fs env = file_system.truncate (te_disk env)"

definition tg_funcs :: "'ast tg_env \<Rightarrow> tg_state \<Rightarrow> func_registry" where
  "tg_funcs env st = build_func_registry (te_host env) (te_disk env) st (te_read_config env (tg_active_include st))"

text \<open>\<open>Scope::new(Map::new(), locals, \<dots>, None)\<close>.\<close>

definition tg_scope :: "'ast tg_env \<Rightarrow> func_registry \<Rightarrow> vmap \<Rightarrow> scope" where
  "tg_scope env funcs locals =
     \<lparr>sc_vars = [], sc_locals = locals, sc_binders = [], sc_workspace_root = te_root env,
      sc_env_vars = tc_env_var_mode (te_ctx env), sc_limits = eval_limits_default, sc_funcs = funcs,
      sc_terraform_workspace = None, sc_ryu = h_ryu (te_host env)\<rparr>"

section \<open>Reading a file\<close>

definition read_and_project :: "'ast tg_env \<Rightarrow> path \<Rightarrow> parsed_terragrunt option" where
  "read_and_project env p =
     (case canonicalize_inside (te_fs env) p (te_root env) Follow of
        Inl _ \<Rightarrow> None
      | Inr canonical \<Rightarrow> (case fs_read (te_disk env) canonical of
          Inl _ \<Rightarrow> None
        | Inr bytes \<Rightarrow>
            Some (project_terragrunt (parse_bytes (te_front_end env) bytes canonical loader_limits_default))))"

definition reduce_to_string :: "'ast tg_env \<Rightarrow> func_registry \<Rightarrow> expr \<Rightarrow> str option option" where
  "reduce_to_string env funcs e = do {
     r \<leftarrow> reduce e (tg_scope env funcs []);
     Some (case r of Literal (VStr s) \<Rightarrow> Some s | _ \<Rightarrow> None)
   }"

definition parse_merge_strategy :: "expr option \<Rightarrow> merge_strategy" where
  "parse_merge_strategy oe =
     (case oe of
        Some (Literal (VStr s)) \<Rightarrow>
          (case merge_strategy_parse s of None \<Rightarrow> merge_strategy_default | Some m \<Rightarrow> m)
      | _ \<Rightarrow> merge_strategy_default)"

section \<open>The include chain\<close>

record chain_entry =
  ce_parsed :: parsed_terragrunt
  ce_merge_strategy :: merge_strategy
  ce_include_origin :: "path option"
  ce_include_label :: "str option"
  ce_span :: span

text \<open>What the recursion threads: the visited set, the active include (in \<open>TgState\<close>), and the diagnostics.\<close>

record chain_state =
  cs_visited :: "path list"
  cs_active :: "path option"
  cs_diags :: "diagnostic list"

definition chain_diag :: "chain_state \<Rightarrow> diagnostic \<Rightarrow> chain_state" where
  "chain_diag st d = st\<lparr>cs_diags := cs_diags st @ [d]\<rparr>"

definition include_diag :: "include_raw \<Rightarrow> str \<Rightarrow> str \<Rightarrow> diagnostic" where
  "include_diag inc code msg = with_span (diagnostic_new SevWarn code msg) (ir_span inc)"

definition depth_diag :: "'ast tg_env \<Rightarrow> diagnostic" where
  "depth_diag env = diagnostic_limit LkIncludeDepth ''TG2002''
     (''terragrunt include depth cap ('' @ nat_str (tc_max_include_depth (te_ctx env)) @ '') exceeded'')"

definition tail_entry :: "parsed_terragrunt \<Rightarrow> span \<Rightarrow> chain_entry" where
  "tail_entry child sp = \<lparr>ce_parsed = child, ce_merge_strategy = DeepMapOnly, ce_include_origin = None,
     ce_include_label = None, ce_span = sp\<rparr>"

definition child_span :: "parsed_terragrunt \<Rightarrow> span" where
  "child_span child = (case pt_locals child of [] \<Rightarrow> span_synthetic | l # _ \<Rightarrow> loc_span l)"

definition mark_visited :: "'ast tg_env \<Rightarrow> path \<Rightarrow> chain_state \<Rightarrow> chain_state" where
  "mark_visited env p st =
     (case canonicalize_inside (te_fs env) p (te_root env) Follow of
        Inl _ \<Rightarrow> st
      | Inr c \<Rightarrow> st\<lparr>cs_visited := List.insert c (cs_visited st)\<rparr>)"

definition chain_funcs :: "'ast tg_env \<Rightarrow> path \<Rightarrow> chain_state \<Rightarrow> func_registry" where
  "chain_funcs env dir st =
     tg_funcs env \<lparr>tg_workspace_root = te_root env, tg_component_dir = dir, tg_active_include = cs_active st\<rparr>"

text \<open>The file an \<open>include\<close> block names: a new state when it is skipped, or its canonical path, its contents and
  the state in which the recursion on it starts.\<close>

definition open_include ::
  "'ast tg_env \<Rightarrow> path \<Rightarrow> include_raw \<Rightarrow> chain_state \<Rightarrow>
   (chain_state + path \<times> parsed_terragrunt \<times> chain_state) option" where
  "open_include env dir inc st =
     (case ir_path_expr inc of
        None \<Rightarrow> Some (Inl (chain_diag st (include_diag inc ''TG2003''
                  (''include `'' @ ir_label inc @ ''` missing `path = ...` attribute''))))
      | Some pe \<Rightarrow> do {
          pv \<leftarrow> reduce_to_string env (chain_funcs env dir st) pe;
          Some (case pv of
            None \<Rightarrow> Inl (chain_diag st (include_diag inc ''TG2004''
                      (''include `'' @ ir_label inc @ ''` path expression did not reduce to a string'')))
          | Some s \<Rightarrow> (case canonicalize_inside (te_fs env) (parse_path s) (te_root env) Follow of
              Inl e \<Rightarrow> Inl (chain_diag st (include_diag inc ''TG2005''
                        (''include `'' @ ir_label inc @ ''` path `'' @ path_str (parse_path s)
                         @ ''` did not resolve under workspace root: '' @ path_safety_error_str e)))
            | Inr canonical \<Rightarrow>
                if canonical \<in> set (cs_visited st) then
                  Inl (chain_diag st (include_diag inc ''TG2006''
                    (''terragrunt include cycle detected at `'' @ path_str canonical @ ''`'')))
                else
                  let st = st\<lparr>cs_visited := canonical # cs_visited st\<rparr> in
                  (case read_and_project env canonical of
                     None \<Rightarrow> Inl st
                   | Some parent \<Rightarrow>
                       Inr (canonical, parent,
                         st\<lparr>cs_diags := cs_diags st @ pt_diagnostics parent, cs_active := Some canonical\<rparr>))))
        })"

definition include_entry :: "include_raw \<Rightarrow> path \<Rightarrow> parsed_terragrunt \<Rightarrow> chain_entry" where
  "include_entry inc canonical parent =
     \<lparr>ce_parsed = parent, ce_merge_strategy = parse_merge_strategy (ir_merge_strategy_expr inc),
      ce_include_origin = Some canonical, ce_include_label = Some (ir_label inc), ce_span = ir_span inc\<rparr>"

text \<open>\<open>resolve_include_chain\<close> and the loop over \<open>child.includes\<close> in it.  The first argument is the depth left,
  \<open>max_include_depth - depth\<close>.\<close>

function (sequential) resolve_include_chain ::
  "'ast tg_env \<Rightarrow> path \<Rightarrow> nat \<Rightarrow> parsed_terragrunt \<Rightarrow> path \<Rightarrow> chain_state \<Rightarrow>
   (chain_entry list \<times> chain_state) option"
and resolve_includes ::
  "'ast tg_env \<Rightarrow> path \<Rightarrow> nat \<Rightarrow> include_raw list \<Rightarrow> chain_state \<Rightarrow> (chain_entry list \<times> chain_state) option" where
  "resolve_include_chain env dir 0 child child_path st =
     Some ([tail_entry child span_synthetic], chain_diag st (depth_diag env))"
| "resolve_include_chain env dir (Suc left) child child_path st =
     (case resolve_includes env dir left (pt_includes child) (mark_visited env child_path st) of
        None \<Rightarrow> None
      | Some (chain, st') \<Rightarrow> Some (chain @ [tail_entry child (child_span child)], st'))"
| "resolve_includes env dir left [] st = Some ([], st)"
| "resolve_includes env dir left (inc # incs) st =
     (case open_include env dir inc st of
        None \<Rightarrow> None
      | Some (Inl st1) \<Rightarrow> resolve_includes env dir left incs st1
      | Some (Inr (canonical, parent, st1)) \<Rightarrow>
          (case resolve_include_chain env dir left parent canonical st1 of
             None \<Rightarrow> None
           | Some (sub, st2) \<Rightarrow>
               (case resolve_includes env dir left incs st2 of
                  None \<Rightarrow> None
                | Some (rest, st3) \<Rightarrow> Some (sub @ [include_entry inc canonical parent] @ rest, st3))))"
  by pat_completeness auto
termination
  by (relation "measures [\<lambda>x. case x of Inl (_, _, n, _) \<Rightarrow> 2 * n | Inr (_, _, n, _) \<Rightarrow> 2 * n + 1,
                          \<lambda>x. case x of Inl _ \<Rightarrow> 0 | Inr (_, _, _, incs, _) \<Rightarrow> length incs]") auto

section \<open>The merge cascade\<close>

definition literal_map_for :: "local_def list \<Rightarrow> vmap" where
  "literal_map_for locals = List.map_filter (\<lambda>l. map_option (Pair (loc_name l)) (as_literal (loc_value l))) locals"

definition non_literals :: "local_def list \<Rightarrow> local_def list" where
  "non_literals locals = filter (\<lambda>l. \<not> is_literal (loc_value l)) locals"

text \<open>\<open>iter_mut().find(|x| key(x) == key(new))\<close>, then overwrite in place or push.\<close>

fun replace_or_push :: "('a \<Rightarrow> str) \<Rightarrow> 'a \<Rightarrow> 'a list \<Rightarrow> 'a list" where
  "replace_or_push key x [] = [x]"
| "replace_or_push key x (y # ys) = (if key y = key x then x # ys else y # replace_or_push key x ys)"

definition map_to_locals_with_inherited :: "vmap \<Rightarrow> parsed_terragrunt \<Rightarrow> local_def list \<Rightarrow> local_def list" where
  "map_to_locals_with_inherited merged parsed inherited =
     fold (\<lambda>(k, v). replace_or_push loc_name \<lparr>loc_name = k, loc_value = Literal v, loc_span = span_synthetic\<rparr>) merged
       (fold (replace_or_push loc_name) (non_literals (pt_locals parsed)) inherited)"

definition or_else :: "'a option \<Rightarrow> 'a option \<Rightarrow> 'a option" where
  "or_else a b = (case a of None \<Rightarrow> b | Some _ \<Rightarrow> a)"

definition cascade_step :: "chain_entry \<Rightarrow> parsed_terragrunt \<Rightarrow> parsed_terragrunt" where
  "cascade_step entry acc =
     (let parsed = ce_parsed entry;
          merged = merge_locals (literal_map_for (pt_locals acc)) (literal_map_for (pt_locals parsed))
                     (ce_merge_strategy entry)
      in acc\<lparr>pt_locals := map_to_locals_with_inherited merged parsed (non_literals (pt_locals acc)),
             pt_inputs := or_else (pt_inputs parsed) (pt_inputs acc),
             pt_generates := fold (replace_or_push lr_label) (pt_generates parsed) (pt_generates acc),
             pt_dependencies := fold (replace_or_push lr_label) (pt_dependencies parsed) (pt_dependencies acc),
             pt_terraform := pt_terraform acc @ pt_terraform parsed,
             pt_remote_state := or_else (pt_remote_state parsed) (pt_remote_state acc),
             pt_diagnostics := pt_diagnostics acc @ pt_diagnostics parsed\<rparr>)"

definition apply_cascade :: "chain_entry list \<Rightarrow> parsed_terragrunt" where
  "apply_cascade chain = fold cascade_step chain parsed_default"

section \<open>Evaluation\<close>

text \<open>One pass over the pending locals: the resolved map, the locals still pending, and whether one was resolved.\<close>

fun tg_pass :: "(vmap \<Rightarrow> scope) \<Rightarrow> local_def list \<Rightarrow> vmap \<Rightarrow> (vmap \<times> local_def list \<times> bool) option" where
  "tg_pass sc [] resolved = Some (resolved, [], False)"
| "tg_pass sc (l # ls) resolved =
     (case reduce (loc_value l) (sc resolved) of
        None \<Rightarrow> None
      | Some r \<Rightarrow> (case as_literal r of
          Some v \<Rightarrow> map_option (\<lambda>(rs, ps, _). (rs, ps, True)) (tg_pass sc ls (resolved @ [(loc_name l, v)]))
        | None \<Rightarrow> map_option (\<lambda>(rs, ps, progress). (rs, l\<lparr>loc_value := r\<rparr> # ps, progress)) (tg_pass sc ls resolved)))"

fun tg_passes :: "nat \<Rightarrow> (vmap \<Rightarrow> scope) \<Rightarrow> local_def list \<Rightarrow> vmap \<Rightarrow> vmap option" where
  "tg_passes 0 sc pending resolved = Some resolved"
| "tg_passes (Suc n) sc pending resolved =
     (case tg_pass sc pending resolved of
        None \<Rightarrow> None
      | Some (resolved', pending', progress) \<Rightarrow>
          if \<not> progress \<or> pending' = [] then Some resolved' else tg_passes n sc pending' resolved')"

definition tg_max_passes :: nat where
  "tg_max_passes = 16"

definition evaluate_locals :: "'ast tg_env \<Rightarrow> func_registry \<Rightarrow> local_def list \<Rightarrow> vmap option" where
  "evaluate_locals env funcs locals = tg_passes tg_max_passes (tg_scope env funcs) locals []"

definition evaluate_inputs :: "'ast tg_env \<Rightarrow> func_registry \<Rightarrow> attribute_map \<Rightarrow> vmap \<Rightarrow> vmap option" where
  "evaluate_inputs env funcs inputs locals =
     map_option (List.map_filter (\<lambda>(k, e). map_option (Pair k) (as_literal e)))
       (reduce_attrs inputs (tg_scope env funcs locals))"

definition reduce_labelled :: "'ast tg_env \<Rightarrow> func_registry \<Rightarrow> vmap \<Rightarrow> labelled_raw list \<Rightarrow> labelled_raw list option" where
  "reduce_labelled env funcs locals raw =
     map_option_list (\<lambda>g. map_option (\<lambda>attrs. g\<lparr>lr_attrs := attrs\<rparr>) (reduce_attrs (lr_attrs g) (tg_scope env funcs locals)))
       raw"

section \<open>Rendering\<close>

fun template_part_str :: "expr \<Rightarrow> str option" where
  "template_part_str (Literal (VStr s)) = Some s"
| "template_part_str (Literal (VInt n)) = Some (int_str n)"
| "template_part_str (Literal (VBool b)) = Some (bool_str b)"
| "template_part_str _ = None"

fun render_contents_for_reparse :: "expr \<Rightarrow> str option" where
  "render_contents_for_reparse (Literal (VStr s)) = Some s"
| "render_contents_for_reparse (ETemplate parts) = Some (concat (List.map_filter template_part_str parts))"
| "render_contents_for_reparse _ = None"

fun marked_part_str :: "expr \<Rightarrow> str option" where
  "marked_part_str (Unresolved s) = Some (''${'' @ sym_source s @ ''}'')"
| "marked_part_str e = template_part_str e"

fun render_expr_to_string :: "(f64 \<Rightarrow> str) \<Rightarrow> expr \<Rightarrow> str option" where
  "render_expr_to_string show_f64 (Literal (VStr s)) = Some s"
| "render_expr_to_string show_f64 (Literal (VInt n)) = Some (int_str n)"
| "render_expr_to_string show_f64 (Literal (VNumber f)) = Some (show_f64 f)"
| "render_expr_to_string show_f64 (Literal (VBool b)) = Some (bool_str b)"
| "render_expr_to_string show_f64 (ETemplate parts) = map_option concat (map_option_list marked_part_str parts)"
| "render_expr_to_string show_f64 _ = None"

section \<open>Generate and dependency blocks\<close>

record generate_acc =
  ga_path :: "path option"
  ga_if_exists :: "str option"
  ga_contents :: "str option"

definition generate_attr :: "(f64 \<Rightarrow> str) \<Rightarrow> str \<times> expr \<Rightarrow> generate_acc \<Rightarrow> generate_acc" where
  "generate_attr show_f64 kv acc =
     (let (k, v) = kv; s = render_expr_to_string show_f64 v in
      if k = ''path'' then acc\<lparr>ga_path := map_option parse_path s\<rparr>
      else if k = ''if_exists'' then acc\<lparr>ga_if_exists := s\<rparr>
      else if k = ''contents'' then acc\<lparr>ga_contents := s\<rparr>
      else acc)"

definition build_generate :: "(f64 \<Rightarrow> str) \<Rightarrow> generate_raw \<Rightarrow> generate_block option" where
  "build_generate show_f64 r =
     (let acc = fold (generate_attr show_f64) (lr_attrs r) \<lparr>ga_path = None, ga_if_exists = None, ga_contents = None\<rparr>
      in case (ga_path acc, ga_if_exists acc, ga_contents acc) of
           (Some p, Some ie, Some c) \<Rightarrow>
             Some \<lparr>gen_label = lr_label r, gen_path = p, gen_if_exists = ie, gen_contents = c, gen_span = lr_span r\<rparr>
         | _ \<Rightarrow> None)"

definition build_generates :: "(f64 \<Rightarrow> str) \<Rightarrow> generate_raw list \<Rightarrow> generate_block list" where
  "build_generates show_f64 raw = List.map_filter (build_generate show_f64) raw"

definition dependency_attr :: "path \<Rightarrow> str \<times> expr \<Rightarrow> path option \<times> attribute_map \<Rightarrow> path option \<times> attribute_map" where
  "dependency_attr dir kv acc =
     (case kv of
        (k, Literal (VStr s)) \<Rightarrow> if k = ''config_path'' then (Some (path_join dir (parse_path s)), snd acc) else acc
      | (k, EObject entries) \<Rightarrow>
          if k = ''mock_outputs'' then (fst acc, object_to_attribute_map (EObject entries)) else acc
      | _ \<Rightarrow> acc)"

definition build_dependency :: "path \<Rightarrow> dependency_raw \<Rightarrow> dependency_block option" where
  "build_dependency dir r =
     (let (config_path, mocks) = fold (dependency_attr dir) (lr_attrs r) (None, []) in
      map_option (\<lambda>cp. \<lparr>dep_name = lr_label r, dep_config_path = cp, dep_mock_outputs = mocks, dep_span = lr_span r\<rparr>)
        config_path)"

definition build_dependencies :: "dependency_raw list \<Rightarrow> path \<Rightarrow> dependency_block list" where
  "build_dependencies raw dir = List.map_filter (build_dependency dir) raw"

section \<open>The state backend\<close>

definition backend_entry :: "expr \<times> expr \<Rightarrow> str \<times> attribute_map \<Rightarrow> str \<times> attribute_map" where
  "backend_entry kv acc =
     (case fst kv of
        Literal (VStr name) \<Rightarrow>
          (case snd kv of
             Literal (VList (VStr label # _)) \<Rightarrow>
               if name = ''__labels__'' then (label, snd acc) else (fst acc, snd acc @ [(name, snd kv)])
           | v \<Rightarrow> (fst acc, snd acc @ [(name, v)]))
      | _ \<Rightarrow> acc)"

fun backend_from_terraform_body :: "attribute_map \<Rightarrow> state_backend option" where
  "backend_from_terraform_body [] = None"
| "backend_from_terraform_body ((k, v) # body) =
     (case v of
        EObject entries \<Rightarrow>
          if k = ''backend'' then
            (let (kind, attrs) = fold backend_entry entries (''s3'', []) in
             Some \<lparr>sb_kind = kind, sb_attributes = attrs, sb_state_account_id = None, sb_state_region = None,
                   sb_span = span_synthetic\<rparr>)
          else backend_from_terraform_body body
      | _ \<Rightarrow> backend_from_terraform_body body)"

text \<open>\<open>iter().find_map\<close>.\<close>

fun find_map :: "('a \<Rightarrow> 'b option) \<Rightarrow> 'a list \<Rightarrow> 'b option" where
  "find_map f [] = None"
| "find_map f (x # xs) = (case f x of None \<Rightarrow> find_map f xs | Some y \<Rightarrow> Some y)"

definition backend_from_generate :: "'ast front_end \<Rightarrow> generate_raw \<Rightarrow> state_backend option" where
  "backend_from_generate fe g =
     (if lr_label g \<noteq> ''backend'' then None
      else case find_map (\<lambda>(k, v). if k = ''contents'' then render_contents_for_reparse v else None) (lr_attrs g) of
        None \<Rightarrow> None
      | Some contents \<Rightarrow>
          find_map (\<lambda>b. if rb_kind b \<noteq> BkTerraform then None else backend_from_terraform_body (rb_body b))
            (pr_blocks (parse_bytes fe contents (parse_path ''generated_backend.tf'') loader_limits_default)))"

definition extract_state_backend :: "'ast front_end \<Rightarrow> parsed_terragrunt \<Rightarrow> state_backend option" where
  "extract_state_backend fe merged =
     or_else (find_map backend_from_terraform_body (pt_terraform merged))
       (find_map (backend_from_generate fe) (pt_generates merged))"

section \<open>Resolution\<close>

definition tg_config_empty :: "path \<Rightarrow> diagnostic list \<Rightarrow> terragrunt_config" where
  "tg_config_empty dir ds = \<lparr>tgc_component_dir = dir, tgc_effective_locals = [], tgc_inputs = [], tgc_includes = [],
     tgc_generates = [], tgc_dependencies = [], tgc_state_backend = None, tgc_diagnostics = ds\<rparr>"

definition outside_diag :: "path \<Rightarrow> path \<Rightarrow> diagnostic" where
  "outside_diag dir wroot = diagnostic_new SevWarn ''TG2001''
     (''component dir `'' @ path_str dir @ ''` is outside workspace root `'' @ path_str wroot @ ''`'')"

definition chain_includes :: "chain_entry list \<Rightarrow> include_path list" where
  "chain_includes chain = List.map_filter (\<lambda>e.
     map_option (\<lambda>origin. \<lparr>inc_path = origin, inc_label = ce_include_label e, inc_span = ce_span e\<rparr>)
       (ce_include_origin e)) chain"

definition evaluate_merged ::
  "'ast tg_env \<Rightarrow> path \<Rightarrow> chain_entry list \<Rightarrow> func_registry \<Rightarrow> diagnostic list \<Rightarrow> terragrunt_config option" where
  "evaluate_merged env dir chain funcs ds = do {
     let merged = apply_cascade chain;
     locals \<leftarrow> evaluate_locals env funcs (pt_locals merged);
     inputs \<leftarrow> (case pt_inputs merged of None \<Rightarrow> Some [] | Some attrs \<Rightarrow> evaluate_inputs env funcs attrs locals);
     generates \<leftarrow> reduce_labelled env funcs locals (pt_generates merged);
     dependencies \<leftarrow> reduce_labelled env funcs locals (pt_dependencies merged);
     Some \<lparr>tgc_component_dir = dir, tgc_effective_locals = locals, tgc_inputs = inputs,
           tgc_includes = chain_includes chain, tgc_generates = build_generates (te_show_f64 env) generates,
           tgc_dependencies = build_dependencies dependencies dir,
           tgc_state_backend = extract_state_backend (te_front_end env) merged, tgc_diagnostics = ds\<rparr>
   }"

definition tg_resolve :: "'ast tg_env \<Rightarrow> path \<Rightarrow> terragrunt_config option" where
  "tg_resolve env dir =
     (if \<not> is_ok (canonicalize_inside (te_fs env) dir (te_root env) Follow) then
        Some (tg_config_empty dir [outside_diag dir (te_root env)])
      else
        let tg_hcl = path_join dir (parse_path ''terragrunt.hcl'') in
        (case read_and_project env tg_hcl of
           None \<Rightarrow> Some (tg_config_empty dir [])
         | Some parsed \<Rightarrow> do {
             (chain, st) \<leftarrow> resolve_include_chain env dir (tc_max_include_depth (te_ctx env)) parsed tg_hcl
                \<lparr>cs_visited = [], cs_active = None, cs_diags = pt_diagnostics parsed\<rparr>;
             evaluate_merged env dir chain (chain_funcs env dir st) (cs_diags st)
           }))"

end
