(* ===== verification/TgProps.thy ===== *)
theory TgProps
  imports TgResolver
begin

text \<open>The Terragrunt merge is pointwise; a layer of the cascade is a function of the bindings of a name; and an
  include chain visits each file once, inside the root.\<close>

section \<open>Merging\<close>

text \<open>The three merge loops are one loop with a rule for two values of a key.\<close>

fun merge_with :: "('v option \<Rightarrow> 'v \<Rightarrow> 'v) \<Rightarrow> 'v amap \<Rightarrow> 'v amap \<Rightarrow> 'v amap" where
  "merge_with f out [] = out"
| "merge_with f out ((k, v) # child) = merge_with f (override_or_push out k (f (map_of out k) v)) child"

definition deep_map_rule :: "value option \<Rightarrow> value \<Rightarrow> value" where
  "deep_map_rule p c = (case (p, c) of (Some (VMap a), VMap b) \<Rightarrow> VMap (merge_deep_map_only a b) | _ \<Rightarrow> c)"

definition deep_rule :: "value option \<Rightarrow> value \<Rightarrow> value" where
  "deep_rule p c = (case (p, c) of (Some (VMap a), VMap b) \<Rightarrow> VMap (merge_deep a b)
     | (Some (VList a), VList b) \<Rightarrow> VList (a @ b) | _ \<Rightarrow> c)"

lemma merge_shallow_with: "merge_shallow out child = merge_with (\<lambda>_ v. v) out child"
  by (induction out child rule: merge_shallow.induct) auto

lemma merge_deep_map_only_with: "merge_deep_map_only out child = merge_with deep_map_rule out child"
  by (induction child arbitrary: out) (auto simp: deep_map_rule_def)

lemma merge_deep_with: "merge_deep out child = merge_with deep_rule out child"
  by (induction child arbitrary: out) (auto simp: deep_rule_def)

lemma merge_with_lookup:
  "distinct (map fst child) \<Longrightarrow>
   map_of (merge_with f out child) k =
     (case map_of child k of None \<Rightarrow> map_of out k | Some v \<Rightarrow> Some (f (map_of out k) v))"
proof (induction f out child rule: merge_with.induct)
  case (2 f out k' v child)
  then have "map_of child k' = None" and "distinct (map fst child)" by (simp_all add: map_of_eq_None_iff)
  then show ?case
    using "2.IH" by (cases "k = k'") (simp_all add: lookup_simps cong: option.case_cong)
qed simp

lemma merge_with_keys:
  "distinct (map fst child) \<Longrightarrow>
   map fst (merge_with f out child) = map fst out @ filter (\<lambda>k. k \<notin> fst ` set out) (map fst child)"
proof (induction f out child rule: merge_with.induct)
  case (2 f out k v child)
  have keys: "fst ` set (override_or_push out k w) = insert k (fst ` set out)" for w
    using keys_override_or_push [of out k w] by (metis insert_absorb list.set_map list.simps(15) rotate1.simps(2) set_rotate1)
  have same: "filter (\<lambda>k'. k' \<notin> insert k (fst ` set out)) (map fst child) = filter (\<lambda>k'. k' \<notin> fst ` set out) (map fst child)"
    using "2.prems" by (intro filter_cong) auto
  show ?case
    using "2.IH" "2.prems" by (simp add: keys same [simplified] lookup_simps)
qed simp

definition merge_slot :: "merge_strategy \<Rightarrow> value option \<Rightarrow> value option \<Rightarrow> value option" where
  "merge_slot s p c =
     (if s = NoMerge then c
      else case c of
        None \<Rightarrow> p
      | Some v \<Rightarrow> (case (p, v) of
          (Some (VMap a), VMap b) \<Rightarrow> Some (if s = Shallow then v else VMap (merge_locals a b s))
        | (Some (VList a), VList b) \<Rightarrow> Some (if s = Deep then VList (a @ b) else v)
        | _ \<Rightarrow> Some v))"

lemma merge_locals_lookup:
  assumes "distinct (map fst child)"
  shows "map_of (merge_locals parent child s) k = merge_slot s (map_of parent k) (map_of child k)"
  using merge_with_lookup [OF assms, of _ parent k]
  by (cases s) (auto simp: merge_locals_def merge_slot_def merge_shallow_with merge_deep_map_only_with [of parent child]
      merge_deep_with [of parent child] deep_map_rule_def deep_rule_def split: option.splits hval.splits)

text \<open>C23. Merging is pointwise: a name of the merged map has the value its strategy gives for the parent's and the
  child's values (the child's, except that maps are merged with the same strategy by the two deep ones and lists are appended by
  \<open>deep\<close>), and the names are the parent's in order followed by the child's new ones.\<close>

theorem merge_locals_pointwise:
  assumes "distinct (map fst child)"
  shows "map_of (merge_locals parent child s) k = merge_slot s (map_of parent k) (map_of child k)
    \<and> map fst (merge_locals parent child s) =
        (if s = NoMerge then map fst child
         else map fst parent @ filter (\<lambda>k. k \<notin> fst ` set parent) (map fst child))"
proof (rule conjI [OF merge_locals_lookup [OF assms]])
  show "map fst (merge_locals parent child s) = (if s = NoMerge then map fst child
         else map fst parent @ filter (\<lambda>k. k \<notin> fst ` set parent) (map fst child))"
    using merge_with_keys [OF assms]
    by (cases s) (simp_all add: merge_locals_def merge_shallow_with merge_deep_map_only_with [of parent child]
      merge_deep_with [of parent child])
qed

theorem merge_locals_pointwise_witness:
  "map_of (merge_locals [(''a'', VMap [(''x'', VInt 1)])] [(''a'', VMap [(''y'', VInt 2)])] Deep) ''a''
     = Some (VMap [(''x'', VInt 1), (''y'', VInt 2)])"
proof -
  have "distinct (map fst [(''a'', VMap [(''y'', VInt 2)])])" by simp
  from merge_locals_pointwise [OF this, of "[(''a'', VMap [(''x'', VInt 1)])]" Deep "''a''"] show ?thesis
    by (simp add: merge_slot_def merge_locals_def)
qed

section \<open>One layer of the cascade\<close>

definition by_name :: "local_def list \<Rightarrow> (str \<times> local_def) list" where
  "by_name ls = map (\<lambda>l. (loc_name l, l)) ls"

definition loc_lookup :: "local_def list \<Rightarrow> str \<Rightarrow> expr option" where
  "loc_lookup ls k = map_option loc_value (map_of (by_name ls) k)"

definition distinct_names :: "local_def list \<Rightarrow> bool" where
  "distinct_names ls \<longleftrightarrow> distinct (map loc_name ls)"

lemma by_name_keys [simp]: "map fst (by_name ls) = map loc_name ls"
  by (simp add: by_name_def comp_def)

lemma by_name_replace: "by_name (replace_or_push loc_name l ls) = override_or_push (by_name ls) (loc_name l) l"
  unfolding by_name_def by (induction ls) auto

lemma by_name_fold: "by_name (fold (replace_or_push loc_name) xs ls) = omap.put_all (by_name ls) (by_name xs)"
proof (induction xs arbitrary: ls)
  case (Cons x xs)
  have "by_name (x # xs) = (loc_name x, x) # by_name xs" by (simp add: by_name_def)
  then show ?case using Cons.IH [of "replace_or_push loc_name x ls"] by (simp add: by_name_replace)
qed (simp add: by_name_def)

lemma fold_replace_lookup:
  assumes "distinct_names xs"
  shows "loc_lookup (fold (replace_or_push loc_name) xs ls) k = or_else (loc_lookup xs k) (loc_lookup ls k)"
proof -
  have "map_of (rev (by_name xs)) = map_of (by_name xs)"
    by (rule map_of_rev_distinct) (use assms in \<open>simp add: distinct_names_def\<close>)
  then show ?thesis
    by (simp add: loc_lookup_def by_name_fold omap.lookup_put_all or_else_def split: option.split)
qed

lemma fold_replace_distinct: "distinct_names ls \<Longrightarrow> distinct_names (fold (replace_or_push loc_name) xs ls)"
  using omap.keys_put_all_distinct [of "by_name ls" "by_name xs"]
  by (simp add: distinct_names_def by_name_fold [symmetric])

lemma loc_lookup_filter:
  "distinct_names ls \<Longrightarrow>
   loc_lookup (filter (\<lambda>l. P (loc_value l)) ls) k =
     (case loc_lookup ls k of None \<Rightarrow> None | Some e \<Rightarrow> if P e then Some e else None)"
proof (induction ls)
  case (Cons l ls)
  have none: "map_of (by_name (filter (\<lambda>l. P (loc_value l)) ls)) (loc_name l) = None" "map_of (by_name ls) (loc_name l) = None"
    using Cons.prems by (auto simp: distinct_names_def by_name_def map_of_eq_None_iff)
  show ?case
    using Cons none by (auto simp: distinct_names_def loc_lookup_def by_name_def split: option.splits)
qed (simp add: loc_lookup_def by_name_def)

lemma literal_map_lookup:
  "distinct_names ls \<Longrightarrow> map_of (literal_map_for ls) k = Option.bind (loc_lookup ls k) as_literal"
proof (induction ls)
  case (Cons l ls)
  have ih: "map_of (literal_map_for ls) k = Option.bind (loc_lookup ls k) as_literal"
    using Cons by (simp add: distinct_names_def)
  have none: "loc_lookup ls (loc_name l) = None"
    using Cons.prems by (auto simp: distinct_names_def loc_lookup_def by_name_def map_of_eq_None_iff)
  have cons: "literal_map_for (l # ls) = (case as_literal (loc_value l) of None \<Rightarrow> [] | Some v \<Rightarrow> [(loc_name l, v)]) @ literal_map_for ls"
    by (simp add: literal_map_for_def List.map_filter_simps split: option.split)
  have look: "loc_lookup (l # ls) k = (if k = loc_name l then Some (loc_value l) else loc_lookup ls k)"
    by (simp add: loc_lookup_def by_name_def)
  show ?case
    unfolding cons look using ih none by (cases "as_literal (loc_value l)") auto
qed (simp add: literal_map_for_def loc_lookup_def by_name_def List.map_filter_def)

lemma literal_map_keys: "map fst (literal_map_for ls) = map loc_name (filter (\<lambda>l. is_literal (loc_value l)) ls)"
proof (induction ls)
  case (Cons l ls)
  then show ?case
    by (cases "loc_value l") (simp_all add: literal_map_for_def List.map_filter_simps)
qed (simp add: literal_map_for_def List.map_filter_def)

lemma literal_map_distinct: "distinct_names ls \<Longrightarrow> distinct (map fst (literal_map_for ls))"
  by (simp add: literal_map_keys distinct_names_def distinct_map_filter)

definition literal_of :: "expr option \<Rightarrow> value option" where
  "literal_of e = Option.bind e as_literal"

definition non_literal_of :: "expr option \<Rightarrow> expr option" where
  "non_literal_of e = (case e of None \<Rightarrow> None | Some x \<Rightarrow> if is_literal x then None else Some x)"

text \<open>The binding of a name after a layer, from the inherited binding and the layer's own.\<close>

definition layer_slot :: "merge_strategy \<Rightarrow> expr option \<Rightarrow> expr option \<Rightarrow> expr option" where
  "layer_slot s inherited own =
     or_else (map_option Literal (merge_slot s (literal_of inherited) (literal_of own)))
       (or_else (non_literal_of own) (non_literal_of inherited))"

lemma merge_locals_distinct:
  assumes "distinct (map fst parent)" "distinct (map fst child)"
  shows "distinct (map fst (merge_locals parent child s))"
proof (cases "s = NoMerge")
  case False
  have "map fst (merge_locals parent child s) = map fst parent @ filter (\<lambda>k. k \<notin> fst ` set parent) (map fst child)"
    using merge_with_keys [OF assms(2)] False
    by (cases s) (simp_all add: merge_locals_def merge_shallow_with merge_deep_map_only_with [of parent child]
        merge_deep_with [of parent child])
  then show ?thesis using assms by (auto simp del: filter_map)
qed (simp add: merge_locals_def assms)

lemma cascade_step_lookup:
  assumes acc: "distinct_names (pt_locals acc)" and own: "distinct_names (pt_locals (ce_parsed entry))"
  shows "loc_lookup (pt_locals (cascade_step entry acc)) k =
      layer_slot (ce_merge_strategy entry) (loc_lookup (pt_locals acc) k) (loc_lookup (pt_locals (ce_parsed entry)) k)
    \<and> distinct_names (pt_locals (cascade_step entry acc))"
proof -
  let ?own = "pt_locals (ce_parsed entry)" and ?acc = "pt_locals acc"
  define merged where "merged = merge_locals (literal_map_for ?acc) (literal_map_for ?own) (ce_merge_strategy entry)"
  define lits where "lits = map (\<lambda>(k, v). \<lparr>loc_name = k, loc_value = Literal v, loc_span = span_synthetic\<rparr>) merged"
  have folds: "pt_locals (cascade_step entry acc) =
      fold (replace_or_push loc_name) lits (fold (replace_or_push loc_name) (non_literals ?own) (non_literals ?acc))"
    by (simp add: cascade_step_def map_to_locals_with_inherited_def lits_def merged_def Let_def fold_map comp_def case_prod_beta')
  have "distinct (map fst merged)"
    unfolding merged_def by (intro merge_locals_distinct literal_map_distinct acc own)
  moreover have "map loc_name lits = map fst merged" by (simp add: lits_def split_beta)
  ultimately have lits: "distinct_names lits" by (simp add: distinct_names_def)
  have "loc_lookup lits k = map_option Literal (map_of merged k)"
    by (simp add: lits_def loc_lookup_def by_name_def comp_def split_beta map_of_map [of "\<lambda>v. \<lparr>loc_name = _, loc_value = Literal v, loc_span = span_synthetic\<rparr>", symmetric])
       (induction merged; auto)
  also have "map_of merged k = merge_slot (ce_merge_strategy entry) (literal_of (loc_lookup ?acc k)) (literal_of (loc_lookup ?own k))"
    unfolding merged_def merge_locals_lookup [OF literal_map_distinct [OF own]]
    by (simp add: literal_map_lookup [OF acc] literal_map_lookup [OF own] literal_of_def)
  finally have lit: "loc_lookup lits k = map_option Literal (merge_slot (ce_merge_strategy entry)
      (literal_of (loc_lookup ?acc k)) (literal_of (loc_lookup ?own k)))" .
  have non: "loc_lookup (non_literals ls) k = non_literal_of (loc_lookup ls k)" if "distinct_names ls" for ls
    using loc_lookup_filter [OF that, of "\<lambda>e. \<not> is_literal e" k]
    by (simp add: non_literals_def non_literal_of_def split: option.split)
  have dn: "distinct_names (non_literals ls)" if "distinct_names ls" for ls
    using that by (simp add: distinct_names_def non_literals_def distinct_map_filter)
  show ?thesis
    unfolding folds
    by (simp add: fold_replace_lookup [OF lits] fold_replace_lookup [OF dn [OF own]] lit non acc own dn
        fold_replace_distinct layer_slot_def)
qed

section \<open>The include of one parent\<close>

fun keys_distinct :: "value \<Rightarrow> bool" where
  "keys_distinct (VMap es) = (distinct (map fst es) \<and> list_all (\<lambda>e. keys_distinct (snd e)) es)"
| "keys_distinct _ = True"

lemma override_same: "map_of m k = Some v \<Longrightarrow> override_or_push m k v = m"
  by (induction m k v rule: override_or_push.induct) (auto split: if_splits)

lemma merge_with_same:
  "(\<And>k v. (k, v) \<in> set child \<Longrightarrow> map_of out k = Some v \<and> f (Some v) v = v) \<Longrightarrow> merge_with f out child = out"
proof (induction child)
  case (Cons e child)
  obtain k v where e: "e = (k, v)" by (cases e)
  have "map_of out k = Some v" "f (Some v) v = v" using Cons.prems [of k v] by (simp_all add: e)
  then have "override_or_push out k (f (map_of out k) v) = out" by (simp add: override_same)
  moreover have "merge_with f out child = out"
    by (rule Cons.IH) (rule Cons.prems, simp)
  ultimately show ?case by (simp add: e)
qed simp

lemma deep_map_rule_same: "keys_distinct v \<Longrightarrow> deep_map_rule (Some v) v = v"
proof (induction v rule: keys_distinct.induct)
  case (1 es)
  have "merge_with deep_map_rule es es = es"
  proof (rule merge_with_same)
    fix k v assume kv: "(k, v) \<in> set es"
    then have "map_of es k = Some v" and "keys_distinct v"
      using "1.prems" by (auto simp: list_all_iff map_of_is_SomeI)
    moreover have "deep_map_rule (Some (snd (k, v))) (snd (k, v)) = snd (k, v)"
      by (rule "1.IH") (use kv calculation in simp_all)
    ultimately show "map_of es k = Some v \<and> deep_map_rule (Some v) v = v" by simp
  qed
  then show ?case by (simp add: deep_map_rule_def merge_deep_map_only_with)
qed (simp_all add: deep_map_rule_def)

lemma merge_slot_same: "s \<noteq> Deep \<Longrightarrow> keys_distinct v \<Longrightarrow> merge_slot s (Some v) (Some v) = Some v"
  using deep_map_rule_same [of v]
  by (cases s; cases v) (simp_all add: merge_slot_def merge_locals_def deep_map_rule_def)

lemma merge_slot_None [simp]: "merge_slot s None c = c" "merge_slot s p None = (if s = NoMerge then None else p)"
  by (auto simp: merge_slot_def split: option.split)

lemma as_literal_is_literal: "as_literal e = Some v \<longleftrightarrow> e = Literal v" "is_literal e \<longleftrightarrow> (\<exists>v. e = Literal v)"
  by (cases e; auto)+

lemma layer_first [simp]: "layer_slot s None own = own"
  by (cases own; cases "the own")
     (auto simp: layer_slot_def literal_of_def non_literal_of_def or_else_def)

lemma layer_same:
  assumes "s \<noteq> Deep" "\<And>v. own = Some (Literal v) \<Longrightarrow> keys_distinct v"
  shows "layer_slot s own own = own"
proof (cases own)
  case (Some e)
  show ?thesis
  proof (cases "as_literal e")
    case None
    then have "\<not> is_literal e" by (cases e) auto
    then show ?thesis using None by (simp add: Some layer_slot_def literal_of_def non_literal_of_def or_else_def)
  next
    case v: (Some v)
    then have "e = Literal v" by (simp add: as_literal_is_literal)
    then show ?thesis
      using merge_slot_same [OF assms(1), of v] assms(2) [of v]
      by (simp add: Some layer_slot_def literal_of_def non_literal_of_def or_else_def)
  qed
qed simp

lemma layer_literal_wins:
  "s \<noteq> NoMerge \<Longrightarrow> \<not> is_literal e \<Longrightarrow> layer_slot s (Some (Literal v)) (Some e) = Some (Literal v)"
  by (cases e) (simp_all add: layer_slot_def literal_of_def or_else_def)

lemma tail_entry_sel [simp]:
  "ce_parsed (tail_entry p sp) = p" "ce_merge_strategy (tail_entry p sp) = DeepMapOnly"
  "ce_include_origin (tail_entry p sp) = None"
  by (simp_all add: tail_entry_def)

lemma loc_lookup_Nil [simp]: "loc_lookup [] k = None"
  by (simp add: loc_lookup_def by_name_def)

section \<open>The include chain\<close>

definition origins :: "chain_entry list \<Rightarrow> path list" where
  "origins chain = List.map_filter ce_include_origin chain"

lemma origins_simps [simp]:
  "origins (xs @ ys) = origins xs @ origins ys" "origins [] = []" "origins [tail_entry p sp] = []"
  "origins (include_entry inc c p # xs) = c # origins xs"
  by (simp_all add: origins_def List.map_filter_def include_entry_def)

definition chain_ok :: "path \<Rightarrow> path list \<Rightarrow> chain_entry list \<Rightarrow> path list \<Rightarrow> bool" where
  "chain_ok wroot seen chain seen' \<longleftrightarrow>
     set seen \<subseteq> set seen' \<and> set (origins chain) \<subseteq> set seen' \<and> distinct (origins chain)
     \<and> set (origins chain) \<inter> set seen = {} \<and> (\<forall>p \<in> set (origins chain). prefix wroot p)"

lemma chain_ok_Nil: "set seen \<subseteq> set seen' \<Longrightarrow> origins chain = [] \<Longrightarrow> chain_ok wroot seen chain seen'"
  by (simp add: chain_ok_def)

lemma chain_ok_weaken: "chain_ok wroot seen1 chain seen' \<Longrightarrow> set seen \<subseteq> set seen1 \<Longrightarrow> chain_ok wroot seen chain seen'"
  by (auto simp: chain_ok_def)

lemma chain_ok_include:
  assumes "chain_ok wroot (c # seen) sub seen2" "chain_ok wroot seen2 rest seen3" "prefix wroot c" "c \<notin> set seen"
  shows "chain_ok wroot seen (sub @ [include_entry inc c p] @ rest) seen3"
  using assms unfolding chain_ok_def by auto

lemma open_include_skip:
  "open_include env dir inc st = Some (Inl st1) \<Longrightarrow> set (cs_visited st) \<subseteq> set (cs_visited st1)"
  by (auto simp: open_include_def chain_diag_def Let_def split: option.splits Option.bind_splits sum.splits if_splits)

lemma open_include_open:
  assumes "open_include env dir inc st = Some (Inr (c, parent, st1))"
  shows "cs_visited st1 = c # cs_visited st \<and> c \<notin> set (cs_visited st) \<and> prefix (te_root env) c"
  using assms
  by (auto simp: open_include_def Let_def dest: canonicalize_inside_prefix
      split: option.splits Option.bind_splits sum.splits if_splits)

lemma mark_visited_mono: "set (cs_visited st) \<subseteq> set (cs_visited (mark_visited env p st))"
  by (auto simp: mark_visited_def split: sum.split)

lemma include_chain_ok:
  "resolve_include_chain env dir left child child_path st = Some (chain, st') \<Longrightarrow>
     chain_ok (te_root env) (cs_visited (if left = 0 then st else mark_visited env child_path st)) chain (cs_visited st')"
  "resolve_includes env dir left incs st = Some (chain, st') \<Longrightarrow>
     chain_ok (te_root env) (cs_visited st) chain (cs_visited st')"
proof (induction env dir left child child_path st and env dir left incs st
    arbitrary: chain st' and chain st' rule: resolve_include_chain_resolve_includes.induct)
  case (1 env dir child child_path st)
  then show ?case by (auto simp: chain_diag_def intro: chain_ok_Nil)
next
  case (2 env dir left child child_path st)
  from "2.prems" obtain sub where sub: "resolve_includes env dir left (pt_includes child) (mark_visited env child_path st) = Some (sub, st')"
    and chain: "chain = sub @ [tail_entry child (child_span child)]"
    by (auto split: option.splits)
  show ?case
    using "2.IH" [OF sub] by (simp add: chain chain_ok_def)
next
  case (3 env dir left st)
  then show ?case by (auto intro: chain_ok_Nil)
next
  case (4 env dir left inc incs st)
  show ?case
  proof (cases "open_include env dir inc st")
    case None
    with "4.prems" show ?thesis by simp
  next
    case (Some r)
    show ?thesis
    proof (cases r)
      case (Inl st1)
      then have "chain_ok (te_root env) (cs_visited st1) chain (cs_visited st')"
        using "4.IH"(1) [OF _ refl] Some "4.prems" by simp
      then show ?thesis
        by (rule chain_ok_weaken) (use open_include_skip [of env dir inc st st1] Some Inl in simp)
    next
      case (Inr x)
      obtain c parent st1 where x: "x = (c, parent, st1)" by (cases x) auto
      note opened = open_include_open [of env dir inc st c parent st1]
      from "4.prems" obtain sub st2 rest where
        sub: "resolve_include_chain env dir left parent c st1 = Some (sub, st2)"
        and rest: "resolve_includes env dir left incs st2 = Some (rest, st')"
        and chain: "chain = sub @ [include_entry inc c parent] @ rest"
        by (auto simp: Some Inr x split: option.splits)
      have vis: "cs_visited st1 = c # cs_visited st" "c \<notin> set (cs_visited st)" "prefix (te_root env) c"
        using opened Some Inr x by simp_all
      have s0: "chain_ok (te_root env) (cs_visited (if left = 0 then st1 else mark_visited env c st1)) sub (cs_visited st2)"
        by (rule "4.IH"(2) [OF Some Inr _ _ sub]) (simp_all add: x)
      have s: "chain_ok (te_root env) (cs_visited st1) sub (cs_visited st2)"
        by (rule chain_ok_weaken [OF s0]) (simp add: mark_visited_mono)
      have r: "chain_ok (te_root env) (cs_visited st2) rest (cs_visited st')"
        by (rule "4.IH"(3) [OF Some Inr _ _ sub _ rest]) (simp_all add: x)
      show ?thesis
        unfolding chain by (rule chain_ok_include [OF s [unfolded vis(1)] r vis(3,2)])
    qed
  qed
qed

lemma mark_visited_Ok:
  "canonicalize_inside (te_fs env) p (te_root env) Follow = Ok c \<Longrightarrow>
   set (cs_visited (mark_visited env p st)) = insert c (set (cs_visited st))"
  by (simp add: mark_visited_def)

lemma include_chain_tail:
  assumes "resolve_include_chain env dir left child child_path st = Some (chain, st')"
  shows "\<exists>xs sp. chain = xs @ [tail_entry child sp] \<and> (left = 0 \<longrightarrow> xs = [])"
  using assms by (cases left) (auto split: option.splits)

definition ex_ws_disk :: workspace_disk where
  "ex_ws_disk = \<lparr>fs_is_symlink = (\<lambda>_. False), fs_canonicalize = Inr, fs_metadata = (\<lambda>_. Inr (0, False)),
     fs_read = (\<lambda>_. Inr []), fs_walk = (\<lambda>_. []), fs_exists = (\<lambda>_. True), fs_is_file = (\<lambda>_. True)\<rparr>"

definition ex_front_end :: "unit front_end" where
  "ex_front_end = \<lparr>fe_parse_body = (\<lambda>_. Ok ()), fe_lower_body = (\<lambda>_ _ _ _ _. ([], []))\<rparr>"

definition ex_env :: "unit tg_env" where
  "ex_env = \<lparr>te_host = host_ex (\<lambda>_. None), te_show_f64 = (\<lambda>_. []), te_disk = ex_ws_disk,
     te_front_end = ex_front_end, te_ctx = tg_context_new [RootDir, Normal ''ws''],
     te_read_config = (\<lambda>_ _ _. Err (FOther [] []))\<rparr>"

definition ex_include_raw :: "expr \<Rightarrow> include_raw" where
  "ex_include_raw e = \<lparr>ir_label = ''root'', ir_path_expr = Some e, ir_merge_strategy_expr = None, ir_span = span_synthetic\<rparr>"

definition ex_child :: parsed_terragrunt where
  "ex_child = parsed_default\<lparr>pt_includes := [ex_include_raw (Literal (VStr ''/ws/root.hcl''))]\<rparr>"

definition ex_state :: chain_state where
  "ex_state = \<lparr>cs_visited = [], cs_active = None, cs_diags = []\<rparr>"

lemmas ex_env_simps = ex_env_def ex_ws_disk_def ex_front_end_def ex_state_def te_fs_def te_root_def tg_context_new_def
  file_system.truncate_def

lemma ex_canon:
  "canonicalize_inside (te_fs ex_env) [RootDir, Normal ''ws'', Normal n] (te_root ex_env) Follow
     = (if CHR 0x00 \<in> set n then Err (NulByte [RootDir, Normal ''ws'', Normal n]) else Ok [RootDir, Normal ''ws'', Normal n])"
proof -
  have "char_of (0 :: nat) = CHR 0x00" by code_simp
  then show ?thesis
    by (simp add: canonicalize_inside_def reject_nul_def path_bytes_def is_absolute_def ex_env_simps)
qed

text \<open>C25. An include chain, which always ends because every step down uses up one level of \<open>max_include_depth\<close>, ends with
  the file it starts from, and the files it includes are pairwise different, none of them that file, and all
  lie under the workspace root.\<close>

theorem include_chain_sound:
  assumes "resolve_include_chain env dir left child child_path st = Some (chain, st')"
  shows "ce_parsed (last chain) = child \<and> distinct (origins chain)
    \<and> (\<forall>p \<in> set (origins chain). prefix (te_root env) p
         \<and> canonicalize_inside (te_fs env) child_path (te_root env) Follow \<noteq> Ok p \<and> p \<notin> set (cs_visited st))"
proof -
  obtain xs sp where chain: "chain = xs @ [tail_entry child sp]" and zero: "left = 0 \<longrightarrow> xs = []"
    using include_chain_tail [OF assms] by auto
  note ok = include_chain_ok(1) [OF assms, unfolded chain_ok_def]
  have "p \<notin> set (cs_visited st) \<and> canonicalize_inside (te_fs env) child_path (te_root env) Follow \<noteq> Ok p"
    if "p \<in> set (origins chain)" for p
  proof (cases "left = 0")
    case True
    then show ?thesis using that zero by (simp add: chain)
  next
    case False
    then have "p \<notin> set (cs_visited (mark_visited env child_path st))" using ok that by auto
    then show ?thesis
      using mark_visited_mono [of st env child_path] mark_visited_Ok [of env child_path p st] by auto
  qed
  then show ?thesis using ok by (simp add: chain)
qed

theorem include_chain_sound_witness:
  "\<exists>chain st'. resolve_include_chain ex_env [RootDir, Normal ''ws''] 2 ex_child [RootDir, Normal ''ws'', Normal ''t.hcl''] ex_state
       = Some (chain, st') \<and> origins chain = [[RootDir, Normal ''ws'', Normal ''root.hcl'']]
     \<and> ce_parsed (last chain) = ex_child"
proof -
  let ?r = "[RootDir, Normal ''ws'', Normal ''root.hcl'']" and ?t = "[RootDir, Normal ''ws'', Normal ''t.hcl'']"
  have path: "parse_path ''/ws/root.hcl'' = ?r" by code_simp
  have read: "read_and_project ex_env ?r = Some parsed_default"
    by (simp add: read_and_project_def ex_canon, simp add: ex_env_simps parse_bytes_def loader_limits_default_def
        from_utf8_def utf8_defect.simps project_terragrunt_def parsed_default_def)
  have mark: "mark_visited ex_env ?t ex_state = ex_state\<lparr>cs_visited := [?t]\<rparr>"
    by (simp add: mark_visited_def ex_canon, simp add: ex_state_def)
  define st1 where "st1 = \<lparr>cs_visited = [?r, ?t], cs_active = Some ?r, cs_diags = []\<rparr>"
  have opened: "open_include ex_env [RootDir, Normal ''ws''] (ex_include_raw (Literal (VStr ''/ws/root.hcl'')))
      (ex_state\<lparr>cs_visited := [?t]\<rparr>) = Some (Inr (?r, parsed_default, st1))"
    by (simp add: open_include_def ex_include_raw_def reduce_to_string_def path ex_canon read Let_def,
        simp add: st1_def ex_state_def parsed_default_def)
  have "\<exists>chain st'. resolve_include_chain ex_env [RootDir, Normal ''ws''] 2 ex_child ?t ex_state = Some (chain, st')
      \<and> origins chain = [?r]"
    unfolding numeral_2_eq_2
    by (simp add: ex_child_def mark opened, simp add: parsed_default_def origins_def List.map_filter_def tail_entry_def include_entry_def)
  then show ?thesis using include_chain_sound by blast
qed

text \<open>C24. What including one parent does to a local, through the chain \<open>resolve_include_chain\<close> builds and the cascade over
  it.  The documentation of \<open>merge.rs\<close> and section 3.2 of \<open>specs/14-terragrunt.md\<close> merge the parent's binding with the
  child's by the strategy the \<open>include\<close> block names.  The code does not: it lists the parent twice and gives the child the
  default strategy, so the block's strategy merges the parent with itself and the result is always combined with the child's
  binding as by \<open>deep_map_only\<close>.  Except for \<open>deep\<close>, whose lists come out doubled, the strategy therefore has no effect:
  \<open>no_merge\<close> merges the parent, \<open>shallow\<close> merges maps deeply, and under any of them a literal of the parent
  replaces an expression of the child for the same name.\<close>

theorem include_strategy_ineffective:
  fixes inc defines "s \<equiv> parse_merge_strategy (ir_merge_strategy_expr inc)"
  assumes "pt_includes child = [inc]" and "pt_includes parent = []" and "2 \<le> left"
    and "open_include env dir inc (mark_visited env child_path st) = Some (Inr (canonical, parent, st1))"
    and "distinct_names (pt_locals parent)" "distinct_names (pt_locals child)"
    and "\<And>l v. l \<in> set (pt_locals parent) \<Longrightarrow> loc_value l = Literal v \<Longrightarrow> keys_distinct v"
  shows "\<exists>chain st'. resolve_include_chain env dir left child child_path st = Some (chain, st') \<and>
    (let P = loc_lookup (pt_locals parent) k; C = loc_lookup (pt_locals child) k;
         result = loc_lookup (pt_locals (apply_cascade chain)) k
     in result = layer_slot DeepMapOnly (layer_slot s P P) C \<and>
        (s \<noteq> Deep \<longrightarrow> result = layer_slot DeepMapOnly P C \<and>
           (\<forall>v x. P = Some (Literal v) \<longrightarrow> C = Some x \<longrightarrow> \<not> is_literal x \<longrightarrow> result = Some (Literal v))))"
proof -
  let ?e = "include_entry inc canonical parent" and ?t = "tail_entry parent (child_span parent)"
  let ?P = "loc_lookup (pt_locals parent) k" and ?C = "loc_lookup (pt_locals child) k"
  obtain n where left: "left = Suc (Suc n)" using assms(4) by (auto simp: le_iff_add numeral_2_eq_2)
  have chain: "\<exists>st'. resolve_include_chain env dir left child child_path st
      = Some ([?t, ?e, tail_entry child (child_span child)], st')"
    by (simp add: left assms(2,3,5))
  have d0: "distinct_names (pt_locals parsed_default)" by (simp add: parsed_default_def distinct_names_def)
  have e: "ce_parsed ?e = parent" "ce_merge_strategy ?e = s" by (simp_all add: include_entry_def s_def)
  have a1: "loc_lookup (pt_locals (cascade_step ?t parsed_default)) k = ?P" "distinct_names (pt_locals (cascade_step ?t parsed_default))"
    using cascade_step_lookup [OF d0, of ?t k] assms(6) by (simp_all add: parsed_default_def)
  have a2: "loc_lookup (pt_locals (cascade_step ?e (cascade_step ?t parsed_default))) k = layer_slot s ?P ?P"
    "distinct_names (pt_locals (cascade_step ?e (cascade_step ?t parsed_default)))"
    using cascade_step_lookup [OF a1(2), of ?e k] assms(6) by (simp_all add: a1(1) e)
  have result: "loc_lookup (pt_locals (apply_cascade [?t, ?e, tail_entry child (child_span child)])) k
      = layer_slot DeepMapOnly (layer_slot s ?P ?P) ?C"
    using cascade_step_lookup [OF a2(2), of "tail_entry child (child_span child)" k] assms(7)
    by (simp add: apply_cascade_def a2(1))
  have "keys_distinct v" if "?P = Some (Literal v)" for v
    using that assms(8) by (auto simp: loc_lookup_def by_name_def dest!: map_of_SomeD)
  then have "s \<noteq> Deep \<Longrightarrow> layer_slot s ?P ?P = ?P" by (intro layer_same)
  with chain result show ?thesis by (auto simp: Let_def layer_literal_wins)
qed

definition ex_parsed :: "(str \<times> expr) list \<Rightarrow> parsed_terragrunt" where
  "ex_parsed ls = parsed_default\<lparr>pt_locals := map (\<lambda>(k, e). \<lparr>loc_name = k, loc_value = e, loc_span = span_synthetic\<rparr>) ls\<rparr>"

text \<open>A front end that reads every file as one \<open>locals\<close> block, and a child that includes \<open>root.hcl\<close> with \<open>no_merge\<close>.\<close>

definition ex_locals_env :: "unit tg_env" where
  "ex_locals_env = ex_env\<lparr>te_front_end := \<lparr>fe_parse_body = (\<lambda>_. Ok ()), fe_lower_body = (\<lambda>_ p _ _ _.
     ([\<lparr>rb_kind = BkLocals, rb_labels = [], rb_body = [(''env'', Literal (VStr ''prod''))], rb_span = span_synthetic,
        rb_source = p\<rparr>], []))\<rparr>\<rparr>"

definition ex_no_merge :: include_raw where
  "ex_no_merge = (ex_include_raw (Literal (VStr ''/ws/root.hcl'')))\<lparr>ir_merge_strategy_expr := Some (Literal (VStr ''no_merge''))\<rparr>"

definition ex_no_merge_child :: parsed_terragrunt where
  "ex_no_merge_child = (ex_parsed [(''env'', EFuncCall ''get_env'' [] span_synthetic)])\<lparr>pt_includes := [ex_no_merge]\<rparr>"

theorem include_strategy_ineffective_witness:
  "parse_merge_strategy (ir_merge_strategy_expr ex_no_merge) = NoMerge \<and>
   (\<exists>chain st'. resolve_include_chain ex_locals_env [RootDir, Normal ''ws''] 2 ex_no_merge_child
        [RootDir, Normal ''ws'', Normal ''t.hcl''] ex_state = Some (chain, st') \<and>
      loc_lookup (pt_locals (apply_cascade chain)) ''env'' = Some (Literal (VStr ''prod'')))"
proof -
  let ?r = "[RootDir, Normal ''ws'', Normal ''root.hcl'']" and ?t = "[RootDir, Normal ''ws'', Normal ''t.hcl'']"
  let ?p = "ex_parsed [(''env'', Literal (VStr ''prod''))]"
  have env: "te_fs ex_locals_env = te_fs ex_env" "te_root ex_locals_env = te_root ex_env" "te_disk ex_locals_env = te_disk ex_env"
    by (simp_all add: ex_locals_env_def te_fs_def te_root_def)
  have path: "parse_path ''/ws/root.hcl'' = ?r" by code_simp
  have read: "read_and_project ex_locals_env ?r = Some ?p"
    by (simp add: read_and_project_def env ex_canon, simp add: ex_locals_env_def ex_env_simps parse_bytes_def
        loader_limits_default_def from_utf8_def utf8_defect.simps project_terragrunt_def project_tg_block_def block_locals_def
        parsed_default_def ex_parsed_def)
  have mark: "mark_visited ex_locals_env ?t ex_state = ex_state\<lparr>cs_visited := [?t]\<rparr>"
    by (simp add: mark_visited_def env ex_canon, simp add: ex_state_def)
  have opened: "\<exists>st1. open_include ex_locals_env [RootDir, Normal ''ws''] ex_no_merge (mark_visited ex_locals_env ?t ex_state)
      = Some (Inr (?r, ?p, st1))"
    unfolding mark
    by (simp add: open_include_def ex_no_merge_def ex_include_raw_def reduce_to_string_def path env ex_canon read Let_def)
  then obtain st1 where o: "open_include ex_locals_env [RootDir, Normal ''ws''] ex_no_merge (mark_visited ex_locals_env ?t ex_state)
      = Some (Inr (?r, ?p, st1))" by blast
  have s: "parse_merge_strategy (ir_merge_strategy_expr ex_no_merge) = NoMerge"
    by (simp add: ex_no_merge_def parse_merge_strategy_def merge_strategy_parse_def)
  have "pt_includes ex_no_merge_child = [ex_no_merge]" "pt_includes ?p = []" "(2 :: nat) \<le> 2"
    by (simp_all add: ex_no_merge_child_def ex_parsed_def parsed_default_def)
  moreover have "distinct_names (pt_locals ?p)" "distinct_names (pt_locals ex_no_merge_child)"
    "\<And>l v. l \<in> set (pt_locals ?p) \<Longrightarrow> loc_value l = Literal v \<Longrightarrow> keys_distinct v"
    by (auto simp: ex_parsed_def ex_no_merge_child_def distinct_names_def)
  moreover have "loc_lookup (pt_locals ?p) ''env'' = Some (Literal (VStr ''prod''))"
    "loc_lookup (pt_locals ex_no_merge_child) ''env'' = Some (EFuncCall ''get_env'' [] span_synthetic)"
    by (simp_all add: ex_parsed_def ex_no_merge_child_def loc_lookup_def by_name_def)
  ultimately show ?thesis
    using include_strategy_ineffective [OF _ _ _ o, where child = ex_no_merge_child and left = 2 and k = "''env''"] s
    by (auto simp: Let_def)
qed

text \<open>The default form of an include does not include anything: without arguments \<open>find_in_parent_folders\<close> looks for
  \<open>terragrunt.hcl\<close> in the component's directory first, where it finds the file that is being resolved, so the
  block is reported as an include cycle and skipped, whatever files the parent directories hold.\<close>

theorem default_include_is_cycle:
  assumes "ir_path_expr inc = Some (EFuncCall ''find_in_parent_folders'' [] sp)"
    and "fs_exists (te_disk env) (path_join dir (parse_path ''terragrunt.hcl''))"
    and "canonicalize_inside (te_fs env) (path_join dir (parse_path ''terragrunt.hcl'')) (te_root env) Follow = Ok c"
    and "parse_path (path_str c) = c" and "canonicalize_inside (te_fs env) c (te_root env) Follow = Ok c"
    and "is_absolute dir"
  shows "\<exists>st'. open_include env dir inc (mark_visited env (path_join dir (parse_path ''terragrunt.hcl'')) st) = Some (Inl st')
    \<and> cs_visited st' = cs_visited (mark_visited env (path_join dir (parse_path ''terragrunt.hcl'')) st)
    \<and> diag_code (last (cs_diags st')) = ''TG2006''"
proof -
  let ?st = "mark_visited env (path_join dir (parse_path ''terragrunt.hcl'')) st"
  let ?tg = "\<lparr>tg_workspace_root = te_root env, tg_component_dir = dir, tg_active_include = cs_active ?st\<rparr>"
  have "find_in_parents (te_disk env) dir ''terragrunt.hcl'' (te_root env) = Some c"
    unfolding find_in_parents_def
    using find_up_here [OF assms(2), of "te_root env" c] assms(3,6) by (simp add: te_fs_def)
  then have call: "find_in_parent_folders_fn (te_disk env) ?tg [] cx = Ok (VStr (path_str c))" for cx
    by (simp add: find_in_parent_folders_fn_def arg_get_def)
  have "chain_funcs env dir ?st ''find_in_parent_folders'' = Some (find_in_parent_folders_fn (te_disk env) ?tg)"
    by (simp add: chain_funcs_def tg_funcs_def build_func_registry_def register_all_def)
  then have "reduce_to_string env (chain_funcs env dir ?st) (EFuncCall ''find_in_parent_folders'' [] sp) = Some (Some (path_str c))"
    by (simp add: reduce_to_string_def tg_scope_def call)
  moreover have "c \<in> set (cs_visited ?st)" by (simp add: mark_visited_Ok [OF assms(3)])
  ultimately show ?thesis
    by (simp add: open_include_def assms(1,4,5) chain_diag_def include_diag_def with_span_def diagnostic_new_def)
qed

theorem default_include_is_cycle_witness:
  "\<exists>st'. open_include ex_env [RootDir, Normal ''ws''] (ex_include_raw (EFuncCall ''find_in_parent_folders'' [] span_synthetic))
      (mark_visited ex_env (path_join [RootDir, Normal ''ws''] (parse_path ''terragrunt.hcl'')) ex_state) = Some (Inl st')
    \<and> diag_code (last (cs_diags st')) = ''TG2006''"
proof -
  let ?c = "[RootDir, Normal ''ws'', Normal ''terragrunt.hcl'']"
  have c: "path_join [RootDir, Normal ''ws''] (parse_path ''terragrunt.hcl'') = ?c" "parse_path (path_str ?c) = ?c"
    by code_simp+
  have "canonicalize_inside (te_fs ex_env) ?c (te_root ex_env) Follow = Ok ?c" by (simp add: ex_canon)
  moreover have "fs_exists (te_disk ex_env) ?c" by (simp add: ex_env_simps)
  ultimately show ?thesis
    using default_include_is_cycle [of "ex_include_raw (EFuncCall ''find_in_parent_folders'' [] span_synthetic)" span_synthetic
        ex_env "[RootDir, Normal ''ws'']" ?c ex_state]
    by (simp add: c ex_include_raw_def is_absolute_def) blast
qed

end
