(* ===== verification/TgRead.thy ===== *)
theory TgRead
  imports TgResolver
begin

text \<open>\<open>read_terragrunt_config\<close> (\<open>ReadTerragruntConfigFn\<close> of \<open>terragrunt/resolver.rs\<close>) as a step on its own state: the
  memo and the in-flight set (concurrent maps shared by one resolution), and the stack of the reads in progress.

  An \<open>Arc<Path>\<close> is a fresh identity with a path, because the cycle check compares identities (\<open>Arc::ptr_eq\<close>).  The
  evaluation of the file's locals and inputs may call the function again, so it is an argument that
  transforms the state; a panic in it is \<open>None\<close>.\<close>

record resolved_terragrunt =
  rt_locals :: vmap
  rt_inputs :: vmap

type_synonym arc_path = "nat \<times> path"

record rtc_state =
  rs_memo :: "(path \<times> resolved_terragrunt) list"
  rs_inflight :: "path list"
  rs_stack :: "arc_path list"
  rs_next_arc :: nat

record nested_eval =
  ne_locals :: "local_def list \<Rightarrow> rtc_state \<Rightarrow> (vmap \<times> rtc_state) option"
  ne_inputs :: "attribute_map \<Rightarrow> vmap \<Rightarrow> rtc_state \<Rightarrow> (vmap \<times> rtc_state) option"

definition read_result_to_value :: "resolved_terragrunt \<Rightarrow> value" where
  "read_result_to_value e = VMap [(''locals'', VMap (rt_locals e)), (''inputs'', VMap (rt_inputs e))]"

definition read_fallback :: "value list \<Rightarrow> value" where
  "read_fallback args = (case arg_get args 1 of None \<Rightarrow> VMap [] | Some v \<Rightarrow> v)"

definition read_name :: str where
  "read_name = ''read_terragrunt_config''"

definition enter_read :: "arc_path \<Rightarrow> rtc_state \<Rightarrow> rtc_state" where
  "enter_read arc st = st\<lparr>rs_inflight := snd arc # rs_inflight st, rs_stack := rs_stack st @ [arc]\<rparr>"

text \<open>\<open>g.pop()\<close> and \<open>inflight.remove\<close>.\<close>

definition leave_read :: "path \<Rightarrow> rtc_state \<Rightarrow> rtc_state" where
  "leave_read p st = st\<lparr>rs_inflight := removeAll p (rs_inflight st), rs_stack := butlast (rs_stack st)\<rparr>"

definition read_parsed :: "nested_eval \<Rightarrow> parsed_terragrunt \<Rightarrow> path \<Rightarrow> rtc_state \<Rightarrow> (value \<times> rtc_state) option" where
  "read_parsed ne parsed p st = do {
     (resolved, st1) \<leftarrow> ne_locals ne (pt_locals parsed) st;
     let locals = merge_locals (literal_map_for (pt_locals parsed)) resolved DeepMapOnly;
     (inputs, st2) \<leftarrow> (case pt_inputs parsed of None \<Rightarrow> Some ([], st1) | Some attrs \<Rightarrow> ne_inputs ne attrs locals st1);
     let entry = \<lparr>rt_locals = locals, rt_inputs = inputs\<rparr>;
     Some (read_result_to_value entry, leave_read p (st2\<lparr>rs_memo := (p, entry) # rs_memo st2\<rparr>))
   }"

definition read_path :: "'ast tg_env \<Rightarrow> nested_eval \<Rightarrow> value list \<Rightarrow> path \<Rightarrow> rtc_state \<Rightarrow>
    ((func_error + value) \<times> rtc_state) option" where
  "read_path env ne args p st =
     (let arc = (rs_next_arc st, p); st = st\<lparr>rs_next_arc := Suc (rs_next_arc st)\<rparr> in
      case map_of (rs_memo st) p of
        Some e \<Rightarrow> Some (Ok (read_result_to_value e), st)
      | None \<Rightarrow>
          if list_ex (\<lambda>q. fst q = fst arc) (rs_stack st) then
            Some (Err (FOther read_name (''terragrunt read cycle at `'' @ path_str p @ ''`'')), st)
          else if p \<in> set (rs_inflight st) then Some (Ok (read_fallback args), st)
          else
            let st = enter_read arc st in
            (case fs_read (te_disk env) p of
               Inl _ \<Rightarrow> Some (Ok (read_fallback args), leave_read p st)
             | Inr bytes \<Rightarrow>
                 map_option (\<lambda>(v, st). (Ok v, st)) (read_parsed ne
                   (project_terragrunt (parse_bytes (te_front_end env) bytes p loader_limits_default)) p st)))"

definition read_config :: "'ast tg_env \<Rightarrow> nested_eval \<Rightarrow> value list \<Rightarrow> rtc_state \<Rightarrow>
    ((func_error + value) \<times> rtc_state) option" where
  "read_config env ne args st =
     (case arg_get args 0 of
        None \<Rightarrow> Some (Err (FArity read_name 1 0), st)
      | Some (VStr s) \<Rightarrow>
          (case canonicalize_inside (te_fs env) (parse_path s) (te_root env) Follow of
             Inl _ \<Rightarrow> Some (Ok (read_fallback args), st)
           | Inr p \<Rightarrow> read_path env ne args p st)
      | Some _ \<Rightarrow> Some (Err (FType read_name 0 ''string'' ''non-string''), st))"

section \<open>Laws\<close>

text \<open>The identities on the stack are older than the next one; a call keeps this and restores stack and in-flight set.\<close>

definition rtc_inv :: "rtc_state \<Rightarrow> bool" where
  "rtc_inv st \<longleftrightarrow> (\<forall>q \<in> set (rs_stack st). fst q < rs_next_arc st)"

definition rtc_framed :: "rtc_state \<Rightarrow> rtc_state \<Rightarrow> bool" where
  "rtc_framed st st' \<longleftrightarrow> rs_stack st' = rs_stack st \<and> rs_inflight st' = rs_inflight st \<and> rs_next_arc st \<le> rs_next_arc st'
     \<and> dom (map_of (rs_memo st)) \<subseteq> dom (map_of (rs_memo st'))"

definition nested_framed :: "nested_eval \<Rightarrow> bool" where
  "nested_framed ne \<longleftrightarrow>
     (\<forall>ls st v st'. ne_locals ne ls st = Some (v, st') \<longrightarrow> rtc_inv st \<longrightarrow> rtc_framed st st')
     \<and> (\<forall>attrs m st v st'. ne_inputs ne attrs m st = Some (v, st') \<longrightarrow> rtc_inv st \<longrightarrow> rtc_framed st st')"

lemma rtc_framed_refl [simp]: "rtc_framed st st"
  by (simp add: rtc_framed_def)

lemma rtc_framed_trans: "rtc_framed a b \<Longrightarrow> rtc_framed b c \<Longrightarrow> rtc_framed a c"
  by (auto simp: rtc_framed_def)

lemma rtc_inv_framed: "rtc_inv st \<Longrightarrow> rtc_framed st st' \<Longrightarrow> rtc_inv st'"
  by (auto simp: rtc_inv_def rtc_framed_def)

lemma rtc_inv_enter: "rtc_inv st \<Longrightarrow> rtc_inv (enter_read (rs_next_arc st, p) (st\<lparr>rs_next_arc := Suc (rs_next_arc st)\<rparr>))"
  by (auto simp: rtc_inv_def enter_read_def)

lemma leave_enter:
  assumes "rtc_framed (enter_read arc st) st1" "p = snd arc" "p \<notin> set (rs_inflight st)" "rs_next_arc st0 \<le> rs_next_arc st"
    "rs_stack st0 = rs_stack st" "rs_inflight st0 = rs_inflight st" "rs_memo st0 = rs_memo st"
    "dom (map_of (rs_memo st1)) \<subseteq> dom (map_of m)"
  shows "rtc_framed st0 (leave_read p (st1\<lparr>rs_memo := m\<rparr>))"
proof -
  have "dom (map_of (rs_memo st0)) \<subseteq> dom (map_of m)"
    using assms(1,7,8) unfolding rtc_framed_def enter_read_def by simp (meson order_trans)
  then show ?thesis
    using assms(1-7) by (simp add: rtc_framed_def enter_read_def leave_read_def removeAll_id)
qed

lemma read_parsed_framed:
  assumes ne: "nested_framed ne" and inv: "rtc_inv st" and res: "read_parsed ne parsed p st = Some (v, st')"
  obtains st2 entry where "rtc_framed st st2" "st' = leave_read p (st2\<lparr>rs_memo := (p, entry) # rs_memo st2\<rparr>)"
    "v = read_result_to_value entry"
proof -
  from res obtain resolved st1 inputs st2 where
    locals: "ne_locals ne (pt_locals parsed) st = Some (resolved, st1)"
    and inputs: "(case pt_inputs parsed of None \<Rightarrow> Some ([], st1)
        | Some attrs \<Rightarrow> ne_inputs ne attrs (merge_locals (literal_map_for (pt_locals parsed)) resolved DeepMapOnly) st1)
      = Some (inputs, st2)"
    and out: "st' = leave_read p (st2\<lparr>rs_memo := (p, \<lparr>rt_locals = merge_locals (literal_map_for (pt_locals parsed)) resolved DeepMapOnly,
        rt_inputs = inputs\<rparr>) # rs_memo st2\<rparr>)" "v = read_result_to_value
        \<lparr>rt_locals = merge_locals (literal_map_for (pt_locals parsed)) resolved DeepMapOnly, rt_inputs = inputs\<rparr>"
    by (auto simp: read_parsed_def Let_def split: Option.bind_splits)
  have f1: "rtc_framed st st1" using ne locals inv unfolding nested_framed_def by blast
  have "rtc_framed st1 st2"
    using inputs ne rtc_inv_framed [OF inv f1] unfolding nested_framed_def by (auto split: option.splits)
  with f1 have "rtc_framed st st2" by (rule rtc_framed_trans)
  with out that show thesis by blast
qed

lemma read_path_framed:
  assumes ne: "nested_framed ne" and inv: "rtc_inv st" and res: "read_path env ne args p st = Some (r, st')"
  shows "rtc_framed st st' \<and> is_ok r"
proof -
  let ?st = "st\<lparr>rs_next_arc := Suc (rs_next_arc st)\<rparr>" and ?arc = "(rs_next_arc st, p)"
  have fresh: "\<not> list_ex (\<lambda>q. fst q = rs_next_arc st) (rs_stack st)"
    using inv by (auto simp: rtc_inv_def list_ex_iff)
  have next_framed: "rtc_framed st ?st" by (simp add: rtc_framed_def)
  show ?thesis
  proof (cases "map_of (rs_memo st) p \<noteq> None \<or> p \<in> set (rs_inflight st)")
    case True
    then show ?thesis
      using res fresh next_framed by (cases "map_of (rs_memo st) p") (auto simp: read_path_def Let_def)
  next
    case False
    show ?thesis
    proof (cases "fs_read (te_disk env) p")
      case (Inl e)
      then have st': "st' = leave_read p (enter_read ?arc ?st)" and "is_ok r"
        using res fresh False by (auto simp: read_path_def Let_def)
      moreover have "rtc_framed st (leave_read p (enter_read ?arc ?st))"
        using False by (simp add: rtc_framed_def leave_read_def enter_read_def removeAll_id)
      ultimately show ?thesis by simp
    next
      case (Inr bytes)
      then obtain v where parsed: "read_parsed ne
          (project_terragrunt (parse_bytes (te_front_end env) bytes p loader_limits_default)) p (enter_read ?arc ?st)
          = Some (v, st')" and r: "r = Ok v"
        using res fresh False by (auto simp: read_path_def Let_def)
      from read_parsed_framed [OF ne rtc_inv_enter [OF inv] parsed] obtain st2 entry where
        st2: "rtc_framed (enter_read ?arc ?st) st2" "st' = leave_read p (st2\<lparr>rs_memo := (p, entry) # rs_memo st2\<rparr>)"
        by metis
      have "rtc_framed st st'"
        unfolding st2(2) by (rule leave_enter [OF st2(1)]) (use False in auto)
      then show ?thesis by (simp add: r)
    qed
  qed
qed

text \<open>The cycle error is never returned: only an argument of the wrong shape is an error, and a cyclic read is
  answered with the fallback.\<close>

lemma read_config_framed:
  assumes "nested_framed ne" "rtc_inv st" "read_config env ne args st = Some (r, st')"
  shows "rtc_framed st st' \<and> (is_ok r \<longleftrightarrow> (\<exists>s. arg_get args 0 = Some (VStr s)))"
  using assms(3)
  by (auto simp: read_config_def dest: read_path_framed [OF assms(1,2)] split: option.splits hval.splits sum.splits)

lemma read_config_cyclic:
  assumes "arg_get args 0 = Some (VStr s)" "canonicalize_inside (te_fs env) (parse_path s) (te_root env) Follow = Ok p"
    and "p \<in> set (rs_inflight st)" "map_of (rs_memo st) p = None" "rtc_inv st"
  shows "\<exists>st'. read_config env ne args st = Some (Ok (read_fallback args), st')"
  using assms by (auto simp: read_config_def read_path_def Let_def rtc_inv_def list_ex_iff)

end
