(* ===== verification/Lowering.thy ===== *)
theory Lowering
  imports Loader
begin

text \<open>From the syntax tree of \<open>hcl_edit\<close> to blocks and expressions (\<open>loader/lowering.rs\<close>).

  The tree types are the ones of the crate as the source matches on them: one constructor per variant, with the data
  that is read, and the byte range \<open>span()\<close> returns, if any.  A number is what its accessors and \<open>Display\<close> give.
  The lowering functions return their result with the diagnostics they push, in order.\<close>

section \<open>The tree\<close>

type_synonym hspan = "(nat \<times> nat) option"

record hnumber =
  hn_as_i64 :: "int option"
  hn_as_u64 :: "nat option"
  hn_as_f64 :: "f64 option"
  hn_text :: str

datatype hbinary =
  HbEq | HbNotEq | HbLessEq | HbGreaterEq | HbLess | HbGreater | HbPlus | HbMinus | HbMul | HbDiv | HbMod | HbAnd | HbOr

datatype hunary = HuNeg | HuNot

datatype hexpr =
    HNull hspan
  | HBool hspan bool
  | HNumber hspan hnumber
  | HString hspan str
  | HStringTemplate hspan "helement list"
  | HHeredocTemplate hspan "helement list"
  | HArray hspan "hexpr list"
  | HObject hspan "(hkey \<times> hexpr) list"
  | HVariable hspan str
  | HTraversal hspan hexpr "htraversal_op list"
  | HFuncCall hspan "str list" str "hexpr list"
  | HUnary hspan hunary hexpr
  | HBinary hspan hbinary hexpr hexpr
  | HConditional hspan hexpr hexpr hexpr
  | HFor hspan "str option" str hexpr "hexpr option" hexpr "hexpr option"
  | HParenthesis hspan hexpr
and helement = ElLiteral str | ElInterpolation hexpr | ElDirective
and hkey = KeyIdent str | KeyExpression hexpr
and htraversal_op = OpGetAttr str | OpIndex hexpr | OpLegacyIndex nat | OpAttrSplat | OpFullSplat

fun hexpr_span :: "hexpr \<Rightarrow> hspan" where
  "hexpr_span (HNull sp) = sp"
| "hexpr_span (HBool sp _) = sp"
| "hexpr_span (HNumber sp _) = sp"
| "hexpr_span (HString sp _) = sp"
| "hexpr_span (HStringTemplate sp _) = sp"
| "hexpr_span (HHeredocTemplate sp _) = sp"
| "hexpr_span (HArray sp _) = sp"
| "hexpr_span (HObject sp _) = sp"
| "hexpr_span (HVariable sp _) = sp"
| "hexpr_span (HTraversal sp _ _) = sp"
| "hexpr_span (HFuncCall sp _ _ _) = sp"
| "hexpr_span (HUnary sp _ _) = sp"
| "hexpr_span (HBinary sp _ _ _) = sp"
| "hexpr_span (HConditional sp _ _ _) = sp"
| "hexpr_span (HFor sp _ _ _ _ _ _) = sp"
| "hexpr_span (HParenthesis sp _) = sp"

datatype hlabel = LabelIdent str | LabelString str

fun label_str :: "hlabel \<Rightarrow> str" where
  "label_str (LabelIdent s) = s"
| "label_str (LabelString s) = s"

text \<open>An attribute (key, value, span) or a block (identifier, its span, labels, body, span); a body is a list of them.\<close>

datatype hstructure =
    HAttribute str hexpr hspan
  | HBlock str hspan "hlabel list" "hstructure list" hspan

type_synonym hbody = "hstructure list"

section \<open>References\<close>

text \<open>\<open>render_traversal\<close> and \<open>render_expr_for_traversal_root\<close>.\<close>

fun namespace_str :: "str list \<Rightarrow> str \<Rightarrow> str" where
  "namespace_str ns name = concat (map (\<lambda>n. n @ ''::'') ns) @ name"

fun render_root :: "hexpr \<Rightarrow> str"
and render_op :: "htraversal_op \<Rightarrow> str" where
  "render_root (HVariable sp v) = v"
| "render_root (HString sp s) = [CHR 0x22] @ s @ [CHR 0x22]"
| "render_root (HNumber sp n) = hn_text n"
| "render_root (HBool sp b) = (if b then ''true'' else ''false'')"
| "render_root (HNull sp) = ''null''"
| "render_root (HTraversal sp e ops) = render_root e @ concat (map render_op ops)"
| "render_root (HFuncCall sp ns name args) = namespace_str ns name @ ''(...)''"
| "render_root e = ''<expr>''"
| "render_op (OpGetAttr ident) = ''.'' @ ident"
| "render_op (OpIndex e) = ''['' @ render_root e @ '']''"
| "render_op (OpLegacyIndex i) = ''['' @ nat_str i @ '']''"
| "render_op OpAttrSplat = ''.*''"
| "render_op OpFullSplat = ''[*]''"

definition render_traversal :: "hexpr \<Rightarrow> htraversal_op list \<Rightarrow> str" where
  "render_traversal e ops = render_root e @ concat (map render_op ops)"

definition symbol_kind_for :: "str \<Rightarrow> symbol_kind" where
  "symbol_kind_for source =
     (if starts_with source ''var.'' then KVar
      else if starts_with source ''local.'' then KLocal
      else if starts_with source ''data.'' then KData
      else if starts_with source ''module.'' then KModule
      else if starts_with source ''path.'' then KPath
      else if starts_with source ''each.'' \<or> starts_with source ''count.'' then KIteration
      else if starts_with source ''terraform.'' then KTerraform
      else if starts_with source ''dependency.'' then KTerragruntDependency
      else if CHR ''.'' \<in> set source \<and> \<not> starts_with source ''.'' then KResource
      else KOther)"

definition parse_address_hint :: "str \<Rightarrow> symbol_kind \<Rightarrow> address option" where
  "parse_address_hint source kind =
     (if kind \<in> {KVar, KLocal, KData, KModule, KResource}
      then (case address_new source of Inr a \<Rightarrow> Some a | Inl _ \<Rightarrow> None) else None)"

definition make_symbolic :: "str \<Rightarrow> symbol_kind \<Rightarrow> address option \<Rightarrow> span \<Rightarrow> symbolic" where
  "make_symbolic source kind hint sp =
     \<lparr>sym_kind = kind, sym_source = source, sym_address_hint = hint, sym_span = sp\<rparr>"

fun map_binary_op :: "hbinary \<Rightarrow> binary_op" where
  "map_binary_op HbEq = Eq"
| "map_binary_op HbNotEq = Ne"
| "map_binary_op HbLessEq = Le"
| "map_binary_op HbGreaterEq = Ge"
| "map_binary_op HbLess = Lt"
| "map_binary_op HbGreater = Gt"
| "map_binary_op HbPlus = Add"
| "map_binary_op HbMinus = Sub"
| "map_binary_op HbMul = Mul"
| "map_binary_op HbDiv = Div"
| "map_binary_op HbMod = Mod"
| "map_binary_op HbAnd = And"
| "map_binary_op HbOr = Or"

fun map_unary_op :: "hunary \<Rightarrow> unary_op" where
  "map_unary_op HuNeg = Neg"
| "map_unary_op HuNot = Not"

definition classify_block_kind :: "str \<Rightarrow> block_kind" where
  "classify_block_kind ident =
     (if ident = ''resource'' then BkResource
      else if ident = ''data'' then BkData
      else if ident = ''module'' then BkModule
      else if ident = ''provider'' then BkProvider
      else if ident = ''variable'' then BkVariable
      else if ident = ''locals'' then BkLocals
      else if ident = ''output'' then BkOutput
      else if ident = ''terraform'' then BkTerraform
      else if ident = ''include'' then BkInclude
      else if ident = ''generate'' then BkGenerate
      else if ident = ''dependency'' then BkDependency
      else if ident = ''inputs'' then BkInputs
      else BkUnknown)"

section \<open>The lowerer\<close>

record lower_cx =
  lw_source :: path
  lw_line_index :: "nat list"
  lw_limits :: loader_limits
  lw_src_len :: nat

definition span_for :: "lower_cx \<Rightarrow> nat \<times> nat \<Rightarrow> span" where
  "span_for cx bytes =
     (let safe_start = min (fst bytes) (lw_src_len cx); safe_end = max (min (snd bytes) (lw_src_len cx)) safe_start;
          start = saturate_u32 safe_start; end_byte = saturate_u32 safe_end; pos = locate (lw_line_index cx) start
      in case span_new (lw_source cx) start end_byte (max (lc_line pos) 1) (max (lc_column pos) 1) of
           Inr sp \<Rightarrow> sp | Inl _ \<Rightarrow> span_synthetic)"

definition span_or_empty :: "hspan \<Rightarrow> nat \<times> nat" where
  "span_or_empty sp = (case sp of None \<Rightarrow> (0, 0) | Some r \<Rightarrow> r)"

text \<open>The \<open>Debug\<close> names of the limits the lowerer reports.\<close>

definition lower_limit_debug :: "limit_kind \<Rightarrow> str" where
  "lower_limit_debug k =
     (if k = LkBlocksPerFile then ''BlocksPerFile'' else if k = LkAttributeDepth then ''AttributeDepth'' else ''TemplateParts'')"

definition limit_diag :: "limit_kind \<Rightarrow> nat \<Rightarrow> nat \<Rightarrow> diagnostic" where
  "limit_diag kind observed limit = diagnostic_limit kind ''TF1200''
     (''loader limit ('' @ lower_limit_debug kind @ '') exceeded: observed '' @ nat_str observed @ '' > ''
      @ nat_str limit @ ''; subtree truncated'')"

text \<open>The depth check in front of every expression.\<close>

definition truncated :: "lower_cx \<Rightarrow> expr" where
  "truncated cx = Unresolved (make_symbolic ''<truncated: attribute depth exceeded>'' KOther None (span_for cx (0, 0)))"

definition depth_limited :: "lower_cx \<Rightarrow> nat \<Rightarrow> 'a \<Rightarrow> 'a \<times> diagnostic list \<Rightarrow> 'a \<times> diagnostic list" where
  "depth_limited cx depth instead r =
     (if depth > ll_max_attr_depth (lw_limits cx)
      then (instead, [limit_diag LkAttributeDepth depth (ll_max_attr_depth (lw_limits cx))]) else r)"

definition lower_number :: "hnumber \<Rightarrow> expr" where
  "lower_number n =
     (case hn_as_i64 n of
        Some i \<Rightarrow> Literal (VInt i)
      | None \<Rightarrow> (case hn_as_u64 n of
          Some u \<Rightarrow> Literal (VInt (if int u \<le> i64_max then int u else i64_max))
        | None \<Rightarrow> (case hn_as_f64 n of
            Some f \<Rightarrow> Literal (VNumber f)
          | None \<Rightarrow> Unresolved (make_symbolic (hn_text n) KOther None span_synthetic))))"

definition lower_traversal :: "hexpr \<Rightarrow> htraversal_op list \<Rightarrow> span \<Rightarrow> expr" where
  "lower_traversal e ops sp =
     (let source = render_traversal e ops; kind = symbol_kind_for source in
      Unresolved (make_symbolic source kind (parse_address_hint source kind) sp))"

definition collapse_template :: "expr list \<Rightarrow> expr" where
  "collapse_template parts =
     (case parts of
        [] \<Rightarrow> Literal (VStr [])
      | [Literal (VStr s)] \<Rightarrow> Literal (VStr s)
      | _ \<Rightarrow> ETemplate parts)"

text \<open>\<open>all_literal\<close>: a list of literals becomes one literal.\<close>

definition array_expr :: "expr list \<Rightarrow> expr" where
  "array_expr es = (case map_option_list as_literal es of Some vs \<Rightarrow> Literal (VList vs) | None \<Rightarrow> EArray es)"

fun literal_entry :: "expr \<times> expr \<Rightarrow> (str \<times> value) option" where
  "literal_entry (Literal (VStr k), Literal v) = Some (k, v)"
| "literal_entry _ = None"

definition object_expr :: "(expr \<times> expr) list \<Rightarrow> expr" where
  "object_expr es = (case map_option_list literal_entry es of Some m \<Rightarrow> Literal (VMap m) | None \<Rightarrow> EObject es)"

definition nested_attribute_map_to_expression :: "attribute_map \<Rightarrow> hlabel list \<Rightarrow> expr" where
  "nested_attribute_map_to_expression attrs labels =
     (let named = map (\<lambda>(k, v). (Literal (VStr k), v)) attrs in
      if labels = [] then object_expr named
      else EObject ((Literal (VStr ''__labels__''), EArray (map (\<lambda>l. Literal (VStr (label_str l))) labels)) # named))"

function lower_expression :: "lower_cx \<Rightarrow> hexpr \<Rightarrow> nat \<Rightarrow> expr \<times> diagnostic list"
and lower_elements :: "lower_cx \<Rightarrow> helement list \<Rightarrow> nat \<Rightarrow> nat \<Rightarrow> expr list \<times> diagnostic list"
and lower_exprs :: "lower_cx \<Rightarrow> hexpr list \<Rightarrow> nat \<Rightarrow> expr list \<times> diagnostic list"
and lower_entries :: "lower_cx \<Rightarrow> (hkey \<times> hexpr) list \<Rightarrow> nat \<Rightarrow> (expr \<times> expr) list \<times> diagnostic list"
where
  "lower_expression cx (HNull sp) d = depth_limited cx d (truncated cx) (Literal VNull, [])"
| "lower_expression cx (HBool sp b) d = depth_limited cx d (truncated cx) (Literal (VBool b), [])"
| "lower_expression cx (HNumber sp n) d = depth_limited cx d (truncated cx) (lower_number n, [])"
| "lower_expression cx (HString sp s) d = depth_limited cx d (truncated cx) (Literal (VStr s), [])"
| "lower_expression cx (HStringTemplate sp els) d = depth_limited cx d (truncated cx)
     (let (ps, ds) = lower_elements cx els d 0 in (collapse_template ps, ds))"
| "lower_expression cx (HHeredocTemplate sp els) d = depth_limited cx d (truncated cx)
     (let (ps, ds) = lower_elements cx els d 0 in (collapse_template ps, ds))"
| "lower_expression cx (HArray sp es) d = depth_limited cx d (truncated cx)
     (let (vs, ds) = lower_exprs cx es (d + 1) in (array_expr vs, ds))"
| "lower_expression cx (HObject sp kvs) d = depth_limited cx d (truncated cx)
     (let (es, ds) = lower_entries cx kvs (d + 1) in (object_expr es, ds))"
| "lower_expression cx (HVariable sp v) d = depth_limited cx d (truncated cx)
     (Unresolved (make_symbolic v KOther None (span_for cx (span_or_empty sp))), [])"
| "lower_expression cx (HTraversal sp e ops) d = depth_limited cx d (truncated cx)
     (lower_traversal e ops (span_for cx (span_or_empty sp)), [])"
| "lower_expression cx (HFuncCall sp ns name args) d = depth_limited cx d (truncated cx)
     (let (as, ds) = lower_exprs cx args (d + 1)
      in (EFuncCall (namespace_str ns name) as (span_for cx (span_or_empty sp)), ds))"
| "lower_expression cx (HUnary sp op e) d = depth_limited cx d (truncated cx)
     (let (e', ds) = lower_expression cx e (d + 1)
      in (EUnary (map_unary_op op) e' (span_for cx (span_or_empty sp)), ds))"
| "lower_expression cx (HBinary sp op l r) d = depth_limited cx d (truncated cx)
     (let (l', ds1) = lower_expression cx l (d + 1); (r', ds2) = lower_expression cx r (d + 1)
      in (EBinary (map_binary_op op) l' r' (span_for cx (span_or_empty sp)), ds1 @ ds2))"
| "lower_expression cx (HConditional sp c t e) d = depth_limited cx d (truncated cx)
     (let (c', ds1) = lower_expression cx c (d + 1); (t', ds2) = lower_expression cx t (d + 1);
          (e', ds3) = lower_expression cx e (d + 1)
      in (EConditional c' t' e' (span_for cx (span_or_empty sp)), ds1 @ ds2 @ ds3))"
| "lower_expression cx (HFor sp key_var value_var coll k v c) d = depth_limited cx d (truncated cx)
     (let (coll', ds1) = lower_expression cx coll (d + 1); 
          (k', ds2) = (case k of None \<Rightarrow> (None, []) | Some e \<Rightarrow> apfst Some (lower_expression cx e (d + 1)));
          (v', ds3) = lower_expression cx v (d + 1); 
          (c', ds4) = (case c of None \<Rightarrow> (None, []) | Some e \<Rightarrow> apfst Some (lower_expression cx e (d + 1)))
      in (EFor ((case key_var of None \<Rightarrow> [] | Some b \<Rightarrow> [b]) @ [value_var]) coll' k' v' c' (k \<noteq> None)
            (span_for cx (span_or_empty sp)), ds1 @ ds2 @ ds3 @ ds4))"
| "lower_expression cx (HParenthesis sp e) d = depth_limited cx d (truncated cx) (lower_expression cx e (d + 1))"
| "lower_elements cx [] d n = ([], [])"
| "lower_elements cx (el # els) d n =
     (if saturate_u32 n \<ge> ll_max_template_parts (lw_limits cx)
      then ([], [limit_diag LkTemplateParts n (ll_max_template_parts (lw_limits cx))])
      else let (p, ds1) = (case el of
                 ElLiteral s \<Rightarrow> (Literal (VStr s), [])
               | ElInterpolation e \<Rightarrow> lower_expression cx e (d + 1)
               | ElDirective \<Rightarrow> (Unresolved (make_symbolic ''<template-directive>'' KOther None (span_for cx (0, 0))), []));
               (ps, ds2) = lower_elements cx els d (n + 1)
           in (p # ps, ds1 @ ds2))"
| "lower_exprs cx [] d = ([], [])"
| "lower_exprs cx (e # es) d =
     (let (e', ds1) = lower_expression cx e d; (es', ds2) = lower_exprs cx es d in (e' # es', ds1 @ ds2))"
| "lower_entries cx [] d = ([], [])"
| "lower_entries cx ((k, v) # kvs) d =
     (let (k', ds1) = (case k of KeyIdent s \<Rightarrow> (Literal (VStr s), []) | KeyExpression e \<Rightarrow> lower_expression cx e d); (v', ds2) = lower_expression cx v d; (es, ds3) = lower_entries cx kvs d
      in ((k', v') # es, ds1 @ ds2 @ ds3))"

  by pat_completeness auto
termination by size_change

section \<open>Bodies\<close>

text \<open>\<open>lower_block_body\<close>: the check of the depth, then the attributes and nested blocks in order.\<close>

fun lower_structures :: "lower_cx \<Rightarrow> hbody \<Rightarrow> nat \<Rightarrow> attribute_map \<times> diagnostic list" where
  "lower_structures cx [] d = ([], [])"
| "lower_structures cx (HAttribute key v sp # ss) d =
     (let (v', ds1) = lower_expression cx v (d + 1); (rest, ds2) = lower_structures cx ss d
      in ((key, v') # rest, ds1 @ ds2))"
| "lower_structures cx (HBlock ident isp labels body sp # ss) d =
     (let (attrs, ds1) = depth_limited cx (d + 1) [] (lower_structures cx body (d + 1));
          (rest, ds2) = lower_structures cx ss d
      in ((ident, nested_attribute_map_to_expression attrs labels) # rest, ds1 @ ds2))"

definition lower_block_body :: "lower_cx \<Rightarrow> hbody \<Rightarrow> nat \<Rightarrow> attribute_map \<times> diagnostic list" where
  "lower_block_body cx body d = depth_limited cx d [] (lower_structures cx body d)"

text \<open>\<open>count\<close> is \<open>block_count\<close>, a \<open>u32\<close> that stays where it is when it would overflow.\<close>

definition bump_count :: "nat \<Rightarrow> nat" where
  "bump_count n = (if n + 1 \<le> u32_max then n + 1 else n)"

definition lower_block ::
  "lower_cx \<Rightarrow> nat \<Rightarrow> str \<Rightarrow> hspan \<Rightarrow> hlabel list \<Rightarrow> hbody \<Rightarrow> hspan \<Rightarrow> raw_block option \<times> diagnostic list" where
  "lower_block cx count ident isp labels body sp =
     (if count > ll_max_blocks_per_file (lw_limits cx)
      then (None, [limit_diag LkBlocksPerFile count (ll_max_blocks_per_file (lw_limits cx))])
      else let (attrs, ds) = lower_block_body cx body 0 in
        (Some \<lparr>rb_kind = classify_block_kind ident, rb_labels = map label_str labels, rb_body = attrs,
               rb_span = span_for cx (span_or_empty (if sp = None then isp else sp)), rb_source = lw_source cx\<rparr>, ds))"

fun lower_file :: "lower_cx \<Rightarrow> hbody \<Rightarrow> nat \<Rightarrow> raw_block list \<times> diagnostic list" where
  "lower_file cx [] count = ([], [])"
| "lower_file cx (HAttribute key v sp # ss) count =
     (let (v', ds1) = lower_expression cx v 0; (blocks, ds2) = lower_file cx ss count
      in (\<lparr>rb_kind = BkUnknown, rb_labels = [key], rb_body = [(key, v')],
            rb_span = span_for cx (span_or_empty (if sp = None then hexpr_span v else sp)), rb_source = lw_source cx\<rparr>
          # blocks, ds1 @ ds2))"
| "lower_file cx (HBlock ident isp labels body sp # ss) count =
     (let (b, ds1) = lower_block cx (bump_count count) ident isp labels body sp;
          (blocks, ds2) = lower_file cx ss (bump_count count)
      in ((case b of None \<Rightarrow> blocks | Some rb \<Rightarrow> rb # blocks), ds1 @ ds2))"

definition lower_body :: "hbody \<Rightarrow> path \<Rightarrow> nat list \<Rightarrow> loader_limits \<Rightarrow> nat \<Rightarrow> raw_block list \<times> diagnostic list" where
  "lower_body body p line_index limits src_len =
     lower_file \<lparr>lw_source = p, lw_line_index = line_index, lw_limits = limits, lw_src_len = src_len\<rparr> body 0"

text \<open>The front end of the loader: the parser of the crate, and the lowering.\<close>

definition hcl_front_end :: "(str \<Rightarrow> str + hbody) \<Rightarrow> hbody front_end" where
  "hcl_front_end parse_body = \<lparr>fe_parse_body = parse_body, fe_lower_body = lower_body\<rparr>"

end
