(* ===== verification/LoweringProps.thy ===== *)
theory LoweringProps
  imports Lowering ReduceSafety
begin

text \<open>What the lowering keeps of the syntax tree: constants become the literals they denote, every reference survives in
  order, machine ranges and the absence of \<open>%\<close> carry over, and the limits bound the result.\<close>

section \<open>Induction along the lowering\<close>

text \<open>A context whose limits are never reached.\<close>

definition roomy_cx :: lower_cx where
  "roomy_cx = \<lparr>lw_source = [], lw_line_index = [], lw_limits = loader_limits_default\<lparr>ll_max_template_parts := Suc u32_max\<rparr>,
     lw_src_len = 0\<rparr>"

lemma roomy_parts: "\<not> ll_max_template_parts (lw_limits roomy_cx) \<le> saturate_u32 n"
  by (simp add: roomy_cx_def saturate_u32_def)

lemma lower_induct:
  assumes "\<And>sp d. P (HNull sp) d" "\<And>sp b d. P (HBool sp b) d" "\<And>sp n d. P (HNumber sp n) d" "\<And>sp s d. P (HString sp s) d"
    and "\<And>sp els d. Q els d 0 \<Longrightarrow> P (HStringTemplate sp els) d"
    and "\<And>sp els d. Q els d 0 \<Longrightarrow> P (HHeredocTemplate sp els) d"
    and "\<And>sp es d. R es (Suc d) \<Longrightarrow> P (HArray sp es) d"
    and "\<And>sp kvs d. S kvs (Suc d) \<Longrightarrow> P (HObject sp kvs) d"
    and "\<And>sp v d. P (HVariable sp v) d" "\<And>sp e ops d. P (HTraversal sp e ops) d"
    and "\<And>sp ns name args d. R args (Suc d) \<Longrightarrow> P (HFuncCall sp ns name args) d"
    and "\<And>sp op e d. P e (Suc d) \<Longrightarrow> P (HUnary sp op e) d"
    and "\<And>sp op l r d. P l (Suc d) \<Longrightarrow> P r (Suc d) \<Longrightarrow> P (HBinary sp op l r) d"
    and "\<And>sp c t e d. P c (Suc d) \<Longrightarrow> P t (Suc d) \<Longrightarrow> P e (Suc d) \<Longrightarrow> P (HConditional sp c t e) d"
    and "\<And>sp kb vb coll k v c d. P coll (Suc d) \<Longrightarrow> pred_option (\<lambda>e. P e (Suc d)) k \<Longrightarrow> P v (Suc d)
        \<Longrightarrow> pred_option (\<lambda>e. P e (Suc d)) c \<Longrightarrow> P (HFor sp kb vb coll k v c) d"
    and "\<And>sp e d. P e (Suc d) \<Longrightarrow> P (HParenthesis sp e) d"
    and "\<And>d n. Q [] d n"
    and "\<And>el els d n. (\<And>e. el = ElInterpolation e \<Longrightarrow> P e (Suc d)) \<Longrightarrow> Q els d (Suc n) \<Longrightarrow> Q (el # els) d n"
    and "\<And>d. R [] d" "\<And>e es d. P e d \<Longrightarrow> R es d \<Longrightarrow> R (e # es) d"
    and "\<And>d. S [] d"
    and "\<And>k v kvs d. (\<And>e. k = KeyExpression e \<Longrightarrow> P e d) \<Longrightarrow> P v d \<Longrightarrow> S kvs d \<Longrightarrow> S ((k, v) # kvs) d"
  shows "P (e :: hexpr) (d :: nat)" and "Q els d n" and "R es d" and "S kvs d"
proof (induction "roomy_cx" e d and "roomy_cx" els d n and "roomy_cx" es d
      and "roomy_cx" kvs d rule: lower_expression_lower_elements_lower_exprs_lower_entries.induct)
  case (13 sp op l r d)
  then show ?case using assms(13) "13.hyps"(2) [OF refl prod.collapse] by simp
next
  case (14 sp c t e d)
  then show ?case
    using assms(14) "14.hyps"(2) [OF refl prod.collapse] "14.hyps"(3) [OF refl prod.collapse refl prod.collapse] by simp
next
  case (15 sp kb vb coll k v c d)
  then show ?case
    using "15.hyps"(2) [OF refl prod.collapse] "15.hyps"(3) [OF refl prod.collapse refl prod.collapse]
      "15.hyps"(4) [OF refl prod.collapse refl prod.collapse refl prod.collapse]
    by (intro assms(15)) (auto simp: option.pred_set)
next
  case (18 el els d n)
  then show ?case using "18.hyps"(1) [OF roomy_parts] "18.hyps"(2) [OF roomy_parts refl prod.collapse] by (intro assms(18)) auto
next
  case (20 e es d)
  then show ?case using assms(20) "20.hyps"(2) [OF refl prod.collapse] by simp
next
  case (22 k v kvs d)
  then show ?case
    using "22.hyps"(2) [OF refl prod.collapse] "22.hyps"(3) [OF refl prod.collapse refl prod.collapse]
    by (intro assms(22)) auto
qed (use assms in simp_all)

section \<open>The combinators\<close>

lemma depth_limited_simps:
  "fst (depth_limited cx d instead r) = (if d > ll_max_attr_depth (lw_limits cx) then instead else fst r)"
  "snd (depth_limited cx d instead r) = [] \<longleftrightarrow> d \<le> ll_max_attr_depth (lw_limits cx) \<and> snd r = []"
  by (auto simp: depth_limited_def)

definition template_const :: "value option list \<Rightarrow> value option" where
  "template_const vs = (case vs of [] \<Rightarrow> Some (VStr []) | [Some (VStr s)] \<Rightarrow> Some (VStr s) | _ \<Rightarrow> None)"

definition entry_const :: "value option \<times> value option \<Rightarrow> (str \<times> value) option" where
  "entry_const kv = (case kv of (Some (VStr k), Some v) \<Rightarrow> Some (k, v) | _ \<Rightarrow> None)"

definition list_const :: "value option list \<Rightarrow> value option" where
  "list_const vs = map_option VList (map_option_list (\<lambda>v. v) vs)"

definition map_const :: "(value option \<times> value option) list \<Rightarrow> value option" where
  "map_const kvs = map_option VMap (map_option_list entry_const kvs)"

abbreviation literal_pair :: "expr \<times> expr \<Rightarrow> value option \<times> value option" where
  "literal_pair kv \<equiv> (as_literal (fst kv), as_literal (snd kv))"

lemma map_option_list_comp: "map_option_list f xs = map_option_list (\<lambda>x. x) (map f xs)"
  by (induction xs) (auto split: option.split)

lemma as_literal_collapse: "as_literal (collapse_template ps) = template_const (map as_literal ps)"
proof (cases ps)
  case (Cons p qs)
  then show ?thesis
    by (cases p; cases qs) (auto simp: collapse_template_def template_const_def split: hval.splits list.splits)
qed (simp add: collapse_template_def template_const_def)

lemma literal_entry_eq: "literal_entry kv = entry_const (literal_pair kv)"
  by (cases kv rule: literal_entry.cases) (auto simp: entry_const_def split: hval.splits option.splits)

lemma as_literal_folds:
  "as_literal (array_expr es) = list_const (map as_literal es)"
  "as_literal (object_expr kvs) = map_const (map literal_pair kvs)"
proof -
  show "as_literal (array_expr es) = list_const (map as_literal es)"
    unfolding array_expr_def list_const_def map_option_list_comp [of as_literal] by (simp split: option.split)
  have "map_option_list literal_entry kvs = map_option_list entry_const (map literal_pair kvs)"
    unfolding map_option_list_comp [of literal_entry] map_option_list_comp [of entry_const]
    by (simp add: literal_entry_eq [abs_def] comp_def)
  then show "as_literal (object_expr kvs) = map_const (map literal_pair kvs)"
    by (simp add: object_expr_def map_const_def split: option.split)
qed

lemma symbols_of_literals: "map_option_list as_literal es = Some vs \<Longrightarrow> concat (map symbols_of es) = []"
  by (induction es arbitrary: vs) (auto split: option.splits elim: as_literal.elims)

lemma symbols_of_literal_entries:
  "map_option_list literal_entry kvs = Some m \<Longrightarrow> concat (map (\<lambda>(k, v). symbols_of k @ symbols_of v) kvs) = []"
  by (induction kvs arbitrary: m) (auto split: option.splits elim!: literal_entry.elims)

lemma symbols_of_folds:
  "symbols_of (collapse_template ps) = concat (map symbols_of ps)"
  "symbols_of (array_expr es) = concat (map symbols_of es)"
  "symbols_of (object_expr kvs) = concat (map (\<lambda>(k, v). symbols_of k @ symbols_of v) kvs)"
proof -
  show "symbols_of (collapse_template ps) = concat (map symbols_of ps)"
    by (auto simp: collapse_template_def split: list.split expr.split hval.split)
  show "symbols_of (array_expr es) = concat (map symbols_of es)"
    by (auto simp: array_expr_def symbols_of_literals split: option.split)
  show "symbols_of (object_expr kvs) = concat (map (\<lambda>(k, v). symbols_of k @ symbols_of v) kvs)"
    using symbols_of_literal_entries [of kvs] by (auto simp: object_expr_def split: option.split)
qed

section \<open>What the tree denotes\<close>

text \<open>The value of a constant expression.\<close>

fun const_of :: "hexpr \<Rightarrow> value option"
and element_const :: "helement \<Rightarrow> value option"
and key_const :: "hkey \<Rightarrow> value option" where
  "const_of (HNull sp) = Some VNull"
| "const_of (HBool sp b) = Some (VBool b)"
| "const_of (HNumber sp n) = as_literal (lower_number n)"
| "const_of (HString sp s) = Some (VStr s)"
| "const_of (HStringTemplate sp els) = template_const (map element_const els)"
| "const_of (HHeredocTemplate sp els) = template_const (map element_const els)"
| "const_of (HArray sp es) = list_const (map const_of es)"
| "const_of (HObject sp kvs) = map_const (map (\<lambda>(k, v). (key_const k, const_of v)) kvs)"
| "const_of (HParenthesis sp e) = const_of e"
| "const_of e = None"
| "element_const (ElLiteral s) = Some (VStr s)"
| "element_const (ElInterpolation e) = const_of e"
| "element_const ElDirective = None"
| "key_const (KeyIdent s) = Some (VStr s)"
| "key_const (KeyExpression e) = const_of e"

text \<open>The symbols the lowering of an expression leaves, in order, each with the kind its text gives it; a traversal is one
  symbol, whatever its root and its indexes hold.\<close>

fun leaves :: "hexpr \<Rightarrow> (symbol_kind \<times> str) list"
and element_leaves :: "helement \<Rightarrow> (symbol_kind \<times> str) list"
and key_leaves :: "hkey \<Rightarrow> (symbol_kind \<times> str) list" where
  "leaves (HNumber sp n) =
     (if hn_as_i64 n = None \<and> hn_as_u64 n = None \<and> hn_as_f64 n = None then [(KOther, hn_text n)] else [])"
| "leaves (HStringTemplate sp els) = concat (map element_leaves els)"
| "leaves (HHeredocTemplate sp els) = concat (map element_leaves els)"
| "leaves (HArray sp es) = concat (map leaves es)"
| "leaves (HObject sp kvs) = concat (map (\<lambda>(k, v). key_leaves k @ leaves v) kvs)"
| "leaves (HVariable sp v) = [(KOther, v)]"
| "leaves (HTraversal sp e ops) = [(symbol_kind_for (render_traversal e ops), render_traversal e ops)]"
| "leaves (HFuncCall sp ns name args) = concat (map leaves args)"
| "leaves (HUnary sp op e) = leaves e"
| "leaves (HBinary sp op l r) = leaves l @ leaves r"
| "leaves (HConditional sp c t e) = leaves c @ leaves t @ leaves e"
| "leaves (HFor sp kb vb coll k v c) =
     leaves coll @ (case k of None \<Rightarrow> [] | Some k' \<Rightarrow> leaves k') @ leaves v
     @ (case c of None \<Rightarrow> [] | Some c' \<Rightarrow> leaves c')"
| "leaves (HParenthesis sp e) = leaves e"
| "leaves e = []"
| "element_leaves (ElInterpolation e) = leaves e"
| "element_leaves ElDirective = [(KOther, ''<template-directive>'')]"
| "element_leaves (ElLiteral s) = []"
| "key_leaves (KeyExpression e) = leaves e"
| "key_leaves (KeyIdent s) = []"

definition symbol_keys :: "expr \<Rightarrow> (symbol_kind \<times> str) list" where
  "symbol_keys e = map (\<lambda>s. (sym_kind s, sym_source s)) (symbols_of e)"

lemma symbol_keys_simps [simp]:
  "symbol_keys (Literal w) = []"
  "symbol_keys (Unresolved s) = [(sym_kind s, sym_source s)]"
  "symbol_keys (EUnary op x sp) = symbol_keys x"
  "symbol_keys (EBinary bop l r sp) = symbol_keys l @ symbol_keys r"
  "symbol_keys (EConditional c t e sp) = symbol_keys c @ symbol_keys t @ symbol_keys e"
  "symbol_keys (EFuncCall n args sp) = concat (map symbol_keys args)"
  "symbol_keys (EFor bs coll k v c' obj sp) = symbol_keys coll @ (case k of None \<Rightarrow> [] | Some k' \<Rightarrow> symbol_keys k')
     @ symbol_keys v @ (case c' of None \<Rightarrow> [] | Some c \<Rightarrow> symbol_keys c)"
  "symbol_keys (collapse_template ps) = concat (map symbol_keys ps)"
  "symbol_keys (array_expr es) = concat (map symbol_keys es)"
  "symbol_keys (object_expr kvs) = concat (map (\<lambda>kv. symbol_keys (fst kv) @ symbol_keys (snd kv)) kvs)"
  by (simp_all add: symbol_keys_def [abs_def] symbols_of_folds map_concat comp_def case_prod_beta split: option.split)

lemma lower_number_keys: "symbol_keys (lower_number n) =
    (if hn_as_i64 n = None \<and> hn_as_u64 n = None \<and> hn_as_f64 n = None then [(KOther, hn_text n)] else [])"
  by (simp add: lower_number_def make_symbolic_def split: option.split)

lemma lower_traversal_key: "symbol_keys (lower_traversal e ops sp) = [(symbol_kind_for (render_traversal e ops), render_traversal e ops)]"
  by (simp add: lower_traversal_def make_symbolic_def Let_def)

lemma as_literal_traversal [simp]: "as_literal (lower_traversal e ops sp) = None"
  by (simp add: lower_traversal_def Let_def)

text \<open>Without a diagnostic the result denotes what the tree denotes.\<close>

lemma lower_denotes:
  shows "snd (lower_expression cx e d) = [] \<Longrightarrow>
      as_literal (fst (lower_expression cx e d)) = const_of e \<and> symbol_keys (fst (lower_expression cx e d)) = leaves e"
    and "snd (lower_elements cx els d n) = [] \<Longrightarrow>
      map as_literal (fst (lower_elements cx els d n)) = map element_const els
      \<and> concat (map symbol_keys (fst (lower_elements cx els d n))) = concat (map element_leaves els)"
    and "snd (lower_exprs cx es d) = [] \<Longrightarrow>
      map as_literal (fst (lower_exprs cx es d)) = map const_of es
      \<and> concat (map symbol_keys (fst (lower_exprs cx es d))) = concat (map leaves es)"
    and "snd (lower_entries cx kvs d) = [] \<Longrightarrow>
      map literal_pair (fst (lower_entries cx kvs d)) = map (\<lambda>(k, v). (key_const k, const_of v)) kvs
      \<and> concat (map (\<lambda>kv. symbol_keys (fst kv) @ symbol_keys (snd kv)) (fst (lower_entries cx kvs d)))
        = concat (map (\<lambda>(k, v). key_leaves k @ leaves v) kvs)"
  by (induction e d and els d n and es d and kvs d rule: lower_induct)
    (simp_all add: depth_limited_simps case_prod_beta Let_def as_literal_collapse as_literal_folds lower_number_keys
      lower_traversal_key make_symbolic_def split: if_splits option.splits helement.splits hkey.splits)

section \<open>Bodies denote what they say\<close>

text \<open>The constants of a body under its keys; a nested block without labels is a map, one with labels is not constant.\<close>

definition named_const :: "str \<times> value option \<Rightarrow> value option \<times> value option" where
  "named_const kv = (Some (VStr (fst kv)), snd kv)"

fun structure_const :: "hstructure \<Rightarrow> str \<times> value option" where
  "structure_const (HAttribute key v sp) = (key, const_of v)"
| "structure_const (HBlock ident isp labels body sp) =
     (ident, if labels = [] then map_const (map (\<lambda>s. named_const (structure_const s)) body) else None)"

fun structure_leaves :: "hstructure \<Rightarrow> (symbol_kind \<times> str) list" where
  "structure_leaves (HAttribute key v sp) = leaves v"
| "structure_leaves (HBlock ident isp labels body sp) = concat (map structure_leaves body)"

lemma nested_denotes:
  "as_literal (nested_attribute_map_to_expression attrs labels) =
     (if labels = [] then map_const (map named_const (map (apsnd as_literal) attrs)) else None)"
  "symbol_keys (nested_attribute_map_to_expression attrs labels) = concat (map (\<lambda>kv. symbol_keys (snd kv)) attrs)"
proof -
  have none: "concat (map symbols_of (map (\<lambda>l. Literal (VStr (label_str l))) labels)) = []" by simp
  show "as_literal (nested_attribute_map_to_expression attrs labels) =
     (if labels = [] then map_const (map named_const (map (apsnd as_literal) attrs)) else None)"
    by (simp add: nested_attribute_map_to_expression_def Let_def as_literal_folds comp_def case_prod_beta named_const_def)
  show "symbol_keys (nested_attribute_map_to_expression attrs labels) = concat (map (\<lambda>kv. symbol_keys (snd kv)) attrs)"
    using none by (simp add: nested_attribute_map_to_expression_def Let_def comp_def case_prod_beta)
      (simp add: symbol_keys_def map_concat comp_def case_prod_beta)
qed

lemma lower_structures_denote:
  "snd (lower_structures cx ss d) = [] \<Longrightarrow>
     map (apsnd as_literal) (fst (lower_structures cx ss d)) = map structure_const ss
     \<and> concat (map (\<lambda>kv. symbol_keys (snd kv)) (fst (lower_structures cx ss d))) = concat (map structure_leaves ss)"
proof (induction cx ss d rule: lower_structures.induct)
  case (3 cx ident isp labels body sp ss d)
  have inner: "snd (lower_structures cx body (d + 1)) = []" "\<not> ll_max_attr_depth (lw_limits cx) < Suc d"
    and rest: "snd (lower_structures cx ss d) = []"
    using "3.prems" by (simp_all add: case_prod_beta depth_limited_simps)
  note ih = "3.IH"(1) [OF inner(1)]
  have attrs: "fst (depth_limited cx (Suc d) [] (lower_structures cx body (Suc d))) = fst (lower_structures cx body (d + 1))"
    using inner(2) by (simp add: depth_limited_simps)
  have "map named_const (map (apsnd as_literal) (fst (lower_structures cx body (d + 1)))) = map (\<lambda>s. named_const (structure_const s)) body"
    unfolding conjunct1 [OF ih] by simp
  then show ?case using "3.IH"(2) [OF refl prod.collapse rest] ih
    by (simp add: case_prod_beta attrs nested_denotes del: map_map)
next
  case (2 cx key v sp ss d)
  have v: "snd (lower_expression cx v (d + 1)) = []" and rest: "snd (lower_structures cx ss d) = []"
    using "2.prems" by (simp_all add: case_prod_beta)
  show ?case using "2.IH" [OF refl prod.collapse rest] lower_denotes(1) [OF v] by (simp add: case_prod_beta)
qed simp

lemma lower_file_denotes:
  "snd (lower_file cx ss count) = [] \<Longrightarrow>
     map (\<lambda>b. map (apsnd as_literal) (rb_body b)) (fst (lower_file cx ss count)) =
       map (\<lambda>s. case s of HAttribute _ _ _ \<Rightarrow> [structure_const s] | HBlock _ _ _ body _ \<Rightarrow> map structure_const body) ss
     \<and> map (\<lambda>b. (rb_kind b, rb_labels b)) (fst (lower_file cx ss count)) =
       map (\<lambda>s. case s of HAttribute key _ _ \<Rightarrow> (BkUnknown, [key])
                        | HBlock ident _ labels _ _ \<Rightarrow> (classify_block_kind ident, map label_str labels)) ss
     \<and> concat (map (\<lambda>b. concat (map (\<lambda>kv. symbol_keys (snd kv)) (rb_body b))) (fst (lower_file cx ss count)))
       = concat (map structure_leaves ss)"
proof (induction cx ss count rule: lower_file.induct)
  case (2 cx key v sp ss count)
  then show ?case using "2.IH" [OF refl prod.collapse] lower_denotes(1) [of cx v 0] by (simp add: case_prod_beta)
next
  case (3 cx ident isp labels body sp ss count)
  have b: "snd (lower_block cx (bump_count count) ident isp labels body sp) = []" and rest: "snd (lower_file cx ss (bump_count count)) = []"
    using "3.prems" by (simp_all add: case_prod_beta)
  have "snd (lower_structures cx body 0) = []"
    and blk: "fst (lower_block cx (bump_count count) ident isp labels body sp) =
      Some \<lparr>rb_kind = classify_block_kind ident, rb_labels = map label_str labels, rb_body = fst (lower_structures cx body 0),
        rb_span = span_for cx (span_or_empty (if sp = None then isp else sp)), rb_source = lw_source cx\<rparr>"
    using b by (auto simp: lower_block_def lower_block_body_def case_prod_beta depth_limited_simps split: if_splits)
  then show ?case
    using "3.IH" [OF refl prod.collapse rest] lower_structures_denote [of cx body 0] by (simp add: case_prod_beta)
qed simp

section \<open>Ranges and operators\<close>

text \<open>The expressions the lowering visits.\<close>

fun parts_of :: "hexpr \<Rightarrow> hexpr list"
and element_parts :: "helement \<Rightarrow> hexpr list"
and key_parts :: "hkey \<Rightarrow> hexpr list" where
  "parts_of (HStringTemplate sp els) = HStringTemplate sp els # concat (map element_parts els)"
| "parts_of (HHeredocTemplate sp els) = HHeredocTemplate sp els # concat (map element_parts els)"
| "parts_of (HArray sp es) = HArray sp es # concat (map parts_of es)"
| "parts_of (HObject sp kvs) = HObject sp kvs # concat (map (\<lambda>(k, v). key_parts k @ parts_of v) kvs)"
| "parts_of (HFuncCall sp ns name args) = HFuncCall sp ns name args # concat (map parts_of args)"
| "parts_of (HUnary sp op e) = HUnary sp op e # parts_of e"
| "parts_of (HBinary sp op l r) = HBinary sp op l r # parts_of l @ parts_of r"
| "parts_of (HConditional sp c t e) = HConditional sp c t e # parts_of c @ parts_of t @ parts_of e"
| "parts_of (HFor sp kb vb coll k v c) = HFor sp kb vb coll k v c #
     parts_of coll @ (case k of None \<Rightarrow> [] | Some k' \<Rightarrow> parts_of k') @ parts_of v @ (case c of None \<Rightarrow> [] | Some c' \<Rightarrow> parts_of c')"
| "parts_of (HParenthesis sp e) = HParenthesis sp e # parts_of e"
| "parts_of e = [e]"
| "element_parts (ElInterpolation e) = parts_of e"
| "element_parts el = []"
| "key_parts (KeyExpression e) = parts_of e"
| "key_parts (KeyIdent s) = []"

fun structure_parts :: "hstructure \<Rightarrow> hexpr list" where
  "structure_parts (HAttribute key v sp) = parts_of v"
| "structure_parts (HBlock ident isp labels body sp) = concat (map structure_parts body)"

text \<open>A property of expressions that literals, references and the constructors have from their parts passes from the tree
  to the lowered blocks: \<open>E\<close> of expressions, \<open>V\<close> of values, \<open>T\<close> of the nodes of the tree.\<close>

locale lowering_invariant =
  fixes E :: "expr \<Rightarrow> bool" and V :: "value \<Rightarrow> bool" and T :: "hexpr \<Rightarrow> bool"
  assumes leaf: "V v \<Longrightarrow> E (Literal v)" "E (Unresolved s)"
    and vals: "V VNull" "V (VBool b)" "V (VStr str)" "list_all V vs \<Longrightarrow> V (VList vs)" "list_all (\<lambda>kv. V (snd kv)) m \<Longrightarrow> V (VMap m)"
    and literal: "E (Literal v) \<Longrightarrow> V v"
    and number: "T (HNumber hsp n) \<Longrightarrow> E (lower_number n)"
    and nodes: "list_all E ps \<Longrightarrow> E (ETemplate ps)" "list_all E ps \<Longrightarrow> E (EArray ps)"
      "list_all (\<lambda>kv. E (fst kv) \<and> E (snd kv)) kvs \<Longrightarrow> E (EObject kvs)"
      "list_all E ps \<Longrightarrow> E (EFuncCall name ps sp)" "E x \<Longrightarrow> E (EUnary uop x sp)"
      "T (HBinary hsp hop hl hr) \<Longrightarrow> E l \<Longrightarrow> E r \<Longrightarrow> E (EBinary (map_binary_op hop) l r sp)"
      "E c \<Longrightarrow> E l \<Longrightarrow> E r \<Longrightarrow> E (EConditional c l r sp)"
      "E x \<Longrightarrow> pred_option E k \<Longrightarrow> E l \<Longrightarrow> pred_option E cond \<Longrightarrow> E (EFor bs x k l cond obj sp)"
begin

lemma array_preserved: "list_all E es \<Longrightarrow> E (array_expr es)"
proof (cases "map_option_list as_literal es")
  case (Some vs)
  assume es: "list_all E es"
  from Some have "list_all2 (\<lambda>e v. as_literal e = Some v) es vs" by (simp add: map_option_list_Some_iff)
  then have "list_all V vs" using es by (induction rule: list_all2_induct) (auto elim!: as_literal.elims dest: literal)
  then show ?thesis by (simp add: array_expr_def Some leaf vals)
qed (simp add: array_expr_def nodes)

lemma object_preserved: "list_all (\<lambda>kv. E (fst kv) \<and> E (snd kv)) kvs \<Longrightarrow> E (object_expr kvs)"
proof (cases "map_option_list literal_entry kvs")
  case (Some m)
  assume kvs: "list_all (\<lambda>kv. E (fst kv) \<and> E (snd kv)) kvs"
  from Some have "list_all2 (\<lambda>kv e. literal_entry kv = Some e) kvs m" by (simp add: map_option_list_Some_iff)
  then have "list_all (\<lambda>kv. V (snd kv)) m"
    using kvs by (induction rule: list_all2_induct) (auto elim!: literal_entry.elims dest: literal)
  then show ?thesis by (simp add: object_expr_def Some leaf vals)
qed (simp add: object_expr_def nodes)

lemma template_preserved: "list_all E ps \<Longrightarrow> E (collapse_template ps)"
  by (auto simp: collapse_template_def leaf vals nodes split: list.split expr.split hval.split)

lemma nested_preserved: "list_all (\<lambda>kv. E (snd kv)) attrs \<Longrightarrow> E (nested_attribute_map_to_expression attrs labels)"
  by (auto simp: nested_attribute_map_to_expression_def Let_def list_all_iff case_prod_beta leaf vals
      intro!: object_preserved nodes)

lemmas preserved = leaf vals number nodes array_preserved object_preserved template_preserved

lemma lower_preserved:
  shows "list_all T (parts_of e) \<Longrightarrow> E (fst (lower_expression cx e d))"
    and "list_all T (concat (map element_parts els)) \<Longrightarrow> list_all E (fst (lower_elements cx els d n))"
    and "list_all T (concat (map parts_of es)) \<Longrightarrow> list_all E (fst (lower_exprs cx es d))"
    and "list_all T (concat (map (\<lambda>(k, v). key_parts k @ parts_of v) hkvs)) \<Longrightarrow>
      list_all (\<lambda>kv. E (fst kv) \<and> E (snd kv)) (fst (lower_entries cx hkvs d))"
  by (induction e d and els d n and es d and hkvs d rule: lower_induct)
    (auto simp: depth_limited_simps case_prod_beta Let_def truncated_def lower_traversal_def preserved
      split: option.splits helement.splits hkey.splits)

lemma structures_preserved:
  "list_all T (concat (map structure_parts ss)) \<Longrightarrow> list_all (\<lambda>kv. E (snd kv)) (fst (lower_structures cx ss d))"
proof (induction cx ss d rule: lower_structures.induct)
  case (2 cx key v sp ss d)
  then show ?case using "2.IH" [OF refl prod.collapse] lower_preserved(1) by (simp add: case_prod_beta)
next
  case (3 cx ident isp labels body sp ss d)
  have "list_all (\<lambda>kv. E (snd kv)) (fst (depth_limited cx (d + 1) [] (lower_structures cx body (d + 1))))"
    using "3.IH"(1) "3.prems" by (simp add: depth_limited_simps)
  then show ?case using "3.IH"(2) [OF refl prod.collapse] "3.prems" nested_preserved by (simp add: case_prod_beta)
qed simp

lemma file_preserved:
  "list_all T (concat (map structure_parts ss)) \<Longrightarrow>
   list_all (\<lambda>b. list_all (\<lambda>kv. E (snd kv)) (rb_body b)) (fst (lower_file cx ss count))"
proof (induction cx ss count rule: lower_file.induct)
  case (2 cx key v sp ss count)
  then show ?case using "2.IH" [OF refl prod.collapse] lower_preserved(1) by (simp add: case_prod_beta)
next
  case (3 cx ident isp labels body sp ss count)
  have "list_all (\<lambda>kv. E (snd kv)) (fst (lower_block_body cx body 0))"
    using "3.prems" structures_preserved by (simp add: lower_block_body_def depth_limited_simps)
  then show ?case using "3.IH" [OF refl prod.collapse] "3.prems"
    by (auto simp: case_prod_beta lower_block_def split: option.split)
qed simp

end

text \<open>No operator \<open>%\<close>.\<close>

definition not_mod :: "hexpr \<Rightarrow> bool" where
  "not_mod e = (case e of HBinary sp op l r \<Rightarrow> op \<noteq> HbMod | _ \<Rightarrow> True)"

definition body_mod_free :: "hbody \<Rightarrow> bool" where
  "body_mod_free body = list_all not_mod (concat (map structure_parts body))"

lemma map_binary_op_Mod: "map_binary_op op = Mod \<longleftrightarrow> op = HbMod"
  by (cases op) simp_all

interpretation no_mod: lowering_invariant mod_free "\<lambda>_. True" not_mod
  by unfold_locales (auto simp: lower_number_def not_mod_def map_binary_op_Mod list_all_iff split: option.splits)

text \<open>Numbers within their machine types, as the accessors of the crate return them.\<close>

definition number_ok :: "hexpr \<Rightarrow> bool" where
  "number_ok e = (case e of HNumber sp n \<Rightarrow> pred_option in_i64 (hn_as_i64 n) \<and> pred_option f64_canonical (hn_as_f64 n) | _ \<Rightarrow> True)"

definition body_numbers_ok :: "hbody \<Rightarrow> bool" where
  "body_numbers_ok body = list_all number_ok (concat (map structure_parts body))"

interpretation ranges: lowering_invariant expr_wf value_wf number_ok
  by unfold_locales
    (auto simp: lower_number_def number_ok_def in_i64_def i64_min_def i64_max_def list_all_iff split: option.splits)

section \<open>Bounds\<close>

definition maximum :: "nat list \<Rightarrow> nat" where
  "maximum ns = foldr max ns 0"

lemma maximum_le [simp]: "maximum ns \<le> k \<longleftrightarrow> (\<forall>n \<in> set ns. n \<le> k)"
  by (induction ns) (auto simp: maximum_def)

lemma maximum_cong [fundef_cong]: "xs = ys \<Longrightarrow> maximum xs = maximum ys"
  by simp

fun value_height :: "value \<Rightarrow> nat" where
  "value_height (VList vs) = Suc (maximum (map value_height vs))"
| "value_height (VMap m) = Suc (maximum (map (\<lambda>kv. value_height (snd kv)) m))"
| "value_height _ = 1"

fun expr_height :: "expr \<Rightarrow> nat" where
  "expr_height (Literal v) = value_height v"
| "expr_height (Unresolved s) = 1"
| "expr_height (EBinary op l r sp) = Suc (max (expr_height l) (expr_height r))"
| "expr_height (EUnary op x sp) = Suc (expr_height x)"
| "expr_height (ETemplate ps) = Suc (maximum (map expr_height ps))"
| "expr_height (EArray ps) = Suc (maximum (map expr_height ps))"
| "expr_height (EObject kvs) = Suc (maximum (map (\<lambda>kv. max (expr_height (fst kv)) (expr_height (snd kv))) kvs))"
| "expr_height (EFuncCall n args sp) = Suc (maximum (map expr_height args))"
| "expr_height (EConditional c t e sp) = Suc (max (expr_height c) (max (expr_height t) (expr_height e)))"
| "expr_height (EFor bs coll k v c obj sp) = Suc (max (max (expr_height coll) (expr_height v))
     (max (case k of None \<Rightarrow> 0 | Some k' \<Rightarrow> expr_height k') (case c of None \<Rightarrow> 0 | Some c' \<Rightarrow> expr_height c')))"

lemma array_height: "\<forall>e \<in> set es. expr_height e \<le> k \<Longrightarrow> expr_height (array_expr es) \<le> Suc k"
proof (cases "map_option_list as_literal es")
  case (Some vs)
  assume es: "\<forall>e \<in> set es. expr_height e \<le> k"
  from Some have "list_all2 (\<lambda>e v. as_literal e = Some v) es vs" by (simp add: map_option_list_Some_iff)
  then have "\<forall>v \<in> set vs. value_height v \<le> k" using es by (induction rule: list_all2_induct) (auto elim!: as_literal.elims)
  then show ?thesis by (simp add: array_expr_def Some)
qed (simp add: array_expr_def)

lemma object_height:
  "\<forall>kv \<in> set kvs. expr_height (fst kv) \<le> k \<and> expr_height (snd kv) \<le> k \<Longrightarrow> expr_height (object_expr kvs) \<le> Suc k"
proof (cases "map_option_list literal_entry kvs")
  case (Some m)
  assume kvs: "\<forall>kv \<in> set kvs. expr_height (fst kv) \<le> k \<and> expr_height (snd kv) \<le> k"
  from Some have "list_all2 (\<lambda>kv e. literal_entry kv = Some e) kvs m" by (simp add: map_option_list_Some_iff)
  then have "\<forall>e \<in> set m. value_height (snd e) \<le> k"
    using kvs by (induction rule: list_all2_induct) (auto elim!: literal_entry.elims)
  then show ?thesis by (simp add: object_expr_def Some)
qed (simp add: object_expr_def)

lemma collapse_cases: "collapse_template ps = ETemplate ps \<or> (\<exists>s. collapse_template ps = Literal (VStr s))"
  by (simp add: collapse_template_def split: list.split expr.split hval.split)

lemma template_height: "\<forall>e \<in> set ps. expr_height e \<le> Suc k \<Longrightarrow> expr_height (collapse_template ps) \<le> Suc (Suc k)"
  using collapse_cases [of ps] by (elim disjE exE) (simp_all del: set_simps)

lemma lower_number_height [simp]: "expr_height (lower_number n) = 1"
  by (simp add: lower_number_def split: option.split)

lemma lower_height:
  fixes cx :: lower_cx
  defines "m \<equiv> ll_max_attr_depth (lw_limits cx)"
  shows "d \<le> Suc m \<Longrightarrow> expr_height (fst (lower_expression cx e d)) \<le> Suc (Suc m) - d"
    and "d \<le> m \<Longrightarrow> \<forall>p \<in> set (fst (lower_elements cx els d n)). expr_height p \<le> Suc m - d"
    and "d \<le> Suc m \<Longrightarrow> \<forall>p \<in> set (fst (lower_exprs cx es d)). expr_height p \<le> Suc (Suc m) - d"
    and "d \<le> Suc m \<Longrightarrow> \<forall>kv \<in> set (fst (lower_entries cx kvs d)).
      expr_height (fst kv) \<le> Suc (Suc m) - d \<and> expr_height (snd kv) \<le> Suc (Suc m) - d"
  by (induction e d and els d n and es d and kvs d rule: lower_induct)
    (use array_height object_height template_height in
      \<open>auto simp: depth_limited_simps case_prod_beta Let_def truncated_def lower_traversal_def m_def
        Suc_diff_le split: option.splits helement.splits hkey.splits\<close>)

lemma nested_height:
  assumes "\<forall>kv \<in> set attrs. expr_height (snd kv) \<le> k" "k \<ge> 2"
  shows "expr_height (nested_attribute_map_to_expression attrs labels) \<le> Suc k"
proof -
  have obj: "expr_height (object_expr (map (\<lambda>(x, v). (Literal (VStr x), v)) attrs)) \<le> Suc k"
    by (rule object_height) (use assms in \<open>auto simp: case_prod_beta\<close>)
  have labs: "Suc (maximum (map (expr_height \<circ> (\<lambda>l. Literal (VStr (label_str l)))) labels)) \<le> k"
  proof -
    have "maximum (map (expr_height \<circ> (\<lambda>l. Literal (VStr (label_str l)))) labels) \<le> 1" by simp
    with assms(2) show ?thesis by linarith
  qed
  show ?thesis
    using assms obj labs by (auto simp: nested_attribute_map_to_expression_def Let_def case_prod_beta)
qed

lemma structures_height:
  "d \<le> ll_max_attr_depth (lw_limits cx) \<Longrightarrow>
   \<forall>kv \<in> set (fst (lower_structures cx ss d)). expr_height (snd kv) \<le> ll_max_attr_depth (lw_limits cx) + 3 - d"
proof (induction cx ss d rule: lower_structures.induct)
  case (2 cx key v sp ss d)
  then show ?case using "2.IH" [OF refl prod.collapse] lower_height(1) [of "d + 1" cx v] by (auto simp: case_prod_beta)
next
  case (3 cx ident isp labels body sp ss d)
  let ?m = "ll_max_attr_depth (lw_limits cx)"
  have "\<forall>kv \<in> set (fst (depth_limited cx (d + 1) [] (lower_structures cx body (d + 1)))). expr_height (snd kv) \<le> ?m + 2 - d"
    using "3.IH"(1) by (cases "d + 1 \<le> ?m") (simp_all add: depth_limited_simps)
  from nested_height [OF this, of labels] show ?case
    using "3.IH"(2) [OF refl prod.collapse] "3.prems" by (auto simp: case_prod_beta Suc_diff_le)
qed simp

text \<open>The number of parts of every template.\<close>

fun template_parts_le :: "nat \<Rightarrow> expr \<Rightarrow> bool" where
  "template_parts_le k (Literal v) = True"
| "template_parts_le k (Unresolved s) = True"
| "template_parts_le k (EBinary op l r sp) = (template_parts_le k l \<and> template_parts_le k r)"
| "template_parts_le k (EUnary op x sp) = template_parts_le k x"
| "template_parts_le k (ETemplate ps) = (length ps \<le> k \<and> list_all (template_parts_le k) ps)"
| "template_parts_le k (EArray ps) = list_all (template_parts_le k) ps"
| "template_parts_le k (EObject kvs) = list_all (\<lambda>kv. template_parts_le k (fst kv) \<and> template_parts_le k (snd kv)) kvs"
| "template_parts_le k (EFuncCall n args sp) = list_all (template_parts_le k) args"
| "template_parts_le k (EConditional c t e sp) = (template_parts_le k c \<and> template_parts_le k t \<and> template_parts_le k e)"
| "template_parts_le k (EFor bs coll key v c obj sp) =
     (template_parts_le k coll \<and> template_parts_le k v \<and> (case key of None \<Rightarrow> True | Some k' \<Rightarrow> template_parts_le k k')
      \<and> (case c of None \<Rightarrow> True | Some c' \<Rightarrow> template_parts_le k c'))"

lemma folds_parts:
  "list_all (template_parts_le k) es \<Longrightarrow> template_parts_le k (array_expr es)"
  "list_all (\<lambda>kv. template_parts_le k (fst kv) \<and> template_parts_le k (snd kv)) kvs \<Longrightarrow> template_parts_le k (object_expr kvs)"
  "list_all (template_parts_le k) ps \<Longrightarrow> length ps \<le> k \<Longrightarrow> template_parts_le k (collapse_template ps)"
  using collapse_cases [of ps] by (auto simp: array_expr_def object_expr_def split: option.split)

lemma lower_elements_length:
  assumes "ll_max_template_parts (lw_limits cx) \<le> u32_max"
  shows "length (fst (lower_elements cx els d n)) \<le> ll_max_template_parts (lw_limits cx) - n"
proof (induction els arbitrary: n)
  case (Cons el els)
  show ?case
  proof (cases "saturate_u32 n \<ge> ll_max_template_parts (lw_limits cx)")
    case False
    then have "n < ll_max_template_parts (lw_limits cx)" using assms by (auto simp: saturate_u32_def)
    with False Cons.IH [of "Suc n"] show ?thesis by (simp add: case_prod_beta)
  qed simp
qed simp

lemma lower_template_parts:
  fixes cx :: lower_cx
  assumes "ll_max_template_parts (lw_limits cx) \<le> u32_max"
  defines "k \<equiv> ll_max_template_parts (lw_limits cx)"
  shows "template_parts_le k (fst (lower_expression cx e d))"
    and "list_all (template_parts_le k) (fst (lower_elements cx els d n))"
    and "list_all (template_parts_le k) (fst (lower_exprs cx es d))"
    and "list_all (\<lambda>kv. template_parts_le k (fst kv) \<and> template_parts_le k (snd kv)) (fst (lower_entries cx kvs d))"
proof -
  have len: "length (fst (lower_elements cx els d 0)) \<le> k" for els d
    using lower_elements_length [OF assms(1), of els d 0] by (simp add: k_def)
  show "template_parts_le k (fst (lower_expression cx e d))"
    and "list_all (template_parts_le k) (fst (lower_elements cx els d n))"
    and "list_all (template_parts_le k) (fst (lower_exprs cx es d))"
    and "list_all (\<lambda>kv. template_parts_le k (fst kv) \<and> template_parts_le k (snd kv)) (fst (lower_entries cx kvs d))"
    by (induction e d and els d n and es d and kvs d rule: lower_induct)
      (auto simp: depth_limited_simps case_prod_beta Let_def truncated_def lower_traversal_def lower_number_def folds_parts len
        split: option.splits helement.splits hkey.splits)
qed

lemma nested_parts:
  "list_all (\<lambda>kv. template_parts_le k (snd kv)) attrs \<Longrightarrow> template_parts_le k (nested_attribute_map_to_expression attrs labels)"
  by (auto simp: nested_attribute_map_to_expression_def Let_def list_all_iff case_prod_beta intro!: folds_parts)

lemma structures_parts:
  assumes "ll_max_template_parts (lw_limits cx) \<le> u32_max"
  shows "list_all (\<lambda>kv. template_parts_le (ll_max_template_parts (lw_limits cx)) (snd kv)) (fst (lower_structures cx ss d))"
  using assms
proof (induction cx ss d rule: lower_structures.induct)
  case (2 cx key v sp ss d)
  then show ?case using "2.IH" [OF refl prod.collapse] lower_template_parts(1) by (simp add: case_prod_beta)
next
  case (3 cx ident isp labels body sp ss d)
  then show ?case using "3.IH"(2) [OF refl prod.collapse] nested_parts by (simp add: case_prod_beta depth_limited_simps)
qed simp

section \<open>Blocks of a file\<close>

text \<open>The counter of blocks stays below its type as long as the limit does: past the limit no block is kept.  Only the
  blocks at the top of the file are counted, not its attributes and not the blocks inside blocks.\<close>

fun attribute_count :: "hbody \<Rightarrow> nat" where
  "attribute_count [] = 0"
| "attribute_count (HAttribute key v sp # ss) = Suc (attribute_count ss)"
| "attribute_count (HBlock ident isp labels body sp # ss) = attribute_count ss"

fun block_count :: "hbody \<Rightarrow> nat" where
  "block_count [] = 0"
| "block_count (HAttribute key v sp # ss) = block_count ss"
| "block_count (HBlock ident isp labels body sp # ss) = Suc (block_count ss)"

lemma lower_block_kept:
  "fst (lower_block cx n ident isp labels body sp) = None \<longleftrightarrow> n > ll_max_blocks_per_file (lw_limits cx)"
  by (simp add: lower_block_def case_prod_beta)

lemma lower_file_length:
  assumes "ll_max_blocks_per_file (lw_limits cx) < u32_max"
  shows "length (fst (lower_file cx ss count)) =
    attribute_count ss + min (block_count ss) (ll_max_blocks_per_file (lw_limits cx) - count)"
  using assms
proof (induction cx ss count rule: lower_file.induct)
  case (2 cx key v sp ss count)
  then show ?case using "2.IH" [OF refl prod.collapse] by (simp add: case_prod_beta)
next
  case (3 cx ident isp labels body sp ss count)
  let ?m = "ll_max_blocks_per_file (lw_limits cx)"
  have kept: "fst (lower_block cx (bump_count count) ident isp labels body sp) = None \<longleftrightarrow> count \<ge> ?m"
    using "3.prems" by (auto simp: lower_block_kept bump_count_def)
  have bump: "?m - bump_count count = ?m - count - 1" using "3.prems" by (auto simp: bump_count_def)
  show ?case using "3.IH" [OF refl prod.collapse "3.prems"] kept
    by (cases "count \<ge> ?m") (auto simp: case_prod_beta bump split: option.split)
qed simp

lemma lower_file_attributes:
  assumes "\<And>v. P (fst (lower_expression cx v 0))" and "\<And>body. list_all (\<lambda>kv. P (snd kv)) (fst (lower_block_body cx body 0))"
  shows "list_all (\<lambda>b. list_all (\<lambda>kv. P (snd kv)) (rb_body b)) (fst (lower_file cx ss count))"
proof (induction ss arbitrary: count)
  case (Cons s ss)
  then show ?case using assms by (cases s) (auto simp: case_prod_beta lower_block_def split: option.split)
qed simp

lemma lower_file_height:
  "list_all (\<lambda>b. list_all (\<lambda>kv. expr_height (snd kv) \<le> ll_max_attr_depth (lw_limits cx) + 3) (rb_body b))
     (fst (lower_file cx ss count))"
proof (rule lower_file_attributes)
  show "expr_height (fst (lower_expression cx v 0)) \<le> ll_max_attr_depth (lw_limits cx) + 3" for v
    using lower_height(1) [of 0 cx v] by simp
  show "list_all (\<lambda>kv. expr_height (snd kv) \<le> ll_max_attr_depth (lw_limits cx) + 3) (fst (lower_block_body cx body 0))" for body
    using structures_height [of 0 cx body] by (simp add: lower_block_body_def depth_limited_simps list_all_iff)
qed

lemma lower_file_parts:
  assumes "ll_max_template_parts (lw_limits cx) \<le> u32_max"
  shows "list_all (\<lambda>b. list_all (\<lambda>kv. template_parts_le (ll_max_template_parts (lw_limits cx)) (snd kv)) (rb_body b))
     (fst (lower_file cx ss count))"
  by (rule lower_file_attributes)
    (use assms lower_template_parts(1) structures_parts in \<open>simp_all add: lower_block_body_def depth_limited_simps\<close>)

section \<open>The properties of \<open>lower_body\<close>\<close>

text \<open>An input: \<open>name = "x"\<close> at the top, and \<open>module "net" { ports = [(80)], tag = "a-${var.zone}", opts { mode = "fast" } }\<close>.\<close>

definition lower_ex :: hbody where
  "lower_ex =
     [HAttribute ''name'' (HString (Some (7, 10)) ''x'') (Some (0, 10)),
      HBlock ''module'' (Some (11, 17)) [LabelString ''net'']
        [HAttribute ''ports'' (HArray None [HParenthesis None (HNumber None \<lparr>hn_as_i64 = Some 80, hn_as_u64 = Some 80, hn_as_f64 = Some (f64_of_int 80), hn_text = ''80''\<rparr>)]) None,
         HAttribute ''tag'' (HStringTemplate None [ElLiteral ''a-'', ElInterpolation (HTraversal None (HVariable None ''var'') [OpGetAttr ''zone''])]) None,
         HBlock ''opts'' None [] [HAttribute ''mode'' (HString None ''fast'') None] None] (Some (11, 90))]"

definition lower_ex_result :: "raw_block list \<times> diagnostic list" where
  "lower_ex_result = lower_body lower_ex (parse_path ''main.tf'') [0] loader_limits_default 90"

lemma lower_ex_no_diagnostics: "snd lower_ex_result = []"
  by (simp add: lower_ex_result_def lower_ex_def lower_body_def lower_block_def lower_block_body_def bump_count_def
      depth_limited_simps loader_limits_default_def saturate_u32_def case_prod_beta Let_def)

text \<open>C32. A body lowered without a diagnostic keeps its structure and its constants: one block per structure, in order, with
  the kind of its identifier and its labels (a loose attribute is a block of unknown kind labelled with its key), and every
  attribute keeps its key and is a literal exactly when its expression is constant, with the value the expression has: lists
  and objects of constants fold, a template with no interpolation is its string, parentheses vanish, and an unlabelled nested
  block is the map of its attributes.\<close>
theorem lower_body_constants:
  assumes "snd (lower_body body p line_index limits src_len) = []"
  shows "map (\<lambda>b. (rb_kind b, rb_labels b, map (apsnd as_literal) (rb_body b))) (fst (lower_body body p line_index limits src_len)) =
    map (\<lambda>s. case s of
        HAttribute key _ _ \<Rightarrow> (BkUnknown, [key], [structure_const s])
      | HBlock ident _ labels ss _ \<Rightarrow> (classify_block_kind ident, map label_str labels, map structure_const ss)) body"
    (is "map ?f ?bs = map ?g body")
proof -
  note d = lower_file_denotes [OF assms [unfolded lower_body_def], folded lower_body_def]
  have "map (\<lambda>(k, ls). (k, ls)) (map (\<lambda>b. (rb_kind b, rb_labels b)) ?bs) = map (\<lambda>x. (fst (?g x), fst (snd (?g x)))) body"
    using conjunct1 [OF conjunct2 [OF d]] by (simp add: comp_def hstructure.case_distrib cong: hstructure.case_cong)
  moreover have "map (\<lambda>b. map (apsnd as_literal) (rb_body b)) ?bs = map (\<lambda>x. snd (snd (?g x))) body"
    using conjunct1 [OF d] by (simp add: hstructure.case_distrib cong: hstructure.case_cong)
  ultimately show ?thesis by (auto simp: list_eq_iff_nth_eq comp_def prod_eq_iff)
qed

theorem lower_body_constants_witness:
  "snd lower_ex_result = [] \<and>
   map (\<lambda>b. (rb_kind b, rb_labels b, map (apsnd as_literal) (rb_body b))) (fst lower_ex_result) =
     [(BkUnknown, [''name''], [(''name'', Some (VStr ''x''))]),
      (BkModule, [''net''],
        [(''ports'', Some (VList [VInt 80])), (''tag'', None), (''opts'', Some (VMap [(''mode'', VStr ''fast'')]))])]"
proof -
  have "map (\<lambda>b. (rb_kind b, rb_labels b, map (apsnd as_literal) (rb_body b))) (fst lower_ex_result) =
    map (\<lambda>s. case s of
        HAttribute key _ _ \<Rightarrow> (BkUnknown, [key], [structure_const s])
      | HBlock ident _ labels ss _ \<Rightarrow> (classify_block_kind ident, map label_str labels, map structure_const ss)) lower_ex"
    unfolding lower_ex_result_def by (rule lower_body_constants [OF lower_ex_no_diagnostics [unfolded lower_ex_result_def]])
  then show ?thesis
    by (simp add: lower_ex_no_diagnostics lower_ex_def classify_block_kind_def template_const_def list_const_def map_const_def
        named_const_def entry_const_def lower_number_def)
qed

text \<open>The symbols of a body lowered without a diagnostic are the leaves of its tree.\<close>

lemma lower_body_leaves:
  assumes "snd (lower_body body p line_index limits src_len) = []"
  shows "concat (map (\<lambda>b. concat (map (\<lambda>kv. symbol_keys (snd kv)) (rb_body b))) (fst (lower_body body p line_index limits src_len)))
    = concat (map structure_leaves body)"
  using lower_file_denotes [OF assms [unfolded lower_body_def], folded lower_body_def] by simp

text \<open>C34. What the limits bound, whatever the file holds.  The blocks of the result are as many as the
  file has attributes at its top, which become blocks of their own and do not count against the limit, and blocks at its
  top, of which no more than \<open>max_blocks_per_file\<close> are kept.
  Nothing below \<open>max_attr_depth\<close> survives: a lowered attribute is at most three levels higher than that limit (the cut-off
  marker and the labels of a nested block add to it, and \<open>height_bound_reached\<close> shows that they do).  No template has more
  than \<open>max_template_parts\<close> parts.  Blocks inside blocks are not bounded in number, although \<open>limits.rs\<close>
  documents the first limit for nested blocks too (\<open>nested_blocks_uncounted\<close>).\<close>

theorem lower_body_bounded:
  assumes "ll_max_blocks_per_file limits < u32_max" and "ll_max_template_parts limits \<le> u32_max"
  shows "length (fst (lower_body body p line_index limits src_len)) =
      attribute_count body + min (block_count body) (ll_max_blocks_per_file limits) \<and>
    list_all (\<lambda>b. list_all (\<lambda>kv. expr_height (snd kv) \<le> ll_max_attr_depth limits + 3
      \<and> template_parts_le (ll_max_template_parts limits) (snd kv)) (rb_body b)) (fst (lower_body body p line_index limits src_len))"
proof -
  let ?cx = "\<lparr>lw_source = p, lw_line_index = line_index, lw_limits = limits, lw_src_len = src_len\<rparr>"
  show ?thesis
    using lower_file_length [of ?cx body 0] lower_file_height [of ?cx body 0] lower_file_parts [of ?cx body 0] assms
    by (simp add: lower_body_def list_all_iff)
qed

theorem lower_body_bounded_witness:
  "length (fst lower_ex_result) = 2 \<and>
   list_all (\<lambda>b. list_all (\<lambda>kv. expr_height (snd kv) \<le> 67 \<and> template_parts_le 1024 (snd kv)) (rb_body b)) (fst lower_ex_result)"
  using lower_body_bounded [of loader_limits_default lower_ex "parse_path ''main.tf''" "[0]" 90]
  by (simp add: lower_ex_result_def loader_limits_default_def lower_ex_def u32_max_def)

text \<open>A file with one block that holds three, under a limit of one: all four are kept, and nothing is reported.\<close>

definition nested_blocks :: hbody where
  "nested_blocks = [HBlock ''resource'' None [] (replicate 3 (HBlock ''rule'' None [] [] None)) None]"

lemma nested_blocks_uncounted:
  "lower_body nested_blocks p [0] (loader_limits_default\<lparr>ll_max_blocks_per_file := 1\<rparr>) 0 =
     ([\<lparr>rb_kind = BkResource, rb_labels = [], rb_body = replicate 3 (''rule'', Literal (VMap [])),
        rb_span = span_for \<lparr>lw_source = p, lw_line_index = [0],
          lw_limits = loader_limits_default\<lparr>ll_max_blocks_per_file := 1\<rparr>, lw_src_len = 0\<rparr> (0, 0), rb_source = p\<rparr>], [])"
  by (simp add: nested_blocks_def lower_body_def lower_block_def lower_block_body_def bump_count_def u32_max_def
      depth_limited_def loader_limits_default_def nested_attribute_map_to_expression_def object_expr_def span_or_empty_def
      classify_block_kind_def Let_def numeral_3_eq_3)

text \<open>A nested block with a label under a depth limit of zero: three levels are left.\<close>

lemma height_bound_reached:
  "map (\<lambda>b. map (\<lambda>kv. expr_height (snd kv)) (rb_body b))
     (fst (lower_body [HBlock ''resource'' None [] [HBlock ''rule'' None [LabelString ''a''] [] None] None] p [0]
        (loader_limits_default\<lparr>ll_max_attr_depth := 0\<rparr>) 0)) = [[3]]"
  by (simp add: lower_body_def lower_block_def lower_block_body_def bump_count_def u32_max_def
      depth_limited_def loader_limits_default_def nested_attribute_map_to_expression_def Let_def maximum_def)

end
