(* ===== verification/LoweringRefs.thy ===== *)
theory LoweringRefs
  imports LoweringProps
begin

text \<open>The references a file makes and the symbols its lowering leaves.\<close>

section \<open>The references of the tree\<close>

text \<open>The references of an expression in order, wherever they stand: a variable, or a variable with its attributes and
  indexes, is one reference, with the text the tree renders to and the kind that text gives it; an expression that is
  accessed or indexed, and an index, may hold more.  (A number none of the accessors reads and a template directive
  are counted too: they stay symbolic.)\<close>

fun references :: "hexpr \<Rightarrow> (symbol_kind \<times> str) list"
and element_references :: "helement \<Rightarrow> (symbol_kind \<times> str) list"
and key_references :: "hkey \<Rightarrow> (symbol_kind \<times> str) list"
and op_references :: "htraversal_op \<Rightarrow> (symbol_kind \<times> str) list" where
  "references (HNull sp) = []"
| "references (HBool sp b) = []"
| "references (HString sp s) = []"
| "references (HNumber sp n) =
     (if hn_as_i64 n = None \<and> hn_as_u64 n = None \<and> hn_as_f64 n = None then [(KOther, hn_text n)] else [])"
| "references (HStringTemplate sp els) = concat (map element_references els)"
| "references (HHeredocTemplate sp els) = concat (map element_references els)"
| "references (HArray sp es) = concat (map references es)"
| "references (HObject sp kvs) = concat (map (\<lambda>(k, v). key_references k @ references v) kvs)"
| "references (HVariable sp v) = [(KOther, v)]"
| "references (HTraversal sp e ops) =
     (case e of
        HVariable _ _ \<Rightarrow> [(symbol_kind_for (render_traversal e ops), render_traversal e ops)]
      | _ \<Rightarrow> references e) @ concat (map op_references ops)"
| "references (HFuncCall sp ns name args) = concat (map references args)"
| "references (HUnary sp op e) = references e"
| "references (HBinary sp op l r) = references l @ references r"
| "references (HConditional sp c t e) = references c @ references t @ references e"
| "references (HFor sp kb vb coll k v c) =
     references coll @ (case k of None \<Rightarrow> [] | Some k' \<Rightarrow> references k') @ references v
     @ (case c of None \<Rightarrow> [] | Some c' \<Rightarrow> references c')"
| "references (HParenthesis sp e) = references e"
| "element_references (ElInterpolation e) = references e"
| "element_references ElDirective = [(KOther, ''<template-directive>'')]"
| "element_references (ElLiteral s) = []"
| "key_references (KeyExpression e) = references e"
| "key_references (KeyIdent s) = []"
| "op_references (OpIndex e) = references e"
| "op_references (OpGetAttr s) = []"
| "op_references (OpLegacyIndex n) = []"
| "op_references OpAttrSplat = []"
| "op_references OpFullSplat = []"

fun structure_references :: "hstructure \<Rightarrow> (symbol_kind \<times> str) list" where
  "structure_references (HAttribute key v sp) = references v"
| "structure_references (HBlock ident isp labels body sp) = concat (map structure_references body)"

text \<open>Every traversal starts at a variable and has no reference in an index.\<close>

fun is_variable :: "hexpr \<Rightarrow> bool" where
  "is_variable (HVariable sp v) = True"
| "is_variable e = False"

fun plain :: "hexpr \<Rightarrow> bool"
and element_plain :: "helement \<Rightarrow> bool"
and key_plain :: "hkey \<Rightarrow> bool" where
  "plain (HStringTemplate sp els) = list_all element_plain els"
| "plain (HHeredocTemplate sp els) = list_all element_plain els"
| "plain (HArray sp es) = list_all plain es"
| "plain (HObject sp kvs) = list_all (\<lambda>(k, v). key_plain k \<and> plain v) kvs"
| "plain (HTraversal sp e ops) = (is_variable e \<and> list_all (\<lambda>op. op_references op = []) ops)"
| "plain (HFuncCall sp ns name args) = list_all plain args"
| "plain (HUnary sp op e) = plain e"
| "plain (HBinary sp op l r) = (plain l \<and> plain r)"
| "plain (HConditional sp c t e) = (plain c \<and> plain t \<and> plain e)"
| "plain (HFor sp kb vb coll k v c) =
     (plain coll \<and> (case k of None \<Rightarrow> True | Some k' \<Rightarrow> plain k') \<and> plain v
      \<and> (case c of None \<Rightarrow> True | Some c' \<Rightarrow> plain c'))"
| "plain (HParenthesis sp e) = plain e"
| "plain e = True"
| "element_plain (ElInterpolation e) = plain e"
| "element_plain el = True"
| "key_plain (KeyExpression e) = plain e"
| "key_plain (KeyIdent s) = True"

fun structure_plain :: "hstructure \<Rightarrow> bool" where
  "structure_plain (HAttribute key v sp) = plain v"
| "structure_plain (HBlock ident isp labels body sp) = list_all structure_plain body"

lemma concat_map_eq:
  "list_all P xs \<Longrightarrow> (\<And>x. x \<in> set xs \<Longrightarrow> P x \<Longrightarrow> f x = g x) \<Longrightarrow> concat (map f xs) = concat (map g xs)"
  by (metis (mono_tags, lifting) list_all_iff map_eq_conv)

lemma plain_leaves:
  "plain e \<Longrightarrow> leaves e = references e"
  "element_plain el \<Longrightarrow> element_leaves el = element_references el"
  "key_plain k \<Longrightarrow> key_leaves k = key_references k"
proof (induction e and el and k rule: plain_element_plain_key_plain.induct)
  case (1 sp els)
  show ?case unfolding leaves.simps references.simps by (rule concat_map_eq [where P = element_plain]) (use 1 in simp_all)
next
  case (2 sp els)
  show ?case unfolding leaves.simps references.simps by (rule concat_map_eq [where P = element_plain]) (use 2 in simp_all)
next
  case (3 sp es)
  show ?case unfolding leaves.simps references.simps by (rule concat_map_eq [where P = plain]) (use 3 in simp_all)
next
  case (4 sp kvs)
  show ?case unfolding leaves.simps references.simps
    by (rule concat_map_eq [where P = "\<lambda>(k, v). key_plain k \<and> plain v"]) (use 4 in auto)
next
  case (5 sp e ops)
  then have "concat (map op_references ops) = []" by (simp add: list_all_iff)
  moreover obtain vsp v where "e = HVariable vsp v" using 5 by (cases e) simp_all
  ultimately show ?case by simp
next
  case (6 sp ns name args)
  show ?case unfolding leaves.simps references.simps by (rule concat_map_eq [where P = plain]) (use 6 in simp_all)
qed (auto split: option.splits)

lemma structure_plain_leaves: "structure_plain s \<Longrightarrow> structure_leaves s = structure_references s"
proof (induction s rule: structure_plain.induct)
  case (2 ident isp labels body sp)
  show ?case unfolding structure_leaves.simps structure_references.simps
    by (rule concat_map_eq [where P = structure_plain]) (use 2 in simp_all)
qed (simp add: plain_leaves)

section \<open>The property\<close>

text \<open>C33. A body whose traversals start at variables and have no references in their indexes, lowered without a diagnostic,
  keeps every reference it makes: the symbolic leaves of the lowered attributes are, in order, the references of the tree
  with the kind their text gives them, none lost in folding and none invented.  Without the condition on traversals the
  claim of \<open>lowering.rs\<close> and of section 3.2 of \<open>specs/12-hcl-loader.md\<close> that every reference becomes unresolved does not hold
  (\<open>traversal_root_lost\<close>).\<close>

theorem lower_body_references:
  assumes "snd (lower_body body p line_index limits src_len) = []" and "list_all structure_plain body"
  shows "concat (map (\<lambda>b. concat (map (\<lambda>kv. symbol_keys (snd kv)) (rb_body b))) (fst (lower_body body p line_index limits src_len)))
    = concat (map structure_references body)"
  unfolding lower_body_leaves [OF assms(1)] by (rule concat_map_eq [OF assms(2)]) (rule structure_plain_leaves)

theorem lower_body_references_witness:
  "snd lower_ex_result = [] \<and>
   concat (map (\<lambda>b. concat (map (\<lambda>kv. symbol_keys (snd kv)) (rb_body b))) (fst lower_ex_result)) = [(KVar, ''var.zone'')]"
proof -
  have "list_all structure_plain lower_ex" by (simp add: lower_ex_def)
  then have "concat (map (\<lambda>b. concat (map (\<lambda>kv. symbol_keys (snd kv)) (rb_body b))) (fst lower_ex_result))
      = concat (map structure_references lower_ex)"
    unfolding lower_ex_result_def by (rule lower_body_references [OF lower_ex_no_diagnostics [unfolded lower_ex_result_def]])
  then show ?thesis
    by (simp add: lower_ex_no_diagnostics lower_ex_def render_traversal_def symbol_kind_for_def starts_with_def)
qed

text \<open>\<open>jsondecode(file(local.p)).key\<close>: the reference to \<open>local.p\<close> is gone, and a reference to a resource that the file does
  not make takes its place.  An index is rendered into the text of the traversal, which hides \<open>local.i\<close>.\<close>

definition decoded_key :: hexpr where
  "decoded_key = HTraversal None (HFuncCall None [] ''jsondecode''
     [HFuncCall None [] ''file'' [HTraversal None (HVariable None ''local'') [OpGetAttr ''p'']]]) [OpGetAttr ''key'']"

definition indexed_item :: hexpr where
  "indexed_item = HTraversal None (HVariable None ''aws_vpc'')
     [OpGetAttr ''v'', OpIndex (HTraversal None (HVariable None ''local'') [OpGetAttr ''i''])]"

lemma traversal_root_lost:
  "references decoded_key = [(KLocal, ''local.p'')]"
  "symbol_keys (fst (lower_expression cx decoded_key 0)) = [(KResource, ''jsondecode(...).key'')]"
  "references indexed_item = [(KResource, ''aws_vpc.v[local.i]''), (KLocal, ''local.i'')]"
  "symbol_keys (fst (lower_expression cx indexed_item 0)) = [(KResource, ''aws_vpc.v[local.i]'')]"
  by (simp_all add: decoded_key_def indexed_item_def depth_limited_simps lower_traversal_key render_traversal_def
      symbol_kind_for_def starts_with_def)

end
