(* ===== verification/ReduceArith.thy ===== *)
theory ReduceArith
  imports ReduceProps
begin

text \<open>Integer arithmetic: what the reducer computes on \<open>i64\<close> values against the integers of mathematics.\<close>

section \<open>Arithmetic expressions and their meaning\<close>

text \<open>Integer literals and references under the arithmetic operators.\<close>

datatype arith =
    ANum int
  | ARef symbolic
  | ANeg arith
  | AAdd arith arith
  | ASub arith arith
  | AMul arith arith
  | ADiv arith arith
  | AMod arith arith

fun arith_expr :: "span \<Rightarrow> arith \<Rightarrow> expr" where
  "arith_expr sp (ANum n) = Literal (VInt n)"
| "arith_expr sp (ARef s) = Unresolved s"
| "arith_expr sp (ANeg a) = EUnary Neg (arith_expr sp a) sp"
| "arith_expr sp (AAdd a b) = EBinary Add (arith_expr sp a) (arith_expr sp b) sp"
| "arith_expr sp (ASub a b) = EBinary Sub (arith_expr sp a) (arith_expr sp b) sp"
| "arith_expr sp (AMul a b) = EBinary Mul (arith_expr sp a) (arith_expr sp b) sp"
| "arith_expr sp (ADiv a b) = EBinary Div (arith_expr sp a) (arith_expr sp b) sp"
| "arith_expr sp (AMod a b) = EBinary Mod (arith_expr sp a) (arith_expr sp b) sp"

text \<open>An intermediate result that leaves the 64-bit range has no meaning, and neither has a division by zero.  Division
  truncates toward zero; the remainder is the one between zero and the absolute value of the divisor, and it has no
  meaning where the quotient is out of range.\<close>

definition fits :: "int \<Rightarrow> int option" where
  "fits i = (if - (2 ^ 63) \<le> i \<and> i < 2 ^ 63 then Some i else None)"

fun both :: "(int \<Rightarrow> int \<Rightarrow> int option) \<Rightarrow> int option \<Rightarrow> int option \<Rightarrow> int option" where
  "both f (Some m) (Some n) = f m n"
| "both f _ _ = None"

definition exact_div :: "int \<Rightarrow> int \<Rightarrow> int option" where
  "exact_div m n = (if n = 0 then None else fits (sgn m * sgn n * (\<bar>m\<bar> div \<bar>n\<bar>)))"

definition exact_mod :: "int \<Rightarrow> int \<Rightarrow> int option" where
  "exact_mod m n = (if n = 0 \<or> m = - (2 ^ 63) \<and> n = - 1 then None else Some (m mod \<bar>n\<bar>))"

definition int_of :: "value option \<Rightarrow> int option" where
  "int_of ov = (case ov of Some (VInt n) \<Rightarrow> Some n | _ \<Rightarrow> None)"

fun exact :: "scope \<Rightarrow> arith \<Rightarrow> int option" where
  "exact sc (ANum n) = Some n"
| "exact sc (ARef s) = int_of (resolve_symbol sc s)"
| "exact sc (ANeg a) = both (\<lambda>m n. fits (m - n)) (Some 0) (exact sc a)"
| "exact sc (AAdd a b) = both (\<lambda>m n. fits (m + n)) (exact sc a) (exact sc b)"
| "exact sc (ASub a b) = both (\<lambda>m n. fits (m - n)) (exact sc a) (exact sc b)"
| "exact sc (AMul a b) = both (\<lambda>m n. fits (m * n)) (exact sc a) (exact sc b)"
| "exact sc (ADiv a b) = both exact_div (exact sc a) (exact sc b)"
| "exact sc (AMod a b) = both exact_mod (exact sc a) (exact sc b)"

section \<open>The operators on integers\<close>

lemma fits_checked: "fits i = checked i"
  by (simp add: fits_def checked_def in_i64_def i64_min_def i64_max_def)

lemma trunc_div_exact: "b \<noteq> 0 \<Longrightarrow> trunc_div a b = sgn a * sgn b * (\<bar>a\<bar> div \<bar>b\<bar>)"
  by (auto simp: trunc_div_def sgn_if)

lemma both_Some: "both f x y = Some n \<longleftrightarrow> (\<exists>a b. x = Some a \<and> y = Some b \<and> f a b = Some n)"
  by (cases x; cases y) auto

lemma float_op_not_int [simp]: "float_op f v w \<noteq> Some (VInt n)" "float_div v w \<noteq> Some (VInt n)"
  by (auto simp: float_op_def float_div_def split: option.splits if_splits)

text \<open>The integer result of an operator comes from integers.\<close>

lemma eval_binary_int:
  "eval_binary Add v w = Some (Some (VInt n)) \<longleftrightarrow> (\<exists>a b. v = VInt a \<and> w = VInt b \<and> fits (a + b) = Some n)"
  "eval_binary Sub v w = Some (Some (VInt n)) \<longleftrightarrow> (\<exists>a b. v = VInt a \<and> w = VInt b \<and> fits (a - b) = Some n)"
  "eval_binary Mul v w = Some (Some (VInt n)) \<longleftrightarrow> (\<exists>a b. v = VInt a \<and> w = VInt b \<and> fits (a * b) = Some n)"
  "eval_binary Div v w = Some (Some (VInt n)) \<longleftrightarrow> (\<exists>a b. v = VInt a \<and> w = VInt b \<and> exact_div a b = Some n)"
  "eval_binary Mod v w = Some (Some (VInt n)) \<longleftrightarrow> (\<exists>a b. v = VInt a \<and> w = VInt b \<and> exact_mod a b = Some n)"
proof -
  show "eval_binary Add v w = Some (Some (VInt n)) \<longleftrightarrow> (\<exists>a b. v = VInt a \<and> w = VInt b \<and> fits (a + b) = Some n)"
    by (cases v; cases w) (auto simp: i64_checked_add_def fits_checked)
  show "eval_binary Sub v w = Some (Some (VInt n)) \<longleftrightarrow> (\<exists>a b. v = VInt a \<and> w = VInt b \<and> fits (a - b) = Some n)"
    by (cases v; cases w) (auto simp: i64_checked_sub_def fits_checked)
  show "eval_binary Mul v w = Some (Some (VInt n)) \<longleftrightarrow> (\<exists>a b. v = VInt a \<and> w = VInt b \<and> fits (a * b) = Some n)"
    by (cases v; cases w) (auto simp: i64_checked_mul_def fits_checked)
  show "eval_binary Div v w = Some (Some (VInt n)) \<longleftrightarrow> (\<exists>a b. v = VInt a \<and> w = VInt b \<and> exact_div a b = Some n)"
    by (cases v; cases w) (auto simp: i64_checked_div_def fits_checked exact_div_def trunc_div_exact split: option.splits)
  show "eval_binary Mod v w = Some (Some (VInt n)) \<longleftrightarrow> (\<exists>a b. v = VInt a \<and> w = VInt b \<and> exact_mod a b = Some n)"
    by (cases v; cases w) (auto simp: i64_rem_euclid_def exact_mod_def i64_min_def)
qed

lemma eval_unary_int: "eval_unary Neg v = Some (VInt n) \<longleftrightarrow> (\<exists>a. v = VInt a \<and> fits (- a) = Some n)"
  by (cases v) (auto simp: i64_checked_neg_def fits_checked)

lemma reduce_binary_literal:
  "reduce (EBinary op l r sp) sc = Some (Literal v) \<longleftrightarrow>
     (\<exists>a b. reduce l sc = Some (Literal a) \<and> reduce r sc = Some (Literal b) \<and> eval_binary op a b = Some (Some v))"
  by (auto simp: is_literal_iff split: option.splits if_splits)

lemma reduce_unary_literal:
  "reduce (EUnary op x sp) sc = Some (Literal v) \<longleftrightarrow> (\<exists>a. reduce x sc = Some (Literal a) \<and> eval_unary op a = Some v)"
  by (auto simp: is_literal_iff split: option.splits if_splits)

section \<open>The property\<close>

text \<open>C3. Arithmetic is exact or does not happen.  An expression of integer literals, references and the operators \<open>+\<close>,
  \<open>-\<close>, \<open>*\<close>, \<open>/\<close>, \<open>%\<close> and negation reduces to an integer just when every intermediate result, computed without
  bounds, lies in the range of \<open>i64\<close> and no divisor is zero, and then to the integer it denotes: nothing wraps
  around, nothing saturates, and an overflow or a division by zero anywhere in the expression never yields an integer.\<close>

theorem reduce_arithmetic_exact:
  "reduce (arith_expr sp a) sc = Some (Literal (VInt n)) \<longleftrightarrow> exact sc a = Some n"
proof (induction a arbitrary: n)
  case (ARef s)
  show ?case by (auto simp: int_of_def split: option.split hval.split)
qed (simp_all add: reduce_binary_literal reduce_unary_literal eval_binary_int eval_unary_int both_Some del: reduce.simps(3,4) eval_binary.simps eval_unary.simps,
    (auto; fail)+)

end
