(* ===== verification/Pipeline.thy ===== *)
theory Pipeline
  imports TgResolver GraphBuilder ProviderResolver Projection
begin

text \<open>The pipeline (\<open>pipeline.rs\<close>) and the builder in front of it (\<open>parser.rs\<close>): discovery, loading, projection,
  Terragrunt, evaluation, graph, providers.  What the run does not compute itself is the record \<open>pipeline_env\<close>.
  A panic of an evaluation is \<open>None\<close>; otherwise the result is an error or a workspace.\<close>

section \<open>Options\<close>

record pipeline_options =
  po_root :: path
  po_environment :: "str option"
  po_env_var_mode :: env_var_mode
  po_allowed_env :: "str list"
  po_repo_vars :: vmap
  po_max_walk_depth :: nat
  po_max_total_files :: nat
  po_max_file_bytes :: nat
  po_max_include_depth :: nat
  po_follow_symlinks :: bool

definition pipeline_options_new :: "path \<Rightarrow> pipeline_options" where
  "pipeline_options_new wroot =
     \<lparr>po_root = wroot, po_environment = None, po_env_var_mode = env_var_mode_default, po_allowed_env = [],
      po_repo_vars = [], po_max_walk_depth = 16, po_max_total_files = 200000, po_max_file_bytes = 4 * 1024 * 1024,
      po_max_include_depth = 32, po_follow_symlinks = False\<rparr>"

record default_pipeline =
  dp_profile_map :: "profile_map option"
  dp_default_region :: "region option"
  dp_strict_providers :: bool

definition default_pipeline_new :: default_pipeline where
  "default_pipeline_new = \<lparr>dp_profile_map = None, dp_default_region = None, dp_strict_providers = False\<rparr>"

definition with_profile_map :: "profile_map \<Rightarrow> default_pipeline \<Rightarrow> default_pipeline" where
  "with_profile_map pm p = p\<lparr>dp_profile_map := Some pm\<rparr>"

definition with_default_region :: "region \<Rightarrow> default_pipeline \<Rightarrow> default_pipeline" where
  "with_default_region r p = p\<lparr>dp_default_region := Some r\<rparr>"

definition with_strict :: "default_pipeline \<Rightarrow> default_pipeline" where
  "with_strict p = p\<lparr>dp_strict_providers := True\<rparr>"

text \<open>The parameters: the glob, regex and walk engines, the float formatters and clocks of \<open>host\<close>, the file system,
  the front end, \<open>read_terragrunt_config\<close>, and the iteration order of the hash map in the locals solver.\<close>

record ('g, 'ast) pipeline_env =
  pe_globs :: "'g glob_engine"
  pe_regexes :: regex_set
  pe_walker :: walker
  pe_host :: host
  pe_show_f64 :: "f64 \<Rightarrow> str"
  pe_disk :: workspace_disk
  pe_front_end :: "'ast front_end"
  pe_read_config :: "path option \<Rightarrow> hcl_func"
  pe_order :: "str list \<Rightarrow> str list"

section \<open>Discovery and loading\<close>

definition discovery_opts_of :: "('g, 'ast) pipeline_env \<Rightarrow> pipeline_options \<Rightarrow> discovery_options" where
  "discovery_opts_of pe opts = (discovery_defaults (pe_globs pe))
     \<lparr>do_max_depth := po_max_walk_depth opts, do_max_total_files := po_max_total_files opts,
      do_max_file_size_bytes := po_max_file_bytes opts, do_follow_symlinks := po_follow_symlinks opts\<rparr>"

text \<open>\<open>u32::try_from(\<dots>).unwrap_or(u32::MAX)\<close>.\<close>

definition loader_limits_of :: "pipeline_options \<Rightarrow> loader_limits" where
  "loader_limits_of opts = loader_limits_default\<lparr>ll_max_file_bytes := saturate_u32 (po_max_file_bytes opts)\<rparr>"

definition pipeline_root :: "workspace_disk \<Rightarrow> path \<Rightarrow> core_error + path" where
  "pipeline_root d p = map_err (CoreIo p) (fs_canonicalize d p)"

record load_acc =
  la_raws :: "(discovered_dir \<times> raw_component \<times> nat) list"
  la_sources :: source_map
  la_next :: nat
  la_diags :: "diagnostic list"

definition load_dir ::
  "('g, 'ast) pipeline_env \<Rightarrow> path \<Rightarrow> loader_limits \<Rightarrow> discovered_dir \<Rightarrow> load_acc \<Rightarrow> core_error + load_acc" where
  "load_dir pe wroot limits dir acc =
     and_then (load (pe_front_end pe) (disk.truncate (pe_disk pe)) wroot limits dir (la_sources acc))
       (\<lambda>(raw, sources). Ok
          \<lparr>la_raws = la_raws acc @ [(dir, raw, id_from_index (la_next acc))], la_sources = sources,
           la_next = la_next acc + 1, la_diags = la_diags acc @ rc_diagnostics raw\<rparr>)"

fun load_dirs ::
  "('g, 'ast) pipeline_env \<Rightarrow> path \<Rightarrow> loader_limits \<Rightarrow> discovered_dir list \<Rightarrow> load_acc \<Rightarrow> core_error + load_acc" where
  "load_dirs pe wroot limits [] acc = Ok acc"
| "load_dirs pe wroot limits (dir # dirs) acc =
     and_then (load_dir pe wroot limits dir acc) (load_dirs pe wroot limits dirs)"

text \<open>Modules first, then components; the ids run on.\<close>

record loaded =
  ld_modules :: "(discovered_dir \<times> raw_component \<times> nat) list"
  ld_components :: "(discovered_dir \<times> raw_component \<times> nat) list"
  ld_diags :: "diagnostic list"

definition load_workspace ::
  "('g, 'ast) pipeline_env \<Rightarrow> pipeline_options \<Rightarrow> discovered \<Rightarrow> core_error + loaded" where
  "load_workspace pe opts disc =
     (let limits = loader_limits_of opts in
      and_then (load_dirs pe (dc_root disc) limits (dc_modules disc)
        \<lparr>la_raws = [], la_sources = source_map_new, la_next = 0, la_diags = dc_diagnostics disc\<rparr>) (\<lambda>ms.
      and_then (load_dirs pe (dc_root disc) limits (dc_components disc) (ms\<lparr>la_raws := []\<rparr>)) (\<lambda>cs.
      Ok \<lparr>ld_modules = la_raws ms, ld_components = la_raws cs, ld_diags = la_diags cs\<rparr>)))"

section \<open>Projection and Terragrunt\<close>

definition project_dirs ::
  "(discovered_dir \<times> raw_component \<times> nat) list \<Rightarrow> diagnostic list \<Rightarrow> (discovered_dir \<times> component) list \<times> diagnostic list" where
  "project_dirs raws diags =
     fold (\<lambda>(dir, raw, cid) (out, ds). case project_component raw cid of (c, d) \<Rightarrow> (out @ [(dir, c)], ds @ d))
       raws ([], diags)"

definition is_terragrunt_component :: "workspace_disk \<Rightarrow> path \<Rightarrow> bool" where
  "is_terragrunt_component d dir = fs_is_file d (path_join dir (parse_path ''terragrunt.hcl''))"

definition tg_env_of :: "('g, 'ast) pipeline_env \<Rightarrow> pipeline_options \<Rightarrow> path \<Rightarrow> 'ast tg_env" where
  "tg_env_of pe opts croot =
     \<lparr>te_host = pe_host pe, te_show_f64 = pe_show_f64 pe, te_disk = pe_disk pe, te_front_end = pe_front_end pe,
      te_ctx = (tg_context_new croot)\<lparr>tc_environment := po_environment opts,
        tc_env_var_mode := po_env_var_mode opts, tc_allowed_env := po_allowed_env opts,
        tc_max_include_depth := po_max_include_depth opts\<rparr>,
      te_read_config = pe_read_config pe\<rparr>"

text \<open>The resolver of the pipeline has no error of its own (\<open>tg_resolve\<close> reports everything in the configuration),
  so the \<open>TG2001\<close> arm is not reached.\<close>

definition terragrunt_dir ::
  "('g, 'ast) pipeline_env \<Rightarrow> pipeline_options \<Rightarrow> path \<Rightarrow> discovered_dir \<times> component \<Rightarrow>
   ((discovered_dir \<times> component) \<times> diagnostic list) option" where
  "terragrunt_dir pe opts croot = (\<lambda>(dir, c).
     let abs_dir = path_join croot (dd_path dir) in
     if \<not> is_terragrunt_component (pe_disk pe) abs_dir then Some ((dir, c), [])
     else map_option (\<lambda>cfg. ((dir, c\<lparr>comp_terragrunt := Some cfg\<rparr>), tgc_diagnostics cfg))
            (tg_resolve (tg_env_of pe opts croot) abs_dir))"

section \<open>Evaluation\<close>

definition pipeline_eval_context ::
  "('g, 'ast) pipeline_env \<Rightarrow> pipeline_options \<Rightarrow> path \<Rightarrow> vmap \<Rightarrow> vmap \<Rightarrow> eval_context" where
  "pipeline_eval_context pe opts croot repo_vars cascade =
     \<lparr>ec_workspace_root = croot, ec_environment = po_environment opts, ec_env_vars = po_env_var_mode opts,
      ec_repo_vars = repo_vars, ec_cascade_locals = cascade,
      ec_funcs = default_with_stdlib (pe_host pe) (disk.truncate (pe_disk pe)), ec_limits = eval_limits_default\<rparr>"

definition evaluate_module ::
  "('g, 'ast) pipeline_env \<Rightarrow> pipeline_options \<Rightarrow> path \<Rightarrow> discovered_dir \<times> component \<Rightarrow> evaluated_component option" where
  "evaluate_module pe opts croot = (\<lambda>(dir, c).
     evaluate (h_ryu (pe_host pe)) (pe_order pe) c (pipeline_eval_context pe opts croot (po_repo_vars opts) []))"

definition register_modules :: "path \<Rightarrow> (discovered_dir \<times> component) list \<Rightarrow> evaluated_component list \<Rightarrow> module_registry" where
  "register_modules croot dirs evs =
     fold (\<lambda>((dir, c), ev) reg. insert_local reg (path_join croot (dd_path dir)) ev) (zip dirs evs) registry_new"

text \<open>Terragrunt's inputs feed \<open>var.*\<close> below the variables of the caller.\<close>

definition component_repo_vars :: "pipeline_options \<Rightarrow> component \<Rightarrow> vmap" where
  "component_repo_vars opts c =
     override_all (case comp_terragrunt c of None \<Rightarrow> [] | Some cfg \<Rightarrow> tgc_inputs cfg) (po_repo_vars opts)"

definition component_cascade :: "component \<Rightarrow> vmap" where
  "component_cascade c = (case comp_terragrunt c of None \<Rightarrow> [] | Some cfg \<Rightarrow> tgc_effective_locals cfg)"

definition evaluate_component ::
  "('g, 'ast) pipeline_env \<Rightarrow> pipeline_options \<Rightarrow> path \<Rightarrow> discovered_dir \<times> component \<Rightarrow> evaluated_component option" where
  "evaluate_component pe opts croot = (\<lambda>(dir, c).
     evaluate (h_ryu (pe_host pe)) (pe_order pe) c
       (pipeline_eval_context pe opts croot (component_repo_vars opts c) (component_cascade c)))"

section \<open>The run\<close>

definition pipeline_provider_context :: "default_pipeline \<Rightarrow> provider_context" where
  "pipeline_provider_context dp =
     (provider_context_new (case dp_profile_map dp of None \<Rightarrow> profile_empty | Some pm \<Rightarrow> pm))
       \<lparr>pc_default_region := dp_default_region dp, pc_strict := dp_strict_providers dp\<rparr>"

text \<open>The last two steps: the graph, with the diagnostics so far after its own, and the providers.\<close>

definition assemble ::
  "('g, 'ast) pipeline_env \<Rightarrow> default_pipeline \<Rightarrow> path \<Rightarrow> module_registry \<Rightarrow> evaluated_component list \<Rightarrow> diagnostic list \<Rightarrow>
   core_error + workspace" where
  "assemble pe dp croot reg evals diagnostics =
     (let ws = build evals reg (graph_context_new croot) (file_system.truncate (pe_disk pe))
      in case resolve (pipeline_provider_context dp) (ws\<lparr>ws_diagnostics := ws_diagnostics ws @ diagnostics\<rparr>) of
           (_, Inl e) \<Rightarrow> Err (CoreProvider e)
         | (ws', Inr _) \<Rightarrow> Ok ws')"

definition run_loaded ::
  "('g, 'ast) pipeline_env \<Rightarrow> default_pipeline \<Rightarrow> pipeline_options \<Rightarrow> path \<Rightarrow> loaded \<Rightarrow> (core_error + workspace) option" where
  "run_loaded pe dp opts croot ld = do {
     let (modules, ds1) = project_dirs (ld_modules ld) (ld_diags ld);
     let (projected, ds2) = project_dirs (ld_components ld) ds1;
     resolved \<leftarrow> map_option_list (terragrunt_dir pe opts croot) projected;
     module_evals \<leftarrow> map_option_list (evaluate_module pe opts croot) modules;
     component_evals \<leftarrow> map_option_list (evaluate_component pe opts croot) (map fst resolved);
     Some (assemble pe dp croot (register_modules croot modules module_evals) (module_evals @ component_evals)
       (ds2 @ concat (map snd resolved) @ concat (map ev_diagnostics module_evals)
        @ concat (map ev_diagnostics component_evals)))
   }"

definition run ::
  "('g, 'ast) pipeline_env \<Rightarrow> default_pipeline \<Rightarrow> pipeline_options \<Rightarrow> (core_error + workspace) option" where
  "run pe dp opts =
     (case pipeline_root (pe_disk pe) (po_root opts) of
        Inl e \<Rightarrow> Some (Err e)
      | Inr croot \<Rightarrow>
     (case discover (pe_regexes pe) (pe_walker pe) (pe_disk pe) croot (discovery_opts_of pe opts) of
        Inl e \<Rightarrow> Some (Err e)
      | Inr disc \<Rightarrow>
     (case load_workspace pe opts disc of
        Inl e \<Rightarrow> Some (Err e)
      | Inr ld \<Rightarrow> run_loaded pe dp opts croot ld)))"

section \<open>The builder (\<open>parser.rs\<close>)\<close>

record parser_builder =
  pb_workspace_root :: "path option"
  pb_environment :: "str option"
  pb_env_var_mode :: "env_var_mode option"
  pb_allowed_env :: "str list"
  pb_repo_vars :: vmap
  pb_max_walk_depth :: "nat option"
  pb_max_total_files :: "nat option"
  pb_max_file_bytes :: "nat option"
  pb_max_include_depth :: "nat option"
  pb_follow_symlinks :: "bool option"
  pb_profile_map :: "profile_map option"
  pb_default_region :: "region option"
  pb_strict_providers :: bool

definition builder_default :: parser_builder where
  "builder_default =
     \<lparr>pb_workspace_root = None, pb_environment = None, pb_env_var_mode = None, pb_allowed_env = [], pb_repo_vars = [],
      pb_max_walk_depth = None, pb_max_total_files = None, pb_max_file_bytes = None, pb_max_include_depth = None,
      pb_follow_symlinks = None, pb_profile_map = None, pb_default_region = None, pb_strict_providers = False\<rparr>"

text \<open>The set of names as a strictly sorted list.\<close>

definition allow_env :: "str \<Rightarrow> parser_builder \<Rightarrow> parser_builder" where
  "allow_env name b = b\<lparr>pb_allowed_env := List.insort name (removeAll name (pb_allowed_env b))\<rparr>"

definition allow_env_many :: "str list \<Rightarrow> parser_builder \<Rightarrow> parser_builder" where
  "allow_env_many names b = fold allow_env names b"

definition builder_var :: "str \<Rightarrow> str \<Rightarrow> parser_builder \<Rightarrow> parser_builder" where
  "builder_var key val b = b\<lparr>pb_repo_vars := override_or_push (pb_repo_vars b) key (VStr val)\<rparr>"

definition builder_default_region :: "str \<Rightarrow> parser_builder \<Rightarrow> core_error + parser_builder" where
  "builder_default_region name b =
     and_then (map_err CoreValidation (region_new name)) (\<lambda>r. Ok (b\<lparr>pb_default_region := Some r\<rparr>))"

record parser =
  pr_options :: pipeline_options
  pr_profile_map :: "profile_map option"
  pr_default_region :: "region option"
  pr_strict_providers :: bool

text \<open>\<open>if let Some(x) = b.field { opts.field = x }\<close>.\<close>

definition given_or :: "'a \<Rightarrow> 'a option \<Rightarrow> 'a" where
  "given_or dflt x = (case x of None \<Rightarrow> dflt | Some y \<Rightarrow> y)"

definition builder_options :: "parser_builder \<Rightarrow> path \<Rightarrow> pipeline_options" where
  "builder_options b wroot =
     (let opts = pipeline_options_new wroot in
      \<lparr>po_root = wroot,
       po_environment = (case pb_environment b of None \<Rightarrow> po_environment opts | Some e \<Rightarrow> Some e),
       po_env_var_mode = given_or (po_env_var_mode opts) (pb_env_var_mode b),
       po_allowed_env = (if pb_allowed_env b \<noteq> [] then pb_allowed_env b else po_allowed_env opts),
       po_repo_vars = (if pb_repo_vars b \<noteq> [] then pb_repo_vars b else po_repo_vars opts),
       po_max_walk_depth = given_or (po_max_walk_depth opts) (pb_max_walk_depth b),
       po_max_total_files = given_or (po_max_total_files opts) (pb_max_total_files b),
       po_max_file_bytes = given_or (po_max_file_bytes opts) (pb_max_file_bytes b),
       po_max_include_depth = given_or (po_max_include_depth opts) (pb_max_include_depth b),
       po_follow_symlinks = given_or (po_follow_symlinks opts) (pb_follow_symlinks b)\<rparr>)"

definition builder_build :: "parser_builder \<Rightarrow> core_error + parser" where
  "builder_build b =
     (case pb_workspace_root b of
        None \<Rightarrow> Err (CoreValidation (MissingField ''workspace_root''))
      | Some wroot \<Rightarrow> Ok
          \<lparr>pr_options = builder_options b wroot, pr_profile_map = pb_profile_map b,
           pr_default_region = pb_default_region b, pr_strict_providers = pb_strict_providers b\<rparr>)"

definition build_pipeline :: "parser \<Rightarrow> default_pipeline" where
  "build_pipeline p =
     (let dp = default_pipeline_new;
          dp = (case pr_profile_map p of None \<Rightarrow> dp | Some pm \<Rightarrow> with_profile_map pm dp);
          dp = (case pr_default_region p of None \<Rightarrow> dp | Some r \<Rightarrow> with_default_region r dp)
      in if pr_strict_providers p then with_strict dp else dp)"

definition parser_parse :: "('g, 'ast) pipeline_env \<Rightarrow> parser \<Rightarrow> (core_error + workspace) option" where
  "parser_parse pe p = run pe (build_pipeline p) (pr_options p)"

end
