(* ===== verification/ModFree.thy ===== *)
theory ModFree
  imports Pipeline ComponentProps
begin

text \<open>From the parsed files to the reducer: the expressions a run reduces are those of the blocks, so a workspace whose
  files do not use the operator \<open>%\<close> (the only panic of the reducer) is projected, resolved and evaluated without a panic.\<close>

definition block_mod_free :: "raw_block \<Rightarrow> bool" where
  "block_mod_free b \<longleftrightarrow> attrs_mod_free (rb_body b)"

definition disk_mod_free :: "'ast front_end \<Rightarrow> (path \<Rightarrow> 'e + str) \<Rightarrow> bool" where
  "disk_mod_free fe read \<longleftrightarrow>
     (\<forall>q bytes src ast p lines limits n. read q = Ok bytes \<longrightarrow> from_utf8 bytes = Ok src \<longrightarrow> fe_parse_body fe src = Ok ast
        \<longrightarrow> list_all block_mod_free (fst (fe_lower_body fe ast p lines limits n)))"

lemma disk_mod_freeD:
  assumes "disk_mod_free fe read" "read q = Ok bytes" "from_utf8 bytes = Ok src" "fe_parse_body fe src = Ok ast"
    "fe_lower_body fe ast p lines limits n = (blocks, ds)"
  shows "list_all block_mod_free blocks"
  using assms by (metis disk_mod_free_def fst_conv)

lemma opt_mod_free_simps [simp]: "opt_mod_free None" "opt_mod_free (Some e) = mod_free e"
  by (simp_all add: opt_mod_free_def)

lemma attrs_mod_free_simps [simp]:
  "attrs_mod_free []" "attrs_mod_free ((k, e) # as) \<longleftrightarrow> mod_free e \<and> attrs_mod_free as"
  "attrs_mod_free (as @ bs) \<longleftrightarrow> attrs_mod_free as \<and> attrs_mod_free bs"
  by (simp_all add: attrs_mod_free_def)

lemma attrs_mod_free_member: "attrs_mod_free as \<Longrightarrow> kv \<in> set as \<Longrightarrow> mod_free (snd kv)"
  by (auto simp: attrs_mod_free_def list_all_iff)

lemma parse_bytes_mod_free:
  "disk_mod_free fe read \<Longrightarrow> read q = Ok bytes \<Longrightarrow> list_all block_mod_free (pr_blocks (parse_bytes fe bytes p limits))"
  by (auto simp: parse_bytes_def dest: disk_mod_freeD split: sum.split prod.split)

text \<open>A fold over attributes without \<open>%\<close> keeps an invariant that each step keeps.\<close>

lemma fold_attrs:
  assumes "attrs_mod_free as" and "P s" and "\<And>kv s. mod_free (snd kv) \<Longrightarrow> P s \<Longrightarrow> P (f kv s)"
  shows "P (fold f as s)"
  by (rule fold_invariant [where Q = "\<lambda>kv. mod_free (snd kv)"]) (use assms attrs_mod_free_member in blast)+

section \<open>Projection\<close>

definition resource_acc_free :: "resource_acc \<Rightarrow> bool" where
  "resource_acc_free acc \<longleftrightarrow> opt_mod_free (ra_count acc) \<and> opt_mod_free (ra_for_each acc) \<and> attrs_mod_free (ra_attributes acc)"

definition provider_acc_free :: "provider_acc \<Rightarrow> bool" where
  "provider_acc_free acc \<longleftrightarrow> opt_mod_free (pa_region acc) \<and> opt_mod_free (pa_profile acc) \<and> attrs_mod_free (pa_raw acc)"

definition module_acc_free :: "module_acc \<Rightarrow> bool" where
  "module_acc_free acc \<longleftrightarrow> opt_mod_free (ma_count acc) \<and> opt_mod_free (ma_for_each acc) \<and> attrs_mod_free (ma_inputs acc)"

lemma attr_steps_mod_free:
  "mod_free (snd kv) \<Longrightarrow> resource_acc_free ra \<Longrightarrow> resource_acc_free (resource_attr addr src kv ra)"
  "mod_free (snd kv) \<Longrightarrow> opt_mod_free (var_default v) \<Longrightarrow> opt_mod_free (var_default (variable_attr kv v))"
  "mod_free (snd kv) \<Longrightarrow> opt_mod_free (oa_value oa) \<Longrightarrow> opt_mod_free (oa_value (output_attr kv oa))"
    apply (cases kv; simp add: resource_attr_def resource_acc_free_def)
   apply (cases kv; simp add: variable_attr_def split: expr.split hval.split)
  apply (cases kv; simp add: output_attr_def split: expr.split hval.split)
  done

lemma provider_attr_mod_free:
  assumes "mod_free (snd kv)" "provider_acc_free pa"
  shows "provider_acc_free (provider_attr kv pa)"
proof -
  obtain key v where kv: "kv = (key, v)" by (cases kv)
  consider "key = ''alias''" | "key \<noteq> ''alias''" by blast
  then show ?thesis
  proof cases
    case 1
    with assms show ?thesis by (cases v; simp add: kv provider_attr_def provider_acc_free_def Let_def split: hval.split)
  next
    case 2
    with assms show ?thesis by (simp add: kv provider_attr_def provider_acc_free_def Let_def)
  qed
qed

lemma module_attr_mod_free:
  assumes "mod_free (snd kv)" "module_acc_free ma"
  shows "module_acc_free (module_attr kv ma)"
proof -
  obtain key v where kv: "kv = (key, v)" by (cases kv)
  consider "key = ''source''" | "key \<noteq> ''source''" by blast
  then show ?thesis
  proof cases
    case 1
    with assms show ?thesis by (simp add: kv module_attr_def module_acc_free_def split: expr.split hval.split)
  next
    case 2
    with assms show ?thesis by (simp add: kv module_attr_def module_acc_free_def)
  qed
qed

lemma attr_folds_mod_free:
  assumes "attrs_mod_free as"
  shows "resource_acc_free (fold (resource_attr addr src) as resource_acc_new)"
    "provider_acc_free (fold provider_attr as \<lparr>pa_alias = None, pa_region = None, pa_profile = None, pa_raw = []\<rparr>)"
    "module_acc_free (fold module_attr as \<lparr>ma_source = [], ma_inputs = [], ma_count = None, ma_for_each = None, ma_providers = []\<rparr>)"
    "opt_mod_free (var_default v) \<Longrightarrow> opt_mod_free (var_default (fold variable_attr as v))"
    "opt_mod_free (oa_value oa) \<Longrightarrow> opt_mod_free (oa_value (fold output_attr as oa))"
proof -
  show "resource_acc_free (fold (resource_attr addr src) as resource_acc_new)"
    by (rule fold_attrs [where P = resource_acc_free, OF assms _ attr_steps_mod_free(1)])
      (simp add: resource_acc_free_def resource_acc_new_def)
  show "provider_acc_free (fold provider_attr as \<lparr>pa_alias = None, pa_region = None, pa_profile = None, pa_raw = []\<rparr>)"
    by (rule fold_attrs [where P = provider_acc_free, OF assms _ provider_attr_mod_free]) (simp add: provider_acc_free_def)
  show "module_acc_free (fold module_attr as \<lparr>ma_source = [], ma_inputs = [], ma_count = None, ma_for_each = None, ma_providers = []\<rparr>)"
    by (rule fold_attrs [where P = module_acc_free, OF assms _ module_attr_mod_free]) (simp add: module_acc_free_def)
  show "opt_mod_free (var_default v) \<Longrightarrow> opt_mod_free (var_default (fold variable_attr as v))"
    by (rule fold_attrs [where P = "\<lambda>v. opt_mod_free (var_default v)", OF assms _ attr_steps_mod_free(2)])
  show "opt_mod_free (oa_value oa) \<Longrightarrow> opt_mod_free (oa_value (fold output_attr as oa))"
    by (rule fold_attrs [where P = "\<lambda>oa. opt_mod_free (oa_value oa)", OF assms _ attr_steps_mod_free(3)])
qed

lemma block_locals_mod_free:
  "attrs_mod_free as \<Longrightarrow> list_all (\<lambda>l. mod_free (loc_value l)) (map (\<lambda>(k, v). \<lparr>loc_name = k, loc_value = v, loc_span = sp\<rparr>) as)"
  by (auto simp: attrs_mod_free_def list_all_iff)

lemma list_all_push_projected [simp]: "list_all P (push_projected xs r) \<longleftrightarrow> list_all P xs \<and> (case r of None \<Rightarrow> True | Some x \<Rightarrow> P x)"
  by (auto simp: push_projected_def split: option.split)

lemma project_block_mod_free:
  assumes "block_mod_free b" and "component_mod_free (fst st)"
  shows "component_mod_free (fst (project_block b st))"
proof -
  note body = assms(1) [unfolded block_mod_free_def]
  have "case fst (project_resource b) of None \<Rightarrow> True
      | Some r \<Rightarrow> opt_mod_free (res_count_expr r) \<and> opt_mod_free (res_for_each_expr r) \<and> attrs_mod_free (res_attributes r)"
    using attr_folds_mod_free(1) [OF body]
    by (auto simp: resource_acc_free_def project_resource_def Let_def split: option.splits sum.splits)
  moreover have "case fst (project_provider b) of None \<Rightarrow> True
      | Some p \<Rightarrow> opt_mod_free (prov_region_expr p) \<and> opt_mod_free (prov_profile_expr p) \<and> attrs_mod_free (prov_raw p)"
    using attr_folds_mod_free(2) [OF body]
    by (auto simp: provider_acc_free_def project_provider_def Let_def split: list.splits)
  moreover have "case fst (project_module_call b) of None \<Rightarrow> True
      | Some m \<Rightarrow> opt_mod_free (mc_count_expr m) \<and> opt_mod_free (mc_for_each_expr m) \<and> attrs_mod_free (mc_inputs m)"
    using attr_folds_mod_free(3) [OF body]
    by (auto simp: module_acc_free_def project_module_call_def Let_def split: list.splits sum.splits)
  moreover have "case project_variable b of None \<Rightarrow> True | Some v \<Rightarrow> opt_mod_free (var_default v)"
    using attr_folds_mod_free(4) [OF body] by (auto simp: project_variable_def split: list.splits)
  moreover have "case project_output b of None \<Rightarrow> True | Some out \<Rightarrow> mod_free (out_value out)"
    using attr_folds_mod_free(5) [OF body, of "\<lparr>oa_value = None, oa_description = None, oa_sensitive = False\<rparr>"]
    by (auto simp: project_output_def Let_def split: list.splits option.splits)
  moreover have "list_all (\<lambda>l. mod_free (loc_value l)) (project_locals b)"
    unfolding project_locals_def by (rule block_locals_mod_free [OF body])
  ultimately show ?thesis using assms(2)
    by (auto simp: project_block_def Let_def component_mod_free_def split: prod.splits)
qed

lemma project_component_mod_free:
  assumes "list_all block_mod_free (rc_blocks raw)"
  shows "component_mod_free (fst (project_component raw cid))"
  unfolding project_component_def
  by (rule fold_invariant [where Q = block_mod_free and P = "\<lambda>st. component_mod_free (fst st)"])
    (use assms in \<open>auto simp: list_all_iff project_block_mod_free\<close>, simp add: component_new_def component_mod_free_def)

section \<open>Terragrunt files and the cascade\<close>

definition parsed_mod_free :: "parsed_terragrunt \<Rightarrow> bool" where
  "parsed_mod_free p \<longleftrightarrow>
     list_all (\<lambda>l. mod_free (loc_value l)) (pt_locals p) \<and>
     (case pt_inputs p of None \<Rightarrow> True | Some attrs \<Rightarrow> attrs_mod_free attrs) \<and>
     list_all (\<lambda>inc. opt_mod_free (ir_path_expr inc)) (pt_includes p) \<and>
     list_all (\<lambda>g. attrs_mod_free (lr_attrs g)) (pt_generates p) \<and>
     list_all (\<lambda>g. attrs_mod_free (lr_attrs g)) (pt_dependencies p)"

lemma object_to_attribute_map_mod_free: "mod_free v \<Longrightarrow> attrs_mod_free (object_to_attribute_map v)"
  by (cases v rule: object_to_attribute_map.cases)
    (auto simp: attrs_mod_free_def list_all_iff List.map_filter_def split: expr.splits hval.splits)

lemma project_include_mod_free: "attrs_mod_free (rb_body b) \<Longrightarrow> opt_mod_free (ir_path_expr (project_include b))"
  unfolding project_include_def
  by (rule fold_attrs [where P = "\<lambda>inc. opt_mod_free (ir_path_expr inc)"]) (auto simp: include_attr_def)

lemma project_tg_block_mod_free:
  assumes "block_mod_free b" "parsed_mod_free p"
  shows "parsed_mod_free (project_tg_block b p)"
proof -
  note body = assms(1) [unfolded block_mod_free_def]
  have unknown: "parsed_mod_free (project_unknown b p)"
    using body assms(2)
    by (auto simp: project_unknown_def parsed_mod_free_def object_to_attribute_map_mod_free split: list.splits)
  show ?thesis
    using assms(2) body block_locals_mod_free [OF body] project_include_mod_free [OF body] unknown
    by (simp add: project_tg_block_def parsed_mod_free_def block_locals_def project_labelled_def split: block_kind.split)
qed

lemma project_terragrunt_mod_free: "list_all block_mod_free (pr_blocks pr) \<Longrightarrow> parsed_mod_free (project_terragrunt pr)"
  unfolding project_terragrunt_def
  by (rule fold_invariant [where Q = block_mod_free and P = parsed_mod_free])
    (auto simp: list_all_iff project_tg_block_mod_free, simp add: parsed_default_def parsed_mod_free_def)

lemma read_and_project_mod_free:
  "disk_mod_free (te_front_end env) (fs_read (te_disk env)) \<Longrightarrow> read_and_project env p = Some parsed \<Longrightarrow> parsed_mod_free parsed"
  by (auto simp: read_and_project_def project_terragrunt_mod_free parse_bytes_mod_free split: sum.splits)

lemma list_all_replace_or_push: "P x \<Longrightarrow> list_all P ys \<Longrightarrow> list_all P (replace_or_push key x ys)"
  by (induction ys) auto

lemma fold_replace_or_push: "list_all P xs \<Longrightarrow> list_all P ys \<Longrightarrow> list_all P (fold (replace_or_push key) xs ys)"
  by (induction xs arbitrary: ys) (simp_all add: list_all_replace_or_push)

lemma cascade_step_mod_free:
  assumes "parsed_mod_free (ce_parsed entry)" "parsed_mod_free acc"
  shows "parsed_mod_free (cascade_step entry acc)"
proof -
  let ?free = "list_all (\<lambda>l :: local_def. mod_free (loc_value l))"
  have lits: "?free (fold (\<lambda>(k, v). replace_or_push loc_name \<lparr>loc_name = k, loc_value = Literal v, loc_span = span_synthetic\<rparr>) m ls)"
    if "?free ls" for m :: vmap and ls
    using that by (induction m arbitrary: ls) (auto simp: list_all_replace_or_push)
  have keep: "?free (non_literals ls)" if "?free ls" for ls
    using that by (auto simp: non_literals_def list_all_iff)
  show ?thesis
    using assms
    by (auto simp: cascade_step_def Let_def parsed_mod_free_def map_to_locals_with_inherited_def or_else_def
        intro!: lits fold_replace_or_push keep split: option.splits)
qed

definition chain_mod_free :: "chain_entry list \<Rightarrow> bool" where
  "chain_mod_free chain = list_all (\<lambda>e. parsed_mod_free (ce_parsed e)) chain"

lemma apply_cascade_mod_free: "chain_mod_free chain \<Longrightarrow> parsed_mod_free (apply_cascade chain)"
  unfolding apply_cascade_def chain_mod_free_def
  by (rule fold_invariant [where Q = "\<lambda>e. parsed_mod_free (ce_parsed e)" and P = parsed_mod_free])
    (auto simp: list_all_iff cascade_step_mod_free, simp add: parsed_default_def parsed_mod_free_def)

section \<open>The resolver does not panic\<close>

lemma open_include_read:
  "open_include env dir inc st = Some (Inr (p, parent, st')) \<Longrightarrow> \<exists>q. read_and_project env q = Some parent"
  by (auto simp: open_include_def Let_def split: option.splits Option.bind_splits sum.splits if_splits)

lemma open_include_total:
  assumes "disk_mod_free (te_front_end env) (fs_read (te_disk env))" "opt_mod_free (ir_path_expr inc)"
  obtains st' where "open_include env dir inc st = Some (Inl st')"
  | p parent st' where "open_include env dir inc st = Some (Inr (p, parent, st'))" "parsed_mod_free parent"
proof (cases "ir_path_expr inc")
  case None
  then show ?thesis using that(1) by (simp add: open_include_def)
next
  case (Some e)
  obtain pv where "reduce_to_string env (chain_funcs env dir st) e = Some pv"
    using assms(2) reduce_total_aux [of e "tg_scope env (chain_funcs env dir st) []"] by (auto simp: Some reduce_to_string_def)
  then obtain res where res: "open_include env dir inc st = Some res"
    by (simp add: open_include_def Some)
  have par: "\<exists>q. read_and_project env q = Some parent" if "res = Inr (p, parent, st')" for p parent st'
    using res unfolding that by (rule open_include_read)
  show ?thesis
  proof (cases res)
    case (Inr x)
    then show ?thesis using that(2) res par read_and_project_mod_free [OF assms(1)] by (cases x) blast
  qed (use that(1) res in blast)
qed

lemma resolve_chain_total:
  assumes "disk_mod_free (te_front_end env) (fs_read (te_disk env))"
  shows "parsed_mod_free child \<Longrightarrow> \<exists>chain st'. resolve_include_chain env dir left child cp st = Some (chain, st') \<and> chain_mod_free chain"
    and "list_all (\<lambda>inc. opt_mod_free (ir_path_expr inc)) incs \<Longrightarrow>
      \<exists>chain st'. resolve_includes env dir left incs st = Some (chain, st') \<and> chain_mod_free chain"
  using assms
proof (induction env dir left child cp st and env dir left incs st rule: resolve_include_chain_resolve_includes.induct)
  case (2 env dir left child child_path st)
  then have "list_all (\<lambda>inc. opt_mod_free (ir_path_expr inc)) (pt_includes child)" by (simp add: parsed_mod_free_def)
  with 2 show ?case by (fastforce simp: chain_mod_free_def tail_entry_def)
next
  case (4 env dir left inc incs st)
  then have inc: "opt_mod_free (ir_path_expr inc)" and incs: "list_all (\<lambda>inc. opt_mod_free (ir_path_expr inc)) incs"
    and fe: "disk_mod_free (te_front_end env) (fs_read (te_disk env))" by simp_all
  show ?case
  proof (rule open_include_total [OF fe inc, of dir st])
    fix st' assume "open_include env dir inc st = Some (Inl st')"
    with "4.IH"(1) [OF this _ incs fe] show ?thesis by simp
  next
    fix p parent st1 assume o: "open_include env dir inc st = Some (Inr (p, parent, st1))" and par: "parsed_mod_free parent"
    obtain sub st2 where sub: "resolve_include_chain env dir left parent p st1 = Some (sub, st2)" "chain_mod_free sub"
      using "4.IH"(2) [OF o refl refl refl par fe] by blast
    obtain rest st3 where "resolve_includes env dir left incs st2 = Some (rest, st3)" "chain_mod_free rest"
      using "4.IH"(3) [OF o refl refl refl sub(1) refl incs fe] by blast
    with o sub par show ?thesis by (simp add: chain_mod_free_def include_entry_def)
  qed
qed (simp_all add: chain_mod_free_def tail_entry_def)

lemma tg_pass_total:
  assumes "list_all (\<lambda>l. total_from (tg_scope env funcs resolved) (loc_value l)) ls"
  shows "\<exists>rs ps pr. tg_pass (tg_scope env funcs) ls resolved = Some (rs, ps, pr)
    \<and> list_all (\<lambda>l. total_from (tg_scope env funcs rs) (loc_value l)) ps \<and> scope_le (tg_scope env funcs resolved) (tg_scope env funcs rs)"
  using assms
proof (induction ls arbitrary: resolved)
  case Nil
  show ?case by (intro exI [of _ resolved] exI [of _ "[]"] exI [of _ False]) simp
next
  case (Cons l ls)
  let ?sc = "tg_scope env funcs"
  from Cons.prems have t: "total_from (?sc resolved) (loc_value l)" by simp
  then obtain r where r: "reduce (loc_value l) (?sc resolved) = Some r" by (auto simp: total_from_def dest: spec [of _ "?sc resolved"])
  have tr: "total_from (?sc resolved) r" by (rule total_from_reduce [OF t r])
  show ?case
  proof (cases "as_literal r")
    case None
    with Cons.IH [of resolved] Cons.prems tr r show ?thesis by (auto intro: total_from_mono)
  next
    case (Some v)
    have le: "scope_le (?sc resolved) (?sc (resolved @ [(loc_name l, v)]))"
      using scope_le_push [of "?sc resolved" "[(loc_name l, v)]"] by (simp add: push_locals_def tg_scope_def)
    have "list_all (\<lambda>x. total_from (?sc (resolved @ [(loc_name l, v)])) (loc_value x)) ls"
      using Cons.prems total_from_mono [OF _ le] by (simp add: list_all_iff)
    from Cons.IH [OF this] le r Some show ?thesis by (auto intro: scope_le_trans simp del: as_literal_Some)
  qed
qed

lemma tg_passes_total:
  "list_all (\<lambda>l. total_from (tg_scope env funcs resolved) (loc_value l)) ls \<Longrightarrow>
   \<exists>rs. tg_passes n (tg_scope env funcs) ls resolved = Some rs"
proof (induction n arbitrary: ls resolved)
  case (Suc n)
  from tg_pass_total [OF Suc.prems] obtain rs ps pr where p: "tg_pass (tg_scope env funcs) ls resolved = Some (rs, ps, pr)"
    "list_all (\<lambda>l. total_from (tg_scope env funcs rs) (loc_value l)) ps" by blast
  from Suc.IH [OF p(2)] p(1) show ?case by simp
qed simp

lemma evaluate_merged_total:
  assumes "chain_mod_free chain"
  shows "\<exists>cfg. evaluate_merged env dir chain funcs ds = Some cfg"
proof -
  note free = apply_cascade_mod_free [OF assms, unfolded parsed_mod_free_def]
  have "\<exists>ls. evaluate_locals env funcs (pt_locals (apply_cascade chain)) = Some ls"
    unfolding evaluate_locals_def
    by (rule tg_passes_total) (use free in \<open>auto simp: list_all_iff total_from_mod_free\<close>)
  moreover have "\<exists>m. (case pt_inputs (apply_cascade chain) of None \<Rightarrow> Some [] | Some attrs \<Rightarrow> evaluate_inputs env funcs attrs ls) = Some m" for ls
    using free reduce_attrs_total by (fastforce simp: evaluate_inputs_def split: option.split)
  moreover have "\<exists>gs. reduce_labelled env funcs ls raw = Some gs" if "list_all (\<lambda>g. attrs_mod_free (lr_attrs g)) raw" for ls raw
    unfolding reduce_labelled_def by (rule list_total [OF that]) (auto dest: reduce_attrs_total)
  ultimately show ?thesis using free by (auto simp: evaluate_merged_def Let_def intro!: bind_total)
qed

lemma tg_resolve_total:
  assumes "disk_mod_free (te_front_end env) (fs_read (te_disk env))"
  shows "\<exists>cfg. tg_resolve env dir = Some cfg"
proof (cases "read_and_project env (path_join dir (parse_path ''terragrunt.hcl''))")
  case (Some parsed)
  note free = read_and_project_mod_free [OF assms Some]
  obtain chain st where "resolve_include_chain env dir (tc_max_include_depth (te_ctx env)) parsed
        (path_join dir (parse_path ''terragrunt.hcl'')) \<lparr>cs_visited = [], cs_active = None, cs_diags = pt_diagnostics parsed\<rparr> = Some (chain, st)"
      "chain_mod_free chain"
    using resolve_chain_total(1) [OF assms free] by blast
  with evaluate_merged_total Some show ?thesis by (auto simp: tg_resolve_def Let_def)
qed (simp add: tg_resolve_def Let_def)

end
