(* ===== verification/PipelineProps.thy ===== *)
theory PipelineProps
  imports Pipeline GraphProps ProviderProps DiscoveryProps LoaderProps ProjectionProps ModFree LoweringProps
begin

text \<open>What a run of the pipeline guarantees.\<close>

section \<open>Loading and projecting\<close>

definition raw_of ::
  "('g, 'ast) pipeline_env \<Rightarrow> path \<Rightarrow> loader_limits \<Rightarrow> discovered_dir \<Rightarrow> raw_component" where
  "raw_of pe r limits dir =
     (let ocs = map (file_outcome (pe_front_end pe) (disk.truncate (pe_disk pe)) r limits) (dd_files dir) in
      \<lparr>rc_path = dd_path dir, rc_kind = load_kind (dd_kind dir), rc_blocks = concat (map fst ocs),
       rc_diagnostics = concat (map (fst \<circ> snd) ocs)\<rparr>)"

lemma load_dirs_raws:
  "\<exists>acc'. load_dirs pe r limits dirs acc = Ok acc' \<and>
     la_raws acc' = la_raws acc @ map (\<lambda>(i, dir). (dir, raw_of pe r limits dir, id_from_index i)) (enumerate (la_next acc) dirs) \<and>
     la_next acc' = la_next acc + length dirs \<and>
     la_diags acc' = la_diags acc @ concat (map (\<lambda>dir. rc_diagnostics (raw_of pe r limits dir)) dirs)"
proof (induction dirs arbitrary: acc)
  case (Cons dir dirs)
  obtain acc1 where 1: "load_dir pe r limits dir acc = Ok acc1"
    "la_raws acc1 = la_raws acc @ [(dir, raw_of pe r limits dir, id_from_index (la_next acc))]"
    "la_next acc1 = la_next acc + 1" "la_diags acc1 = la_diags acc @ rc_diagnostics (raw_of pe r limits dir)"
    by (auto simp: load_dir_def load_files raw_of_def Let_def)
  from Cons.IH [of acc1] show ?case by (auto simp: 1)
qed simp

text \<open>The raw components of a list of directories, with the ids they get from index \<open>n\<close> on.\<close>

definition numbered_raws ::
  "('g, 'ast) pipeline_env \<Rightarrow> path \<Rightarrow> loader_limits \<Rightarrow> nat \<Rightarrow> discovered_dir list \<Rightarrow> (discovered_dir \<times> raw_component \<times> nat) list" where
  "numbered_raws pe r limits n dirs = map (\<lambda>(i, dir). (dir, raw_of pe r limits dir, id_from_index i)) (enumerate n dirs)"

lemma load_workspace_eq:
  "load_workspace pe opts disc =
     (let raws = numbered_raws pe (dc_root disc) (loader_limits_of opts) in
      Ok \<lparr>ld_modules = raws 0 (dc_modules disc), ld_components = raws (length (dc_modules disc)) (dc_components disc),
          ld_diags = dc_diagnostics disc @
            concat (map (\<lambda>dir. rc_diagnostics (raw_of pe (dc_root disc) (loader_limits_of opts) dir))
              (dc_modules disc @ dc_components disc))\<rparr>)"
proof -
  let ?l = "loader_limits_of opts" and ?r = "dc_root disc"
  let ?a0 = "\<lparr>la_raws = [], la_sources = source_map_new, la_next = 0, la_diags = dc_diagnostics disc\<rparr>"
  from load_dirs_raws [of pe ?r ?l "dc_modules disc" ?a0] obtain ms where
    m: "load_dirs pe ?r ?l (dc_modules disc) ?a0 = Ok ms"
      "la_raws ms = numbered_raws pe ?r ?l 0 (dc_modules disc)" "la_next ms = length (dc_modules disc)"
      "la_diags ms = dc_diagnostics disc @ concat (map (\<lambda>dir. rc_diagnostics (raw_of pe ?r ?l dir)) (dc_modules disc))"
    by (auto simp: numbered_raws_def)
  from load_dirs_raws [of pe ?r ?l "dc_components disc" "ms\<lparr>la_raws := []\<rparr>"] obtain cs where
    c: "load_dirs pe ?r ?l (dc_components disc) (ms\<lparr>la_raws := []\<rparr>) = Ok cs"
      "la_raws cs = numbered_raws pe ?r ?l (length (dc_modules disc)) (dc_components disc)"
      "la_diags cs = la_diags ms @ concat (map (\<lambda>dir. rc_diagnostics (raw_of pe ?r ?l dir)) (dc_components disc))"
    by (auto simp: numbered_raws_def m(3))
  show ?thesis by (simp add: load_workspace_def Let_def m(1) c(1) m(2,4) c(2,3))
qed

lemma project_dirs_eq:
  "project_dirs raws ds =
     (map (\<lambda>(dir, raw, cid). (dir, fst (project_component raw cid))) raws,
      ds @ concat (map (\<lambda>(dir, raw, cid). snd (project_component raw cid)) raws))"
proof -
  have "fold (\<lambda>(dir, raw, cid) (out, ds). case project_component raw cid of (c, d) \<Rightarrow> (out @ [(dir, c)], ds @ d))
       raws (out, ds) =
     (out @ map (\<lambda>(dir, raw, cid). (dir, fst (project_component raw cid))) raws,
      ds @ concat (map (\<lambda>(dir, raw, cid). snd (project_component raw cid)) raws))" for out
    by (induction raws arbitrary: out ds) (auto split: prod.split)
  from this [of "[]"] show ?thesis by (simp add: project_dirs_def)
qed

definition projected_dir ::
  "('g, 'ast) pipeline_env \<Rightarrow> path \<Rightarrow> loader_limits \<Rightarrow> nat \<times> discovered_dir \<Rightarrow> discovered_dir \<times> component" where
  "projected_dir pe r limits = (\<lambda>(i, dir). (dir, fst (project_component (raw_of pe r limits dir) (id_from_index i))))"

lemma project_numbered:
  "fst (project_dirs (numbered_raws pe r limits n dirs) ds) = map (projected_dir pe r limits) (enumerate n dirs)"
  by (simp add: project_dirs_eq numbered_raws_def projected_dir_def comp_def case_prod_beta)

lemma project_component_identity:
  "comp_path (fst (project_component raw cid)) = rc_path raw" "comp_kind (fst (project_component raw cid)) = rc_kind raw"
proof -
  obtain c ds where "project_component raw cid = (c, ds)" by fastforce
  with project_blocks_fold [OF this [unfolded project_component_def]]
  show "comp_path (fst (project_component raw cid)) = rc_path raw" "comp_kind (fst (project_component raw cid)) = rc_kind raw"
    by (simp_all add: component_new_def)
qed

lemma projected_identity:
  "comp_path (snd (projected_dir pe r limits x)) = dd_path (snd x)"
  "comp_kind (snd (projected_dir pe r limits x)) = load_kind (dd_kind (snd x))"
  "fst (projected_dir pe r limits x) = snd x"
  by (simp_all add: projected_dir_def project_component_identity raw_of_def Let_def split: prod.split)

section \<open>Through Terragrunt and the evaluator\<close>

lemma terragrunt_dir_identity:
  assumes "terragrunt_dir pe opts croot x = Some y"
  shows "fst (fst y) = fst x" "comp_path (snd (fst y)) = comp_path (snd x)" "comp_kind (snd (fst y)) = comp_kind (snd x)"
  using assms by (auto simp: terragrunt_dir_def Let_def split: prod.splits if_splits)

lemma evaluated_raw:
  "evaluate_module pe opts croot x = Some ev \<Longrightarrow> ev_raw ev = snd x"
  "evaluate_component pe opts croot x = Some ev \<Longrightarrow> ev_raw ev = snd x"
  by (auto simp: evaluate_module_def evaluate_component_def split: prod.splits elim!: evaluate_Some)

lemma map_option_list_keeps:
  "map_option_list f xs = Some ys \<Longrightarrow> (\<And>x y. f x = Some y \<Longrightarrow> g y = h x) \<Longrightarrow> map g ys = map h xs"
  unfolding map_option_list_Some_iff by (induction rule: list_all2_induct) auto

text \<open>The steps of a run that returned.\<close>

lemma run_loaded_Some:
  assumes "run_loaded pe dp opts croot ld = Some res"
  obtains resolved mevs cevs ds where
    "map_option_list (terragrunt_dir pe opts croot) (fst (project_dirs (ld_components ld) [])) = Some resolved"
    "map_option_list (evaluate_module pe opts croot) (fst (project_dirs (ld_modules ld) [])) = Some mevs"
    "map_option_list (evaluate_component pe opts croot) (map fst resolved) = Some cevs"
    "res = assemble pe dp croot (register_modules croot (fst (project_dirs (ld_modules ld) [])) mevs) (mevs @ cevs) ds"
  using assms unfolding run_loaded_def by (auto simp: bind_eq_Some_conv project_dirs_eq)

lemma assemble_Ok:
  assumes "assemble pe dp croot reg evals ds = Ok ws"
  obtains bws where "bws = build evals reg (graph_context_new croot) (file_system.truncate (pe_disk pe))"
    "ws_components ws = map (resolved_component (pipeline_provider_context dp)) (ws_components bws)"
    "ws_root ws = ws_root bws" "ws_modules ws = ws_modules bws" "ws_edges ws = ws_edges bws"
proof -
  let ?cx = "pipeline_provider_context dp"
  define bws where "bws = build evals reg (graph_context_new croot) (file_system.truncate (pe_disk pe))"
  let ?ws = "bws\<lparr>ws_diagnostics := ws_diagnostics bws @ ds\<rparr>"
  from assms have "ws = fst (resolve ?cx ?ws)"
    by (auto simp: assemble_def Let_def bws_def split: prod.splits sum.splits)
  moreover obtain cs st where r: "resolve_components ?cx (ws_components ?ws) \<lparr>rs_unresolved = [], rs_diagnostics = []\<rparr> = (cs, st)"
    by fastforce
  moreover have "cs = map (resolved_component ?cx) (ws_components bws)" using resolve_components_pure [OF r] by simp
  ultimately show ?thesis by (intro that [OF bws_def]) (simp_all add: resolve_def Let_def)
qed

lemma resolved_component_keeps [simp]:
  "comp_path (resolved_component cx c) = comp_path c" "comp_kind (resolved_component cx c) = comp_kind c"
  "map row_addr (comp_resources (resolved_component cx c)) = map row_addr (comp_resources c)"
  by (simp_all add: resolved_component_def resolved_resource_def row_addr_def)

lemma build_frame:
  "ws_root (build evs reg cx fs) = gc_workspace_root cx"
  "ws_modules (build evs reg cx fs) = build_workspace_modules evs"
  by (simp_all add: build_def Let_def collect_edges_in_place_def split: prod.split)

lemma build_edges:
  assumes "gc_infer_dependencies cx"
  shows "sorted (map edge_sort_key (ws_edges (build evs reg cx fs)))"
    "distinct (map edge_key_of (ws_edges (build evs reg cx fs)))"
  using assms by (auto simp: build_def Let_def collected_edges split: prod.split)

lemma build_edge_keys:
  assumes "gc_infer_dependencies cx"
  shows "edge_key_of ` set (ws_edges (build evs reg cx fs)) =
    {key. \<exists>c \<in> set (ws_components (build evs reg cx fs)). component_refers (ws_root (build evs reg cx fs)) c key}"
proof -
  have "\<exists>ws. build evs reg cx fs = collect_edges_in_place ws \<and> ws_edges ws = []"
    unfolding build_def Let_def case_prod_beta by (intro exI conjI, simp add: assms, simp)
  then obtain ws where "build evs reg cx fs = collect_edges_in_place ws" "ws_edges ws = []" by blast
  then show ?thesis using collected_edge_keys [of ws] by (simp add: collect_edges_in_place_def)
qed

text \<open>The resolver keeps what the edges are made from.\<close>

lemma component_refers_resolved [simp]:
  "component_refers wroot (resolved_component cx c) key = component_refers wroot c key"
proof -
  have "resource_refers (resolved_resource cx c r) key = resource_refers r key" for r
    by (simp add: resource_refers_def resolved_resource_def)
  then show ?thesis
    by (cases "comp_terragrunt c") (simp_all add: component_refers_def resolved_component_def)
qed

lemma map_enumerate_snd: "map (\<lambda>x. f (snd x)) (enumerate n xs) = map f xs"
  using map_map [of f snd "enumerate n xs", symmetric] by (simp only: map_snd_enumerate comp_def)

text \<open>The evaluated components of a run carry the discovered directories, in order.\<close>

definition evals_of :: "discovered_dir list \<Rightarrow> evaluated_component list \<Rightarrow> bool" where
  "evals_of dirs evs \<longleftrightarrow>
     map (\<lambda>ev. (comp_path (ev_raw ev), comp_kind (ev_raw ev))) evs = map (\<lambda>dir. (dd_path dir, load_kind (dd_kind dir))) dirs"

lemma module_evals:
  assumes "map_option_list (evaluate_module pe opts croot) (map (projected_dir pe r limits) (enumerate n dirs)) = Some evs"
  shows "evals_of dirs evs"
proof -
  have "map (\<lambda>ev. (comp_path (ev_raw ev), comp_kind (ev_raw ev))) evs =
      map (\<lambda>x. (comp_path (snd x), comp_kind (snd x))) (map (projected_dir pe r limits) (enumerate n dirs))"
    by (rule map_option_list_keeps [OF assms]) (simp add: evaluated_raw)
  also have "\<dots> = map (\<lambda>dir. (dd_path dir, load_kind (dd_kind dir))) dirs"
    by (simp add: projected_identity comp_def
        map_enumerate_snd [where f = "\<lambda>dir. (dd_path dir, load_kind (dd_kind dir))"])
  finally show ?thesis by (simp add: evals_of_def)
qed

lemma component_evals:
  assumes "map_option_list (terragrunt_dir pe opts croot) (map (projected_dir pe r limits) (enumerate n dirs)) = Some resolved"
    "map_option_list (evaluate_component pe opts croot) (map fst resolved) = Some evs"
  shows "evals_of dirs evs"
proof -
  let ?key = "\<lambda>x. (comp_path (snd x), comp_kind (snd x))"
  have "map (\<lambda>ev. (comp_path (ev_raw ev), comp_kind (ev_raw ev))) evs = map ?key (map fst resolved)"
    by (rule map_option_list_keeps [OF assms(2)]) (simp add: evaluated_raw)
  also have "\<dots> = map (\<lambda>y. ?key (fst y)) resolved" by simp
  also have "\<dots> = map ?key (map (projected_dir pe r limits) (enumerate n dirs))"
    by (rule map_option_list_keeps [OF assms(1)]) (simp add: terragrunt_dir_identity)
  also have "\<dots> = map (\<lambda>dir. (dd_path dir, load_kind (dd_kind dir))) dirs"
    by (simp add: projected_identity comp_def
        map_enumerate_snd [where f = "\<lambda>dir. (dd_path dir, load_kind (dd_kind dir))"])
  finally show ?thesis by (simp add: evals_of_def)
qed

lemma evals_of_kind:
  assumes "evals_of dirs evs" "\<And>dir. dir \<in> set dirs \<Longrightarrow> dd_kind dir = k" "ev \<in> set evs"
  shows "comp_kind (ev_raw ev) = load_kind k"
proof -
  have "(comp_path (ev_raw ev), comp_kind (ev_raw ev)) \<in> set (map (\<lambda>dir. (dd_path dir, load_kind (dd_kind dir))) dirs)"
    unfolding assms(1) [unfolded evals_of_def, symmetric] using assms(3) by simp
  then show ?thesis using assms(2) by auto
qed

lemma evals_of_paths: "evals_of dirs evs \<Longrightarrow> map (\<lambda>ev. comp_path (ev_raw ev)) evs = map dd_path dirs"
  unfolding evals_of_def by (drule arg_cong [where f = "map fst"]) (simp add: comp_def)

lemma build_workspace_modules_split:
  assumes "\<And>ev. ev \<in> set mevs \<Longrightarrow> is_module_kind ev" "\<And>ev. ev \<in> set cevs \<Longrightarrow> \<not> is_module_kind ev"
  shows "map mod_source (build_workspace_modules (mevs @ cevs)) = map (\<lambda>ev. SrcLocal (path_str (comp_path (ev_raw ev)))) mevs"
proof -
  have keep: "filter (\<lambda>(i, e). is_module_kind e) (enumerate n xs) = enumerate n xs"
    if "\<And>ev. ev \<in> set xs \<Longrightarrow> is_module_kind ev" for n xs
    using that by (auto simp: filter_id_conv dest: set_zip_rightD simp: enumerate_eq_zip)
  have drop: "filter (\<lambda>(i, e). is_module_kind e) (enumerate n xs) = []"
    if "\<And>ev. ev \<in> set xs \<Longrightarrow> \<not> is_module_kind ev" for n xs
    using that by (auto simp: filter_empty_conv enumerate_eq_zip dest: set_zip_rightD)
  show ?thesis
    by (simp add: build_workspace_modules_def enumerate_append_eq keep [OF assms(1)] drop [OF assms(2)] comp_def
        case_prod_beta map_enumerate_snd [where f = "\<lambda>ev. SrcLocal (path_str (comp_path (ev_raw ev)))"])
qed

section \<open>A run returns\<close>

lemma loader_read_file_Ok: "loader_read_file d p n = Ok bytes \<Longrightarrow> fs_read d p = Ok bytes"
  by (auto simp: loader_read_file_def split: sum.splits if_splits)

lemma read_source_bytes:
  assumes "read_source d r limits f = Ok (p, src)"
  shows "\<exists>q bytes. fs_read d q = Ok bytes \<and> from_utf8 bytes = Ok src"
proof -
  from assms obtain q where q: "resolve_under_root d (df_path f) r = Ok q" by (auto simp: read_source_def)
  show ?thesis
  proof (cases "loader_read_file d q (ll_max_file_bytes limits)")
    case (Inl e)
    with assms q show ?thesis by (cases e) (simp_all add: read_source_def)
  next
    case (Inr bytes)
    with assms q loader_read_file_Ok [OF Inr] show ?thesis by (auto simp: read_source_def split: sum.splits)
  qed
qed

lemma raw_of_mod_free:
  assumes "disk_mod_free (pe_front_end pe) (fs_read (pe_disk pe))"
  shows "list_all block_mod_free (rc_blocks (raw_of pe r limits dir))"
proof -
  have "list_all block_mod_free (fst (file_outcome (pe_front_end pe) (disk.truncate (pe_disk pe)) r limits f))" for f
  proof (cases "read_source (disk.truncate (pe_disk pe)) r limits f")
    case (Inr x)
    obtain p src where x: "x = (p, src)" by fastforce
    obtain q bytes where "fs_read (pe_disk pe) q = Ok bytes" "from_utf8 bytes = Ok src"
      using read_source_bytes [OF Inr [unfolded x]] by (auto simp: disk.truncate_def)
    with Inr x show ?thesis
      by (auto simp: file_outcome_def dest: disk_mod_freeD [OF assms] split: sum.split prod.split)
  qed (simp add: file_outcome_def)
  then show ?thesis by (simp add: raw_of_def Let_def list_all_iff)
qed

lemma map_option_list_Some:
  assumes "\<And>x. x \<in> set xs \<Longrightarrow> \<exists>y. f x = Some y"
  shows "\<exists>ys. map_option_list f xs = Some ys"
  using map_option_list_total [of xs f] assms by fastforce

lemma terragrunt_dir_total:
  "disk_mod_free (pe_front_end pe) (fs_read (pe_disk pe)) \<Longrightarrow> \<exists>y. terragrunt_dir pe opts croot x = Some y"
  using tg_resolve_total [of "tg_env_of pe opts croot"]
  by (cases x) (auto simp: terragrunt_dir_def Let_def tg_env_of_def)

lemma terragrunt_dir_mod_free:
  "terragrunt_dir pe opts croot x = Some y \<Longrightarrow> component_mod_free (snd (fst y)) \<longleftrightarrow> component_mod_free (snd x)"
  by (auto simp: terragrunt_dir_def Let_def component_mod_free_def split: prod.splits if_splits)

lemma evaluate_dir_total:
  assumes "component_mod_free (snd x)"
  shows "\<exists>ev. evaluate_module pe opts croot x = Some ev" "\<exists>ev. evaluate_component pe opts croot x = Some ev"
  using evaluate_total_aux [OF assms] by (simp_all add: evaluate_module_def evaluate_component_def case_prod_beta)

lemma run_loaded_total:
  assumes fe: "disk_mod_free (pe_front_end pe) (fs_read (pe_disk pe))" and ld: "load_workspace pe opts disc = Ok ld"
  obtains reg evals ds where "run_loaded pe dp opts croot ld = Some (assemble pe dp croot reg evals ds)"
proof -
  let ?p = "projected_dir pe (dc_root disc) (loader_limits_of opts)"
  obtain k where mods: "fst (project_dirs (ld_modules ld) (ld_diags ld)) = map ?p (enumerate 0 (dc_modules disc))"
    and comps: "\<And>ds. fst (project_dirs (ld_components ld) ds) = map ?p (enumerate k (dc_components disc))"
    using ld by (auto simp: load_workspace_eq Let_def project_numbered)
  have free: "component_mod_free (snd (?p x))" for x
    by (cases x) (simp add: projected_dir_def project_component_mod_free raw_of_mod_free [OF fe])
  then have free': "component_mod_free (snd x)" if "x \<in> set (map ?p xs)" for x xs
    using that unfolding set_map by blast
  obtain resolved where tg: "map_option_list (terragrunt_dir pe opts croot) (map ?p (enumerate k (dc_components disc))) = Some resolved"
    using map_option_list_Some [where f = "terragrunt_dir pe opts croot", OF terragrunt_dir_total [OF fe]] by blast
  obtain mevs where mev: "map_option_list (evaluate_module pe opts croot) (map ?p (enumerate 0 (dc_modules disc))) = Some mevs"
    using map_option_list_Some [where f = "evaluate_module pe opts croot" and xs = "map ?p (enumerate 0 (dc_modules disc))",
        OF evaluate_dir_total(1)] free' by blast
  have "component_mod_free (snd x)" if x: "x \<in> set (map fst resolved)" for x
  proof -
    have "map (\<lambda>y. component_mod_free (snd (fst y))) resolved
        = map (\<lambda>x. component_mod_free (snd x)) (map ?p (enumerate k (dc_components disc)))"
      by (rule map_option_list_keeps [OF tg]) (rule terragrunt_dir_mod_free)
    also have "\<dots> = map (\<lambda>_. True) (enumerate k (dc_components disc))" using free by simp
    finally have "\<forall>b \<in> set (map (\<lambda>y. component_mod_free (snd (fst y))) resolved). b" by (simp only:) simp
    with x show ?thesis by auto
  qed
  then obtain cevs where "map_option_list (evaluate_component pe opts croot) (map fst resolved) = Some cevs"
    using map_option_list_Some [where f = "evaluate_component pe opts croot" and xs = "map fst resolved",
        OF evaluate_dir_total(2)] by blast
  moreover obtain ms ds1 where m: "project_dirs (ld_modules ld) (ld_diags ld) = (ms, ds1)" by fastforce
  moreover obtain cs ds2 where c: "project_dirs (ld_components ld) ds1 = (cs, ds2)" by fastforce
  moreover have "ms = map ?p (enumerate 0 (dc_modules disc))" "cs = map ?p (enumerate k (dc_components disc))"
    using mods comps [of ds1] by (simp_all add: m c)
  ultimately show ?thesis using tg mev by (intro that) (simp add: run_loaded_def)
qed

lemma lowered_mod_free:
  assumes "pe_front_end pe = hcl_front_end parse"
    and "\<forall>q bytes src body. fs_read (pe_disk pe) q = Ok bytes \<longrightarrow> from_utf8 bytes = Ok src \<longrightarrow> parse src = Ok body
      \<longrightarrow> body_mod_free body"
  shows "disk_mod_free (pe_front_end pe) (fs_read (pe_disk pe))"
proof -
  have "list_all block_mod_free (fst (lower_body body p lines limits n))" if "body_mod_free body" for body p lines limits n
    using no_mod.file_preserved [OF that [unfolded body_mod_free_def]]
    by (simp add: lower_body_def list_all_iff block_mod_free_def attrs_mod_free_def case_prod_beta)
  with assms show ?thesis by (simp add: disk_mod_free_def hcl_front_end_def)
qed

lemma assemble_Err: "assemble pe dp croot reg evals ds = Err e \<Longrightarrow> dp_strict_providers dp \<and> (\<exists>pe. e = CoreProvider pe)"
  by (auto simp: assemble_def resolve_def pipeline_provider_context_def Let_def split: prod.splits sum.splits list.splits if_splits)

text \<open>What a run returns, step by step.\<close>

lemma run_steps:
  "run pe dp opts =
     (case pipeline_root (pe_disk pe) (po_root opts) of Inl e \<Rightarrow> Some (Err e) | Inr croot \<Rightarrow>
        (case discover (pe_regexes pe) (pe_walker pe) (pe_disk pe) croot (discovery_opts_of pe opts) of Inl e \<Rightarrow> Some (Err e)
         | Inr disc \<Rightarrow> run_loaded pe dp opts croot (projr (load_workspace pe opts disc))))"
  by (simp add: run_def load_workspace_eq Let_def split: sum.split)

section \<open>Properties\<close>

text \<open>A run that returned a workspace, as the graph of the evaluated directories and the providers of its components.\<close>

lemma run_Ok:
  assumes "run pe dp opts = Some (Ok ws)" and "po_max_total_files opts < u64_max"
  obtains croot disc mevs cevs reg bws where
    "pipeline_root (pe_disk pe) (po_root opts) = Ok croot"
    "discover (pe_regexes pe) (pe_walker pe) (pe_disk pe) croot (discovery_opts_of pe opts) = Ok disc"
    "evals_of (dc_modules disc) mevs" "evals_of (dc_components disc) cevs"
    "\<And>ev. ev \<in> set mevs \<Longrightarrow> is_module_kind ev" "\<And>ev. ev \<in> set cevs \<Longrightarrow> \<not> is_module_kind ev"
    "distinct (map dd_path (dc_components disc))"
    "bws = build (mevs @ cevs) reg (graph_context_new croot) (file_system.truncate (pe_disk pe))"
    "ws_components ws = map (resolved_component (pipeline_provider_context dp)) (ws_components bws)"
    "ws_root ws = ws_root bws" "ws_modules ws = ws_modules bws" "ws_edges ws = ws_edges bws"
proof -
  obtain croot disc ld where root: "pipeline_root (pe_disk pe) (po_root opts) = Ok croot"
    and disc: "discover (pe_regexes pe) (pe_walker pe) (pe_disk pe) croot (discovery_opts_of pe opts) = Ok disc"
    and ld: "load_workspace pe opts disc = Ok ld" and rl: "run_loaded pe dp opts croot ld = Some (Ok ws)"
    using assms(1) by (auto simp: run_def split: sum.splits)
  let ?p = "projected_dir pe (dc_root disc) (loader_limits_of opts)"
  obtain k where mods: "fst (project_dirs (ld_modules ld) []) = map ?p (enumerate 0 (dc_modules disc))"
    and comps: "fst (project_dirs (ld_components ld) []) = map ?p (enumerate k (dc_components disc))"
    using ld by (auto simp: load_workspace_eq Let_def project_numbered)
  from rl obtain resolved mevs cevs ds where
    tg: "map_option_list (terragrunt_dir pe opts croot) (map ?p (enumerate k (dc_components disc))) = Some resolved"
    and mev: "map_option_list (evaluate_module pe opts croot) (map ?p (enumerate 0 (dc_modules disc))) = Some mevs"
    and cev: "map_option_list (evaluate_component pe opts croot) (map fst resolved) = Some cevs"
    and asm: "Ok ws = assemble pe dp croot (register_modules croot (map ?p (enumerate 0 (dc_modules disc))) mevs) (mevs @ cevs) ds"
    by (rule run_loaded_Some) (simp add: mods comps)
  have cap: "do_max_total_files (discovery_opts_of pe opts) < u64_max" using assms(2) by (simp add: discovery_opts_of_def)
  note dirs = discovered_dirs [OF disc cap]
  have m: "evals_of (dc_modules disc) mevs" and c: "evals_of (dc_components disc) cevs"
    using module_evals [OF mev] component_evals [OF tg cev] .
  have km: "is_module_kind ev" if "ev \<in> set mevs" for ev
    using evals_of_kind [OF m dirs(3) that] by (simp add: is_module_kind_def load_kind_def)
  have kc: "\<not> is_module_kind ev" if "ev \<in> set cevs" for ev
    using evals_of_kind [OF c dirs(2) that] by (simp add: is_module_kind_def load_kind_def)
  have dist: "distinct (map dd_path (dc_components disc))" using dirs(1) by simp
  show thesis by (rule assemble_Ok [OF asm [symmetric]]) (rule that [OF root disc m c km kc dist])
qed

text \<open>C30. The workspace a run returns is well-formed: its root is the canonical root, it has one component per discovered
  component directory and one module per discovered module directory and no other, the components sorted by path without
  duplicates, within a component no two resources have the same address, and the edges, sorted and without duplicates, are exactly
  the references of these components, each from an address its component declares.  That the target of an edge is an
  address of the workspace, as invariant I-GRAPH-2 of \<open>specs/15-resource-graph.md\<close> has it, is not promised: a reference to
  something no file declares is kept (\<open>edge_target_undeclared\<close>).\<close>

theorem run_workspace:
  assumes "run pe dp opts = Some (Ok ws)" and "po_max_total_files opts < u64_max"
  shows "\<exists>croot disc. pipeline_root (pe_disk pe) (po_root opts) = Ok croot
    \<and> discover (pe_regexes pe) (pe_walker pe) (pe_disk pe) croot (discovery_opts_of pe opts) = Ok disc
    \<and> ws_root ws = croot
    \<and> mset (map comp_path (ws_components ws)) = mset (map dd_path (dc_components disc))
    \<and> sorted (map comp_path (ws_components ws)) \<and> distinct (map comp_path (ws_components ws))
    \<and> map mod_source (ws_modules ws) = map (\<lambda>dir. SrcLocal (path_str (dd_path dir))) (dc_modules disc)
    \<and> (\<forall>c \<in> set (ws_components ws). comp_kind c = CkComponent \<and> distinct (map row_addr (comp_resources c)))
    \<and> sorted (map edge_sort_key (ws_edges ws)) \<and> distinct (map edge_key_of (ws_edges ws))
    \<and> edge_key_of ` set (ws_edges ws) = {key. \<exists>c \<in> set (ws_components ws). component_refers croot c key}
    \<and> (\<forall>e \<in> set (ws_edges ws). \<exists>c \<in> set (ws_components ws). edge_from e \<in> declared_addresses c)"
proof -
  obtain croot disc mevs cevs reg bws where root: "pipeline_root (pe_disk pe) (po_root opts) = Ok croot"
    and disc: "discover (pe_regexes pe) (pe_walker pe) (pe_disk pe) croot (discovery_opts_of pe opts) = Ok disc"
    and m: "evals_of (dc_modules disc) mevs" and c: "evals_of (dc_components disc) cevs"
    and km: "\<And>ev. ev \<in> set mevs \<Longrightarrow> is_module_kind ev" and kc: "\<And>ev. ev \<in> set cevs \<Longrightarrow> \<not> is_module_kind ev"
    and dirs: "distinct (map dd_path (dc_components disc))"
    and b: "bws = build (mevs @ cevs) reg (graph_context_new croot) (file_system.truncate (pe_disk pe))"
    and w: "ws_components ws = map (resolved_component (pipeline_provider_context dp)) (ws_components bws)"
      "ws_root ws = ws_root bws" "ws_modules ws = ws_modules bws" "ws_edges ws = ws_edges bws"
    by (rule run_Ok [OF assms]) (rule that)
  have own: "filter (\<lambda>ev. \<not> is_module_kind ev) (mevs @ cevs) = cevs" using km kc by (simp add: filter_id_conv filter_empty_conv)
  have paths: "map comp_path (ws_components ws) = map comp_path (ws_components bws)" by (simp add: w(1))
  note one = build_one_component_each [of "mevs @ cevs" _ "graph_context_new croot" "file_system.truncate (pe_disk pe)",
      unfolded own, folded b]
  have "mset (map comp_path (ws_components bws)) = mset (map (\<lambda>ev. comp_path (ev_raw ev)) cevs)"
    using one [THEN conjunct2, THEN arg_cong [where f = "image_mset snd"]] unfolding b by (simp add: multiset.map_comp comp_def)
  then have mset: "mset (map comp_path (ws_components ws)) = mset (map dd_path (dc_components disc))"
    by (simp only: paths evals_of_paths [OF c])
  have dist: "distinct (map comp_path (ws_components ws))" using dirs mset mset_eq_imp_distinct_iff by blast
  have "sorted (map comp_path (ws_components ws))" unfolding paths b by (rule build_one_component_each [THEN conjunct1])
  moreover have "map mod_source (ws_modules ws) = map (\<lambda>dir. SrcLocal (path_str (dd_path dir))) (dc_modules disc)"
    using build_workspace_modules_split [of mevs cevs, OF km kc] evals_of_paths [OF m, THEN arg_cong [where f = "map (\<lambda>p. SrcLocal (path_str p))"]]
    by (simp add: w(3) b build_frame comp_def)
  moreover have "comp_kind c = CkComponent \<and> distinct (map row_addr (comp_resources c))" if "c \<in> set (ws_components ws)" for c
  proof -
    from that obtain c0 where c0: "c0 \<in> set (ws_components bws)" "c = resolved_component (pipeline_provider_context dp) c0"
      unfolding w(1) by auto
    from built_component_rows [OF c0(1) [unfolded b]] have "comp_kind c0 = CkComponent" "distinct (map row_addr (comp_resources c0))"
      by blast+
    then show ?thesis unfolding c0(2) by simp
  qed
  moreover have "ws_root ws = croot" by (simp add: w(2) b build_frame graph_context_new_def)
  moreover have "sorted (map edge_sort_key (ws_edges ws))" "distinct (map edge_key_of (ws_edges ws))"
    unfolding w(4) b by (rule build_edges; simp add: graph_context_new_def)+
  moreover have keys: "edge_key_of ` set (ws_edges ws) = {key. \<exists>c \<in> set (ws_components ws). component_refers croot c key}"
  proof -
    have "gc_infer_dependencies (graph_context_new croot)" "ws_root bws = croot"
      by (simp_all add: b build_frame graph_context_new_def)
    then show ?thesis
      using build_edge_keys [of "graph_context_new croot" "mevs @ cevs" reg "file_system.truncate (pe_disk pe)"]
      unfolding w(1,4) b [symmetric] by simp
  qed
  ultimately show ?thesis using root disc mset dist edges_from_declared [OF keys] by blast
qed

text \<open>C31. A run returns: when no file of the disk that parses uses the operator \<open>%\<close> (whose overflow is the reducer's only
  panic), the pipeline ends with a workspace or an error, and the only errors are those of the root's canonicalisation, of
  discovery, and, in strict mode, of the provider resolver.\<close>

theorem run_total:
  assumes "pe_front_end pe = hcl_front_end parse"
    and "\<forall>q bytes src body. fs_read (pe_disk pe) q = Ok bytes \<longrightarrow> from_utf8 bytes = Ok src \<longrightarrow> parse src = Ok body
      \<longrightarrow> body_mod_free body"
  shows "\<exists>res. run pe dp opts = Some res \<and> (\<forall>e. res = Err e \<longrightarrow>
      pipeline_root (pe_disk pe) (po_root opts) = Err e
      \<or> (\<exists>croot. pipeline_root (pe_disk pe) (po_root opts) = Ok croot
           \<and> discover (pe_regexes pe) (pe_walker pe) (pe_disk pe) croot (discovery_opts_of pe opts) = Err e)
      \<or> dp_strict_providers dp \<and> (\<exists>cause. e = CoreProvider cause))"
proof (cases "pipeline_root (pe_disk pe) (po_root opts)")
  case (Inr croot)
  show ?thesis
  proof (cases "discover (pe_regexes pe) (pe_walker pe) (pe_disk pe) croot (discovery_opts_of pe opts)")
    case disc: (Inr disc)
    obtain ld where ld: "load_workspace pe opts disc = Ok ld" by (simp add: load_workspace_eq Let_def)
    obtain reg evals ds where "run_loaded pe dp opts croot ld = Some (assemble pe dp croot reg evals ds)"
      by (rule run_loaded_total [OF lowered_mod_free [OF assms] ld])
    then have "run pe dp opts = Some (assemble pe dp croot reg evals ds)" by (simp add: run_steps Inr disc ld)
    then show ?thesis using assemble_Err by blast
  qed (simp add: run_steps Inr)
qed (simp add: run_steps)

section \<open>A run\<close>

text \<open>A workspace with one directory \<open>c\<close>, which holds \<open>main.tf\<close> with one resource.\<close>

definition run_ex_body :: hbody where
  "run_ex_body = [HBlock ''resource'' None [LabelString ''aws_vpc'', LabelString ''v'']
     [HAttribute ''cidr'' (HString None ''10.0.0.0/8'') None] None]"

definition run_ex_env :: "(unit, hbody) pipeline_env" where
  "run_ex_env =
     \<lparr>pe_globs = \<lparr>ge_new = (\<lambda>_. Ok ()), ge_build = (\<lambda>_. Ok (\<lambda>_. False))\<rparr>, pe_regexes = (\<lambda>_. Ok (\<lambda>_ _. True)),
      pe_walker = (\<lambda>_. [Inr \<lparr>we_depth = 2, we_path = [RootDir, Normal ''w'', Normal ''c'', Normal ''main.tf''],
        we_file_type = Some FtFile, we_metadata = Inr 10\<rparr>]),
      pe_host = host_ex (\<lambda>_. None), pe_show_f64 = (\<lambda>_. []), pe_disk = ex_disk,
      pe_front_end = hcl_front_end (\<lambda>_. Ok run_ex_body),
      pe_read_config = (\<lambda>_ _ _. Err (FOther [] [])), pe_order = remdups\<rparr>"

definition run_ex_options :: pipeline_options where
  "run_ex_options = \<lparr>po_root = [RootDir, Normal ''w''], po_environment = None, po_env_var_mode = env_var_mode_default,
     po_allowed_env = [], po_repo_vars = [], po_max_walk_depth = 2, po_max_total_files = 2, po_max_file_bytes = 100,
     po_max_include_depth = 1, po_follow_symlinks = False\<rparr>"

lemma run_ex_globs: "default_exclude_globset (pe_globs run_ex_env) = (\<lambda>_. False)" "default_module_globset (pe_globs run_ex_env) = (\<lambda>_. False)"
  by (simp_all add: run_ex_env_def default_exclude_globset_def default_module_globset_def or_empty_set_def compile_glob_set_def
      compile_glob_def glob_set_empty_def)

definition run_ex_discovery :: discovery_options where
  "run_ex_discovery = \<lparr>do_follow_symlinks = False, do_max_depth = 2, do_max_file_size_bytes = 100, do_max_total_files = 2,
     do_exclude_globs = (\<lambda>_. False), do_module_globs = (\<lambda>_. False), do_threads = 0\<rparr>"

lemma run_ex_discovery: "discovery_opts_of run_ex_env run_ex_options = run_ex_discovery"
  by (simp add: discovery_opts_of_def discovery_defaults_def run_ex_globs run_ex_discovery_def run_ex_options_def)

lemma run_ex_dirs:
  obtains disc where "discover (pe_regexes run_ex_env) (pe_walker run_ex_env) (pe_disk run_ex_env) [RootDir, Normal ''w'']
      (discovery_opts_of run_ex_env run_ex_options) = Ok disc"
    "map dd_path (dc_components disc) = [[Normal ''c'']]"
proof -
  have cap: "do_max_total_files run_ex_discovery < u64_max" by (simp add: run_ex_discovery_def u64_max_def)
  have "(case and_then (canonicalize_root (pe_disk run_ex_env) [RootDir, Normal ''w''] run_ex_discovery)
      (discover_spec (pe_regexes run_ex_env) (pe_walker run_ex_env) (pe_disk run_ex_env) run_ex_discovery) of
      Inl _ \<Rightarrow> [] | Inr dc \<Rightarrow> map dd_path (dc_components dc)) = [[Normal ''c'']]"
    by code_simp
  then show ?thesis using that unfolding discover_eq [OF cap, symmetric] run_ex_discovery by (auto split: sum.splits)
qed

lemma run_ex_front_end:
  "pe_front_end run_ex_env = hcl_front_end (\<lambda>_. Ok run_ex_body)" "body_mod_free run_ex_body"
  by (simp_all add: run_ex_env_def run_ex_body_def body_mod_free_def not_mod_def)

lemma run_ex_root: "pipeline_root (pe_disk run_ex_env) (po_root run_ex_options) = Ok [RootDir, Normal ''w'']"
  by (simp add: pipeline_root_def run_ex_env_def run_ex_options_def ex_disk_def)

lemma run_ex_Ok: "\<exists>ws. run run_ex_env default_pipeline_new run_ex_options = Some (Ok ws)"
proof -
  obtain disc where d: "discover (pe_regexes run_ex_env) (pe_walker run_ex_env) (pe_disk run_ex_env) [RootDir, Normal ''w'']
      (discovery_opts_of run_ex_env run_ex_options) = Ok disc" by (rule run_ex_dirs)
  obtain ld where ld: "load_workspace run_ex_env run_ex_options disc = Ok ld" by (simp add: load_workspace_eq Let_def)
  obtain reg evals ds where "run run_ex_env default_pipeline_new run_ex_options
      = Some (assemble run_ex_env default_pipeline_new [RootDir, Normal ''w''] reg evals ds)"
    using run_loaded_total [OF lowered_mod_free [OF run_ex_front_end(1)] ld, of default_pipeline_new "[RootDir, Normal ''w'']"]
    by (auto simp: run_steps run_ex_root d ld run_ex_front_end(2))
  moreover have "assemble run_ex_env default_pipeline_new croot reg evals ds \<noteq> Err e" for croot e
    using assemble_Err [of run_ex_env default_pipeline_new] by (auto simp: default_pipeline_new_def)
  ultimately show ?thesis by (metis sum.exhaust)
qed

theorem run_workspace_witness:
  "\<exists>ws. run run_ex_env default_pipeline_new run_ex_options = Some (Ok ws) \<and> map comp_path (ws_components ws) = [[Normal ''c'']]"
proof -
  obtain ws where ws: "run run_ex_env default_pipeline_new run_ex_options = Some (Ok ws)" using run_ex_Ok by blast
  have "po_max_total_files run_ex_options < u64_max" by (simp add: run_ex_options_def u64_max_def)
  from run_workspace [OF ws this] obtain croot disc where
    root: "pipeline_root (pe_disk run_ex_env) (po_root run_ex_options) = Ok croot"
    and disc: "discover (pe_regexes run_ex_env) (pe_walker run_ex_env) (pe_disk run_ex_env) croot
        (discovery_opts_of run_ex_env run_ex_options) = Ok disc"
    and paths: "mset (map comp_path (ws_components ws)) = mset (map dd_path (dc_components disc))"
    by (elim exE conjE)
  have "croot = [RootDir, Normal ''w'']" using root unfolding run_ex_root by simp
  then have "map dd_path (dc_components disc) = [[Normal ''c'']]" using run_ex_dirs disc by (metis sum.inject(2))
  with paths have "mset (map comp_path (ws_components ws)) = {#[Normal ''c'']#}" by (simp only: mset.simps)
  then have "map comp_path (ws_components ws) = [[Normal ''c'']]" by (simp only: mset_single_iff)
  with ws show ?thesis by (intro exI [of _ ws] conjI)
qed

theorem run_total_witness: "\<exists>res. run run_ex_env default_pipeline_new run_ex_options = Some res"
  using run_total [OF run_ex_front_end(1)] run_ex_front_end(2) by fastforce

end
