(* ===== verification/ExportJson.thy ===== *)
theory ExportJson
  imports Reduce Messages
begin

text \<open>The canonical JSON of the \<open>attributes_json\<close> column (\<open>exporter/json.rs\<close>).  Each \<open>write_*\<close> appends to a
  buffer in the code and returns the text it appends here; the formatter of finite floats (\<open>ryu\<close>) is an argument.\<close>

section \<open>Strings\<close>

definition hex4 :: "nat \<Rightarrow> str" where
  "hex4 n = [hex_digit (n div 4096 mod 16), hex_digit (n div 256 mod 16), hex_digit (n div 16 mod 16), hex_digit (n mod 16)]"

definition json_escape :: "char \<Rightarrow> str" where
  "json_escape c =
     (let bs = CHR 0x5C in
      if c = CHR 0x22 then [bs, CHR 0x22]
      else if c = bs then [bs, bs]
      else if c = CHR 0x0A then [bs, CHR ''n'']
      else if c = CHR 0x0D then [bs, CHR ''r'']
      else if c = CHR 0x09 then [bs, CHR ''t'']
      else if c = CHR 0x08 then [bs, CHR ''b'']
      else if c = CHR 0x0C then [bs, CHR ''f'']
      else if (of_char c :: nat) < 32 then [bs, CHR ''u''] @ hex4 (of_char c)
      else [c])"

definition write_json_string :: "str \<Rightarrow> str" where
  "write_json_string s = quote_mark @ concat (map json_escape s) @ quote_mark"

fun symbol_kind_str :: "symbol_kind \<Rightarrow> str" where
  "symbol_kind_str KVar = ''Var''"
| "symbol_kind_str KLocal = ''Local''"
| "symbol_kind_str KResource = ''Resource''"
| "symbol_kind_str KData = ''Data''"
| "symbol_kind_str KModule = ''Module''"
| "symbol_kind_str KPath = ''Path''"
| "symbol_kind_str KIteration = ''Iteration''"
| "symbol_kind_str KTerraform = ''Terraform''"
| "symbol_kind_str KTerragruntDependency = ''TerragruntDependency''"
| "symbol_kind_str KOther = ''Other''"

text \<open>\<open>{op:?}\<close>.\<close>

fun binary_op_debug :: "binary_op \<Rightarrow> str" where
  "binary_op_debug Add = ''Add''"
| "binary_op_debug Sub = ''Sub''"
| "binary_op_debug Mul = ''Mul''"
| "binary_op_debug Div = ''Div''"
| "binary_op_debug Mod = ''Mod''"
| "binary_op_debug Eq = ''Eq''"
| "binary_op_debug Ne = ''Ne''"
| "binary_op_debug Lt = ''Lt''"
| "binary_op_debug Le = ''Le''"
| "binary_op_debug Gt = ''Gt''"
| "binary_op_debug Ge = ''Ge''"
| "binary_op_debug And = ''And''"
| "binary_op_debug Or = ''Or''"

fun unary_op_debug :: "unary_op \<Rightarrow> str" where
  "unary_op_debug Neg = ''Neg''"
| "unary_op_debug Not = ''Not''"

section \<open>Values\<close>

text \<open>The loops that put a comma before every element but the first.\<close>

definition write_array :: "str list \<Rightarrow> str" where
  "write_array items = ''['' @ join_str '','' items @ '']''"

definition write_members :: "(str \<times> str) list \<Rightarrow> str" where
  "write_members kvs = ''{'' @ join_str '','' (map (\<lambda>(k, v). write_json_string k @ '':'' @ v) kvs) @ ''}''"

fun write_value :: "(f64 \<Rightarrow> str) \<Rightarrow> value \<Rightarrow> str" where
  "write_value ryu VNull = ''null''"
| "write_value ryu (VBool b) = bool_str b"
| "write_value ryu (VInt n) = int_str n"
| "write_value ryu (VNumber f) = (if f64_is_finite f then ryu f else ''null'')"
| "write_value ryu (VStr s) = write_json_string s"
| "write_value ryu (VList items) = write_array (map (write_value ryu) items)"
| "write_value ryu (VMap entries) =
     write_members (sort_key fst (map (\<lambda>(k, v). (k, write_value ryu v)) entries))"

section \<open>Expressions\<close>

text \<open>The objects with fixed keys are written key by key as literals.\<close>

definition fixed_key :: "str \<Rightarrow> str" where
  "fixed_key k = quote_mark @ k @ quote_mark @ '':''"

definition write_unresolved :: "symbolic \<Rightarrow> str" where
  "write_unresolved s =
     ''{'' @ fixed_key ''__kind__'' @ write_json_string (symbol_kind_str (sym_kind s))
     @ '','' @ fixed_key ''__unresolved__'' @ write_json_string (sym_source s) @ ''}''"

fun write_expression :: "(f64 \<Rightarrow> str) \<Rightarrow> expr \<Rightarrow> str" where
  "write_expression ryu (Literal v) = write_value ryu v"
| "write_expression ryu (Unresolved s) = write_unresolved s"
| "write_expression ryu (EFuncCall name args sp) =
     ''{'' @ fixed_key ''__unresolved_func__'' @ write_json_string name
     @ '','' @ fixed_key ''args'' @ write_array (map (write_expression ryu) args) @ ''}''"
| "write_expression ryu (EBinary op l r sp) =
     ''{'' @ fixed_key ''__binary_op__'' @ write_json_string (binary_op_debug op)
     @ '','' @ fixed_key ''lhs'' @ write_expression ryu l
     @ '','' @ fixed_key ''rhs'' @ write_expression ryu r @ ''}''"
| "write_expression ryu (EUnary op x sp) =
     ''{'' @ fixed_key ''__unary_op__'' @ write_json_string (unary_op_debug op)
     @ '','' @ fixed_key ''operand'' @ write_expression ryu x @ ''}''"
| "write_expression ryu (ETemplate parts) =
     ''{'' @ fixed_key ''__template_concat__'' @ write_array (map (write_expression ryu) parts) @ ''}''"
| "write_expression ryu (EArray items) = write_array (map (write_expression ryu) items)"
| "write_expression ryu (EObject entries) =
     write_members (sort_key fst (map (\<lambda>(k, v). (write_expression ryu k, write_expression ryu v)) entries))"
| "write_expression ryu (EConditional c t e sp) =
     ''{'' @ fixed_key ''__conditional__'' @ ''{'' @ fixed_key ''cond'' @ write_expression ryu c
     @ '','' @ fixed_key ''else'' @ write_expression ryu e
     @ '','' @ fixed_key ''then'' @ write_expression ryu t @ ''}}''"
| "write_expression ryu (EFor binders coll key val cond object_form sp) =
     ''{'' @ fixed_key ''__for__'' @ ''{'' @ fixed_key ''binders'' @ write_array (map write_json_string binders)
     @ '','' @ fixed_key ''collection'' @ write_expression ryu coll
     @ '','' @ fixed_key ''object_form'' @ bool_str object_form
     @ '','' @ fixed_key ''value'' @ write_expression ryu val @ ''}}''"

definition expression_to_canonical :: "(f64 \<Rightarrow> str) \<Rightarrow> expr \<Rightarrow> str" where
  "expression_to_canonical ryu e = write_expression ryu e"

definition render_attribute_map :: "(f64 \<Rightarrow> str) \<Rightarrow> attribute_map \<Rightarrow> str \<Rightarrow> str" where
  "render_attribute_map ryu m out =
     out @ write_members (map (\<lambda>(k, e). (k, write_expression ryu e)) (sort_key fst m))"

definition attribute_map_to_string :: "(f64 \<Rightarrow> str) \<Rightarrow> attribute_map \<Rightarrow> str" where
  "attribute_map_to_string ryu m = render_attribute_map ryu m []"

end
