(* ===== verification/ExportJsonProps.thy ===== *)
theory ExportJsonProps
  imports ExportJson
begin

text \<open>The column is canonical JSON: a reader gets the document back, and every object in it is sorted by key.\<close>

section \<open>Documents\<close>

datatype doc =
    DNull
  | DBool bool
  | DNum str
  | DStr str
  | DArr "doc list"
  | DObj "(str \<times> doc) list"

fun print_doc :: "doc \<Rightarrow> str" where
  "print_doc DNull = ''null''"
| "print_doc (DBool b) = bool_str b"
| "print_doc (DNum s) = s"
| "print_doc (DStr s) = write_json_string s"
| "print_doc (DArr ds) = write_array (map print_doc ds)"
| "print_doc (DObj es) = write_members (map (\<lambda>(k, d). (k, print_doc d)) es)"

fun doc_sorted :: "doc \<Rightarrow> bool" where
  "doc_sorted (DArr ds) = list_all doc_sorted ds"
| "doc_sorted (DObj es) = (sorted (map fst es) \<and> list_all (\<lambda>(k, d). doc_sorted d) es)"
| "doc_sorted _ = True"

text \<open>The document of a value and of an expression, as section 4 of \<open>specs/10-data-model.md\<close> and the comments of
  \<open>json.rs\<close> describe it.  The key of an object is its string when it is a string literal, and otherwise the text of
  its own document.\<close>

fun value_doc :: "(f64 \<Rightarrow> str) \<Rightarrow> value \<Rightarrow> doc" where
  "value_doc ryu VNull = DNull"
| "value_doc ryu (VBool b) = DBool b"
| "value_doc ryu (VInt n) = DNum (int_str n)"
| "value_doc ryu (VNumber f) = (if f64_is_finite f then DNum (ryu f) else DNull)"
| "value_doc ryu (VStr s) = DStr s"
| "value_doc ryu (VList items) = DArr (map (value_doc ryu) items)"
| "value_doc ryu (VMap entries) = DObj (sort_key fst (map (\<lambda>(k, v). (k, value_doc ryu v)) entries))"

fun expr_doc :: "(f64 \<Rightarrow> str) \<Rightarrow> expr \<Rightarrow> doc" where
  "expr_doc ryu (Literal v) = value_doc ryu v"
| "expr_doc ryu (Unresolved s) =
     DObj [(''__kind__'', DStr (symbol_kind_str (sym_kind s))), (''__unresolved__'', DStr (sym_source s))]"
| "expr_doc ryu (EFuncCall name args sp) =
     DObj [(''__unresolved_func__'', DStr name), (''args'', DArr (map (expr_doc ryu) args))]"
| "expr_doc ryu (EBinary op l r sp) =
     DObj [(''__binary_op__'', DStr (binary_op_debug op)), (''lhs'', expr_doc ryu l), (''rhs'', expr_doc ryu r)]"
| "expr_doc ryu (EUnary op x sp) = DObj [(''__unary_op__'', DStr (unary_op_debug op)), (''operand'', expr_doc ryu x)]"
| "expr_doc ryu (ETemplate parts) = DObj [(''__template_concat__'', DArr (map (expr_doc ryu) parts))]"
| "expr_doc ryu (EArray items) = DArr (map (expr_doc ryu) items)"
| "expr_doc ryu (EObject entries) =
     DObj (sort_key fst (map (\<lambda>(k, v).
       (case str_literal k of Some s \<Rightarrow> s | None \<Rightarrow> print_doc (expr_doc ryu k), expr_doc ryu v)) entries))"
| "expr_doc ryu (EConditional c t e sp) =
     DObj [(''__conditional__'', DObj [(''cond'', expr_doc ryu c), (''else'', expr_doc ryu e), (''then'', expr_doc ryu t)])]"
| "expr_doc ryu (EFor binders coll key val cond object_form sp) =
     DObj [(''__for__'', DObj [(''binders'', DArr (map DStr binders)), (''collection'', expr_doc ryu coll),
       (''object_form'', DBool object_form), (''value'', expr_doc ryu val)])]"

definition attributes_doc :: "(f64 \<Rightarrow> str) \<Rightarrow> attribute_map \<Rightarrow> doc" where
  "attributes_doc ryu m = DObj (map (\<lambda>(k, e). (k, expr_doc ryu e)) (sort_key fst m))"

text \<open>What the writer does to the string keys of objects: it writes the JSON text of the key and quotes that once more, so
  \<open>a\<close> becomes the key \<open>"a"\<close> with its quotation marks.  An expression whose objects have no string literal as
  a key is left as it is.\<close>

fun quote_keys :: "expr \<Rightarrow> expr" where
  "quote_keys (EObject entries) = EObject (map (\<lambda>(k, v).
     (case str_literal k of Some s \<Rightarrow> Literal (VStr (write_json_string s)) | None \<Rightarrow> quote_keys k, quote_keys v)) entries)"
| "quote_keys (EFuncCall name args sp) = EFuncCall name (map quote_keys args) sp"
| "quote_keys (EBinary op l r sp) = EBinary op (quote_keys l) (quote_keys r) sp"
| "quote_keys (EUnary op x sp) = EUnary op (quote_keys x) sp"
| "quote_keys (ETemplate parts) = ETemplate (map quote_keys parts)"
| "quote_keys (EArray items) = EArray (map quote_keys items)"
| "quote_keys (EConditional c t e sp) = EConditional (quote_keys c) (quote_keys t) (quote_keys e) sp"
| "quote_keys (EFor binders coll key val cond object_form sp) =
     EFor binders (quote_keys coll) key (quote_keys val) cond object_form sp"
| "quote_keys (Literal v) = Literal v"
| "quote_keys (Unresolved s) = Unresolved s"

fun no_string_keys :: "expr \<Rightarrow> bool" where
  "no_string_keys (EObject entries) =
     list_all (\<lambda>(k, v). str_literal k = None \<and> no_string_keys k \<and> no_string_keys v) entries"
| "no_string_keys (EFuncCall name args sp) = list_all no_string_keys args"
| "no_string_keys (EBinary op l r sp) = (no_string_keys l \<and> no_string_keys r)"
| "no_string_keys (EUnary op x sp) = no_string_keys x"
| "no_string_keys (ETemplate parts) = list_all no_string_keys parts"
| "no_string_keys (EArray items) = list_all no_string_keys items"
| "no_string_keys (EConditional c t e sp) = (no_string_keys c \<and> no_string_keys t \<and> no_string_keys e)"
| "no_string_keys (EFor binders coll key val cond object_form sp) = (no_string_keys coll \<and> no_string_keys val)"
| "no_string_keys (Literal v) = True"
| "no_string_keys (Unresolved s) = True"

definition quote_map :: "attribute_map \<Rightarrow> attribute_map" where
  "quote_map m = map (\<lambda>(k, e). (k, quote_keys e)) m"

lemma str_literal_quote [simp]: "str_literal (quote_keys k) = str_literal k"
  by (cases k) simp_all

lemma quote_keys_plain: "no_string_keys e \<Longrightarrow> quote_keys e = e"
proof (induction e)
  case (EObject es)
  have "(\<lambda>(k, v). (case str_literal k of Some s \<Rightarrow> Literal (VStr (write_json_string s)) | None \<Rightarrow> quote_keys k, quote_keys v)) p = p"
    if "p \<in> set es" for p
  proof -
    obtain k v where p: "p = (k, v)" by (cases p)
    from EObject.prems that have "str_literal k = None" "no_string_keys k" "no_string_keys v" by (auto simp: list_all_iff p)
    with EObject.IH [OF that] show ?thesis by (simp add: p)
  qed
  then show ?case by (simp add: map_idI)
qed (auto simp: list_all_iff intro: map_idI)

text \<open>Stable sorting by the key commutes with a change of the entries' second components.\<close>

lemma insort_snd_map:
  "insort_key fst (k, h v) (map (\<lambda>(k, v). (k, h v)) xs) = map (\<lambda>(k, v). (k, h v)) (insort_key fst (k, v) xs)"
  by (induction xs) auto

lemma sort_snd_map: "sort_key fst (map (\<lambda>(k, v). (k, h v)) xs) = map (\<lambda>(k, v). (k, h v)) (sort_key fst xs)"
  by (induction xs) (auto simp: insort_snd_map)

lemma fixed_key_string: "list_all (\<lambda>c. json_escape c = [c]) k \<Longrightarrow> write_json_string k @ '':'' = fixed_key k"
proof -
  assume "list_all (\<lambda>c. json_escape c = [c]) k"
  then have "concat (map json_escape k) = k" by (induction k) auto
  then show ?thesis by (simp add: write_json_string_def fixed_key_def)
qed

lemma write_value_doc: "write_value ryu v = print_doc (value_doc ryu v)"
proof (induction v)
  case (VMap es)
  have eq: "map (\<lambda>(k, v). (k, write_value ryu v)) es =
      map (\<lambda>(k, d). (k, print_doc d)) (map (\<lambda>(k, v). (k, value_doc ryu v)) es)"
    using VMap.IH by fastforce
  show ?case by (simp only: write_value.simps value_doc.simps print_doc.simps sort_snd_map [symmetric] eq)
qed (simp_all cong: map_cong)

lemma write_object_fixed:
  "list_all (\<lambda>k. list_all (\<lambda>c. json_escape c = [c]) k) (map fst es) \<Longrightarrow>
   write_members es = ''{'' @ join_str '','' (map (\<lambda>(k, v). fixed_key k @ v) es) @ ''}''"
proof -
  assume "list_all (\<lambda>k. list_all (\<lambda>c. json_escape c = [c]) k) (map fst es)"
  then have eq: "map (\<lambda>(k, v). write_json_string k @ '':'' @ v) es = map (\<lambda>(k, v). fixed_key k @ v) es"
    by (induction es) (auto simp: fixed_key_string [symmetric])
  show ?thesis by (simp only: write_members_def eq)
qed

lemma write_object_key:
  "write_expression ryu k = print_doc (expr_doc ryu (quote_keys k)) \<Longrightarrow>
   (case str_literal (case str_literal k of Some s \<Rightarrow> Literal (VStr (write_json_string s)) | None \<Rightarrow> quote_keys k) of
      Some s \<Rightarrow> s
    | None \<Rightarrow> print_doc (expr_doc ryu (case str_literal k of Some s \<Rightarrow> Literal (VStr (write_json_string s)) | None \<Rightarrow> quote_keys k)))
   = write_expression ryu k"
  by (cases "str_literal k") auto

lemma write_expression_doc: "write_expression ryu e = print_doc (expr_doc ryu (quote_keys e))"
proof (induction e)
  case (EObject es)
  let ?q = "\<lambda>k. case str_literal k of Some s \<Rightarrow> Literal (VStr (write_json_string s)) | None \<Rightarrow> quote_keys k"
  let ?k = "\<lambda>k. case str_literal k of Some s \<Rightarrow> s | None \<Rightarrow> print_doc (expr_doc ryu k)"
  have entry: "?k (?q k) = write_expression ryu k" "print_doc (expr_doc ryu (quote_keys v)) = write_expression ryu v"
    if "(k, v) \<in> set es" for k v
  proof -
    show "?k (?q k) = write_expression ryu k" by (rule write_object_key) (use EObject.IH [OF that] in simp)
    show "print_doc (expr_doc ryu (quote_keys v)) = write_expression ryu v" using EObject.IH [OF that] by simp
  qed
  have eq: "map (\<lambda>(k, v). (write_expression ryu k, write_expression ryu v)) es =
      map (\<lambda>(k, d). (k, print_doc d)) (map (\<lambda>(k, v). (?k k, expr_doc ryu v)) (map (\<lambda>(k, v). (?q k, quote_keys v)) es))"
    unfolding map_map by (rule map_cong [OF refl]) (auto simp: entry)
  show ?case
    by (simp only: write_expression.simps quote_keys.simps expr_doc.simps print_doc.simps sort_snd_map [symmetric] eq)
next
  case (Literal v)
  then show ?case by (simp add: write_value_doc)
next
  case (ETemplate ps)
  have eq: "map (write_expression ryu) ps = map (\<lambda>x. print_doc (expr_doc ryu (quote_keys x))) ps" using ETemplate.IH by simp
  show ?case by (simp add: eq write_object_fixed comp_def json_escape_def)
next
  case (EFuncCall n args sp)
  have eq: "map (write_expression ryu) args = map (\<lambda>x. print_doc (expr_doc ryu (quote_keys x))) args" using EFuncCall.IH by simp
  show ?case by (simp add: eq write_object_fixed comp_def json_escape_def)
next
  case (EArray ps)
  have eq: "map (write_expression ryu) ps = map (\<lambda>x. print_doc (expr_doc ryu (quote_keys x))) ps" using EArray.IH by simp
  show ?case by (simp add: eq comp_def)
qed (simp_all add: write_object_fixed write_unresolved_def json_escape_def comp_def)

lemma attributes_doc: "attribute_map_to_string ryu m = print_doc (attributes_doc ryu (quote_map m))"
  unfolding attribute_map_to_string_def render_attribute_map_def attributes_doc_def quote_map_def print_doc.simps sort_snd_map
  by (simp, rule arg_cong [where f = write_members]) (auto simp: write_expression_doc)

lemma value_doc_sorted: "doc_sorted (value_doc ryu v)"
proof (induction v)
  case (VMap es)
  have "list_all (\<lambda>(k, d). doc_sorted d) (map (\<lambda>(k, v). (k, value_doc ryu v)) es)"
    using VMap.IH by (fastforce simp: list_all_iff)
  then show ?case by (auto simp: list_all_iff)
qed (simp_all add: list_all_iff)

lemma expr_doc_sorted: "doc_sorted (expr_doc ryu e)"
proof (induction e)
  case (EObject es)
  have "list_all (\<lambda>(k, d). doc_sorted d) (map (\<lambda>(k, v).
       (case str_literal k of Some s \<Rightarrow> s | None \<Rightarrow> print_doc (expr_doc ryu k), expr_doc ryu v)) es)"
    using EObject.IH by (fastforce simp: list_all_iff)
  then show ?case by (auto simp: list_all_iff)
qed (simp_all add: list_all_iff value_doc_sorted)

section \<open>A reader\<close>

text \<open>A reader of JSON text, by recursive descent; the fuel bounds the nesting of its calls.\<close>

definition hex_value :: "char \<Rightarrow> nat option" where
  "hex_value c = find (\<lambda>n. hex_digit n = c) [0..<16]"

fun unescape4 :: "str \<Rightarrow> (char \<times> str) option" where
  "unescape4 (a # b # c # d # rest) =
     (case (hex_value a, hex_value b, hex_value c, hex_value d) of
        (Some a', Some b', Some c', Some d') \<Rightarrow>
          (let n = ((a' * 16 + b') * 16 + c') * 16 + d' in if n < 128 then Some (char_of n, rest) else None)
      | _ \<Rightarrow> None)"
| "unescape4 _ = None"

definition simple_escapes :: "(char \<times> char) list" where
  "simple_escapes = [(CHR 0x22, CHR 0x22), (CHR 0x5C, CHR 0x5C), (CHR ''n'', CHR 0x0A), (CHR ''r'', CHR 0x0D),
     (CHR ''t'', CHR 0x09), (CHR ''b'', CHR 0x08), (CHR ''f'', CHR 0x0C)]"

definition read_escape :: "str \<Rightarrow> (char \<times> str) option" where
  "read_escape s =
     (case s of
        [] \<Rightarrow> None
      | c # rest \<Rightarrow> if c = CHR ''u'' then unescape4 rest else map_option (\<lambda>x. (x, rest)) (map_of simple_escapes c))"

lemma unescape4_shorter: "unescape4 s = Some (c, rest) \<Longrightarrow> length rest < length s"
  by (cases s rule: unescape4.cases) (auto simp: Let_def split: option.splits if_splits)

lemma read_escape_shorter: "read_escape s = Some (c, rest) \<Longrightarrow> length rest < length s"
  by (auto simp: read_escape_def dest!: unescape4_shorter split: list.splits if_splits)

function (sequential) read_chars :: "str \<Rightarrow> (str \<times> str) option" where
  "read_chars [] = None"
| "read_chars (c # cs) =
     (if c = CHR 0x22 then Some ([], cs)
      else if c = CHR 0x5C then
        (case read_escape cs of
           None \<Rightarrow> None
         | Some (x, rest) \<Rightarrow> map_option (\<lambda>(s, r). (x # s, r)) (read_chars rest))
      else if (of_char c :: nat) < 32 then None
      else map_option (\<lambda>(s, r). (c # s, r)) (read_chars cs))"
  by pat_completeness auto
termination
  by (relation "measure length") (auto dest: read_escape_shorter)

declare read_chars.simps [simp del]

definition read_quoted :: "str \<Rightarrow> (str \<times> str) option" where
  "read_quoted s = (case s of c # cs \<Rightarrow> if c = CHR 0x22 then read_chars cs else None | [] \<Rightarrow> None)"

definition number_char :: "char \<Rightarrow> bool" where
  "number_char c \<longleftrightarrow> c \<in> set ''0123456789+-.eE''"

text \<open>The grammar of numbers: an optional minus sign, digits without a leading zero, and optionally a fraction and an
  exponent, each with at least one digit.\<close>

definition is_digits :: "str \<Rightarrow> bool" where
  "is_digits s \<longleftrightarrow> s \<noteq> [] \<and> list_all is_ascii_digit s"

definition is_exponent :: "str \<Rightarrow> bool" where
  "is_exponent s = (case s of
       [] \<Rightarrow> True
     | e # t \<Rightarrow> (e = CHR ''e'' \<or> e = CHR ''E'') \<and>
         (case t of
            [] \<Rightarrow> False
          | c # ds \<Rightarrow> if c = CHR ''+'' \<or> c = CHR ''-'' then is_digits ds else is_digits t))"

definition is_fraction :: "str \<Rightarrow> bool" where
  "is_fraction s = (case s of
       [] \<Rightarrow> True
     | c # t \<Rightarrow> if c = CHR ''.'' then takeWhile is_ascii_digit t \<noteq> [] \<and> is_exponent (dropWhile is_ascii_digit t)
         else is_exponent s)"

definition is_magnitude :: "str \<Rightarrow> bool" where
  "is_magnitude s \<longleftrightarrow>
     (let ds = takeWhile is_ascii_digit s in
      ds \<noteq> [] \<and> (hd ds = CHR ''0'' \<longrightarrow> ds = ''0'') \<and> is_fraction (dropWhile is_ascii_digit s))"

definition is_number :: "str \<Rightarrow> bool" where
  "is_number s = (case s of [] \<Rightarrow> False | c # t \<Rightarrow> if c = CHR ''-'' then is_magnitude t else is_magnitude s)"

lemma number_grammar:
  "list_all is_number [''0'', ''-0'', ''17'', ''0.5'', ''-12.75'', ''1e16'', ''1.5E-7'']"
  "list_all (\<lambda>s. \<not> is_number s) [[], ''-'', ''01'', ''1.'', ''.5'', ''1e'', ''+1'', ''1-2'', ''--1'']"
  by code_simp+

lemma digit_char_cases: "is_ascii_digit c \<Longrightarrow> \<exists>d < 10. c = digit_char d"
proof -
  assume "is_ascii_digit c"
  then have "48 \<le> (of_char c :: nat)" "(of_char c :: nat) \<le> 57" by (simp_all add: is_ascii_digit_def char_between_def)
  moreover have "c = char_of (48 + (of_char c - 48 :: nat))" using calculation by simp
  ultimately show ?thesis by (intro exI [of _ "of_char c - 48"]) (simp add: digit_char_def)
qed

lemma digit_chars:
  "d < 10 \<Longrightarrow> number_char (digit_char d)" "d < 10 \<Longrightarrow> is_ascii_digit (digit_char d)"
  "d < 10 \<Longrightarrow> digit_char d = CHR ''0'' \<longleftrightarrow> d = 0" "d < 10 \<Longrightarrow> digit_char d \<noteq> CHR ''-''"
proof -
  have "\<forall>d \<in> set [0..<10]. number_char (digit_char d) \<and> is_ascii_digit (digit_char d) \<and>
      (digit_char d = CHR ''0'' \<longleftrightarrow> d = 0) \<and> digit_char d \<noteq> CHR ''-''" by code_simp
  then show "d < 10 \<Longrightarrow> number_char (digit_char d)" "d < 10 \<Longrightarrow> is_ascii_digit (digit_char d)"
    "d < 10 \<Longrightarrow> digit_char d = CHR ''0'' \<longleftrightarrow> d = 0" "d < 10 \<Longrightarrow> digit_char d \<noteq> CHR ''-''" by simp_all
qed

lemma digit_number_char: "is_ascii_digit c \<Longrightarrow> number_char c"
  using digit_char_cases digit_chars(1) by blast

lemma digits_number_chars: "list_all number_char (takeWhile is_ascii_digit s)"
  by (auto simp: list_all_iff dest!: set_takeWhileD digit_number_char)

lemma number_char_marks [simp]:
  "number_char (CHR ''e'')" "number_char (CHR ''E'')" "number_char (CHR ''+'')" "number_char (CHR ''-'')" "number_char (CHR ''.'')"
  by (simp_all add: number_char_def)

lemma is_digits_chars: "is_digits s \<Longrightarrow> list_all number_char s"
  by (auto simp: is_digits_def list_all_iff digit_number_char)

lemma exponent_chars: "is_exponent s \<Longrightarrow> list_all number_char s"
  by (auto simp: is_exponent_def split: list.splits if_splits dest!: is_digits_chars)

lemma split_digits: "list_all number_char (dropWhile is_ascii_digit s) \<Longrightarrow> list_all number_char s"
  using digits_number_chars [of s] takeWhile_dropWhile_id [of is_ascii_digit s] by (metis list_all_append)

lemma fraction_chars: "is_fraction s \<Longrightarrow> list_all number_char s"
  by (cases s) (auto simp: is_fraction_def split: if_splits dest: exponent_chars split_digits [OF exponent_chars])

lemma number_chars:
  assumes "is_number s"
  shows "s \<noteq> []" "list_all number_char s"
proof -
  have m: "list_all number_char t" if "is_magnitude t" for t
    by (rule split_digits, rule fraction_chars) (use that in \<open>simp add: is_magnitude_def Let_def\<close>)
  obtain c t where s: "s = c # t" using assms by (cases s) (auto simp: is_number_def)
  then show "s \<noteq> []" by simp
  show "list_all number_char s"
  proof (cases "c = CHR ''-''")
    case True
    then show ?thesis using assms m [of t] by (simp add: is_number_def s)
  next
    case False
    then show ?thesis using assms m [of s] by (simp add: is_number_def s)
  qed
qed

fun read_doc :: "nat \<Rightarrow> str \<Rightarrow> (doc \<times> str) option"
and read_items :: "nat \<Rightarrow> str \<Rightarrow> (doc list \<times> str) option"
and read_entries :: "nat \<Rightarrow> str \<Rightarrow> ((str \<times> doc) list \<times> str) option" where
  "read_doc 0 s = None"
| "read_doc (Suc n) s =
     (case s of
        [] \<Rightarrow> None
      | c # cs \<Rightarrow>
          if c = CHR 0x22 then map_option (\<lambda>(t, r). (DStr t, r)) (read_chars cs)
          else if c = CHR ''['' then
            (if prefix '']'' cs then Some (DArr [], tl cs) else map_option (\<lambda>(ds, r). (DArr ds, r)) (read_items n cs))
          else if c = CHR ''{'' then
            (if prefix ''}'' cs then Some (DObj [], tl cs) else map_option (\<lambda>(es, r). (DObj es, r)) (read_entries n cs))
          else if prefix ''null'' s then Some (DNull, drop 4 s)
          else if prefix ''true'' s then Some (DBool True, drop 4 s)
          else if prefix ''false'' s then Some (DBool False, drop 5 s)
          else if is_number (takeWhile number_char s) then Some (DNum (takeWhile number_char s), dropWhile number_char s)
          else None)"
| "read_items 0 s = None"
| "read_items (Suc n) s =
     (case read_doc n s of
        Some (d, c # r) \<Rightarrow>
          if c = CHR '']'' then Some ([d], r)
          else if c = CHR '','' then map_option (\<lambda>(ds, r). (d # ds, r)) (read_items n r)
          else None
      | _ \<Rightarrow> None)"
| "read_entries 0 s = None"
| "read_entries (Suc n) s =
     (case read_quoted s of
        Some (k, col # t) \<Rightarrow>
          if col \<noteq> CHR '':'' then None
          else (case read_doc n t of
            Some (d, c # r) \<Rightarrow>
              if c = CHR ''}'' then Some ([(k, d)], r)
              else if c = CHR '','' then map_option (\<lambda>(es, r). ((k, d) # es, r)) (read_entries n r)
              else None
          | _ \<Rightarrow> None)
      | _ \<Rightarrow> None)"

definition json_read :: "str \<Rightarrow> doc option" where
  "json_read s =
     (case read_doc (2 * length s) s of Some (d, []) \<Rightarrow> Some d | _ \<Rightarrow> None)"

section \<open>The reader inverts the writer\<close>

lemma hex_value_digit: "n < 16 \<Longrightarrow> hex_value (hex_digit n) = Some n"
proof -
  assume "n < 16"
  moreover have "\<forall>n \<in> set [0..<16]. hex_value (hex_digit n) = Some n" by code_simp
  ultimately show ?thesis by simp
qed

lemma unescape4_hex4: "n < 32 \<Longrightarrow> unescape4 (hex4 n @ r) = Some (char_of n, r)"
proof -
  assume n: "n < 32"
  then have "n div 16 < 16" by (simp add: less_mult_imp_div_less)
  then have "n div 16 mod 16 * 16 + n mod 16 = n" by simp
  moreover have "n div 4096 = 0" "n div 256 = 0" using n by simp_all
  ultimately show ?thesis using n by (simp add: hex4_def hex_value_digit Let_def del: mod_div_trivial)
qed

lemma simple_escapes_json:
  "list_all (\<lambda>(e, c). json_escape c = [CHR 0x5C, e] \<and> e \<noteq> CHR ''u'' \<and> map_of simple_escapes e = Some c) simple_escapes"
  by code_simp

lemma read_escape_json:
  assumes "json_escape c \<noteq> [c]"
  shows "\<exists>t. json_escape c = CHR 0x5C # t \<and> read_escape (t @ r) = Some (c, r)"
proof (cases "c \<in> set (map snd simple_escapes)")
  case True
  then obtain e where "(e, c) \<in> set simple_escapes" by auto
  with simple_escapes_json have "json_escape c = [CHR 0x5C, e] \<and> e \<noteq> CHR ''u'' \<and> map_of simple_escapes e = Some c"
    by (auto simp: list_all_iff)
  then show ?thesis by (simp add: read_escape_def)
next
  case False
  then have "json_escape c = (if (of_char c :: nat) < 32 then [CHR 0x5C, CHR ''u''] @ hex4 (of_char c) else [c])"
    by (simp add: json_escape_def simple_escapes_def Let_def)
  with assms have "(of_char c :: nat) < 32" "json_escape c = CHR 0x5C # CHR ''u'' # hex4 (of_char c)"
    by (simp_all split: if_splits)
  then show ?thesis using unescape4_hex4 [of "of_char c" r] by (simp add: read_escape_def)
qed

lemma read_chars_escaped: "read_chars (concat (map json_escape s) @ CHR 0x22 # r) = Some (s, r)"
proof (induction s)
  case (Cons c s)
  show ?case
  proof (cases "json_escape c = [c]")
    case True
    then have "c \<noteq> CHR 0x22" "c \<noteq> CHR 0x5C" "\<not> (of_char c :: nat) < 32"
      by (auto simp: json_escape_def Let_def split: if_splits)
    then show ?thesis using Cons.IH True by (simp add: read_chars.simps)
  next
    case False
    from read_escape_json [OF this] obtain t where
      "json_escape c = CHR 0x5C # t" "read_escape (t @ concat (map json_escape s) @ CHR 0x22 # r) = Some (c, concat (map json_escape s) @ CHR 0x22 # r)"
      by blast
    then show ?thesis using Cons.IH by (simp add: read_chars.simps)
  qed
qed (simp add: read_chars.simps)

lemma read_json_string: "read_quoted (write_json_string s @ r) = Some (s, r)"
  using read_chars_escaped [of s r] by (simp add: write_json_string_def quote_mark_def read_quoted_def)

fun numbers_ok :: "doc \<Rightarrow> bool" where
  "numbers_ok (DNum s) = is_number s"
| "numbers_ok (DArr ds) = list_all numbers_ok ds"
| "numbers_ok (DObj es) = list_all (\<lambda>(k, d). numbers_ok d) es"
| "numbers_ok _ = True"

text \<open>A text after which a number token has ended.\<close>

definition ends :: "str \<Rightarrow> bool" where
  "ends r = (case r of [] \<Rightarrow> True | c # _ \<Rightarrow> \<not> number_char c)"

lemma ends_simps [simp]: "ends []" "ends (CHR '']'' # r)" "ends (CHR ''}'' # r)" "ends (CHR '','' # r)"
  by (simp_all add: ends_def number_char_def)

lemma take_number: "list_all number_char s \<Longrightarrow> ends r \<Longrightarrow> takeWhile number_char (s @ r) = s \<and> dropWhile number_char (s @ r) = r"
  by (induction s) (auto simp: ends_def split: list.splits)

lemma print_doc_head:
  "numbers_ok d \<Longrightarrow> \<exists>c cs. print_doc d = c # cs \<and> c \<noteq> CHR '']'' \<and> c \<noteq> CHR ''}''"
proof (cases d)
  case (DNum s)
  moreover assume "numbers_ok d"
  ultimately show ?thesis using number_chars [of s] by (cases s) (auto simp: number_char_def)
qed (auto simp: bool_str_def write_json_string_def quote_mark_def write_array_def write_members_def)

lemma read_items_print:
  assumes "\<And>d n r. d \<in> set ds \<Longrightarrow> ends r \<Longrightarrow> 2 * length (print_doc d) \<le> n \<Longrightarrow> read_doc n (print_doc d @ r) = Some (d, r)"
    and "ds \<noteq> []" and "2 * length (join_str '','' (map print_doc ds)) + 1 \<le> n"
  shows "read_items n (join_str '','' (map print_doc ds) @ CHR '']'' # r) = Some (ds, r)"
  using assms
proof (induction ds arbitrary: n)
  case (Cons d ds)
  from Cons.prems(3) obtain m where n: "n = Suc m" by (cases n) auto
  show ?case
  proof (cases "ds = []")
    case True
    then have "read_doc m (print_doc d @ CHR '']'' # r) = Some (d, CHR '']'' # r)"
      using Cons.prems(1) [of d "CHR '']'' # r" m] Cons.prems(3) by (simp add: n)
    then show ?thesis by (simp add: n True)
  next
    case False
    let ?rest = "join_str '','' (map print_doc ds) @ CHR '']'' # r"
    have len: "2 * length (print_doc d) \<le> m" "2 * length (join_str '','' (map print_doc ds)) + 1 \<le> m"
      using Cons.prems(3) False by (simp_all add: n join_str_Cons)
    have "read_doc m (print_doc d @ CHR '','' # ?rest) = Some (d, CHR '','' # ?rest)"
      by (rule Cons.prems(1)) (simp_all add: len)
    moreover have "read_items m ?rest = Some (ds, r)"
      by (rule Cons.IH [OF Cons.prems(1) False len(2)]) simp_all
    ultimately show ?thesis using False by (simp add: n join_str_Cons)
  qed
qed simp

lemma read_entries_print:
  assumes "\<And>e n r. e \<in> set es \<Longrightarrow> ends r \<Longrightarrow> 2 * length (print_doc (snd e)) \<le> n \<Longrightarrow>
      read_doc n (print_doc (snd e) @ r) = Some (snd e, r)"
    and "es \<noteq> []" and "2 * length (join_str '','' (map (\<lambda>(k, d). write_json_string k @ '':'' @ print_doc d) es)) + 1 \<le> n"
  shows "read_entries n (join_str '','' (map (\<lambda>(k, d). write_json_string k @ '':'' @ print_doc d) es) @ CHR ''}'' # r) = Some (es, r)"
  using assms
proof (induction es arbitrary: n)
  case (Cons e es)
  obtain k d where e: "e = (k, d)" by (cases e)
  let ?p = "\<lambda>(k, d). write_json_string k @ '':'' @ print_doc d"
  from Cons.prems(3) obtain m where n: "n = Suc m" by (cases n) auto
  show ?case
  proof (cases "es = []")
    case True
    then have "read_doc m (print_doc d @ CHR ''}'' # r) = Some (d, CHR ''}'' # r)"
      using Cons.prems(1) [of e "CHR ''}'' # r" m] Cons.prems(3) by (simp add: n e)
    then show ?thesis by (simp add: n e True read_json_string)
  next
    case False
    let ?rest = "join_str '','' (map ?p es) @ CHR ''}'' # r"
    have len: "2 * length (print_doc d) \<le> m" "2 * length (join_str '','' (map ?p es)) + 1 \<le> m"
      using Cons.prems(3) False by (simp_all add: n e join_str_Cons)
    have "read_doc m (print_doc d @ CHR '','' # ?rest) = Some (d, CHR '','' # ?rest)"
      using Cons.prems(1) [of e "CHR '','' # ?rest" m] len by (simp add: e)
    moreover have "read_entries m ?rest = Some (es, r)"
      by (rule Cons.IH [OF Cons.prems(1) False len(2)]) (rule list.set_intros(2), assumption+)
    ultimately show ?thesis using False by (simp add: n e join_str_Cons read_json_string)
  qed
qed simp

lemma read_print_doc:
  "numbers_ok d \<Longrightarrow> ends r \<Longrightarrow> 2 * length (print_doc d) \<le> n \<Longrightarrow> read_doc n (print_doc d @ r) = Some (d, r)"
proof (induction d arbitrary: n r)
  case (DArr ds)
  then obtain m where n: "n = Suc m" by (cases n) (auto simp: write_array_def)
  show ?case
  proof (cases ds)
    case Nil
    then show ?thesis by (simp add: n write_array_def)
  next
    case (Cons d ds')
    let ?t = "join_str '','' (map print_doc ds) @ CHR '']'' # r"
    have "read_items m ?t = Some (ds, r)"
      by (rule read_items_print) (use DArr in \<open>auto simp: n write_array_def Cons list_all_iff\<close>)
    moreover have "\<not> prefix '']'' ?t"
      using print_doc_head [of d] DArr.prems(1) Cons by (cases ds') (auto simp: join_str_Cons)
    ultimately show ?thesis by (simp add: n write_array_def)
  qed
next
  case (DObj es)
  let ?p = "\<lambda>(k, d). write_json_string k @ '':'' @ print_doc d"
  obtain m where n: "n = Suc m" using DObj.prems by (cases n) (auto simp: write_members_def)
  have eq: "map (\<lambda>(k, v). write_json_string k @ '':'' @ v) (map (\<lambda>(k, d). (k, print_doc d)) es) = map ?p es" by auto
  show ?case
  proof (cases es)
    case Nil
    then show ?thesis by (simp add: n write_members_def)
  next
    case (Cons e es')
    let ?t = "join_str '','' (map ?p es) @ CHR ''}'' # r"
    have ok: "\<forall>e \<in> set es. numbers_ok (snd e)" using DObj.prems(1) by (auto simp: list_all_iff)
    have "read_entries m ?t = Some (es, r)"
    proof (rule read_entries_print)
      show "read_doc n (print_doc (snd e) @ r) = Some (snd e, r)"
        if "e \<in> set es" "ends r" "2 * length (print_doc (snd e)) \<le> n" for e n r
        by (rule DObj.IH [OF that(1) _ _ that(2,3)]) (use ok that(1) in \<open>auto simp: prod_set_defs\<close>)
      show "2 * length (join_str '','' (map ?p es)) + 1 \<le> m"
        using DObj.prems(3) unfolding print_doc.simps write_members_def eq by (simp add: n)
    qed (simp add: Cons)
    moreover have "\<not> prefix ''}'' ?t"
      using Cons by (cases es') (auto simp: join_str_Cons write_json_string_def quote_mark_def split: prod.splits)
    ultimately show ?thesis unfolding print_doc.simps write_members_def eq by (simp add: n)
  qed
next
  case (DNum s)
  then obtain m c cs where n: "n = Suc m" and s: "s = c # cs" by (cases n; cases s) (auto simp: is_number_def)
  have c: "number_char c" "list_all number_char s" using DNum.prems(1) number_chars [of s] by (simp_all add: s)
  then have "c \<noteq> CHR 0x22" "c \<noteq> CHR ''[''" "c \<noteq> CHR ''{''" "c \<noteq> CHR ''n''" "c \<noteq> CHR ''t''" "c \<noteq> CHR ''f''"
    by (auto simp: number_char_def)
  moreover have "is_number s" using DNum.prems(1) by simp
  ultimately show ?case using take_number [OF c(2) DNum.prems(2)] by (simp add: n s)
next
  case (DStr s)
  then obtain m where n: "n = Suc m" by (cases n) (auto simp: write_json_string_def quote_mark_def)
  then show ?case using read_chars_escaped [of s r] by (simp add: write_json_string_def quote_mark_def)
next
  case (DBool b)
  then obtain m where n: "n = Suc m" by (cases n) (auto simp: bool_str_def split: if_splits)
  then show ?case by (cases b) (simp_all add: bool_str_def)
next
  case DNull
  then obtain m where n: "n = Suc m" by (cases n) auto
  then show ?case by simp
qed

lemma json_read_print: "numbers_ok d \<Longrightarrow> json_read (print_doc d) = Some d"
  using read_print_doc [of d "[]"] by (simp add: json_read_def)

section \<open>Numbers\<close>

lemma nat_str_shape:
  "nat_str n \<noteq> [] \<and> list_all is_ascii_digit (nat_str n) \<and> hd (nat_str n) \<noteq> CHR ''-'' \<and> (hd (nat_str n) = CHR ''0'' \<longleftrightarrow> n = 0)"
proof (induction n rule: nat_str.induct)
  case (1 n)
  show ?case
  proof (cases "n < 10")
    case True
    then show ?thesis by (subst (1 2 3 4) nat_str.simps) (simp add: digit_chars)
  next
    case False
    then have "n div 10 \<noteq> 0" "n mod 10 < 10" by simp_all
    with 1 [OF False] show ?thesis by (subst (1 2 3 4) nat_str.simps) (simp add: False digit_chars)
  qed
qed

lemma nat_str_magnitude: "is_magnitude (nat_str n)"
proof -
  have digits: "takeWhile is_ascii_digit (nat_str n) = nat_str n" "dropWhile is_ascii_digit (nat_str n) = []"
    using nat_str_shape [of n] by (simp_all add: list_all_iff takeWhile_eq_all_conv dropWhile_eq_Nil_conv)
  have "nat_str 0 = ''0''" by code_simp
  with nat_str_shape [of n] show ?thesis by (auto simp: is_magnitude_def digits is_fraction_def)
qed

lemma int_str_number: "is_number (int_str i)"
proof (cases "i < 0")
  case True
  then show ?thesis using nat_str_magnitude by (simp add: int_str_def is_number_def)
next
  case False
  then show ?thesis using nat_str_magnitude [of "nat i"] nat_str_shape [of "nat i"]
    by (cases "nat_str (nat i)") (simp_all add: int_str_def is_number_def)
qed

lemma value_doc_numbers:
  assumes "\<And>f. f64_is_finite f \<Longrightarrow> is_number (ryu f)"
  shows "numbers_ok (value_doc ryu v)"
proof (induction v)
  case (VMap es)
  have "list_all (\<lambda>(k, d). numbers_ok d) (map (\<lambda>(k, v). (k, value_doc ryu v)) es)"
    using VMap.IH by (fastforce simp: list_all_iff)
  then show ?case by (auto simp: list_all_iff)
qed (simp_all add: list_all_iff assms int_str_number)

lemma expr_doc_numbers:
  assumes "\<And>f. f64_is_finite f \<Longrightarrow> is_number (ryu f)"
  shows "numbers_ok (expr_doc ryu e)"
proof (induction e)
  case (EObject es)
  have "list_all (\<lambda>(k, d). numbers_ok d) (map (\<lambda>(k, v).
       (case str_literal k of Some s \<Rightarrow> s | None \<Rightarrow> print_doc (expr_doc ryu k), expr_doc ryu v)) es)"
    using EObject.IH by (fastforce simp: list_all_iff)
  then show ?case by (auto simp: list_all_iff)
qed (simp_all add: list_all_iff value_doc_numbers assms)

section \<open>Properties\<close>

text \<open>C28. The \<open>attributes_json\<close> text of an attribute map is JSON in canonical form.  If the float formatter yields JSON
  numbers, a reader of JSON (no raw control characters in strings, numbers by the grammar) reads it back, and what it reads
  is the document sections 4 of specs/10 and 3.3 of specs/20 describe, whatever the strings, keys and nesting (non-finite
  numbers are \<open>null\<close>), with the keys of every object in ascending order.  The one exception is in the statement: the
  writer quotes a string literal that is a key of an unresolved object twice, so the document read is the one of the map with these
  keys quoted, and it is the documented one when there are none.  (Of a comprehension the comments describe no form; its key
  expression and condition are not in the text.)\<close>

theorem attributes_json_canonical:
  assumes "\<And>f. f64_is_finite f \<Longrightarrow> is_number (ryu f)"
  shows "json_read (attribute_map_to_string ryu m) = Some (attributes_doc ryu (quote_map m)) \<and>
    doc_sorted (attributes_doc ryu (quote_map m)) \<and>
    (list_all (\<lambda>(k, e). no_string_keys e) m \<longrightarrow> quote_map m = m)"
proof (intro conjI impI)
  have "numbers_ok (attributes_doc ryu m)" for m
    using expr_doc_numbers [OF assms] by (auto simp: attributes_doc_def list_all_iff)
  then show "json_read (attribute_map_to_string ryu m) = Some (attributes_doc ryu (quote_map m))"
    by (simp only: attributes_doc json_read_print)
  have "map fst (map (\<lambda>(k, e). (k, expr_doc ryu e)) (sort_key fst m)) = map fst (sort_key fst m)" for m by auto
  then have "sorted (map fst (map (\<lambda>(k, e). (k, expr_doc ryu e)) (sort_key fst m)))" for m by (rule ssubst) simp
  then show "doc_sorted (attributes_doc ryu (quote_map m))"
    unfolding attributes_doc_def doc_sorted.simps using expr_doc_sorted by (auto simp: list_all_iff simp del: map_map)
  show "list_all (\<lambda>(k, e). no_string_keys e) m \<Longrightarrow> quote_map m = m"
    by (auto simp: quote_map_def list_all_iff quote_keys_plain intro!: map_idI)
qed

definition json_example :: attribute_map where
  "json_example = [(''tags'', Literal (VMap [(''b'', VStr [CHR 0x22, CHR 0x0A, CHR 0x01]), (''a'', VInt (- 5))])),
     (''ids'', EArray [Literal (VNumber (Inf False)), Literal (VBool True)])]"

theorem attributes_json_canonical_witness:
  "json_read (attribute_map_to_string (\<lambda>_. ''0.5'') json_example) =
     Some (DObj [(''ids'', DArr [DNull, DBool True]),
       (''tags'', DObj [(''a'', DNum ''-5''), (''b'', DStr [CHR 0x22, CHR 0x0A, CHR 0x01])])])"
proof -
  have "is_number ''0.5''" by code_simp
  from attributes_json_canonical [OF this, of json_example]
  have "json_read (attribute_map_to_string (\<lambda>_. ''0.5'') json_example) = Some (attributes_doc (\<lambda>_. ''0.5'') (quote_map json_example))"
    and plain: "list_all (\<lambda>(k, e). no_string_keys e) json_example \<Longrightarrow> quote_map json_example = json_example"
    by blast+
  moreover have "list_all (\<lambda>(k, e). no_string_keys e) json_example" by code_simp
  moreover have "attributes_doc (\<lambda>_. ''0.5'') json_example = DObj [(''ids'', DArr [DNull, DBool True]),
       (''tags'', DObj [(''a'', DNum ''-5''), (''b'', DStr [CHR 0x22, CHR 0x0A, CHR 0x01])])]"
    by code_simp
  ultimately show ?thesis by simp
qed

text \<open>The key of an object that is not resolved comes out with quotation marks of its own; the same key of a literal
  map does not.\<close>

lemma object_key_quoted_twice:
  "json_read (write_expression ryu (EObject [(Literal (VStr ''a''), EArray [])])) = Some (DObj [([CHR 0x22] @ ''a'' @ [CHR 0x22], DArr [])])"
  "json_read (write_value ryu (VMap [(''a'', VList [])])) = Some (DObj [(''a'', DArr [])])"
  by code_simp+

end
