(* ===== verification/ExportRows.thy ===== *)
theory ExportRows
  imports ExportJson Edges Discovery
begin

text \<open>The rows of the exported tables: \<open>resources.parquet\<close> (\<open>exporter/writer.rs\<close>), and \<open>dependencies\<close>, \<open>components\<close> and
  \<open>modules\<close> (\<open>exporter/secondary.rs\<close>), with the schemas (\<open>exporter/schema.rs\<close>).  A table is a list of rows; a row is a
  record with one field per column.\<close>

section \<open>Schemas\<close>

datatype column_type = ColUtf8 | ColUtf8List | ColUInt32 | ColUInt64 | ColBoolean | ColTimestampMs

definition parser_version :: str where
  "parser_version = ''0.1.1''"

definition schema_major :: nat where "schema_major = 0"
definition schema_minor :: nat where "schema_minor = 1"

definition utf8_field :: "str \<Rightarrow> str \<times> column_type" where
  "utf8_field name = (name, ColUtf8)"

definition resources_schema :: "(str \<times> column_type) list" where
  "resources_schema =
     [utf8_field ''workspace_root'', utf8_field ''component_path'', utf8_field ''module_path'', utf8_field ''address'',
      utf8_field ''kind'', utf8_field ''resource_type'', utf8_field ''resource_name'', utf8_field ''provider_local'',
      utf8_field ''provider_source'', utf8_field ''account_id'', utf8_field ''account_name'', utf8_field ''region'',
      utf8_field ''environment'', utf8_field ''count_expr'', utf8_field ''for_each_expr'', (''depends_on'', ColUtf8List),
      utf8_field ''attributes_json'', utf8_field ''state_account_id'', utf8_field ''state_region'', utf8_field ''file'',
      (''line'', ColUInt32), (''column'', ColUInt32), utf8_field ''parser_version'', (''parsed_at'', ColTimestampMs)]"

definition schema_field_names :: "str list" where
  "schema_field_names =
     [''workspace_root'', ''component_path'', ''module_path'', ''address'', ''kind'', ''resource_type'', ''resource_name'',
      ''provider_local'', ''provider_source'', ''account_id'', ''account_name'', ''region'', ''environment'', ''count_expr'',
      ''for_each_expr'', ''depends_on'', ''attributes_json'', ''state_account_id'', ''state_region'', ''file'', ''line'',
      ''column'', ''parser_version'', ''parsed_at'']"

definition dependencies_schema :: "(str \<times> column_type) list" where
  "dependencies_schema =
     [utf8_field ''from_address'', utf8_field ''to_address'', utf8_field ''edge_kind'', utf8_field ''source_attr'',
      utf8_field ''file'', (''line'', ColUInt32), (''column'', ColUInt32)]"

definition dependencies_field_names :: "str list" where
  "dependencies_field_names =
     [''from_address'', ''to_address'', ''edge_kind'', ''source_attr'', ''file'', ''line'', ''column'']"

definition components_schema :: "(str \<times> column_type) list" where
  "components_schema =
     [utf8_field ''component_path'', utf8_field ''kind'', (''resource_count'', ColUInt32), (''data_count'', ColUInt32),
      (''module_call_count'', ColUInt32), (''output_count'', ColUInt32), (''variable_count'', ColUInt32),
      (''local_count'', ColUInt32), (''provider_count'', ColUInt32), (''environments_seen'', ColUtf8List),
      (''has_terragrunt'', ColBoolean), utf8_field ''state_backend_kind'', utf8_field ''state_account_id'',
      utf8_field ''state_region'', (''unresolved_count'', ColUInt64)]"

definition components_field_names :: "str list" where
  "components_field_names =
     [''component_path'', ''kind'', ''resource_count'', ''data_count'', ''module_call_count'', ''output_count'',
      ''variable_count'', ''local_count'', ''provider_count'', ''environments_seen'', ''has_terragrunt'',
      ''state_backend_kind'', ''state_account_id'', ''state_region'', ''unresolved_count'']"

definition modules_schema :: "(str \<times> column_type) list" where
  "modules_schema =
     [utf8_field ''module_id'', utf8_field ''source_raw'', utf8_field ''source_kind'', utf8_field ''canonical_path'',
      (''call_count'', ColUInt32), (''resolved'', ColBoolean)]"

definition modules_field_names :: "str list" where
  "modules_field_names = [''module_id'', ''source_raw'', ''source_kind'', ''canonical_path'', ''call_count'', ''resolved'']"

section \<open>Rendering\<close>

definition render_path :: "path \<Rightarrow> str" where
  "render_path p = join_str ''/'' (map component_str p)"

definition span_relative_file :: "span \<Rightarrow> str" where
  "span_relative_file sp = render_path (span_file sp)"

definition provider_ref_string :: "provider_ref \<Rightarrow> str" where
  "provider_ref_string r =
     (case pref_alias r of
        Some a \<Rightarrow> if a \<noteq> [] then pref_local_name r @ ''.'' @ a else pref_local_name r
      | None \<Rightarrow> pref_local_name r)"

fun render_expression_source :: "(f64 \<Rightarrow> str) \<Rightarrow> expr \<Rightarrow> str" where
  "render_expression_source ryu (Literal (VInt n)) = int_str n"
| "render_expression_source ryu (Literal (VBool b)) = bool_str b"
| "render_expression_source ryu (Literal (VStr s)) = s"
| "render_expression_source ryu (Literal (VNumber f)) =
     (if f64_is_finite f then ryu f else render_attribute_map ryu [([], Literal (VNumber f))] [])"
| "render_expression_source ryu (Unresolved s) = sym_source s"
| "render_expression_source ryu e = render_attribute_map ryu [([], e)] []"

text \<open>\<open>.map(\<dots>).unwrap_or_default()\<close> on a text column.\<close>

definition or_empty :: "('a \<Rightarrow> str) \<Rightarrow> 'a option \<Rightarrow> str" where
  "or_empty f x = (case x of None \<Rightarrow> [] | Some y \<Rightarrow> f y)"

section \<open>Rows of \<open>resources\<close>\<close>

record emitted_row =
  er_module_path :: str
  er_address :: str
  er_kind :: str
  er_resource_type :: str
  er_resource_name :: str
  er_provider_local :: str
  er_provider_source :: str
  er_account_id :: str
  er_account_name :: str
  er_region :: str
  er_environment :: str
  er_count_expr :: str
  er_for_each_expr :: str
  er_depends_on :: "str list"
  er_attributes :: attribute_map
  er_state_account_id :: str
  er_state_region :: str
  er_file :: str
  er_line :: nat
  er_column :: nat

definition resource_row :: "(f64 \<Rightarrow> str) \<Rightarrow> str \<Rightarrow> str \<Rightarrow> resource \<Rightarrow> emitted_row" where
  "resource_row ryu state_account state_region r =
     \<lparr>er_module_path = module_path (res_address r), er_address = addr_str (res_address r),
      er_kind = (case res_kind r of Managed \<Rightarrow> ''resource'' | DataSource \<Rightarrow> ''data''),
      er_resource_type = res_type r, er_resource_name = res_name r,
      er_provider_local = or_empty provider_ref_string (res_provider_ref r), er_provider_source = [],
      er_account_id = or_empty account_str (res_account_id r), er_account_name = or_empty (\<lambda>s. s) (res_account_name r),
      er_region = or_empty region_str (res_region r), er_environment = [],
      er_count_expr = or_empty (render_expression_source ryu) (res_count_expr r),
      er_for_each_expr = or_empty (render_expression_source ryu) (res_for_each_expr r),
      er_depends_on = map addr_str (res_depends_on r), er_attributes = res_attributes r,
      er_state_account_id = state_account, er_state_region = state_region,
      er_file = span_relative_file (res_span r), er_line = span_line (res_span r), er_column = span_column (res_span r)\<rparr>"

text \<open>A row with only the columns every kind fills.\<close>

definition plain_row :: "str \<Rightarrow> str \<Rightarrow> str \<Rightarrow> attribute_map \<Rightarrow> span \<Rightarrow> emitted_row" where
  "plain_row addr kind name attrs sp =
     \<lparr>er_module_path = [], er_address = addr, er_kind = kind, er_resource_type = [], er_resource_name = name,
      er_provider_local = [], er_provider_source = [], er_account_id = [], er_account_name = [], er_region = [],
      er_environment = [], er_count_expr = [], er_for_each_expr = [], er_depends_on = [], er_attributes = attrs,
      er_state_account_id = [], er_state_region = [], er_file = span_relative_file sp, er_line = span_line sp,
      er_column = span_column sp\<rparr>"

definition provider_row :: "provider_block \<Rightarrow> emitted_row" where
  "provider_row p =
     (let local_name = prov_local_name p;
          provider_local = (case prov_alias p of
             Some a \<Rightarrow> if a \<noteq> [] then local_name @ ''.'' @ a else local_name
           | None \<Rightarrow> local_name)
      in (plain_row (''provider.'' @ provider_local) ''provider'' provider_local (prov_raw p) (prov_span p))
           \<lparr>er_provider_local := provider_local, er_provider_source := or_empty (\<lambda>s. s) (prov_source_addr p)\<rparr>)"

definition module_call_row :: "(f64 \<Rightarrow> str) \<Rightarrow> module_call \<Rightarrow> emitted_row" where
  "module_call_row ryu m =
     (let addr = addr_str (mc_address m) in
      (plain_row addr ''module''
         (case strip_prefix_str ''module.'' addr of None \<Rightarrow> addr | Some r \<Rightarrow> r) (mc_inputs m) (mc_span m))
        \<lparr>er_module_path := module_path (mc_address m),
         er_provider_local := (case mc_providers m of [] \<Rightarrow> [] | (_, r) # _ \<Rightarrow> provider_ref_string r),
         er_provider_source := mc_source_raw m,
         er_count_expr := or_empty (render_expression_source ryu) (mc_count_expr m),
         er_for_each_expr := or_empty (render_expression_source ryu) (mc_for_each_expr m)\<rparr>)"

text \<open>\<open>if let Some(x) = \<dots> { attrs.push((key, \<dots>)) }\<close>.\<close>

definition push_attr :: "str \<Rightarrow> ('a \<Rightarrow> expr) \<Rightarrow> 'a option \<Rightarrow> attribute_map" where
  "push_attr key f x = (case x of None \<Rightarrow> [] | Some y \<Rightarrow> [(key, f y)])"

definition variable_row :: "variable \<Rightarrow> emitted_row" where
  "variable_row v =
     plain_row (''var.'' @ var_name v) ''variable'' (var_name v)
       (push_attr ''type'' (\<lambda>e. e) (var_type_expr v) @ push_attr ''default'' (\<lambda>e. e) (var_default v)
        @ push_attr ''description'' (\<lambda>s. Literal (VStr s)) (var_description v)
        @ [(''sensitive'', Literal (VBool (var_sensitive v)))]) (var_span v)"

definition local_row :: "local_def \<Rightarrow> emitted_row" where
  "local_row l = plain_row (''local.'' @ loc_name l) ''local'' (loc_name l) [(''value'', loc_value l)] (loc_span l)"

definition output_row :: "output_def \<Rightarrow> emitted_row" where
  "output_row out =
     plain_row (''output.'' @ out_name out) ''output'' (out_name out)
       ([(''value'', out_value out)] @ push_attr ''description'' (\<lambda>s. Literal (VStr s)) (out_description out)
        @ [(''sensitive'', Literal (VBool (out_sensitive out)))]) (out_span out)"

text \<open>The columns of one row: what the component adds to an emitted row.\<close>

record table_row =
  tr_workspace_root :: str
  tr_component_path :: str
  tr_emitted :: emitted_row
  tr_attributes_json :: str
  tr_parser_version :: str
  tr_parsed_at :: int

definition approx_row_bytes :: "table_row \<Rightarrow> nat" where
  "approx_row_bytes row =
     (let e = tr_emitted row in
      length (tr_workspace_root row) + length (tr_component_path row) + length (er_module_path e) + length (er_address e)
      + length (er_kind e) + length (er_resource_type e) + length (er_resource_name e) + length (er_provider_local e)
      + length (er_provider_source e) + length (er_account_id e) + length (er_account_name e) + length (er_region e)
      + length (er_environment e) + length (er_count_expr e) + length (er_for_each_expr e)
      + sum_list (map length (er_depends_on e)) + length (tr_attributes_json row) + length (er_state_account_id e)
      + length (er_state_region e) + length (er_file e) + 8)"

text \<open>The builders hold the rows not yet flushed; a flush makes them one batch.\<close>

record row_builders =
  bld_rows :: "table_row list"
  bld_approx_bytes :: nat
  bld_batches :: "table_row list list"
  bld_total :: nat

definition builders_new :: row_builders where
  "builders_new = \<lparr>bld_rows = [], bld_approx_bytes = 0, bld_batches = [], bld_total = 0\<rparr>"

definition append_row :: "table_row \<Rightarrow> row_builders \<Rightarrow> row_builders" where
  "append_row row b =
     b\<lparr>bld_rows := bld_rows b @ [row], bld_approx_bytes := bld_approx_bytes b + approx_row_bytes row,
       bld_total := min (bld_total b + 1) u64_max\<rparr>"

definition flush_batch :: "row_builders \<Rightarrow> row_builders" where
  "flush_batch b = b\<lparr>bld_rows := [], bld_approx_bytes := 0, bld_batches := bld_batches b @ [bld_rows b]\<rparr>"

definition emit_row :: "nat \<Rightarrow> nat \<Rightarrow> table_row \<Rightarrow> row_builders \<Rightarrow> row_builders" where
  "emit_row group_rows group_bytes row b =
     (let b = append_row row b in
      if length (bld_rows b) \<ge> group_rows \<or> bld_approx_bytes b \<ge> group_bytes then flush_batch b else b)"

definition component_rows :: "(f64 \<Rightarrow> str) \<Rightarrow> component \<Rightarrow> emitted_row list" where
  "component_rows ryu c =
     (let state_account = or_empty account_str (Option.bind (comp_state_backend c) sb_state_account_id);
          state_region = or_empty region_str (Option.bind (comp_state_backend c) sb_state_region)
      in sort_key (\<lambda>r. (er_module_path r, er_address r))
           (map (resource_row ryu state_account state_region) (comp_resources c) @ map provider_row (comp_providers c)
            @ map (module_call_row ryu) (comp_modules c) @ map variable_row (comp_variables c)
            @ map local_row (comp_locals c) @ map output_row (comp_outputs c)))"

definition table_row_of :: "(f64 \<Rightarrow> str) \<Rightarrow> str \<Rightarrow> str \<Rightarrow> int \<Rightarrow> emitted_row \<Rightarrow> table_row" where
  "table_row_of ryu wroot cpath parsed_at e =
     \<lparr>tr_workspace_root = wroot, tr_component_path = cpath, tr_emitted = e,
      tr_attributes_json = attribute_map_to_string ryu (er_attributes e), tr_parser_version = parser_version,
      tr_parsed_at = parsed_at\<rparr>"

definition emit_component_rows ::
  "(f64 \<Rightarrow> str) \<Rightarrow> str \<Rightarrow> int \<Rightarrow> nat \<Rightarrow> nat \<Rightarrow> component \<Rightarrow> row_builders \<Rightarrow> row_builders" where
  "emit_component_rows ryu wroot parsed_at group_rows group_bytes c b =
     fold (\<lambda>e. emit_row group_rows group_bytes (table_row_of ryu wroot (render_path (comp_path c)) parsed_at e))
       (component_rows ryu c) b"

text \<open>The body of \<open>write_resources_parquet\<close> between opening and closing the writer: the batches it writes.\<close>

definition sorted_components :: "workspace \<Rightarrow> component list" where
  "sorted_components ws = sort_key (\<lambda>c. path_str (comp_path c)) (ws_components ws)"

definition resource_batches :: "(f64 \<Rightarrow> str) \<Rightarrow> int \<Rightarrow> nat \<Rightarrow> nat \<Rightarrow> workspace \<Rightarrow> table_row list list \<times> nat" where
  "resource_batches ryu parsed_at group_rows group_bytes ws =
     (let b = fold (emit_component_rows ryu (path_str (ws_root ws)) parsed_at group_rows group_bytes)
                (sorted_components ws) builders_new;
          b = (if bld_rows b \<noteq> [] then flush_batch b else b)
      in (bld_batches b, bld_total b))"

definition max_prealloc_rows :: nat where
  "max_prealloc_rows = 1000000"

definition projected_row_count :: "workspace \<Rightarrow> nat" where
  "projected_row_count ws =
     min (sum_list (map (\<lambda>c. length (comp_resources c) + length (comp_providers c) + length (comp_modules c)
                         + length (comp_outputs c) + length (comp_variables c) + length (comp_locals c)) (ws_components ws)))
       max_prealloc_rows"

end
