(* ===== verification/ExportTables.thy ===== *)
theory ExportTables
  imports ExportRows
begin

text \<open>The rows of the secondary tables (\<open>exporter/secondary.rs\<close>).\<close>

section \<open>\<open>dependencies\<close>\<close>

record dependency_row =
  dr_from :: str
  dr_to :: str
  dr_kind :: str
  dr_source_attr :: str
  dr_file :: str
  dr_line :: nat
  dr_column :: nat

definition dependency_row_of :: "edge \<Rightarrow> dependency_row" where
  "dependency_row_of e =
     \<lparr>dr_from = addr_str (edge_from e), dr_to = addr_str (edge_to e), dr_kind = edge_kind_str (edge_kind e),
      dr_source_attr = or_empty (\<lambda>s. s) (edge_attr e), dr_file = render_path (span_file (edge_span e)),
      dr_line = span_line (edge_span e), dr_column = span_column (edge_span e)\<rparr>"

definition dependency_rows :: "workspace \<Rightarrow> dependency_row list" where
  "dependency_rows ws = map dependency_row_of (ws_edges ws)"

section \<open>\<open>components\<close>\<close>

definition sat_add64 :: "nat \<Rightarrow> nat \<Rightarrow> nat" where
  "sat_add64 n k = min (n + k) u64_max"

definition sat_add32 :: "nat \<Rightarrow> nat \<Rightarrow> nat" where
  "sat_add32 n k = min (n + k) u32_max"

text \<open>\<open>walk\<close>: the counter after an expression.\<close>

fun walk_unresolved :: "expr \<Rightarrow> nat \<Rightarrow> nat" where
  "walk_unresolved (Literal v) n = n"
| "walk_unresolved (Unresolved s) n = sat_add64 n 1"
| "walk_unresolved (EBinary op l r sp) n = walk_unresolved r (walk_unresolved l n)"
| "walk_unresolved (EUnary op x sp) n = walk_unresolved x n"
| "walk_unresolved (ETemplate ps) n = fold walk_unresolved ps n"
| "walk_unresolved (EArray ps) n = fold walk_unresolved ps n"
| "walk_unresolved (EObject es) n = fold (\<lambda>(k, v) n. walk_unresolved v (walk_unresolved k n)) es n"
| "walk_unresolved (EFuncCall name args sp) n = fold walk_unresolved args n"
| "walk_unresolved (EConditional c t e sp) n = walk_unresolved e (walk_unresolved t (walk_unresolved c n))"
| "walk_unresolved (EFor bs coll key val cond obj sp) n =
     (let n1 = walk_unresolved val (walk_unresolved coll n);
          n2 = (case key of None \<Rightarrow> n1 | Some k \<Rightarrow> walk_unresolved k n1)
      in case cond of None \<Rightarrow> n2 | Some c \<Rightarrow> walk_unresolved c n2)"

definition walk_attributes :: "attribute_map \<Rightarrow> nat \<Rightarrow> nat" where
  "walk_attributes as n = fold (\<lambda>(k, e). walk_unresolved e) as n"

definition count_unresolved :: "component \<Rightarrow> nat" where
  "count_unresolved c =
     (let n1 = fold (\<lambda>r. walk_attributes (res_attributes r)) (comp_resources c) 0;
          n2 = fold (\<lambda>m. walk_attributes (mc_inputs m)) (comp_modules c) n1;
          n3 = fold (\<lambda>out. walk_unresolved (out_value out)) (comp_outputs c) n2
      in fold (\<lambda>l. walk_unresolved (loc_value l)) (comp_locals c) n3)"

record component_row =
  cr_path :: str
  cr_kind :: str
  cr_resource_count :: nat
  cr_data_count :: nat
  cr_module_call_count :: nat
  cr_output_count :: nat
  cr_variable_count :: nat
  cr_local_count :: nat
  cr_provider_count :: nat
  cr_environments_seen :: "str list"
  cr_has_terragrunt :: bool
  cr_state_backend_kind :: str
  cr_state_account_id :: str
  cr_state_region :: str
  cr_unresolved_count :: nat

definition count_kinds :: "resource list \<Rightarrow> nat \<times> nat" where
  "count_kinds rs = fold (\<lambda>r (res, data). case res_kind r of
      Managed \<Rightarrow> (sat_add32 res 1, data) | DataSource \<Rightarrow> (res, sat_add32 data 1)) rs (0, 0)"

definition len_u32 :: "'a list \<Rightarrow> nat" where
  "len_u32 xs = (if length xs \<le> u32_max then length xs else u32_max)"

definition effective_backend :: "component \<Rightarrow> state_backend option" where
  "effective_backend c =
     (case Option.bind (comp_terragrunt c) tgc_state_backend of Some b \<Rightarrow> Some b | None \<Rightarrow> comp_state_backend c)"

definition component_row_of :: "workspace \<Rightarrow> component \<Rightarrow> component_row" where
  "component_row_of ws c =
     (let (n_res, n_data) = count_kinds (comp_resources c); b = effective_backend c in
      \<lparr>cr_path = render_path (comp_path c),
       cr_kind = (case comp_kind c of CkComponent \<Rightarrow> ''component'' | CkModule \<Rightarrow> ''module''),
       cr_resource_count = n_res, cr_data_count = n_data, cr_module_call_count = len_u32 (comp_modules c),
       cr_output_count = len_u32 (comp_outputs c), cr_variable_count = len_u32 (comp_variables c),
       cr_local_count = len_u32 (comp_locals c), cr_provider_count = len_u32 (comp_providers c),
       cr_environments_seen = remdups_adj (sort (map env_name (ws_environments ws))),
       cr_has_terragrunt = (comp_terragrunt c \<noteq> None), cr_state_backend_kind = or_empty sb_kind b,
       cr_state_account_id = or_empty account_str (Option.bind b sb_state_account_id),
       cr_state_region = or_empty region_str (Option.bind b sb_state_region),
       cr_unresolved_count = count_unresolved c\<rparr>)"

definition component_table :: "workspace \<Rightarrow> component_row list" where
  "component_table ws = map (component_row_of ws) (sorted_components ws)"

section \<open>\<open>modules\<close>\<close>

fun source_raw_str :: "module_source \<Rightarrow> str" where
  "source_raw_str (SrcLocal v) = v"
| "source_raw_str (SrcRegistry v) = v"
| "source_raw_str (SrcGit v) = v"
| "source_raw_str (SrcExternal v) = v"

fun source_kind_str :: "module_source \<Rightarrow> str" where
  "source_kind_str (SrcLocal _) = ''local''"
| "source_kind_str (SrcRegistry _) = ''registry''"
| "source_kind_str (SrcGit _) = ''git''"
| "source_kind_str (SrcExternal _) = ''external''"

definition source_key :: "module_source \<Rightarrow> str" where
  "source_key s = source_kind_str s @ ''|'' @ source_raw_str s"

record module_row =
  mr_module_id :: str
  mr_source_raw :: str
  mr_source_kind :: str
  mr_canonical_path :: str
  mr_call_count :: nat
  mr_resolved :: bool

definition from_walked :: "module \<Rightarrow> nat \<Rightarrow> module_row" where
  "from_walked m n =
     \<lparr>mr_module_id = nat_str (mod_id m), mr_source_raw = source_raw_str (mod_source m),
      mr_source_kind = source_kind_str (mod_source m), mr_canonical_path = or_empty render_path (mod_canonical_path m),
      mr_call_count = n, mr_resolved = (mod_canonical_path m \<noteq> None)\<rparr>"

definition from_call_site :: "module_call \<Rightarrow> nat \<Rightarrow> module_row" where
  "from_call_site m n =
     \<lparr>mr_module_id = [], mr_source_raw = mc_source_raw m, mr_source_kind = source_kind_str (mc_source m),
      mr_canonical_path = [], mr_call_count = n, mr_resolved = False\<rparr>"

definition workspace_calls :: "workspace \<Rightarrow> module_call list" where
  "workspace_calls ws = concat (map comp_modules (ws_components ws))"

definition bump :: "str \<Rightarrow> (str \<rightharpoonup> nat) \<Rightarrow> (str \<rightharpoonup> nat)" where
  "bump k counts = counts(k \<mapsto> sat_add32 (case counts k of None \<Rightarrow> 0 | Some n \<Rightarrow> n) 1)"

definition call_counts :: "workspace \<Rightarrow> (str \<rightharpoonup> nat)" where
  "call_counts ws = fold (\<lambda>m. bump (source_key (mc_source m))) (workspace_calls ws) Map.empty"

definition count_of :: "(str \<rightharpoonup> nat) \<Rightarrow> str \<Rightarrow> nat" where
  "count_of counts k = (case counts k of None \<Rightarrow> 0 | Some n \<Rightarrow> n)"

text \<open>\<open>Vec::dedup_by\<close> on source text and kind: of equal neighbours the first stays.\<close>

definition same_source :: "module_row \<Rightarrow> module_row \<Rightarrow> bool" where
  "same_source a b \<longleftrightarrow> mr_source_raw a = mr_source_raw b \<and> mr_source_kind a = mr_source_kind b"

fun dedup_rows :: "module_row list \<Rightarrow> module_row list" where
  "dedup_rows [] = []"
| "dedup_rows [r] = [r]"
| "dedup_rows (r # r' # rs) = (if same_source r' r then dedup_rows (r # rs) else r # dedup_rows (r' # rs))"

definition module_rows :: "workspace \<Rightarrow> module_row list" where
  "module_rows ws =
     (let counts = call_counts ws;
          walked = map (\<lambda>m. source_key (mod_source m)) (ws_modules ws);
          rows = map (\<lambda>m. from_walked m (count_of counts (source_key (mod_source m)))) (ws_modules ws)
                 @ map (\<lambda>m. from_call_site m (count_of counts (source_key (mc_source m))))
                     (filter (\<lambda>m. source_key (mc_source m) \<notin> set walked) (workspace_calls ws))
      in dedup_rows (sort_key (\<lambda>r. (mr_source_raw r, mr_source_kind r)) rows))"

end
