(* ===== verification/ExportTablesProps.thy ===== *)
theory ExportTablesProps
  imports ExportTables "HOL-Library.Multiset"
begin

text \<open>What the tables hold: the rows of \<open>resources\<close>, their batches, and the rows of \<open>modules\<close>.\<close>

section \<open>Batches\<close>











section \<open>Module rows\<close>

lemma source_key_inj: "source_key s = source_key s' \<longleftrightarrow> source_kind_str s = source_kind_str s' \<and> source_raw_str s = source_raw_str s'"
  by (cases s; cases s') (auto simp: source_key_def)

definition calls_of :: "workspace \<Rightarrow> module_source \<Rightarrow> module_call list" where
  "calls_of ws s = filter (\<lambda>m. source_key (mc_source m) = source_key s) (workspace_calls ws)"

lemma bump_counts:
  "count_of (fold (\<lambda>m. bump (source_key (mc_source m))) ms counts) k =
     min (count_of counts k + length (filter (\<lambda>m. source_key (mc_source m) = k) ms)) u32_max"
  if "count_of counts k \<le> u32_max"
  using that by (induction ms arbitrary: counts) (auto simp: bump_def count_of_def sat_add32_def min_def)

lemma call_counts_of: "count_of (call_counts ws) (source_key s) = min (length (calls_of ws s)) u32_max"
  using bump_counts [of Map.empty] by (simp add: call_counts_def calls_of_def count_of_def)

abbreviation row_source :: "module_row \<Rightarrow> str \<times> str" where
  "row_source r \<equiv> (mr_source_raw r, mr_source_kind r)"

lemma dedup_rows_set: "set (dedup_rows rs) \<subseteq> set rs \<and> row_source ` set (dedup_rows rs) = row_source ` set rs"
  by (induction rs rule: dedup_rows.induct) (auto simp: same_source_def image_iff)

lemma dedup_rows_sorted:
  "sorted (map row_source rs) \<Longrightarrow> sorted (map row_source (dedup_rows rs)) \<and> distinct (map row_source (dedup_rows rs))"
proof (induction rs rule: dedup_rows.induct)
  case (3 r r' rs)
  show ?case
  proof (cases "same_source r' r")
    case True
    then show ?thesis using 3 by simp
  next
    case False
    then have ih: "sorted (map row_source (dedup_rows (r' # rs))) \<and> distinct (map row_source (dedup_rows (r' # rs)))"
      using 3 by simp
    have img: "set (map row_source (dedup_rows (r' # rs))) = set (map row_source (r' # rs))"
      using dedup_rows_set [of "r' # rs"] by auto
    have "row_source r < y" if "y \<in> set (map row_source (r' # rs))" for y
    proof -
      have "row_source r \<le> row_source r'" "row_source r' \<le> y" using "3.prems" that by auto
      moreover have "row_source r \<noteq> row_source r'" using False by (auto simp: same_source_def)
      ultimately show ?thesis by order
    qed
    then have lt: "\<forall>y \<in> set (map row_source (dedup_rows (r' # rs))). row_source r < y" unfolding img by blast
    then have "\<forall>y \<in> set (map row_source (dedup_rows (r' # rs))). row_source r \<le> y" "row_source r \<notin> set (map row_source (dedup_rows (r' # rs)))"
      by (blast intro: less_imp_le)+
    with ih show ?thesis unfolding dedup_rows.simps using False by (simp only: if_False list.map sorted_simps distinct.simps simp_thms)
  qed
qed simp_all

text \<open>\<open>modules.parquet\<close> has exactly one row per module source, sorted: the sources of the workspace's modules
  and of all module calls, each with the number of calls whose source has the same text and kind (saturating), provided
  the raw text of every call is that of its source.\<close>

theorem module_rows_exact:
  assumes "\<And>m. m \<in> set (workspace_calls ws) \<Longrightarrow> source_raw_str (mc_source m) = mc_source_raw m"
  shows "sorted (map row_source (module_rows ws)) \<and> distinct (map row_source (module_rows ws))
    \<and> row_source ` set (module_rows ws) =
        (\<lambda>s. (source_raw_str s, source_kind_str s)) ` (mod_source ` set (ws_modules ws) \<union> mc_source ` set (workspace_calls ws))
    \<and> (\<forall>r \<in> set (module_rows ws). \<exists>s. row_source r = (source_raw_str s, source_kind_str s)
         \<and> mr_call_count r = min (length (calls_of ws s)) u32_max)"
proof -
  let ?walked = "map (\<lambda>m. from_walked m (count_of (call_counts ws) (source_key (mod_source m)))) (ws_modules ws)"
  let ?left = "filter (\<lambda>m. source_key (mc_source m) \<notin> (\<lambda>m. source_key (mod_source m)) ` set (ws_modules ws)) (workspace_calls ws)"
  let ?calls = "map (\<lambda>m. from_call_site m (count_of (call_counts ws) (source_key (mc_source m)))) ?left"
  have rows: "module_rows ws = dedup_rows (sort_key row_source (?walked @ ?calls))" by (simp add: module_rows_def Let_def)
  have sd: "sorted (map row_source (module_rows ws)) \<and> distinct (map row_source (module_rows ws))"
    unfolding rows by (rule dedup_rows_sorted) simp
  have sub: "set (module_rows ws) \<subseteq> set (?walked @ ?calls)" "row_source ` set (module_rows ws) = row_source ` set (?walked @ ?calls)"
    using dedup_rows_set [of "sort_key row_source (?walked @ ?calls)"] by (simp_all add: rows)
  let ?id = "\<lambda>s. (source_raw_str s, source_kind_str s)"
  have walked: "row_source ` set ?walked = ?id ` mod_source ` set (ws_modules ws)" by (force simp: from_walked_def image_iff)
  have left: "row_source ` set ?calls = ?id ` mc_source ` set ?left" using assms by (force simp: from_call_site_def image_iff)
  let ?f = "\<lambda>m. ?id (mc_source m)" and ?mods = "?id ` mod_source ` set (ws_modules ws)"
  have "?f m \<in> ?mods \<union> ?f ` set ?left" if "m \<in> set (workspace_calls ws)" for m
    using that by (cases "m \<in> set ?left") (auto simp: source_key_inj image_iff)
  moreover have "set ?left \<subseteq> set (workspace_calls ws)" by (rule filter_is_subset)
  ultimately have "?mods \<union> ?f ` set ?left = ?mods \<union> ?f ` set (workspace_calls ws)" by blast
  then have img: "row_source ` set (?walked @ ?calls) = ?id ` (mod_source ` set (ws_modules ws) \<union> mc_source ` set (workspace_calls ws))"
    by (simp only: set_append image_Un walked left image_image)
  have each: "\<exists>s. row_source r = ?id s \<and> mr_call_count r = min (length (calls_of ws s)) u32_max"
    if "r \<in> set (?walked @ ?calls)" for r
  proof -
    from that consider m where "r = from_walked m (count_of (call_counts ws) (source_key (mod_source m)))"
      | m where "m \<in> set (workspace_calls ws)" "r = from_call_site m (count_of (call_counts ws) (source_key (mc_source m)))"
      by auto
    then show ?thesis
    proof cases
      case (1 m)
      then show ?thesis by (intro exI [of _ "mod_source m"]) (simp add: from_walked_def call_counts_of)
    next
      case (2 m)
      then show ?thesis by (intro exI [of _ "mc_source m"]) (simp add: from_call_site_def call_counts_of assms)
    qed
  qed
  have "\<forall>r \<in> set (module_rows ws). \<exists>s. row_source r = ?id s \<and> mr_call_count r = min (length (calls_of ws s)) u32_max"
    using each sub(1) by (intro ballI) (erule each [OF subsetD], assumption)
  with sd trans [OF sub(2) img] show ?thesis by (intro conjI) (elim conjE, assumption)+
qed

section \<open>Concrete tables\<close>

definition span_ex :: span where
  "span_ex = \<lparr>span_file = [Normal ''main.tf''], span_start = 0, span_end = 1, span_line = 1, span_column = 1\<rparr>"

definition vpc_call :: "str \<Rightarrow> module_call" where
  "vpc_call name = \<lparr>mc_address = Address (''module.'' @ name), mc_source_raw = ''../modules/vpc'', mc_source = SrcLocal ''../modules/vpc'',
     mc_resolved = None, mc_providers = [], mc_inputs = [], mc_count_expr = None, mc_for_each_expr = None, mc_span = span_ex\<rparr>"

definition calls_component :: component where
  "calls_component = \<lparr>comp_id = 1, comp_path = [Normal ''app''], comp_kind = CkComponent, comp_files = [], comp_variables = [],
     comp_locals = [\<lparr>loc_name = ''env'', loc_value = Literal (VStr ''prod''), loc_span = span_ex\<rparr>], comp_providers = [],
     comp_resources = [], comp_modules = [vpc_call ''b'', vpc_call ''a''], comp_outputs = [], comp_terragrunt = None,
     comp_state_backend = None\<rparr>"

definition calls_workspace :: workspace where
  "calls_workspace = \<lparr>ws_root = [RootDir, Normal ''w''], ws_components = [calls_component], ws_modules = [], ws_environments = [],
     ws_diagnostics = [], ws_edges = []\<rparr>"


theorem module_rows_exact_witness:
  "row_source ` set (module_rows calls_workspace) = {(''../modules/vpc'', ''local'')}
   \<and> list_all (\<lambda>r. \<exists>s. mr_call_count r = min (length (calls_of calls_workspace s)) u32_max) (module_rows calls_workspace)"
proof -
  have calls: "workspace_calls calls_workspace = [vpc_call ''b'', vpc_call ''a'']"
    by (simp add: workspace_calls_def calls_workspace_def calls_component_def)
  have "source_raw_str (mc_source m) = mc_source_raw m" if "m \<in> set (workspace_calls calls_workspace)" for m
    using that by (auto simp: calls vpc_call_def)
  note exact = module_rows_exact [of calls_workspace, OF this]
  have "ws_modules calls_workspace = []" by (simp add: calls_workspace_def)
  with exact have "row_source ` set (module_rows calls_workspace) = {(''../modules/vpc'', ''local'')}"
    by (simp add: calls vpc_call_def)
  moreover from exact have
    "list_all (\<lambda>r. \<exists>s. mr_call_count r = min (length (calls_of calls_workspace s)) u32_max) (module_rows calls_workspace)"
    unfolding list_all_iff by blast
  ultimately show ?thesis by (rule conjI)
qed

end
