(* ===== verification/Export.thy ===== *)
theory Export
  imports ExportTables
begin

text \<open>The exporter (\<open>exporter/writer.rs\<close>, \<open>exporter/manifest.rs\<close>, the writer plumbing of \<open>exporter/secondary.rs\<close>): every
  file is written as \<open><file>.partial\<close>, synced and renamed.

  The output directory is explicit state.  Every I/O call can fail: \<open>xe_fault n\<close> is the error of the \<open>n\<close>-th call, if it
  has one, and \<open>xe_torn n\<close> how many bytes of the data had arrived when it failed.  The Parquet encoder, the manifest
  serialiser, SHA-256 and the clock are arguments.\<close>

section \<open>Options and reports\<close>

datatype compression_opt = Uncompressed | Zstd int | Snappy

definition compression_zstd :: "int \<Rightarrow> validation_error + compression_opt" where
  "compression_zstd level =
     (if \<not> (1 \<le> level \<and> level \<le> 22) then Err (OutOfRange ''CompressionOpt::Zstd.level'' 1 22 level) else Ok (Zstd level))"

datatype secondary_table = Dependencies | Components | Modules

fun file_stem :: "secondary_table \<Rightarrow> str" where
  "file_stem Dependencies = ''dependencies''"
| "file_stem Components = ''components''"
| "file_stem Modules = ''modules''"

record export_options =
  xo_out_dir :: path
  xo_row_group_rows :: nat
  xo_row_group_bytes :: nat
  xo_compression :: compression_opt
  xo_overwrite :: bool
  xo_parsed_at_ms :: "int option"
  xo_command_line :: str
  xo_tables :: "secondary_table list"

definition export_options_new :: "path \<Rightarrow> export_options" where
  "export_options_new dir =
     \<lparr>xo_out_dir = dir, xo_row_group_rows = 131072, xo_row_group_bytes = 64 * 1024 * 1024, xo_compression = Zstd 3,
      xo_overwrite = False, xo_parsed_at_ms = None, xo_command_line = [], xo_tables = []\<rparr>"

record exported_file =
  xf_path :: path
  xf_rows :: nat
  xf_bytes :: nat
  xf_sha256 :: str

record export_report =
  xr_files :: "exported_file list"
  xr_total_rows :: nat
  xr_bytes_written :: nat

record manifest_file =
  mf_name :: str
  mf_rows :: nat
  mf_bytes :: nat
  mf_sha256 :: str

record manifest =
  mn_tfparser_version :: str
  mn_schema_major :: nat
  mn_schema_minor :: nat
  mn_generated_at_ms :: int
  mn_workspace_root :: str
  mn_command_line :: str
  mn_files :: "manifest_file list"

section \<open>The output directory\<close>

text \<open>What the encoder is given: the batches of a table.\<close>

datatype table_data =
    ResourceData "table_row list list"
  | DependencyData "dependency_row list"
  | ComponentData "component_row list"
  | ModuleData "module_row list"

datatype encode_error = EncodeArrow str | EncodeParquet str

record export_env =
  xe_fault :: "nat \<Rightarrow> str option"
  xe_torn :: "nat \<Rightarrow> nat"
  xe_os_error :: str
  xe_encode :: "compression_opt \<Rightarrow> table_data \<Rightarrow> (encode_error \<times> str) + str"
  xe_manifest_json :: "manifest \<Rightarrow> str + str"
  xe_sha256_hex :: "str \<Rightarrow> str"
  xe_now_ms :: int
  xe_ryu :: "f64 \<Rightarrow> str"

record out_state =
  os_files :: "path \<rightharpoonup> str"
  os_dirs :: "path \<Rightarrow> bool"
  os_calls :: nat

type_synonym 'a out_io = "out_state \<Rightarrow> out_state \<times> (export_error + 'a)"

definition io_return :: "'a \<Rightarrow> 'a out_io" where
  "io_return x st = (st, Ok x)"

definition io_fail :: "export_error \<Rightarrow> 'a out_io" where
  "io_fail e st = (st, Err e)"

definition io_bind :: "'a out_io \<Rightarrow> ('a \<Rightarrow> 'b out_io) \<Rightarrow> 'b out_io" where
  "io_bind m k st = (case m st of (st', Inl e) \<Rightarrow> (st', Err e) | (st', Inr x) \<Rightarrow> k x st')"

definition out_exists :: "out_state \<Rightarrow> path \<Rightarrow> bool" where
  "out_exists st p \<longleftrightarrow> os_files st p \<noteq> None \<or> os_dirs st p"

text \<open>One call: it fails with \<open>err\<close> and leaves the files \<open>torn\<close>, or it leaves the files \<open>done\<close>.\<close>

definition io_call ::
  "export_env \<Rightarrow> (str \<Rightarrow> export_error) \<Rightarrow> (nat \<Rightarrow> (path \<rightharpoonup> str) \<Rightarrow> (path \<rightharpoonup> str)) \<Rightarrow>
   ((path \<rightharpoonup> str) \<Rightarrow> (path \<rightharpoonup> str)) \<Rightarrow> unit out_io" where
  "io_call env err torn done st =
     (let n = os_calls st; st1 = st\<lparr>os_calls := n + 1\<rparr> in
      case xe_fault env n of
        Some e \<Rightarrow> (st1\<lparr>os_files := torn (xe_torn env n) (os_files st)\<rparr>, Err (err e))
      | None \<Rightarrow> (st1\<lparr>os_files := done (os_files st)\<rparr>, Ok ()))"

definition untorn :: "nat \<Rightarrow> (path \<rightharpoonup> str) \<Rightarrow> (path \<rightharpoonup> str)" where
  "untorn n fs = fs"

definition remove_stale :: "export_env \<Rightarrow> path \<Rightarrow> unit out_io" where
  "remove_stale env p st =
     (if \<not> out_exists st p then io_return () st
      else if os_dirs st p then io_fail (XIo p (xe_os_error env)) st
      else io_call env (XIo p) untorn (\<lambda>fs. fs(p := None)) st)"

definition create_new :: "export_env \<Rightarrow> path \<Rightarrow> unit out_io" where
  "create_new env p st =
     (if out_exists st p then io_fail (XIo p (xe_os_error env)) st
      else io_call env (XIo p) untorn (\<lambda>fs. fs(p \<mapsto> [])) st)"

definition write_bytes :: "export_env \<Rightarrow> (str \<Rightarrow> export_error) \<Rightarrow> path \<Rightarrow> str \<Rightarrow> unit out_io" where
  "write_bytes env err p bytes =
     io_call env err (\<lambda>n fs. fs(p \<mapsto> take n bytes)) (\<lambda>fs. fs(p \<mapsto> bytes))"

definition sync_all :: "export_env \<Rightarrow> path \<Rightarrow> unit out_io" where
  "sync_all env p = io_call env (XIo p) untorn (\<lambda>fs. fs)"

definition rename_file :: "export_env \<Rightarrow> path \<Rightarrow> path \<Rightarrow> unit out_io" where
  "rename_file env src dst st =
     (if os_dirs st dst then io_fail (XIo src (xe_os_error env)) st
      else io_call env (XIo src) untorn (\<lambda>fs. fs(dst := fs src, src := None)) st)"

definition read_file_bytes :: "export_env \<Rightarrow> path \<Rightarrow> str out_io" where
  "read_file_bytes env p =
     io_bind (io_call env (XIo p) untorn (\<lambda>fs. fs)) (\<lambda>_ st.
       case os_files st p of None \<Rightarrow> (st, Err (XIo p (xe_os_error env))) | Some bytes \<Rightarrow> (st, Ok bytes))"

definition file_len :: "export_env \<Rightarrow> path \<Rightarrow> nat out_io" where
  "file_len env p = io_bind (read_file_bytes env p) (\<lambda>bytes. io_return (length bytes))"

definition sha256_hex_of_file :: "export_env \<Rightarrow> path \<Rightarrow> str out_io" where
  "sha256_hex_of_file env p = io_bind (read_file_bytes env p) (\<lambda>bytes. io_return (xe_sha256_hex env bytes))"

section \<open>Atomic writes\<close>

definition partial_path :: "path \<Rightarrow> path" where
  "partial_path p = butlast p @ [Normal (component_str (last p) @ ''.partial'')]"

text \<open>From the removal of a stale \<open>.partial\<close> to the size of the renamed file, for data that is known (the manifest).\<close>

definition publish :: "export_env \<Rightarrow> path \<Rightarrow> nat out_io" where
  "publish env final =
     (let p = partial_path final in
      io_bind (sync_all env p) (\<lambda>_. io_bind (rename_file env p final) (\<lambda>_. file_len env final)))"

definition open_partial :: "export_env \<Rightarrow> path \<Rightarrow> unit out_io" where
  "open_partial env final =
     io_bind (remove_stale env (partial_path final)) (\<lambda>_. create_new env (partial_path final))"

text \<open>A Parquet file: the encoder may refuse the data having written some bytes, the data may not get through the
  encoder (a \<open>ParquetError\<close>) or through the last flush (an I/O error).\<close>

definition write_parquet :: "export_env \<Rightarrow> compression_opt \<Rightarrow> path \<Rightarrow> table_data \<Rightarrow> nat out_io" where
  "write_parquet env codec final data =
     (let p = partial_path final in
      io_bind (open_partial env final) (\<lambda>_.
      case xe_encode env codec data of
        Inl (EncodeArrow e, bytes) \<Rightarrow> io_bind (write_bytes env (XIo p) p bytes) (\<lambda>_. io_fail (XArrow p e))
      | Inl (EncodeParquet e, bytes) \<Rightarrow> io_bind (write_bytes env (XIo p) p bytes) (\<lambda>_. io_fail (XParquet p e))
      | Inr bytes \<Rightarrow>
          io_bind (write_bytes env (XParquet p) p bytes) (\<lambda>_.
          io_bind (write_bytes env (XIo p) p bytes) (\<lambda>_. publish env final))))"

definition write_resources_parquet :: "export_env \<Rightarrow> workspace \<Rightarrow> export_options \<Rightarrow> path \<Rightarrow> int \<Rightarrow> (nat \<times> nat) out_io" where
  "write_resources_parquet env ws opts final parsed_at =
     (let (batches, total) = resource_batches (xe_ryu env) parsed_at (xo_row_group_rows opts) (xo_row_group_bytes opts) ws in
      io_bind (write_parquet env (xo_compression opts) final (ResourceData batches)) (\<lambda>bytes. io_return (total, bytes)))"

definition table_data_of :: "workspace \<Rightarrow> secondary_table \<Rightarrow> table_data" where
  "table_data_of ws t =
     (case t of
        Dependencies \<Rightarrow> DependencyData (dependency_rows ws)
      | Components \<Rightarrow> ComponentData (component_table ws)
      | Modules \<Rightarrow> ModuleData (module_rows ws))"

fun table_data_rows :: "table_data \<Rightarrow> nat" where
  "table_data_rows (ResourceData batches) = length (concat batches)"
| "table_data_rows (DependencyData rows) = length rows"
| "table_data_rows (ComponentData rows) = length rows"
| "table_data_rows (ModuleData rows) = length rows"

text \<open>A secondary table is one batch, built before its file is opened: a refusal by Arrow names the final path.\<close>

definition write_single_batch :: "export_env \<Rightarrow> compression_opt \<Rightarrow> path \<Rightarrow> table_data \<Rightarrow> (nat \<times> nat) out_io" where
  "write_single_batch env codec final data =
     (case xe_encode env codec data of
        Inl (EncodeArrow e, _) \<Rightarrow> io_fail (XArrow final e)
      | _ \<Rightarrow> io_bind (write_parquet env codec final data) (\<lambda>bytes. io_return (table_data_rows data, bytes)))"

definition write_manifest :: "export_env \<Rightarrow> manifest \<Rightarrow> path \<Rightarrow> bool \<Rightarrow> nat out_io" where
  "write_manifest env m final overwrite st =
     (if out_exists st final \<and> \<not> overwrite then io_fail (XOutputExists final) st
      else case xe_manifest_json env m of
        Inl e \<Rightarrow> io_fail (XManifest final e) st
      | Inr bytes \<Rightarrow>
          io_bind (open_partial env final) (\<lambda>_.
          io_bind (write_bytes env (XIo (partial_path final)) (partial_path final) bytes) (\<lambda>_. publish env final)) st)"

section \<open>The export\<close>

definition validate_out_dir :: "path \<Rightarrow> unit out_io" where
  "validate_out_dir dir st =
     (if \<not> out_exists st dir then io_fail (XOutDirMissing dir) st
      else if \<not> os_dirs st dir then io_fail (XOutDirNotDir dir) st
      else io_return () st)"

definition resources_path :: "export_options \<Rightarrow> path" where
  "resources_path opts = path_join (xo_out_dir opts) [Normal ''resources.parquet'']"

definition manifest_path :: "export_options \<Rightarrow> path" where
  "manifest_path opts = path_join (xo_out_dir opts) [Normal ''workspace.manifest.json'']"

definition table_path :: "export_options \<Rightarrow> secondary_table \<Rightarrow> path" where
  "table_path opts t = path_join (xo_out_dir opts) [Normal (file_stem t @ ''.parquet'')]"

definition output_paths :: "export_options \<Rightarrow> path list" where
  "output_paths opts = [resources_path opts, manifest_path opts] @ map (table_path opts) (xo_tables opts)"

definition check_absent :: "export_options \<Rightarrow> unit out_io" where
  "check_absent opts st =
     (if xo_overwrite opts then io_return () st
      else case find (out_exists st) (output_paths opts) of
        Some p \<Rightarrow> io_fail (XOutputExists p) st
      | None \<Rightarrow> io_return () st)"

record table_output =
  to_table :: secondary_table
  to_rows :: nat
  to_bytes :: nat
  to_sha :: str

definition write_table :: "export_env \<Rightarrow> workspace \<Rightarrow> export_options \<Rightarrow> secondary_table \<Rightarrow> table_output out_io" where
  "write_table env ws opts t =
     io_bind (write_single_batch env (xo_compression opts) (table_path opts t) (table_data_of ws t)) (\<lambda>(rows, bytes).
     io_bind (sha256_hex_of_file env (table_path opts t)) (\<lambda>sha.
     io_return \<lparr>to_table = t, to_rows = rows, to_bytes = bytes, to_sha = sha\<rparr>))"

fun write_tables :: "export_env \<Rightarrow> workspace \<Rightarrow> export_options \<Rightarrow> secondary_table list \<Rightarrow> table_output list out_io" where
  "write_tables env ws opts [] = io_return []"
| "write_tables env ws opts (t # ts) =
     io_bind (write_table env ws opts t) (\<lambda>out.
     io_bind (write_tables env ws opts ts) (\<lambda>outs. io_return (out # outs)))"

definition build_manifest ::
  "workspace \<Rightarrow> export_options \<Rightarrow> int \<Rightarrow> nat \<Rightarrow> nat \<Rightarrow> str \<Rightarrow> table_output list \<Rightarrow> manifest" where
  "build_manifest ws opts parsed_at rows bytes sha outs =
     \<lparr>mn_tfparser_version = parser_version, mn_schema_major = schema_major, mn_schema_minor = schema_minor,
      mn_generated_at_ms = parsed_at, mn_workspace_root = path_str (ws_root ws), mn_command_line = xo_command_line opts,
      mn_files = \<lparr>mf_name = ''resources.parquet'', mf_rows = rows, mf_bytes = bytes, mf_sha256 = sha\<rparr>
        # map (\<lambda>t. \<lparr>mf_name = file_stem (to_table t) @ ''.parquet'', mf_rows = to_rows t, mf_bytes = to_bytes t,
                     mf_sha256 = to_sha t\<rparr>) outs\<rparr>"

definition build_report ::
  "export_options \<Rightarrow> nat \<Rightarrow> nat \<Rightarrow> str \<Rightarrow> table_output list \<Rightarrow> nat \<Rightarrow> str \<Rightarrow> export_report" where
  "build_report opts rows bytes sha outs mbytes msha =
     \<lparr>xr_files = \<lparr>xf_path = resources_path opts, xf_rows = rows, xf_bytes = bytes, xf_sha256 = sha\<rparr>
        # map (\<lambda>t. \<lparr>xf_path = table_path opts (to_table t), xf_rows = to_rows t, xf_bytes = to_bytes t,
                     xf_sha256 = to_sha t\<rparr>) outs
        @ [\<lparr>xf_path = manifest_path opts, xf_rows = 0, xf_bytes = mbytes, xf_sha256 = msha\<rparr>],
      xr_total_rows = rows + sum_list (map to_rows outs),
      xr_bytes_written = bytes + sum_list (map to_bytes outs) + mbytes\<rparr>"

text \<open>\<open>ParquetExporter::export\<close>; the elapsed wall-clock time of the report is left out.\<close>

definition export_workspace :: "export_env \<Rightarrow> workspace \<Rightarrow> export_options \<Rightarrow> export_report out_io" where
  "export_workspace env ws opts =
     io_bind (validate_out_dir (xo_out_dir opts)) (\<lambda>_.
     io_bind (check_absent opts) (\<lambda>_.
     let parsed_at = (case xo_parsed_at_ms opts of None \<Rightarrow> xe_now_ms env | Some t \<Rightarrow> t) in
     io_bind (write_resources_parquet env ws opts (resources_path opts) parsed_at) (\<lambda>(rows, bytes).
     io_bind (write_tables env ws opts (xo_tables opts)) (\<lambda>outs.
     io_bind (sha256_hex_of_file env (resources_path opts)) (\<lambda>sha.
     io_bind (write_manifest env (build_manifest ws opts parsed_at rows bytes sha outs) (manifest_path opts) (xo_overwrite opts))
       (\<lambda>mbytes.
     io_bind (sha256_hex_of_file env (manifest_path opts)) (\<lambda>msha.
     io_return (build_report opts rows bytes sha outs mbytes msha))))))))"

end
