(* ===== verification/ExportProps.thy ===== *)
theory ExportProps
  imports Export
begin

text \<open>What the exporter guarantees, whichever of its I/O calls fail.\<close>

section \<open>The content a run gives its files\<close>

definition encoded :: "export_env \<Rightarrow> export_options \<Rightarrow> table_data \<Rightarrow> str option" where
  "encoded env opts data = (case xe_encode env (xo_compression opts) data of Inl _ \<Rightarrow> None | Inr bytes \<Rightarrow> Some bytes)"

definition parsed_at_of :: "export_env \<Rightarrow> export_options \<Rightarrow> int" where
  "parsed_at_of env opts = (case xo_parsed_at_ms opts of None \<Rightarrow> xe_now_ms env | Some t \<Rightarrow> t)"

definition batches_of :: "export_env \<Rightarrow> workspace \<Rightarrow> export_options \<Rightarrow> table_row list list \<times> nat" where
  "batches_of env ws opts =
     resource_batches (xe_ryu env) (parsed_at_of env opts) (xo_row_group_rows opts) (xo_row_group_bytes opts) ws"

definition resources_data :: "export_env \<Rightarrow> workspace \<Rightarrow> export_options \<Rightarrow> table_data" where
  "resources_data env ws opts = ResourceData (fst (batches_of env ws opts))"

definition table_output_of :: "export_env \<Rightarrow> workspace \<Rightarrow> export_options \<Rightarrow> secondary_table \<Rightarrow> table_output option" where
  "table_output_of env ws opts t =
     map_option (\<lambda>bytes. \<lparr>to_table = t, to_rows = table_data_rows (table_data_of ws t), to_bytes = length bytes,
        to_sha = xe_sha256_hex env bytes\<rparr>) (encoded env opts (table_data_of ws t))"

definition manifest_of :: "export_env \<Rightarrow> workspace \<Rightarrow> export_options \<Rightarrow> manifest option" where
  "manifest_of env ws opts =
     (case (encoded env opts (resources_data env ws opts), map_option_list (table_output_of env ws opts) (xo_tables opts)) of
        (Some bytes, Some outs) \<Rightarrow>
          Some (build_manifest ws opts (parsed_at_of env opts) (snd (batches_of env ws opts)) (length bytes)
            (xe_sha256_hex env bytes) outs)
      | _ \<Rightarrow> None)"

definition manifest_bytes :: "export_env \<Rightarrow> workspace \<Rightarrow> export_options \<Rightarrow> str option" where
  "manifest_bytes env ws opts =
     Option.bind (manifest_of env ws opts) (\<lambda>m. case xe_manifest_json env m of Inl _ \<Rightarrow> None | Inr bytes \<Rightarrow> Some bytes)"

definition final_content :: "export_env \<Rightarrow> workspace \<Rightarrow> export_options \<Rightarrow> path \<Rightarrow> str option" where
  "final_content env ws opts p =
     (if p = resources_path opts then encoded env opts (resources_data env ws opts)
      else if p = manifest_path opts then manifest_bytes env ws opts
      else Option.bind (find (\<lambda>t. table_path opts t = p) (xo_tables opts)) (\<lambda>t. encoded env opts (table_data_of ws t)))"

section \<open>Paths\<close>

lemma output_path_simps:
  "resources_path opts = xo_out_dir opts @ [Normal ''resources.parquet'']"
  "manifest_path opts = xo_out_dir opts @ [Normal ''workspace.manifest.json'']"
  "table_path opts t = xo_out_dir opts @ [Normal (file_stem t @ ''.parquet'')]"
  "partial_path (d @ [Normal n]) = d @ [Normal (n @ ''.partial'')]"
  by (simp_all add: resources_path_def manifest_path_def table_path_def partial_path_def path_join_def is_absolute_def)

lemma file_stem_inj [simp]: "file_stem t = file_stem t' \<longleftrightarrow> t = t'"
  by (cases t; cases t') simp_all

lemma table_path_inj [simp]: "table_path opts t = table_path opts t' \<longleftrightarrow> t = t'"
  by (simp add: output_path_simps)

lemma output_paths_distinct [simp]:
  "resources_path opts \<noteq> manifest_path opts" "manifest_path opts \<noteq> resources_path opts"
  "table_path opts t \<noteq> resources_path opts" "table_path opts t \<noteq> manifest_path opts"
  by (cases t; simp add: output_path_simps)+

definition partials :: "export_options \<Rightarrow> path set" where
  "partials opts = partial_path ` set (output_paths opts)"

lemma output_not_partial: "p \<in> set (output_paths opts) \<Longrightarrow> p \<notin> partials opts"
proof -
  assume "p \<in> set (output_paths opts)"
  moreover have "file_stem t @ ''.parquet'' \<noteq> ''resources.parquet.partial'' \<and> file_stem t @ ''.parquet'' \<noteq> ''workspace.manifest.json.partial''
      \<and> file_stem t @ ''.parquet'' \<noteq> file_stem t' @ ''.parquet.partial'' \<and> ''resources.parquet'' \<noteq> file_stem t @ ''.parquet.partial''
      \<and> ''workspace.manifest.json'' \<noteq> file_stem t @ ''.parquet.partial''" for t t'
    by (cases t; cases t'; simp)
  ultimately show ?thesis by (auto simp: partials_def output_paths_def output_path_simps)
qed

lemma find_eq: "t \<in> set ts \<Longrightarrow> find (\<lambda>t'. t' = t) ts = Some t"
  by (induction ts) auto

lemma final_content_simps [simp]:
  "final_content env ws opts (resources_path opts) = encoded env opts (resources_data env ws opts)"
  "final_content env ws opts (manifest_path opts) = manifest_bytes env ws opts"
  "t \<in> set (xo_tables opts) \<Longrightarrow> final_content env ws opts (table_path opts t) = encoded env opts (table_data_of ws t)"
  by (simp_all add: final_content_def find_eq)

section \<open>Frames\<close>

text \<open>From one state to the next every file is unchanged, is a partial file, or is an output with its full content.\<close>

definition replaced :: "path set \<Rightarrow> (path \<Rightarrow> str option) \<Rightarrow> out_state \<Rightarrow> out_state \<Rightarrow> bool" where
  "replaced P c st st' \<longleftrightarrow> os_dirs st' = os_dirs st \<and>
     (\<forall>p. os_files st' p = os_files st p \<or> p \<in> P \<or> (os_files st' p = c p \<and> c p \<noteq> None))"

lemma replaced_refl [simp]: "replaced P c st st"
  by (simp add: replaced_def)

lemma replaced_trans: "replaced P c st st1 \<Longrightarrow> replaced P c st1 st2 \<Longrightarrow> replaced P c st st2"
  unfolding replaced_def by metis

lemma replaced_keeps:
  "replaced P c st st' \<Longrightarrow> os_files st p = c p \<Longrightarrow> p \<notin> P \<Longrightarrow> os_files st' p = c p"
  unfolding replaced_def by metis

lemma io_bind_Ok:
  "io_bind m k st = (st', Ok y) \<longleftrightarrow> (\<exists>st1 x. m st = (st1, Ok x) \<and> k x st1 = (st', Ok y))"
  by (auto simp: io_bind_def split: prod.splits sum.splits)

lemma replaced_bind:
  assumes "replaced P c st (fst (m st))" and "\<And>st1 x. m st = (st1, Ok x) \<Longrightarrow> replaced P c st1 (fst (k x st1))"
  shows "replaced P c st (fst (io_bind m k st))"
  using assms by (cases "m st"; cases "snd (m st)") (auto simp: io_bind_def intro: replaced_trans)

lemma io_simps [simp]:
  "io_return x st = (st, Ok x)" "io_fail e st = (st, Err e)"
  by (simp_all add: io_return_def io_fail_def)

lemma io_call_replaced:
  "(\<And>n q. q \<notin> P \<Longrightarrow> torn n fs q = fs q) \<Longrightarrow> (\<And>q. q \<notin> P \<Longrightarrow> done fs q = fs q) \<Longrightarrow> os_files st = fs \<Longrightarrow>
   replaced P c st (fst (io_call env err torn done st))"
  by (auto simp: io_call_def replaced_def Let_def split: option.split)

lemma primitive_replaced:
  "p \<in> P \<Longrightarrow> replaced P c st (fst (remove_stale env p st))"
  "p \<in> P \<Longrightarrow> replaced P c st (fst (create_new env p st))"
  "p \<in> P \<Longrightarrow> replaced P c st (fst (write_bytes env err p bytes st))"
  "replaced P c st (fst (sync_all env q st))"
  by (auto simp: remove_stale_def create_new_def write_bytes_def sync_all_def untorn_def intro!: io_call_replaced)

lemma read_file_bytes_replaced: "replaced P c st (fst (read_file_bytes env q st))"
  unfolding read_file_bytes_def by (rule replaced_bind) (auto simp: untorn_def intro!: io_call_replaced split: option.split)

lemma read_file_bytes_Ok:
  "read_file_bytes env q st = (st', Ok bytes) \<Longrightarrow> os_files st q = Some bytes \<and> os_files st' = os_files st"
  by (auto simp: read_file_bytes_def io_bind_Ok io_call_def Let_def split: option.splits)

lemma derived_reads:
  "replaced P c st (fst (file_len env q st))" "replaced P c st (fst (sha256_hex_of_file env q st))"
  "file_len env q st = (st', Ok n) \<Longrightarrow> os_files st' = os_files st \<and> (\<exists>b. os_files st q = Some b \<and> n = length b)"
  "sha256_hex_of_file env q st = (st', Ok s) \<Longrightarrow> os_files st' = os_files st \<and> (\<exists>b. os_files st q = Some b \<and> s = xe_sha256_hex env b)"
  by (auto simp: file_len_def sha256_hex_of_file_def io_bind_Ok dest: read_file_bytes_Ok
      intro!: replaced_bind read_file_bytes_replaced)

lemma publish_replaced:
  assumes "partial_path final \<in> P" "os_files st (partial_path final) = c final" "c final \<noteq> None" "partial_path final \<noteq> final"
  shows "replaced P c st (fst (publish env final st))"
  unfolding publish_def Let_def
proof (rule replaced_bind [OF primitive_replaced(4)])
  fix st1 x assume "sync_all env (partial_path final) st = (st1, Ok x)"
  then have st1: "os_files st1 = os_files st" by (auto simp: sync_all_def io_call_def Let_def split: option.splits)
  show "replaced P c st1 (fst (io_bind (rename_file env (partial_path final) final) (\<lambda>_. file_len env final) st1))"
  proof (rule replaced_bind [OF _ derived_reads(1)])
    show "replaced P c st1 (fst (rename_file env (partial_path final) final st1))"
      using assms by (auto simp: rename_file_def io_call_def Let_def replaced_def untorn_def st1 split: option.split)
  qed
qed

lemma publish_Ok:
  assumes "publish env final st = (st', Ok n)" "partial_path final \<noteq> final"
  shows "\<exists>b. os_files st (partial_path final) = Some b \<and> n = length b \<and> os_files st' final = Some b"
  using assms by (auto simp: publish_def Let_def io_bind_Ok sync_all_def rename_file_def io_call_def
      split: option.splits if_splits dest!: derived_reads(3))

lemma write_bytes_Ok: "write_bytes env err p bytes st = (st', Ok x) \<Longrightarrow> os_files st' p = Some bytes"
  by (auto simp: write_bytes_def io_call_def Let_def split: option.splits)

section \<open>The writers\<close>

text \<open>A writer that replaces the file at \<open>final\<close> by its content, and returns its length, or fails.\<close>

definition writes :: "path set \<Rightarrow> (path \<Rightarrow> str option) \<Rightarrow> path \<Rightarrow> nat out_io \<Rightarrow> bool" where
  "writes P c final m \<longleftrightarrow>
     (\<forall>st. replaced P c st (fst (m st)) \<and>
       (\<forall>st' n. m st = (st', Ok n) \<longrightarrow> (\<exists>b. c final = Some b \<and> n = length b \<and> os_files st' final = Some b)))"

lemma write_and_publish:
  assumes "partial_path final \<in> P" "final \<notin> P" "c final = Some bytes"
  shows "writes P c final (io_bind (write_bytes env err (partial_path final) bytes) (\<lambda>_. publish env final))"
  unfolding writes_def
proof (intro allI conjI impI)
  fix st
  have ne: "partial_path final \<noteq> final" using assms by auto
  show "replaced P c st (fst (io_bind (write_bytes env err (partial_path final) bytes) (\<lambda>_. publish env final) st))"
    by (rule replaced_bind [OF primitive_replaced(3) publish_replaced])
      (use assms ne in \<open>auto dest: write_bytes_Ok\<close>)
  fix st' n assume "io_bind (write_bytes env err (partial_path final) bytes) (\<lambda>_. publish env final) st = (st', Ok n)"
  then obtain st1 where w: "write_bytes env err (partial_path final) bytes st = (st1, Ok ())" "publish env final st1 = (st', Ok n)"
    by (auto simp: io_bind_Ok)
  from publish_Ok [OF w(2) ne] write_bytes_Ok [OF w(1)] assms(3)
  show "\<exists>b. c final = Some b \<and> n = length b \<and> os_files st' final = Some b" by auto
qed

lemma writes_after:
  assumes "\<And>st. replaced P c st (fst (m0 st))" and "\<And>x. writes P c final (k x)"
  shows "writes P c final (io_bind m0 k)"
  using assms unfolding writes_def by (auto simp: io_bind_Ok intro!: replaced_bind)

lemma fails_writes: "writes P c final (io_fail e)"
  by (simp add: writes_def)

lemma open_partial_replaced: "partial_path final \<in> P \<Longrightarrow> replaced P c st (fst (open_partial env final st))"
  unfolding open_partial_def by (intro replaced_bind primitive_replaced)

lemma write_parquet_writes:
  assumes "partial_path final \<in> P" "final \<notin> P" "\<And>bytes. xe_encode env codec data = Inr bytes \<Longrightarrow> c final = Some bytes"
  shows "writes P c final (write_parquet env codec final data)"
proof (cases "xe_encode env codec data")
  case (Inr bytes)
  note [intro] = primitive_replaced(3) [OF assms(1)] open_partial_replaced [OF assms(1)]
  show ?thesis
    unfolding write_parquet_def Let_def Inr sum.case
    by (intro writes_after write_and_publish assms(1,2) assms(3) [OF Inr]) auto
next
  case (Inl e)
  note [intro] = primitive_replaced(3) [OF assms(1)] open_partial_replaced [OF assms(1)]
  show ?thesis
    unfolding write_parquet_def Let_def Inl
    by (cases e; cases "fst e") (auto intro!: writes_after fails_writes)
qed

lemma writes_okD: "writes P c final m \<Longrightarrow> m st = (st', Ok n) \<Longrightarrow> \<exists>b. c final = Some b \<and> n = length b \<and> os_files st' final = Some b"
  by (simp add: writes_def)

lemma writes_replaced: "writes P c final m \<Longrightarrow> replaced P c st (fst (m st))"
  by (simp add: writes_def)

lemma write_manifest_writes:
  assumes "partial_path final \<in> P" "final \<notin> P" "\<And>bytes. xe_manifest_json env m = Inr bytes \<Longrightarrow> c final = Some bytes"
  shows "writes P c final (write_manifest env m final overwrite)"
proof -
  let ?k = "\<lambda>bytes. io_bind (open_partial env final) (\<lambda>_.
      io_bind (write_bytes env (XIo (partial_path final)) (partial_path final) bytes) (\<lambda>_. publish env final))"
  have k: "writes P c final (?k bytes)" if "xe_manifest_json env m = Inr bytes" for bytes
    by (intro writes_after write_and_publish assms(1,2) assms(3) [OF that] open_partial_replaced)
  have "write_manifest env m final overwrite st =
      (if out_exists st final \<and> \<not> overwrite then io_fail (XOutputExists final) st
       else case xe_manifest_json env m of Inl e \<Rightarrow> io_fail (XManifest final e) st | Inr bytes \<Rightarrow> ?k bytes st)" for st
    by (simp add: write_manifest_def split: sum.split)
  then show ?thesis
    using k fails_writes unfolding writes_def by (auto split: sum.splits if_splits)
qed

section \<open>The run\<close>

text \<open>\<open>published\<close>: the file holds the content the run gives it.\<close>

definition published :: "(path \<Rightarrow> str option) \<Rightarrow> out_state \<Rightarrow> path \<Rightarrow> bool" where
  "published c st p \<longleftrightarrow> c p \<noteq> None \<and> os_files st p = c p"

lemma published_kept: "published c st p \<Longrightarrow> replaced P c st st' \<Longrightarrow> p \<notin> P \<Longrightarrow> published c st' p"
  using replaced_keeps by (auto simp: published_def)

lemma output_partial: "p \<in> set (output_paths opts) \<Longrightarrow> partial_path p \<in> partials opts"
  by (simp add: partials_def)

lemma resources_in [simp]: "resources_path opts \<in> set (output_paths opts)" "manifest_path opts \<in> set (output_paths opts)"
  "t \<in> set (xo_tables opts) \<Longrightarrow> table_path opts t \<in> set (output_paths opts)"
  by (simp_all add: output_paths_def)

lemma output_writes:
  assumes "p \<in> set (output_paths opts)" "final_content env ws opts p = encoded env opts data"
  shows "writes (partials opts) (final_content env ws opts) p (write_parquet env (xo_compression opts) p data)"
  by (rule write_parquet_writes [OF output_partial [OF assms(1)] output_not_partial [OF assms(1)]])
    (simp add: assms(2) encoded_def)

lemma resources_written:
  "replaced (partials opts) (final_content env ws opts) st
     (fst (write_resources_parquet env ws opts (resources_path opts) (parsed_at_of env opts) st))"
  "write_resources_parquet env ws opts (resources_path opts) (parsed_at_of env opts) st = (st', Ok (rows, n)) \<Longrightarrow>
     published (final_content env ws opts) st' (resources_path opts) \<and> rows = snd (batches_of env ws opts) \<and>
     (\<exists>b. encoded env opts (resources_data env ws opts) = Some b \<and> n = length b)"
proof -
  let ?w = "write_parquet env (xo_compression opts) (resources_path opts) (resources_data env ws opts)"
  have w: "writes (partials opts) (final_content env ws opts) (resources_path opts) ?w"
    by (rule output_writes) simp_all
  have eq: "write_resources_parquet env ws opts (resources_path opts) (parsed_at_of env opts) =
      io_bind ?w (\<lambda>bytes. io_return (snd (batches_of env ws opts), bytes))"
    by (simp add: write_resources_parquet_def resources_data_def batches_of_def case_prod_beta Let_def)
  show "replaced (partials opts) (final_content env ws opts) st
     (fst (write_resources_parquet env ws opts (resources_path opts) (parsed_at_of env opts) st))"
    unfolding eq by (rule replaced_bind [OF writes_replaced [OF w]]) simp
  show "write_resources_parquet env ws opts (resources_path opts) (parsed_at_of env opts) st = (st', Ok (rows, n)) \<Longrightarrow>
     published (final_content env ws opts) st' (resources_path opts) \<and> rows = snd (batches_of env ws opts) \<and>
     (\<exists>b. encoded env opts (resources_data env ws opts) = Some b \<and> n = length b)"
    unfolding eq by (auto simp: io_bind_Ok published_def dest!: writes_okD [OF w])
qed

lemma table_written:
  assumes "t \<in> set (xo_tables opts)"
  shows "replaced (partials opts) (final_content env ws opts) st (fst (write_table env ws opts t st))"
    and "write_table env ws opts t st = (st', Ok out) \<Longrightarrow>
      published (final_content env ws opts) st' (table_path opts t) \<and> table_output_of env ws opts t = Some out"
proof -
  let ?data = "table_data_of ws t" and ?p = "table_path opts t"
  let ?w = "write_parquet env (xo_compression opts) ?p ?data"
  have w: "writes (partials opts) (final_content env ws opts) ?p ?w" by (rule output_writes) (simp_all add: assms)
  let ?b = "write_single_batch env (xo_compression opts) ?p ?data"
  have b: "?b = io_bind ?w (\<lambda>n. io_return (table_data_rows ?data, n)) \<or> (\<exists>e. ?b = io_fail e)"
    by (auto simp: write_single_batch_def split: sum.split encode_error.split prod.split)
  have rb: "replaced (partials opts) (final_content env ws opts) st (fst (?b st))" for st
    using b by (auto intro!: replaced_bind writes_replaced [OF w])
  show "replaced (partials opts) (final_content env ws opts) st (fst (write_table env ws opts t st))"
    unfolding write_table_def by (auto intro!: replaced_bind rb derived_reads)
  assume "write_table env ws opts t st = (st', Ok out)"
  then obtain st1 st2 rows n sha where 1: "?b st = (st1, Ok (rows, n))" "sha256_hex_of_file env ?p st1 = (st', Ok sha)"
    "out = \<lparr>to_table = t, to_rows = rows, to_bytes = n, to_sha = sha\<rparr>"
    by (auto simp: write_table_def io_bind_Ok)
  from 1(1) b have "?w st = (st1, Ok n)" "rows = table_data_rows ?data" by (auto simp: io_bind_Ok)
  with writes_okD [OF w] derived_reads(4) [OF 1(2)] 1(3) assms
  show "published (final_content env ws opts) st' ?p \<and> table_output_of env ws opts t = Some out"
    by (fastforce simp: published_def table_output_of_def)
qed

lemma tables_written:
  assumes "set ts \<subseteq> set (xo_tables opts)"
  shows "replaced (partials opts) (final_content env ws opts) st (fst (write_tables env ws opts ts st))"
    and "write_tables env ws opts ts st = (st', Ok outs) \<Longrightarrow>
      (\<forall>t \<in> set ts. published (final_content env ws opts) st' (table_path opts t)) \<and>
      map_option_list (table_output_of env ws opts) ts = Some outs"
  using assms
proof (induction ts arbitrary: st st' outs)
  case (Cons t ts)
  {
    case 1
    then show ?case by (auto intro!: replaced_bind table_written(1) Cons.IH(1))
  next
    case 2
    then obtain st1 out outs1 where w: "write_table env ws opts t st = (st1, Ok out)"
      "write_tables env ws opts ts st1 = (st', Ok outs1)" "outs = out # outs1"
      by (auto simp: io_bind_Ok)
    have sub: "set ts \<subseteq> set (xo_tables opts)" and t: "t \<in> set (xo_tables opts)" using 2(2) by simp_all
    have "replaced (partials opts) (final_content env ws opts) st1 st'" using Cons.IH(1) [OF sub, of st1] w(2) by simp
    with table_written(2) [OF t w(1)] have "published (final_content env ws opts) st' (table_path opts t)"
      using published_kept output_not_partial [OF resources_in(3) [OF t]] by blast
    with table_written(2) [OF t w(1)] Cons.IH(2) [OF w(2) sub] w(3) show ?case by simp
  }
qed simp_all

lemma check_absent_frame: "fst (check_absent opts st) = st" "fst (validate_out_dir dir st) = st"
  by (simp_all add: check_absent_def validate_out_dir_def split: option.split)

text \<open>The steps of a run that succeeds.\<close>

lemma manifest_written:
  assumes "map_option_list (table_output_of env ws opts) (xo_tables opts) = Some outs"
    "encoded env opts (resources_data env ws opts) = Some b"
  shows "writes (partials opts) (final_content env ws opts) (manifest_path opts)
    (write_manifest env (build_manifest ws opts (parsed_at_of env opts) (snd (batches_of env ws opts)) (length b)
       (xe_sha256_hex env b) outs) (manifest_path opts) overwrite)"
  by (rule write_manifest_writes [OF output_partial output_not_partial]) (simp_all add: manifest_bytes_def manifest_of_def assms)

lemma before_manifest:
  assumes "write_resources_parquet env ws opts (resources_path opts) (parsed_at_of env opts) st = (st1, Ok (rows, n))"
    "write_tables env ws opts (xo_tables opts) st1 = (st2, Ok outs)"
    "sha256_hex_of_file env (resources_path opts) st2 = (st3, Ok sha)"
  obtains b where "encoded env opts (resources_data env ws opts) = Some b" "rows = snd (batches_of env ws opts)"
    "n = length b" "sha = xe_sha256_hex env b" "map_option_list (table_output_of env ws opts) (xo_tables opts) = Some outs"
    "published (final_content env ws opts) st3 (resources_path opts)"
    "\<And>t. t \<in> set (xo_tables opts) \<Longrightarrow> published (final_content env ws opts) st3 (table_path opts t)"
proof -
  let ?c = "final_content env ws opts"
  from resources_written(2) [OF assms(1)] obtain b where b: "encoded env opts (resources_data env ws opts) = Some b"
    "rows = snd (batches_of env ws opts)" "n = length b" and p1: "published ?c st1 (resources_path opts)" by auto
  have "replaced (partials opts) ?c st1 st2" using tables_written(1) [of "xo_tables opts" opts env ws st1] assms(2) by simp
  then have p2: "published ?c st2 (resources_path opts)"
    by (rule published_kept [OF p1]) (simp add: output_not_partial)
  from derived_reads(4) [OF assms(3)] p2 b(1) have st3: "os_files st3 = os_files st2" and sha: "sha = xe_sha256_hex env b"
    by (auto simp: published_def)
  from tables_written(2) [OF subset_refl assms(2)] have
    "\<forall>t \<in> set (xo_tables opts). published ?c st2 (table_path opts t)"
    "map_option_list (table_output_of env ws opts) (xo_tables opts) = Some outs" by simp_all
  with b p2 sha st3 show ?thesis by (intro that [of b]) (simp_all add: published_def)
qed

lemma export_unfold:
  "export_workspace env ws opts =
     io_bind (validate_out_dir (xo_out_dir opts)) (\<lambda>_.
     io_bind (check_absent opts) (\<lambda>_.
     io_bind (write_resources_parquet env ws opts (resources_path opts) (parsed_at_of env opts)) (\<lambda>(rows, bytes).
     io_bind (write_tables env ws opts (xo_tables opts)) (\<lambda>outs.
     io_bind (sha256_hex_of_file env (resources_path opts)) (\<lambda>sha.
     io_bind (write_manifest env (build_manifest ws opts (parsed_at_of env opts) rows bytes sha outs) (manifest_path opts)
       (xo_overwrite opts)) (\<lambda>mbytes.
     io_bind (sha256_hex_of_file env (manifest_path opts)) (\<lambda>msha.
     io_return (build_report opts rows bytes sha outs mbytes msha))))))))"
  by (simp add: export_workspace_def parsed_at_of_def Let_def)

lemma export_frame: "replaced (partials opts) (final_content env ws opts) st (fst (export_workspace env ws opts st))"
  unfolding export_unfold
proof (rule replaced_bind, goal_cases)
  case (2 st1 x)
  show ?case
  proof (rule replaced_bind, goal_cases)
    case (2 st2 y)
    show ?case
    proof (rule replaced_bind [OF resources_written(1)], clarify)
      fix st3 rows n
      assume r: "write_resources_parquet env ws opts (resources_path opts) (parsed_at_of env opts) st2 = (st3, Ok (rows, n))"
      show "replaced (partials opts) (final_content env ws opts) st3 (fst (
          io_bind (write_tables env ws opts (xo_tables opts)) (\<lambda>outs.
          io_bind (sha256_hex_of_file env (resources_path opts)) (\<lambda>sha.
          io_bind (write_manifest env (build_manifest ws opts (parsed_at_of env opts) rows n sha outs) (manifest_path opts)
            (xo_overwrite opts)) (\<lambda>mbytes.
          io_bind (sha256_hex_of_file env (manifest_path opts)) (\<lambda>msha.
          io_return (build_report opts rows n sha outs mbytes msha))))) st3))"
      proof (rule replaced_bind [OF tables_written(1) [OF subset_refl]], rule replaced_bind [OF derived_reads(2)])
        fix st4 outs st5 sha
        assume "write_tables env ws opts (xo_tables opts) st3 = (st4, Ok outs)"
          "sha256_hex_of_file env (resources_path opts) st4 = (st5, Ok sha)"
        from before_manifest [OF r this] obtain b where "encoded env opts (resources_data env ws opts) = Some b"
          "rows = snd (batches_of env ws opts)" "n = length b" "sha = xe_sha256_hex env b"
          "map_option_list (table_output_of env ws opts) (xo_tables opts) = Some outs" by metis
        note writes_replaced [OF manifest_written [OF this(5,1), of "xo_overwrite opts"], folded this(2,3,4)]
        then show "replaced (partials opts) (final_content env ws opts) st5 (fst (
            io_bind (write_manifest env (build_manifest ws opts (parsed_at_of env opts) rows n sha outs) (manifest_path opts)
              (xo_overwrite opts)) (\<lambda>mbytes.
            io_bind (sha256_hex_of_file env (manifest_path opts)) (\<lambda>msha.
            io_return (build_report opts rows n sha outs mbytes msha))) st5))"
          by (rule replaced_bind) (auto intro!: replaced_bind derived_reads)
      qed
    qed
  qed (simp add: check_absent_frame)
qed (simp add: check_absent_frame)

text \<open>The entry of a report for a published file.\<close>

definition report_entry :: "export_env \<Rightarrow> out_state \<Rightarrow> path \<times> nat \<Rightarrow> exported_file" where
  "report_entry env st = (\<lambda>(p, rows). \<lparr>xf_path = p, xf_rows = rows, xf_bytes = length (the (os_files st p)),
     xf_sha256 = xe_sha256_hex env (the (os_files st p))\<rparr>)"

definition reported_files :: "export_env \<Rightarrow> workspace \<Rightarrow> export_options \<Rightarrow> (path \<times> nat) list" where
  "reported_files env ws opts =
     (resources_path opts, snd (batches_of env ws opts))
     # map (\<lambda>t. (table_path opts t, table_data_rows (table_data_of ws t))) (xo_tables opts) @ [(manifest_path opts, 0)]"

lemma outputs_of_tables:
  assumes "map_option_list (table_output_of env ws opts) ts = Some outs"
    and "\<And>t. t \<in> set ts \<Longrightarrow> os_files st (table_path opts t) = encoded env opts (table_data_of ws t)"
  shows "map (\<lambda>out. \<lparr>xf_path = table_path opts (to_table out), xf_rows = to_rows out, xf_bytes = to_bytes out,
              xf_sha256 = to_sha out\<rparr>) outs
         = map (report_entry env st) (map (\<lambda>t. (table_path opts t, table_data_rows (table_data_of ws t))) ts)"
proof -
  have "list_all2 (\<lambda>t out. t \<in> set ts \<and> table_output_of env ws opts t = Some out) ts outs"
    using assms(1) unfolding map_option_list_Some_iff by (auto simp: list_all2_conv_all_nth)
  then show ?thesis
    by (induction rule: list_all2_induct) (auto simp: report_entry_def table_output_of_def assms(2))
qed

lemma export_Ok:
  assumes "export_workspace env ws opts st = (st', Ok rep)"
  shows "\<forall>p \<in> set (output_paths opts). published (final_content env ws opts) st' p"
    and "xr_files rep = map (report_entry env st') (reported_files env ws opts)"
    and "xr_total_rows rep = sum_list (map xf_rows (xr_files rep))"
    and "xr_bytes_written rep = sum_list (map xf_bytes (xr_files rep))"
proof -
  let ?c = "final_content env ws opts"
  obtain st0 st1 st2 st3 st4 rows n outs sha mbytes msha where
    steps: "write_resources_parquet env ws opts (resources_path opts) (parsed_at_of env opts) st0 = (st1, Ok (rows, n))"
      "write_tables env ws opts (xo_tables opts) st1 = (st2, Ok outs)"
      "sha256_hex_of_file env (resources_path opts) st2 = (st3, Ok sha)"
    and m: "write_manifest env (build_manifest ws opts (parsed_at_of env opts) rows n sha outs) (manifest_path opts)
        (xo_overwrite opts) st3 = (st4, Ok mbytes)"
    and msha: "sha256_hex_of_file env (manifest_path opts) st4 = (st', Ok msha)"
    and rep: "rep = build_report opts rows n sha outs mbytes msha"
    using assms by (auto simp: export_unfold io_bind_Ok)
  obtain b where b: "encoded env opts (resources_data env ws opts) = Some b" and f: "rows = snd (batches_of env ws opts)"
      "n = length b" "sha = xe_sha256_hex env b" "map_option_list (table_output_of env ws opts) (xo_tables opts) = Some outs"
    and pub: "published ?c st3 (resources_path opts)" "\<And>t. t \<in> set (xo_tables opts) \<Longrightarrow> published ?c st3 (table_path opts t)"
    using before_manifest [OF steps] by metis
  note w = manifest_written [OF f(4) b, of "xo_overwrite opts", folded f(1-3)]
  from writes_okD [OF w m] obtain mb where mb: "?c (manifest_path opts) = Some mb" "mbytes = length mb" "os_files st4 (manifest_path opts) = Some mb"
    by blast
  have r4: "replaced (partials opts) ?c st3 st4" using writes_replaced [OF w, of st3] m by simp
  have st': "os_files st' = os_files st4" "msha = xe_sha256_hex env mb" using derived_reads(4) [OF msha] mb(3) by auto
  have keep: "published ?c st' p" if "published ?c st3 p" "p \<in> set (output_paths opts)" for p
    using published_kept [OF that(1) r4 output_not_partial [OF that(2)]] by (simp add: published_def st')
  have pr: "published ?c st' (resources_path opts)" and pt: "\<And>t. t \<in> set (xo_tables opts) \<Longrightarrow> published ?c st' (table_path opts t)"
    using keep pub by simp_all
  have pm: "published ?c st' (manifest_path opts)" using mb by (simp add: published_def st')
  show "\<forall>p \<in> set (output_paths opts). published ?c st' p" using pr pt pm by (auto simp: output_paths_def)
  have "os_files st' (table_path opts t) = encoded env opts (table_data_of ws t)" if "t \<in> set (xo_tables opts)" for t
    using pt [OF that] that by (simp add: published_def)
  note tables = outputs_of_tables [OF f(4) this]
  show "xr_files rep = map (report_entry env st') (reported_files env ws opts)"
    using pr pm b mb(1) by (simp add: rep build_report_def tables reported_files_def) (simp add: report_entry_def published_def f mb st')
  show "xr_total_rows rep = sum_list (map xf_rows (xr_files rep))" "xr_bytes_written rep = sum_list (map xf_bytes (xr_files rep))"
    by (simp_all add: rep build_report_def comp_def)
qed

lemma find_member: "find P xs = Some x \<Longrightarrow> x \<in> set xs \<and> P x"
  by (induction xs) (auto split: if_splits)

lemma final_content_output: "final_content env ws opts p = Some b \<Longrightarrow> p \<in> set (output_paths opts)"
  by (auto simp: final_content_def output_paths_def bind_eq_Some_conv split: if_splits dest!: find_member)

lemma blocked_export:
  assumes "\<not> xo_overwrite opts" "\<exists>p \<in> set (output_paths opts). out_exists st p"
    "export_workspace env ws opts st = (st', r)"
  shows "os_files st' = os_files st \<and> (\<exists>e. r = Err e)"
proof -
  obtain p where "find (out_exists st) (output_paths opts) = Some p"
    using assms(2) by (cases "find (out_exists st) (output_paths opts)") (auto simp: find_None_iff)
  then show ?thesis
    using assms(1,3) by (auto simp: export_unfold io_bind_def check_absent_def validate_out_dir_def split: if_splits)
qed

section \<open>Properties\<close>

text \<open>C26. The export is atomic per file, whichever of its I/O calls fail and however much of a failed write arrived: at its end
  every file but the \<open>.partial\<close> ones has its old content or, if it is one of the outputs, its complete new content.
  Without \<open>overwrite\<close>, if any output is already there the export fails and changes nothing.\<close>

theorem export_atomic:
  assumes "export_workspace env ws opts st = (st', r)"
  shows "(\<forall>p. p \<notin> partial_path ` set (output_paths opts) \<longrightarrow>
           os_files st' p = os_files st p \<or>
           p \<in> set (output_paths opts) \<and> final_content env ws opts p \<noteq> None \<and> os_files st' p = final_content env ws opts p)
    \<and> (\<not> xo_overwrite opts \<and> (\<exists>p \<in> set (output_paths opts). out_exists st p) \<longrightarrow>
         os_files st' = os_files st \<and> (\<exists>e. r = Err e))"
proof (intro conjI allI impI)
  fix p assume "p \<notin> partial_path ` set (output_paths opts)"
  with export_frame [of opts env ws st] assms
  show "os_files st' p = os_files st p \<or>
      p \<in> set (output_paths opts) \<and> final_content env ws opts p \<noteq> None \<and> os_files st' p = final_content env ws opts p"
    by (auto simp: replaced_def partials_def dest: final_content_output)
qed (use blocked_export [OF _ _ assms] in blast)+

text \<open>C27. A successful export reports what it wrote: every output holds its complete content, the report lists the
  tables in order and then the manifest, each with its number of rows, the length of the file and the SHA-256 of its
  content, and the totals are the sums over the list.\<close>

theorem export_report_exact:
  assumes "export_workspace env ws opts st = (st', Ok rep)"
  shows "(\<forall>p \<in> set (output_paths opts). final_content env ws opts p \<noteq> None \<and> os_files st' p = final_content env ws opts p)
    \<and> xr_files rep = map (report_entry env st') (reported_files env ws opts)
    \<and> xr_total_rows rep = sum_list (map xf_rows (xr_files rep))
    \<and> xr_bytes_written rep = sum_list (map xf_bytes (xr_files rep))"
  using export_Ok [OF assms] by (simp add: published_def)

section \<open>A concrete export\<close>

definition out_ex :: path where
  "out_ex = [RootDir, Normal ''o'']"

definition env_ex :: "(nat \<Rightarrow> str option) \<Rightarrow> export_env" where
  "env_ex fault =
     \<lparr>xe_fault = fault, xe_torn = (\<lambda>_. 1), xe_os_error = ''os error'', xe_encode = (\<lambda>_ _. Inr ''PAR1''),
      xe_manifest_json = (\<lambda>m. Inr ''{}''), xe_sha256_hex = (\<lambda>s. s), xe_now_ms = 7, xe_ryu = (\<lambda>_. ''0.5'')\<rparr>"

definition opts_ex :: export_options where
  "opts_ex = \<lparr>xo_out_dir = out_ex, xo_row_group_rows = 2, xo_row_group_bytes = 100, xo_compression = Zstd 3,
     xo_overwrite = False, xo_parsed_at_ms = None, xo_command_line = [], xo_tables = [Modules]\<rparr>"

definition ws_ex :: workspace where
  "ws_ex = \<lparr>ws_root = [RootDir, Normal ''w''], ws_components = [], ws_modules = [], ws_environments = [],
     ws_diagnostics = [], ws_edges = []\<rparr>"

definition state_ex :: out_state where
  "state_ex = \<lparr>os_files = [[RootDir, Normal ''x''] \<mapsto> ''kept''], os_dirs = (\<lambda>p. p = out_ex), os_calls = 0\<rparr>"

text \<open>The fourth call, the flush of \<open>resources.parquet.partial\<close>, fails after one byte.\<close>

definition torn_run :: "out_state \<times> (export_error + export_report)" where
  "torn_run = export_workspace (env_ex (\<lambda>n. if n = 2 then Some ''disk full'' else None)) ws_ex opts_ex state_ex"

theorem export_atomic_witness:
  "os_files (fst torn_run) (resources_path opts_ex) = None \<and> os_files (fst torn_run) [RootDir, Normal ''x''] = Some ''kept''
   \<and> os_files (fst torn_run) (partial_path (resources_path opts_ex)) = Some ''P''"
proof -
  obtain st' r where run: "torn_run = (st', r)" by (cases torn_run)
  have "[RootDir, Normal ''x''] \<notin> partial_path ` set (output_paths opts_ex)" "[RootDir, Normal ''x''] \<notin> set (output_paths opts_ex)"
    by code_simp+
  with export_atomic [OF run [unfolded torn_run_def]] have "os_files st' [RootDir, Normal ''x''] = Some ''kept''"
    by (auto simp: state_ex_def)
  moreover have "os_files (fst torn_run) (resources_path opts_ex) = None"
    "os_files (fst torn_run) (partial_path (resources_path opts_ex)) = Some ''P''"
    by code_simp+
  ultimately show ?thesis by (simp add: run)
qed

theorem export_report_exact_witness:
  "\<exists>st' rep. export_workspace (env_ex (\<lambda>_. None)) ws_ex opts_ex state_ex = (st', Ok rep) \<and>
     map xf_path (xr_files rep) = [resources_path opts_ex, table_path opts_ex Modules, manifest_path opts_ex] \<and>
     os_files st' (resources_path opts_ex) = Some ''PAR1''"
proof -
  let ?run = "export_workspace (env_ex (\<lambda>_. None)) ws_ex opts_ex state_ex"
  have "is_ok (snd ?run)" by code_simp
  then obtain st' rep where run: "?run = (st', Ok rep)" by (cases ?run) (auto simp: is_ok_iff)
  have "encoded (env_ex (\<lambda>_. None)) opts_ex (resources_data (env_ex (\<lambda>_. None)) ws_ex opts_ex) = Some ''PAR1''"
    by (simp add: encoded_def env_ex_def)
  moreover have "xo_tables opts_ex = [Modules]" by (simp add: opts_ex_def)
  ultimately show ?thesis using export_report_exact [OF run]
    by (intro exI [of _ st'] exI [of _ rep] conjI) (auto simp: run reported_files_def report_entry_def)
qed

end
