(* ===== verification/ExportLive.thy ===== *)
theory ExportLive
  imports ExportProps
begin

text \<open>Liveness of the exporter: without a fault and with free places for its outputs it succeeds.\<close>

section \<open>Without faults\<close>

definition faultless :: "export_env \<Rightarrow> bool" where
  "faultless env \<longleftrightarrow> (\<forall>n. xe_fault env n = None)"

text \<open>A writer that puts \<open>bytes\<close> at \<open>final\<close>, removes its partial file and leaves the rest.\<close>

definition installs :: "path \<Rightarrow> str \<Rightarrow> out_state \<Rightarrow> out_state \<Rightarrow> bool" where
  "installs final bytes st st' \<longleftrightarrow>
     os_dirs st' = os_dirs st \<and> os_files st' = (os_files st)(partial_path final := None, final \<mapsto> bytes)"

lemma write_publish_live:
  assumes "faultless env" "\<not> os_dirs st final" "\<not> os_dirs st (partial_path final)" "partial_path final \<noteq> final"
  shows "\<exists>st'. io_bind (open_partial env final) (\<lambda>_.
      io_bind (write_bytes env err (partial_path final) bytes) (\<lambda>_. publish env final)) st = (st', Ok (length bytes)) \<and> installs final bytes st st'"
  using assms
  by (auto simp: faultless_def open_partial_def remove_stale_def create_new_def write_bytes_def publish_def sync_all_def rename_file_def
      file_len_def read_file_bytes_def io_bind_def io_call_def out_exists_def installs_def untorn_def Let_def intro!: ext)

lemma write_parquet_live:
  assumes "faultless env" "\<not> os_dirs st final" "\<not> os_dirs st (partial_path final)" "partial_path final \<noteq> final"
    "xe_encode env codec data = Ok bytes"
  shows "\<exists>st'. write_parquet env codec final data st = (st', Ok (length bytes)) \<and> installs final bytes st st'"
  using assms
  by (auto simp: write_parquet_def faultless_def open_partial_def remove_stale_def create_new_def write_bytes_def publish_def sync_all_def
      rename_file_def file_len_def read_file_bytes_def io_bind_def io_call_def out_exists_def installs_def untorn_def Let_def intro!: ext)

lemma hash_live:
  assumes "faultless env" "os_files st p = Some bytes"
  shows "\<exists>st'. sha256_hex_of_file env p st = (st', Ok (xe_sha256_hex env bytes)) \<and> os_files st' = os_files st \<and> os_dirs st' = os_dirs st"
  using assms by (auto simp: faultless_def sha256_hex_of_file_def read_file_bytes_def io_bind_def io_call_def untorn_def Let_def)

text \<open>What an export needs of the directory.\<close>

definition no_dirs_at :: "export_options \<Rightarrow> out_state \<Rightarrow> bool" where
  "no_dirs_at opts st \<longleftrightarrow> (\<forall>p \<in> set (output_paths opts). \<not> os_dirs st p \<and> \<not> os_dirs st (partial_path p))"

lemma no_dirs_cong: "os_dirs st = os_dirs st' \<Longrightarrow> no_dirs_at opts st = no_dirs_at opts st'"
  by (simp add: no_dirs_at_def)

lemma output_clear:
  "no_dirs_at opts st \<Longrightarrow> p \<in> set (output_paths opts) \<Longrightarrow> \<not> os_dirs st p \<and> \<not> os_dirs st (partial_path p) \<and> partial_path p \<noteq> p"
  using output_partial output_not_partial by (fastforce simp: no_dirs_at_def)

definition encodes_all :: "export_env \<Rightarrow> workspace \<Rightarrow> export_options \<Rightarrow> bool" where
  "encodes_all env ws opts \<longleftrightarrow> (\<forall>data. \<exists>bytes. xe_encode env (xo_compression opts) data = Ok bytes)
     \<and> (\<forall>m. manifest_of env ws opts = Some m \<longrightarrow> (\<exists>bytes. xe_manifest_json env m = Ok bytes))"

lemma other_kept: "installs p bytes st st' \<Longrightarrow> p \<in> set (output_paths opts) \<Longrightarrow> q \<in> set (output_paths opts) \<Longrightarrow> q \<noteq> p
    \<Longrightarrow> os_files st' q = os_files st q"
  using output_partial output_not_partial by (fastforce simp: installs_def)

lemma write_table_live:
  assumes "faultless env" "encodes_all env ws opts" "no_dirs_at opts st" "t \<in> set (xo_tables opts)"
  shows "\<exists>st' out. write_table env ws opts t st = (st', Ok out) \<and> os_dirs st' = os_dirs st \<and>
    (\<forall>q \<in> set (output_paths opts). q \<noteq> table_path opts t \<longrightarrow> os_files st' q = os_files st q)"
proof -
  let ?p = "table_path opts t" and ?data = "table_data_of ws t"
  have p: "?p \<in> set (output_paths opts)" using assms(4) by simp
  obtain bytes where b: "xe_encode env (xo_compression opts) ?data = Ok bytes" using assms(2) by (auto simp: encodes_all_def)
  from write_parquet_live [OF assms(1) _ _ _ b, of st ?p] output_clear [OF assms(3) p] obtain st1
    where 1: "write_parquet env (xo_compression opts) ?p ?data st = (st1, Ok (length bytes))" "installs ?p bytes st st1" by blast
  then have "os_files st1 ?p = Some bytes" by (simp add: installs_def)
  from hash_live [OF assms(1) this] obtain st2 where "sha256_hex_of_file env ?p st1 = (st2, Ok (xe_sha256_hex env bytes))"
    "os_files st2 = os_files st1" "os_dirs st2 = os_dirs st1" by blast
  then show ?thesis using 1 other_kept [OF 1(2) p]
    by (auto simp: write_table_def write_single_batch_def b io_bind_def installs_def)
qed

lemma write_tables_live:
  assumes "faultless env" "encodes_all env ws opts" "no_dirs_at opts st" "set ts \<subseteq> set (xo_tables opts)"
  shows "\<exists>st' outs. write_tables env ws opts ts st = (st', Ok outs) \<and> os_dirs st' = os_dirs st
    \<and> os_files st' (resources_path opts) = os_files st (resources_path opts)
    \<and> os_files st' (manifest_path opts) = os_files st (manifest_path opts)"
  using assms
proof (induction ts arbitrary: st)
  case (Cons t ts)
  then have t: "t \<in> set (xo_tables opts)" and ts: "set ts \<subseteq> set (xo_tables opts)" by simp_all
  from write_table_live [OF Cons.prems(1-3) t] obtain st1 out where 1: "write_table env ws opts t st = (st1, Ok out)" "os_dirs st1 = os_dirs st"
    "os_files st1 (resources_path opts) = os_files st (resources_path opts)" "os_files st1 (manifest_path opts) = os_files st (manifest_path opts)"
    by (metis output_paths_distinct(3,4) resources_in(1,2))
  from Cons.IH [OF Cons.prems(1,2) _ ts, of st1] no_dirs_cong [OF 1(2)] Cons.prems(3) obtain st2 outs where
    "write_tables env ws opts ts st1 = (st2, Ok outs)" "os_dirs st2 = os_dirs st1"
    "os_files st2 (resources_path opts) = os_files st1 (resources_path opts)" "os_files st2 (manifest_path opts) = os_files st1 (manifest_path opts)"
    by blast
  with 1 show ?case by (simp add: io_bind_def)
qed simp

lemma check_live:
  assumes "os_dirs st (xo_out_dir opts)" "xo_overwrite opts \<or> list_all (\<lambda>p. \<not> out_exists st p) (output_paths opts)"
  shows "validate_out_dir (xo_out_dir opts) st = (st, Ok ())" "check_absent opts st = (st, Ok ())"
  using assms by (auto simp: validate_out_dir_def check_absent_def out_exists_def list_all_iff find_None_iff split: option.split dest: find_member)

lemma export_live:
  assumes "faultless env" "encodes_all env ws opts" "os_dirs st (xo_out_dir opts)" "no_dirs_at opts st"
    and "xo_overwrite opts \<or> list_all (\<lambda>p. \<not> out_exists st p) (output_paths opts)"
  shows "\<exists>st' rep. export_workspace env ws opts st = (st', Ok rep)"
proof -
  let ?r = "resources_path opts" and ?m = "manifest_path opts"
  note start = check_live [OF assms(3,5)]
  obtain bytes where b: "xe_encode env (xo_compression opts) (resources_data env ws opts) = Ok bytes"
    using assms(2) by (auto simp: encodes_all_def)
  from write_parquet_live [OF assms(1) _ _ _ b, of st ?r] output_clear [OF assms(4), of ?r] obtain st1
    where w: "write_parquet env (xo_compression opts) ?r (resources_data env ws opts) st = (st1, Ok (length bytes))" "installs ?r bytes st st1"
    by auto
  have 1: "write_resources_parquet env ws opts ?r (parsed_at_of env opts) st = (st1, Ok (snd (batches_of env ws opts), length bytes))"
    using w(1) by (simp add: write_resources_parquet_def resources_data_def batches_of_def case_prod_beta Let_def io_bind_def)
  have d1: "os_dirs st1 = os_dirs st" "os_files st1 ?m = os_files st ?m" "os_files st1 ?r = Some bytes"
    using w(2) other_kept [OF w(2), of opts ?m] by (simp_all add: installs_def)
  obtain st2 outs where 2: "write_tables env ws opts (xo_tables opts) st1 = (st2, Ok outs)" "os_dirs st2 = os_dirs st"
    "os_files st2 ?r = Some bytes" "os_files st2 ?m = os_files st ?m"
    using write_tables_live [OF assms(1,2), of st1 "xo_tables opts"] d1 no_dirs_cong [OF d1(1)] assms(4) by auto
  obtain st3 where 3: "sha256_hex_of_file env ?r st2 = (st3, Ok (xe_sha256_hex env bytes))" "os_files st3 = os_files st2" "os_dirs st3 = os_dirs st"
    using hash_live [OF assms(1) 2(3)] 2(2) by auto
  let ?man = "build_manifest ws opts (parsed_at_of env opts) (snd (batches_of env ws opts)) (length bytes) (xe_sha256_hex env bytes) outs"
  have "manifest_of env ws opts = Some ?man"
    using tables_written(2) [OF subset_refl 2(1)] b by (simp add: manifest_of_def encoded_def)
  then obtain json where json: "xe_manifest_json env ?man = Ok json" using assms(2) by (auto simp: encodes_all_def)
  have "\<not> (out_exists st3 ?m \<and> \<not> xo_overwrite opts)"
    using assms(5) 3(2,3) 2(4) by (auto simp: out_exists_def list_all_iff)
  moreover have clear: "\<not> os_dirs st3 ?m \<and> \<not> os_dirs st3 (partial_path ?m) \<and> partial_path ?m \<noteq> ?m"
    using output_clear [OF assms(4), of ?m] 3(3) by simp
  ultimately obtain st4 where 4: "write_manifest env ?man ?m (xo_overwrite opts) st3 = (st4, Ok (length json))" "installs ?m json st3 st4"
    using write_publish_live [OF assms(1), of st3 ?m "XIo (partial_path ?m)" json] json by (auto simp: write_manifest_def)
  obtain st5 where "sha256_hex_of_file env ?m st4 = (st5, Ok (xe_sha256_hex env json))"
    using hash_live [OF assms(1), of st4 ?m json] 4(2) by (auto simp: installs_def)
  with start 1 2(1) 3(1) 4(1) show ?thesis by (simp add: export_unfold io_bind_def)
qed

text \<open>C40. The export succeeds when it can: with the output directory there, no directory in the place of an output or of its
  partial file, the outputs absent or \<open>overwrite\<close> given, data and manifest that encode, and no I/O call that fails, whatever
  stale partial files and old outputs lie around.\<close>
theorem export_succeeds:
  assumes "faultless env" "encodes_all env ws opts" "os_dirs st (xo_out_dir opts)" "no_dirs_at opts st"
    and "xo_overwrite opts \<or> list_all (\<lambda>p. \<not> out_exists st p) (output_paths opts)"
  shows "\<exists>st' rep. export_workspace env ws opts st = (st', Ok rep)"
  using assms by (rule export_live)

theorem export_succeeds_witness:
  "\<exists>st' rep. export_workspace (env_ex (\<lambda>_. None)) ws_ex opts_ex state_ex = (st', Ok rep)"
proof (rule export_succeeds)
  show "faultless (env_ex (\<lambda>_. None))" "encodes_all (env_ex (\<lambda>_. None)) ws_ex opts_ex" by (simp_all add: faultless_def encodes_all_def env_ex_def)
  show "os_dirs state_ex (xo_out_dir opts_ex)" "no_dirs_at opts_ex state_ex"
    "xo_overwrite opts_ex \<or> list_all (\<lambda>p. \<not> out_exists state_ex p) (output_paths opts_ex)"
    by code_simp+
qed

end
