(* ===== verification/Cli.thy ===== *)
theory Cli
  imports Pipeline Export
begin

text \<open>The command line program (\<open>apps/cli/src/main.rs\<close>) over the facade of the library (\<open>parse_and_export\<close>).

  An operation is a function from the world (the output side of the disk and the text printed so far) to the new world and
  its result, or \<open>None\<close> when it panics.  Printing can fail, like every I/O call of the exporter.  What the program does not
  compute itself is the record \<open>cli_env\<close>: the arguments of the pipeline and of the exporter, \<open>std::env::args\<close>, the parsers
  of the configuration files, of the time stamp and of the manifest, and SHA-256.  \<open>clap\<close> has already turned the arguments
  into a \<open>cli\<close>.\<close>

section \<open>Arguments\<close>

datatype env_mode = EmStrict | EmPassthrough | EmMock

datatype compression_kind = CompUncompressed | CompZstd | CompSnappy

datatype tables_arg = TablesAll | TablesNone

record parse_args =
  ag_root :: path
  ag_out :: path
  ag_overwrite :: bool
  ag_parsed_at :: "str option"
  ag_environment :: "str option"
  ag_region :: "str option"
  ag_profile_map :: "path option"
  ag_aws_config :: "path option"
  ag_vars :: "str list"
  ag_allow_env :: "str list"
  ag_env_mode :: env_mode
  ag_strict_providers :: bool
  ag_compression :: compression_kind
  ag_zstd_level :: int
  ag_tables :: tables_arg

record verify_args =
  vg_manifest :: "path option"
  vg_dir :: "path option"

datatype command = CmdParse parse_args | CmdSchema | CmdVersion | CmdVerify verify_args

record cli =
  cl_command :: command
  cl_verbose :: nat

section \<open>Errors\<close>

datatype terragrunt_error =
    TgeCycle "path list" | TgeDepthExceeded nat | TgePathEscape path | TgeFunc str str span

datatype graph_error =
    GreUnresolvableModuleSource str span | GreDepthExceeded nat span | GreAddressCollision address | GrePathSafety path str

text \<open>What an \<open>anyhow::Error\<close> holds: the error it was made from and the contexts added to it, outermost first.\<close>

datatype anyhow_cause =
    AeCore core_error
  | AeExport export_error
  | AeTerragrunt terragrunt_error
  | AeProvider provider_error
  | AeGraph graph_error
  | AeValidation validation_error
  | AeIo str
  | AeJson str
  | AeTime str
  | AeMessage str

record anyhow_error =
  ae_context :: "str list"
  ae_cause :: anyhow_cause

definition anyhow :: "anyhow_cause \<Rightarrow> anyhow_error" where
  "anyhow c = \<lparr>ae_context = [], ae_cause = c\<rparr>"

definition with_context :: "str \<Rightarrow> anyhow_error + 'a \<Rightarrow> anyhow_error + 'a" where
  "with_context c r = map_err (\<lambda>e. e\<lparr>ae_context := c # ae_context e\<rparr>) r"

text \<open>\<open>downcast_ref\<close> looks through the contexts, which are strings.\<close>

definition map_exit_code :: "anyhow_error \<Rightarrow> nat" where
  "map_exit_code err =
     (case ae_cause err of
        AeCore core \<Rightarrow> (case core of
            CoreValidation _ \<Rightarrow> 2
          | CoreIo _ _ \<Rightarrow> 3
          | CoreLimit _ _ _ \<Rightarrow> 4
          | CoreProvider _ \<Rightarrow> 6
          | CoreExport _ \<Rightarrow> 7)
      | AeExport _ \<Rightarrow> 7
      | AeTerragrunt _ \<Rightarrow> 5
      | AeProvider _ \<Rightarrow> 6
      | AeGraph _ \<Rightarrow> 4
      | _ \<Rightarrow> 1)"

text \<open>\<open>show\<close> gives the \<open>Display\<close> text of an error and of its sources.\<close>

definition eprintln_anyhow :: "(anyhow_cause \<Rightarrow> str list) \<Rightarrow> anyhow_error \<Rightarrow> str" where
  "eprintln_anyhow show err =
     (case ae_context err @ show (ae_cause err) of
        [] \<Rightarrow> []
      | e # causes \<Rightarrow> ''error: '' @ e @ [CHR 0x0A] @ concat (map (\<lambda>c. ''  caused by: '' @ c @ [CHR 0x0A]) causes))"

section \<open>The command line in the manifest\<close>

definition looks_secret_flag :: "str \<Rightarrow> bool" where
  "looks_secret_flag flag =
     (let lower = map ascii_lower flag in
      str_contains lower ''token'' \<or> str_contains lower ''secret'' \<or> str_contains lower ''password'')"

definition redact_bare :: "str \<Rightarrow> str \<times> bool" where
  "redact_bare raw = (if starts_with raw ''--'' \<and> looks_secret_flag raw then (raw, True) else (raw, False))"

definition redact_arg :: "str \<Rightarrow> str \<times> bool" where
  "redact_arg raw =
     (case split_once_char (CHR ''='') raw of
        Some (flag, v) \<Rightarrow> if looks_secret_flag flag then (flag @ ''=<redacted>'', False) else redact_bare raw
      | None \<Rightarrow> redact_bare raw)"

definition is_char_boundary :: "str \<Rightarrow> nat \<Rightarrow> bool" where
  "is_char_boundary s i = (i = 0 \<or> i = length s \<or> i < length s \<and> \<not> is_cont_byte (s ! i))"

fun floor_walk :: "str \<Rightarrow> nat \<Rightarrow> nat" where
  "floor_walk s 0 = 0"
| "floor_walk s (Suc i) = (if is_char_boundary s (Suc i) then Suc i else floor_walk s i)"

definition floor_char_boundary :: "str \<Rightarrow> nat \<Rightarrow> nat" where
  "floor_char_boundary s index = floor_walk s (min index (length s))"

text \<open>\<open>String::truncate\<close> panics inside a character.\<close>

definition string_truncate :: "str \<Rightarrow> nat \<Rightarrow> str option" where
  "string_truncate s n =
     (if length s < n then Some s else if is_char_boundary s n then Some (take n s) else None)"

definition redact_cap_bytes :: nat where
  "redact_cap_bytes = 4 * 1024"

text \<open>\<open>\<dots>(truncated)\<close>, with the three bytes of the ellipsis.\<close>

definition truncated_suffix :: str where
  "truncated_suffix = [CHR 0xE2, CHR 0x80, CHR 0xA6] @ ''(truncated)''"

text \<open>The loop: \<open>first\<close> is \<open>i = 0\<close>.\<close>

fun redact_loop :: "str list \<Rightarrow> bool \<Rightarrow> bool \<Rightarrow> str \<Rightarrow> str option" where
  "redact_loop [] first redact_next out = Some out"
| "redact_loop (raw # args) first redact_next out =
     (let (arg, redact_next') = (if redact_next then (''<redacted>'', False) else redact_arg raw);
          out' = (if first then out else out @ '' '') @ arg
      in if length out' > redact_cap_bytes
         then map_option (\<lambda>s. s @ truncated_suffix)
                (string_truncate out' (floor_char_boundary out' redact_cap_bytes))
         else redact_loop args False redact_next' out')"

definition redact_command_line :: "str list \<Rightarrow> str option" where
  "redact_command_line args = redact_loop args True False []"

section \<open>The world\<close>

record cli_world =
  cw_out :: out_state
  cw_stdout :: str
  cw_prints :: nat

type_synonym 'a cli_io = "cli_world \<Rightarrow> (cli_world \<times> (anyhow_error + 'a)) option"

record profile_parsers =
  pp_probe :: "path \<Rightarrow> file_probe"
  pp_yaml :: "str \<Rightarrow> str + (str \<times> yaml_entry) list"
  pp_validate :: "(str \<times> yaml_entry) list \<Rightarrow> str + unit"
  pp_ini :: "str \<Rightarrow> str + (str option \<times> (str \<times> str) list) list"
  pp_order :: "str list \<Rightarrow> str list"

record ('g, 'ast) cli_env =
  ce_pipeline :: "('g, 'ast) pipeline_env"
  ce_export :: export_env
  ce_argv :: "str list"
  ce_profiles :: profile_parsers
  ce_timestamp_ms :: "str \<Rightarrow> str + int"
  ce_read_manifest :: "str \<Rightarrow> str + manifest"
  ce_sha256 :: "str \<Rightarrow> str"
  ce_schema_json :: "nat \<times> nat \<times> str list \<Rightarrow> str + str"
  ce_print_fault :: "nat \<Rightarrow> str option"
  ce_elapsed_ms :: nat
  ce_show_cause :: "anyhow_cause \<Rightarrow> str list"

definition cli_return :: "'a \<Rightarrow> 'a cli_io" where
  "cli_return x w = Some (w, Ok x)"

definition cli_result :: "anyhow_error + 'a \<Rightarrow> 'a cli_io" where
  "cli_result r w = Some (w, r)"

definition cli_bind :: "'a cli_io \<Rightarrow> ('a \<Rightarrow> 'b cli_io) \<Rightarrow> 'b cli_io" where
  "cli_bind m k w =
     (case m w of
        None \<Rightarrow> None
      | Some (w', Inl e) \<Rightarrow> Some (w', Err e)
      | Some (w', Inr x) \<Rightarrow> k x w')"

definition cli_disk :: "(export_error \<Rightarrow> anyhow_error) \<Rightarrow> 'a out_io \<Rightarrow> 'a cli_io" where
  "cli_disk err m w = (case m (cw_out w) of (st, r) \<Rightarrow> Some (w\<lparr>cw_out := st\<rparr>, map_err err r))"

text \<open>\<open>writeln!(stdout, \<dots>)?\<close>.\<close>

definition print_line :: "('g, 'ast) cli_env \<Rightarrow> str \<Rightarrow> unit cli_io" where
  "print_line env s w =
     (let w1 = w\<lparr>cw_prints := cw_prints w + 1\<rparr> in
      case ce_print_fault env (cw_prints w) of
        Some e \<Rightarrow> Some (w1, Err (anyhow (AeIo e)))
      | None \<Rightarrow> Some (w1\<lparr>cw_stdout := cw_stdout w @ s @ [CHR 0x0A]\<rparr>, Ok ()))"

fun print_lines :: "('g, 'ast) cli_env \<Rightarrow> str list \<Rightarrow> unit cli_io" where
  "print_lines env [] = cli_return ()"
| "print_lines env (s # ss) = cli_bind (print_line env s) (\<lambda>_. print_lines env ss)"

text \<open>\<open>std::io::Error\<close> of a disk operation: the exporter's state names the path with it.\<close>

fun io_error_text :: "export_error \<Rightarrow> str" where
  "io_error_text (XIo p e) = e"
| "io_error_text _ = []"

section \<open>\<open>tfparser parse\<close>\<close>

definition canonicalize_cli_root :: "('g, 'ast) cli_env \<Rightarrow> path \<Rightarrow> anyhow_error + path" where
  "canonicalize_cli_root env p =
     map_err (\<lambda>e. anyhow (AeCore (CoreIo p e))) (fs_canonicalize (pe_disk (ce_pipeline env)) p)"

text \<open>\<open>create_dir_all\<close>: all the ancestors, or an error where one of them is a file; a failing call may have made some.\<close>

definition ancestors :: "path \<Rightarrow> path list" where
  "ancestors p = map (\<lambda>n. take n p) [1..<Suc (length p)]"

definition create_dir_all :: "export_env \<Rightarrow> path \<Rightarrow> unit out_io" where
  "create_dir_all env p st =
     (if p = [] then io_return () st
      else if list_ex (\<lambda>q. os_files st q \<noteq> None) (ancestors p) then io_fail (XIo p (xe_os_error env)) st
      else let n = os_calls st; st1 = st\<lparr>os_calls := n + 1\<rparr> in
        case xe_fault env n of
          Some e \<Rightarrow> (st1\<lparr>os_dirs := (\<lambda>q. os_dirs st q \<or> q \<in> set (take (xe_torn env n) (ancestors p)))\<rparr>, Err (XIo p e))
        | None \<Rightarrow> (st1\<lparr>os_dirs := (\<lambda>q. os_dirs st q \<or> q \<in> set (ancestors p))\<rparr>, Ok ()))"

definition ensure_out_dir :: "('g, 'ast) cli_env \<Rightarrow> path \<Rightarrow> unit cli_io" where
  "ensure_out_dir env out =
     cli_bind
       (\<lambda>w. if out_exists (cw_out w) out then cli_return () w
            else cli_disk (\<lambda>e. \<lparr>ae_context = [''create output dir: '' @ path_str out], ae_cause = AeIo (io_error_text e)\<rparr>)
              (create_dir_all (ce_export env) out) w)
       (\<lambda>_ w. if os_dirs (cw_out w) out then cli_return () w
              else cli_result (Err (anyhow (AeMessage (''output path is not a directory: '' @ path_str out)))) w)"

text \<open>\<open>load_profile_map_yaml\<close> and \<open>load_aws_config\<close> of the builder.\<close>

definition builder_load_yaml :: "profile_parsers \<Rightarrow> path \<Rightarrow> parser_builder \<Rightarrow> core_error + parser_builder" where
  "builder_load_yaml pp p b =
     and_then (map_err CoreProvider (load_yaml_profile_map (pp_yaml pp) (pp_validate pp) p (pp_probe pp p)))
       (\<lambda>pm. Ok (b\<lparr>pb_profile_map := Some pm\<rparr>))"

definition builder_load_aws :: "profile_parsers \<Rightarrow> path \<Rightarrow> parser_builder \<Rightarrow> core_error + parser_builder" where
  "builder_load_aws pp p b =
     and_then (map_err CoreProvider (load_aws_config from_utf8 (pp_ini pp) str_trim (pp_order pp) p (pp_probe pp p)))
       (\<lambda>pm. Ok (b\<lparr>pb_profile_map := Some pm\<rparr>))"

definition parse_kv :: "str \<Rightarrow> anyhow_error + str \<times> str" where
  "parse_kv s =
     (case split_once_char (CHR ''='') s of
        None \<Rightarrow> Err (anyhow (AeMessage (''--var expects KEY=VALUE (got `'' @ s @ ''`)'')))
      | Some (k, v) \<Rightarrow>
          if k = [] then Err (anyhow (AeMessage (''--var KEY must be non-empty (got `'' @ s @ ''`)''))) else Ok (k, v))"

fun add_vars :: "str list \<Rightarrow> parser_builder \<Rightarrow> anyhow_error + parser_builder" where
  "add_vars [] b = Ok b"
| "add_vars (kv # kvs) b = and_then (parse_kv kv) (\<lambda>(k, v). add_vars kvs (builder_var k v b))"

definition env_var_mode_of :: "parse_args \<Rightarrow> env_var_mode" where
  "env_var_mode_of args =
     (case ag_env_mode args of
        EmStrict \<Rightarrow> Strict (ag_allow_env args)
      | EmPassthrough \<Rightarrow> Passthrough
      | EmMock \<Rightarrow> Mock)"

definition from_core :: "core_error + 'a \<Rightarrow> anyhow_error + 'a" where
  "from_core r = map_err (\<lambda>e. anyhow (AeCore e)) r"

definition build_parser :: "('g, 'ast) cli_env \<Rightarrow> parse_args \<Rightarrow> path \<Rightarrow> anyhow_error + parser" where
  "build_parser env args wroot =
     (let b0 = allow_env_many (ag_allow_env args)
                 (builder_default\<lparr>pb_workspace_root := Some wroot, pb_env_var_mode := Some (env_var_mode_of args)\<rparr>);
          b1 = b0\<lparr>pb_strict_providers := ag_strict_providers args\<rparr>;
          b2 = (case ag_environment args of None \<Rightarrow> b1 | Some e \<Rightarrow> b1\<lparr>pb_environment := Some e\<rparr>)
      in
      and_then (case ag_region args of
          None \<Rightarrow> Ok b2
        | Some r \<Rightarrow> with_context (''invalid --region: '' @ r) (from_core (builder_default_region r b2))) (\<lambda>b3.
      and_then (case ag_profile_map args of
          Some p \<Rightarrow> with_context (''load profile map at '' @ path_str p) (from_core (builder_load_yaml (ce_profiles env) p b3))
        | None \<Rightarrow> (case ag_aws_config args of
            Some p \<Rightarrow> with_context (''load aws-config at '' @ path_str p) (from_core (builder_load_aws (ce_profiles env) p b3))
          | None \<Rightarrow> Ok b3)) (\<lambda>b4.
      and_then (add_vars (ag_vars args) b4) (\<lambda>b5. from_core (builder_build b5)))))"

definition parse_rfc3339_ms :: "('g, 'ast) cli_env \<Rightarrow> str \<Rightarrow> anyhow_error + int" where
  "parse_rfc3339_ms env s =
     with_context (''invalid RFC3339 timestamp: '' @ s) (map_err (\<lambda>e. anyhow (AeTime e)) (ce_timestamp_ms env s))"

definition compression_of :: "parse_args \<Rightarrow> anyhow_error + compression_opt" where
  "compression_of args =
     (case ag_compression args of
        CompUncompressed \<Rightarrow> Ok Uncompressed
      | CompSnappy \<Rightarrow> Ok Snappy
      | CompZstd \<Rightarrow> with_context (''invalid zstd level: '' @ int_str (ag_zstd_level args))
          (map_err (\<lambda>e. anyhow (AeValidation e)) (compression_zstd (ag_zstd_level args))))"

definition tables_of :: "parse_args \<Rightarrow> secondary_table list" where
  "tables_of args = (case ag_tables args of TablesAll \<Rightarrow> [Dependencies, Components, Modules] | TablesNone \<Rightarrow> [])"

text \<open>The outer \<open>None\<close> is a panic of the redaction.\<close>

definition build_export_options :: "('g, 'ast) cli_env \<Rightarrow> parse_args \<Rightarrow> (anyhow_error + export_options) option" where
  "build_export_options env args =
     (case (case ag_parsed_at args of None \<Rightarrow> Ok None | Some s \<Rightarrow> and_then (parse_rfc3339_ms env s) (\<lambda>t. Ok (Some t))) of
        Inl e \<Rightarrow> Some (Err e)
      | Inr parsed_at \<Rightarrow>
     (case redact_command_line (ce_argv env) of
        None \<Rightarrow> None
      | Some command_line \<Rightarrow> Some (and_then (compression_of args) (\<lambda>codec.
          Ok ((export_options_new (ag_out args))\<lparr>xo_overwrite := ag_overwrite args, xo_compression := codec,
                xo_parsed_at_ms := parsed_at, xo_command_line := command_line, xo_tables := tables_of args\<rparr>)))))"

text \<open>\<open>Parser::parse_and_export\<close>, and \<open>parse\<close> with all defaults.\<close>

definition parse_and_export ::
  "('g, 'ast) pipeline_env \<Rightarrow> export_env \<Rightarrow> parser \<Rightarrow> export_options \<Rightarrow> out_state \<Rightarrow>
   (out_state \<times> (core_error + workspace \<times> export_report)) option" where
  "parse_and_export pe xe p opts st =
     (case parser_parse pe p of
        None \<Rightarrow> None
      | Some (Inl e) \<Rightarrow> Some (st, Err e)
      | Some (Inr ws) \<Rightarrow>
          (case export_workspace xe ws opts st of
             (st', Inl e) \<Rightarrow> Some (st', Err (CoreExport e))
           | (st', Inr report) \<Rightarrow> Some (st', Ok (ws, report))))"

definition parse_with_defaults :: "('g, 'ast) pipeline_env \<Rightarrow> path \<Rightarrow> (core_error + workspace) option" where
  "parse_with_defaults pe wroot =
     (case builder_build (builder_default\<lparr>pb_workspace_root := Some wroot\<rparr>) of
        Inl e \<Rightarrow> Some (Err e)
      | Inr p \<Rightarrow> parser_parse pe p)"

text \<open>The check mark, the cross and the dash of the messages.\<close>

definition check_mark :: str where
  "check_mark = [CHR 0xE2, CHR 0x9C, CHR 0x93]"

definition cross_mark :: str where
  "cross_mark = [CHR 0xE2, CHR 0x9C, CHR 0x97]"

definition em_dash :: str where
  "em_dash = [CHR 0xE2, CHR 0x80, CHR 0x94]"

definition summary_lines :: "('g, 'ast) cli_env \<Rightarrow> workspace \<Rightarrow> export_report \<Rightarrow> str list" where
  "summary_lines env ws report =
     [check_mark @ '' wrote '' @ nat_str (xr_total_rows report) @ '' rows ('' @ nat_str (xr_bytes_written report)
        @ '' bytes) in '' @ nat_str (ce_elapsed_ms env) @ '' ms'']
     @ map (\<lambda>f. ''  - '' @ path_str (xf_path f)) (xr_files report)
     @ (if ws_diagnostics ws = [] then [] else [nat_str (length (ws_diagnostics ws)) @ '' diagnostic(s)''])"

definition export_step :: "('g, 'ast) cli_env \<Rightarrow> parser \<Rightarrow> export_options \<Rightarrow> (workspace \<times> export_report) cli_io" where
  "export_step env p opts w =
     (case parse_and_export (ce_pipeline env) (ce_export env) p opts (cw_out w) of
        None \<Rightarrow> None
      | Some (st, r) \<Rightarrow> Some (w\<lparr>cw_out := st\<rparr>, with_context ''parse + export'' (from_core r)))"

definition run_parse :: "('g, 'ast) cli_env \<Rightarrow> parse_args \<Rightarrow> unit cli_io" where
  "run_parse env args =
     cli_bind (cli_result (canonicalize_cli_root env (ag_root args))) (\<lambda>wroot.
     cli_bind (ensure_out_dir env (ag_out args)) (\<lambda>_.
     cli_bind (cli_result (build_parser env args wroot)) (\<lambda>p.
     cli_bind (\<lambda>w. map_option (Pair w) (build_export_options env args)) (\<lambda>opts.
     cli_bind (export_step env p opts) (\<lambda>(ws, report).
     print_lines env (summary_lines env ws report))))))"

section \<open>\<open>tfparser verify\<close>\<close>

definition max_manifest_bytes :: nat where
  "max_manifest_bytes = 4 * 1024 * 1024"

definition read_manifest_capped :: "export_env \<Rightarrow> path \<Rightarrow> nat \<Rightarrow> str cli_io" where
  "read_manifest_capped xe p cap =
     cli_bind (cli_disk (\<lambda>e. anyhow (AeIo (io_error_text e))) (read_file_bytes xe p)) (\<lambda>bytes.
       let buf = take (cap + 1) bytes in
       cli_result (if length buf > cap then Err (anyhow (AeIo (''file exceeds '' @ nat_str cap @ '' byte cap''))) else Ok buf))"

definition cli_context :: "str \<Rightarrow> 'a cli_io \<Rightarrow> 'a cli_io" where
  "cli_context c m w = map_option (apsnd (with_context c)) (m w)"

text \<open>The body of the loop over the files: the line it prints, and the mismatch it records.\<close>

definition file_verdict :: "('g, 'ast) cli_env \<Rightarrow> manifest_file \<Rightarrow> str + str \<Rightarrow> str \<times> str list" where
  "file_verdict env f r =
     (case r of
        Inr bytes \<Rightarrow>
          let got = bytes_to_hex (ce_sha256 env bytes); observed = length bytes;
              reason = (if got = mf_sha256 f
                then ''byte-size mismatch (expected '' @ nat_str (mf_bytes f) @ '', got '' @ nat_str observed @ '')''
                else ''sha mismatch (expected '' @ mf_sha256 f @ '', got '' @ got @ '')'')
          in if got = mf_sha256 f \<and> observed = mf_bytes f
             then (''  '' @ check_mark @ '' '' @ mf_name f @ '' ('' @ nat_str observed @ '' bytes)'', [])
             else (''  '' @ cross_mark @ '' '' @ mf_name f @ '' '' @ em_dash @ '' '' @ reason, [mf_name f @ '': '' @ reason])
      | Inl e \<Rightarrow>
          (''  '' @ cross_mark @ '' '' @ mf_name f @ '' '' @ em_dash @ '' not found: '' @ e, [mf_name f @ '': i/o: '' @ e]))"

definition verify_file :: "('g, 'ast) cli_env \<Rightarrow> path \<Rightarrow> manifest_file \<Rightarrow> str list cli_io" where
  "verify_file env dir f w =
     (case read_file_bytes (ce_export env) (path_join dir (parse_path (mf_name f))) (cw_out w) of
        (st, r) \<Rightarrow>
          let (line, mismatch) = file_verdict env f (map_err io_error_text r)
          in cli_bind (print_line env line) (\<lambda>_. cli_return mismatch) (w\<lparr>cw_out := st\<rparr>))"

fun verify_files :: "('g, 'ast) cli_env \<Rightarrow> path \<Rightarrow> manifest_file list \<Rightarrow> str list cli_io" where
  "verify_files env dir [] = cli_return []"
| "verify_files env dir (f # fs) =
     cli_bind (verify_file env dir f) (\<lambda>ms. cli_bind (verify_files env dir fs) (\<lambda>ms'. cli_return (ms @ ms')))"

definition verify_manifest_path :: "verify_args \<Rightarrow> anyhow_error + path" where
  "verify_manifest_path args =
     (case (vg_manifest args, vg_dir args) of
        (Some p, _) \<Rightarrow> Ok p
      | (None, Some dir) \<Rightarrow> Ok (path_join dir (parse_path ''workspace.manifest.json''))
      | (None, None) \<Rightarrow> Err (anyhow (AeMessage ''either --manifest <PATH> or --dir <DIR> is required'')))"

definition run_verify :: "('g, 'ast) cli_env \<Rightarrow> verify_args \<Rightarrow> unit cli_io" where
  "run_verify env args =
     cli_bind (cli_result (verify_manifest_path args)) (\<lambda>p.
     let dir = (case path_parent p of None \<Rightarrow> [CurDir] | Some d \<Rightarrow> d) in
     cli_bind (cli_context (''read manifest at '' @ path_str p) (read_manifest_capped (ce_export env) p max_manifest_bytes)) (\<lambda>bytes.
     cli_bind (cli_result (with_context (''parse manifest at '' @ path_str p)
                 (map_err (\<lambda>e. anyhow (AeJson e)) (ce_read_manifest env bytes)))) (\<lambda>m.
     cli_bind (print_line env (''verifying '' @ path_str p @ '' ('' @ nat_str (length (mn_files m)) @ '' file(s))'')) (\<lambda>_.
     cli_bind (verify_files env dir (mn_files m)) (\<lambda>mismatches.
     if mismatches = [] then print_line env (''ok '' @ em_dash @ '' manifest verified'')
     else cli_result (Err (anyhow (AeMessage
       (''manifest verification failed: '' @ nat_str (length mismatches) @ '' error(s)'')))))))))"

section \<open>\<open>main\<close>\<close>

definition run_schema :: "('g, 'ast) cli_env \<Rightarrow> unit cli_io" where
  "run_schema env =
     cli_bind (cli_result (map_err (\<lambda>e. anyhow (AeJson e)) (ce_schema_json env (schema_major, schema_minor, schema_field_names))))
       (print_line env)"

definition run_command :: "('g, 'ast) cli_env \<Rightarrow> cli \<Rightarrow> unit cli_io" where
  "run_command env c =
     (case cl_command c of
        CmdParse args \<Rightarrow> run_parse env args
      | CmdSchema \<Rightarrow> run_schema env
      | CmdVersion \<Rightarrow> print_line env (''tfparser '' @ parser_version)
      | CmdVerify args \<Rightarrow> run_verify env args)"

definition default_filter :: "nat \<Rightarrow> str" where
  "default_filter verbosity =
     (if verbosity = 0 then ''warn'' else if verbosity = 1 then ''info'' else if verbosity = 2 then ''debug'' else ''trace'')"

text \<open>The world, the text on standard error and the exit code at the end.\<close>

definition cli_main :: "('g, 'ast) cli_env \<Rightarrow> cli \<Rightarrow> cli_world \<Rightarrow> (cli_world \<times> str \<times> nat) option" where
  "cli_main env c w =
     (case run_command env c w of
        None \<Rightarrow> None
      | Some (w', Inr _) \<Rightarrow> Some (w', [], 0)
      | Some (w', Inl err) \<Rightarrow> Some (w', eprintln_anyhow (ce_show_cause env) err, map_exit_code err))"

end
