(* ===== verification/CliProps.thy ===== *)
theory CliProps
  imports Cli ExportLive PipelineProps
begin

text \<open>What the command line program guarantees: the redaction of the recorded command line, verification, exit codes, and the
  round trip from \<open>parse\<close> to \<open>verify\<close>.\<close>

section \<open>Redaction\<close>

text \<open>What is shown of the arguments, before the cap.\<close>

fun visible :: "bool \<Rightarrow> str list \<Rightarrow> str list" where
  "visible hide [] = []"
| "visible hide (raw # args) =
     (if hide then ''<redacted>'' # visible False args
      else fst (redact_arg raw) # visible (snd (redact_arg raw)) args)"

definition clip :: "str \<Rightarrow> str" where
  "clip s = (if length s \<le> redact_cap_bytes then s
     else take (floor_char_boundary s redact_cap_bytes) s @ truncated_suffix)"

lemma floor_walk_boundary: "is_char_boundary s (floor_walk s i)"
  by (induction s i rule: floor_walk.induct) (auto simp: is_char_boundary_def)

lemma floor_walk_le: "floor_walk s i \<le> i"
  by (induction s i rule: floor_walk.induct) (auto simp: le_Suc_eq)

lemma floor_walk_append: "i < length s \<Longrightarrow> floor_walk (s @ t) i = floor_walk s i"
  by (induction s i rule: floor_walk.induct) (auto simp: is_char_boundary_def nth_append)

lemma floor_char_boundary_le: "floor_char_boundary s i \<le> i"
  using floor_walk_le [of s "min i (length s)"] by (simp add: floor_char_boundary_def)

lemma clip_append:
  assumes "length s > redact_cap_bytes"
  shows "map_option (\<lambda>x. x @ truncated_suffix) (string_truncate s (floor_char_boundary s redact_cap_bytes)) = Some (clip (s @ t))"
proof -
  have "floor_char_boundary (s @ t) redact_cap_bytes = floor_char_boundary s redact_cap_bytes"
    using assms floor_walk_append by (simp add: floor_char_boundary_def min_def)
  moreover have "floor_char_boundary s redact_cap_bytes \<le> length s" using floor_char_boundary_le [of s redact_cap_bytes] assms by simp
  moreover have "is_char_boundary s (floor_char_boundary s redact_cap_bytes)"
    by (simp add: floor_char_boundary_def floor_walk_boundary)
  ultimately show ?thesis using assms by (simp add: string_truncate_def clip_def)
qed

lemma redact_loop_clip:
  "length out \<le> redact_cap_bytes \<Longrightarrow> (first \<Longrightarrow> out = []) \<Longrightarrow>
   redact_loop args first hide out =
     Some (clip (case visible hide args of [] \<Rightarrow> out | vs \<Rightarrow> (if first then [] else out @ '' '') @ join_str '' '' vs))"
proof (induction args arbitrary: first hide out)
  case Nil
  then show ?case by (simp add: clip_def)
next
  case (Cons raw args)
  define arg where "arg = (if hide then ''<redacted>'' else fst (redact_arg raw))"
  define hide' where "hide' = (if hide then False else snd (redact_arg raw))"
  define out' where "out' = (if first then out else out @ '' '') @ arg"
  have vis: "visible hide (raw # args) = arg # visible hide' args" by (simp add: arg_def hide'_def)
  have out': "out' = (if first then [] else out @ '' '') @ arg" using Cons.prems(2) by (simp add: out'_def)
  obtain rest where rest: "(if first then [] else out @ '' '') @ join_str '' '' (arg # visible hide' args) = out' @ rest"
    "(case visible hide' args of [] \<Rightarrow> out' | vs \<Rightarrow> (out' @ '' '') @ join_str '' '' vs) = out' @ rest"
    by (cases "visible hide' args") (auto simp: out')
  have step: "redact_loop (raw # args) first hide out =
      (if length out' > redact_cap_bytes
       then map_option (\<lambda>s. s @ truncated_suffix) (string_truncate out' (floor_char_boundary out' redact_cap_bytes))
       else redact_loop args False hide' out')"
    by (simp add: Let_def case_prod_beta arg_def hide'_def out'_def)
  show ?case
  proof (cases "length out' > redact_cap_bytes")
    case True
    then show ?thesis using clip_append [OF True, of rest] by (simp only: step vis list.case rest if_True)
  next
    case False
    then have "redact_loop args False hide' out' = Some (clip (out' @ rest))"
      using Cons.IH [of out' False hide'] rest(2) by (simp del: append_assoc)
    with False show ?thesis by (simp only: step vis list.case rest if_False)
  qed
qed

text \<open>C38. The recorded command line is exactly the shown arguments joined by blanks, cut, when it is longer than four
  kilobytes, at the last character boundary up to there and marked as truncated: the redaction never panics, whatever the
  arguments and wherever the cap falls in a multi-byte character, and the record is at most fourteen bytes longer than the cap.\<close>
theorem redact_exact:
  "redact_command_line argv = Some (clip (join_str '' '' (visible False argv)))
   \<and> length (clip (join_str '' '' (visible False argv))) \<le> redact_cap_bytes + 14"
proof
  show "redact_command_line argv = Some (clip (join_str '' '' (visible False argv)))"
    using redact_loop_clip [of "[]" True argv False]
    by (simp add: redact_command_line_def split: list.splits)
  show "length (clip (join_str '' '' (visible False argv))) \<le> redact_cap_bytes + 14"
    using floor_char_boundary_le by (auto simp: clip_def truncated_suffix_def min.coboundedI2)
qed

text \<open>Two argument lists that differ only in the values of secret flags: after the \<open>=\<close> of a secret flag, or in the argument
  that follows a bare one.\<close>

inductive same_public :: "str list \<Rightarrow> str list \<Rightarrow> bool" where
  same_nil: "same_public [] []"
| same_plain: "\<not> snd (redact_arg x) \<Longrightarrow> same_public as bs \<Longrightarrow> same_public (x # as) (x # bs)"
| same_inline: "looks_secret_flag flag \<Longrightarrow> CHR ''='' \<notin> set flag \<Longrightarrow> same_public as bs \<Longrightarrow>
    same_public ((flag @ ''='' @ v) # as) ((flag @ ''='' @ w) # bs)"
| same_spaced: "starts_with flag ''--'' \<Longrightarrow> looks_secret_flag flag \<Longrightarrow> CHR ''='' \<notin> set flag \<Longrightarrow> same_public as bs \<Longrightarrow>
    same_public (flag # v # as) (flag # w # bs)"

lemma redact_arg_secret:
  "looks_secret_flag flag \<Longrightarrow> CHR ''='' \<notin> set flag \<Longrightarrow> redact_arg (flag @ ''='' @ v) = (flag @ ''=<redacted>'', False)"
  "starts_with flag ''--'' \<Longrightarrow> looks_secret_flag flag \<Longrightarrow> CHR ''='' \<notin> set flag \<Longrightarrow> redact_arg flag = (flag, True)"
  by (simp_all add: redact_arg_def redact_bare_def split_once_char_None [THEN iffD2])

lemma same_public_visible: "same_public as bs \<Longrightarrow> visible False as = visible False bs"
  by (induction rule: same_public.induct) (simp_all add: redact_arg_secret [simplified])

text \<open>C39. The recorded command line does not depend on a secret: two argument lists that differ only in the values of secret
  flags, inline or in the next argument, are recorded as the same text, also when the text is cut at the cap.\<close>
theorem redact_noninterference:
  assumes "same_public as bs"
  shows "redact_command_line as = redact_command_line bs"
  using redact_loop_clip [of "[]" True _ False] same_public_visible [OF assms] by (simp add: redact_command_line_def)

lemma redact_noninterference_witness:
  "redact_command_line [''tfparser'', ''--token=abc'', ''--db-password'', ''hunter2'', ''--out'']
   = redact_command_line [''tfparser'', ''--token=x'', ''--db-password'', ''swordfish'', ''--out'']"
proof (rule redact_noninterference)
  have flags: "looks_secret_flag ''--token''" "looks_secret_flag ''--db-password''" "starts_with ''--db-password'' ''--''"
    "\<not> snd (redact_arg ''tfparser'')" "\<not> snd (redact_arg ''--out'')"
    by code_simp+
  have db: "CHR ''='' \<notin> set ''--db-password''" and tk: "CHR ''='' \<notin> set ''--token''" by simp_all
  note last_arg = same_plain [OF flags(5) same_nil]
  note inner = same_inline [OF flags(1) tk same_spaced [OF flags(3,2) db last_arg, of "''hunter2''" "''swordfish''"], of "''abc''" "''x''"]
  show "same_public [''tfparser'', ''--token=abc'', ''--db-password'', ''hunter2'', ''--out'']
      [''tfparser'', ''--token=x'', ''--db-password'', ''swordfish'', ''--out'']"
    using same_plain [OF flags(4) inner] by simp
qed

text \<open>A value that contains such a word hides the next argument instead of itself, and with it the flag of a real secret.\<close>

lemma redact_value_word_leaks:
  "redact_command_line [''--var=token_ttl=60'', ''--password'', ''hunter2''] = Some ''--var=token_ttl=60 <redacted> hunter2''"
  "redact_command_line [''--var=db_password=hunter2''] = Some ''--var=db_password=hunter2''"
  by code_simp+

section \<open>Verification\<close>

lemma cli_bind_Ok: "cli_bind m k w = Some (w', Inr y) \<longleftrightarrow> (\<exists>w1 x. m w = Some (w1, Inr x) \<and> k x w1 = Some (w', Inr y))"
  by (auto simp: cli_bind_def split: option.splits prod.splits sum.splits)

lemma cli_simps [simp]:
  "cli_return x w = Some (w, Ok x)" "cli_result r w = Some (w, r)"
  by (simp_all add: cli_return_def cli_result_def)

text \<open>No call of the disk and no print fails from here on.\<close>

definition quiet :: "('g, 'ast) cli_env \<Rightarrow> cli_world \<Rightarrow> bool" where
  "quiet env w \<longleftrightarrow> (\<forall>n \<ge> os_calls (cw_out w). xe_fault (ce_export env) n = None) \<and> (\<forall>n \<ge> cw_prints w. ce_print_fault env n = None)"

lemma print_line_frame: "print_line env s w = Some (w', r) \<Longrightarrow> cw_out w' = cw_out w"
  by (auto simp: print_line_def Let_def split: option.splits)

lemma print_line_quiet:
  "quiet env w \<Longrightarrow> \<exists>w'. print_line env s w = Some (w', Ok ()) \<and> quiet env w' \<and> cw_out w' = cw_out w"
  by (simp add: print_line_def quiet_def Let_def)

lemma print_lines_quiet:
  "quiet env w \<Longrightarrow> \<exists>w'. print_lines env ss w = Some (w', Ok ()) \<and> cw_out w' = cw_out w"
proof (induction ss arbitrary: w)
  case (Cons s ss)
  from print_line_quiet [OF Cons.prems] obtain w1 where "print_line env s w = Some (w1, Ok ())" "quiet env w1" "cw_out w1 = cw_out w" by blast
  with Cons.IH [of w1] show ?case by (simp add: cli_bind_def)
qed simp

lemma read_quiet:
  assumes "quiet env w" "os_files (cw_out w) p = Some bytes"
  shows "\<exists>st. read_file_bytes (ce_export env) p (cw_out w) = (st, Ok bytes) \<and> quiet env (w\<lparr>cw_out := st\<rparr>) \<and> os_files st = os_files (cw_out w)"
  using assms by (simp add: quiet_def read_file_bytes_def io_bind_def io_call_def Let_def)

definition file_matches :: "('g, 'ast) cli_env \<Rightarrow> out_state \<Rightarrow> path \<Rightarrow> manifest_file \<Rightarrow> bool" where
  "file_matches env st dir f =
     (case os_files st (path_join dir (parse_path (mf_name f))) of
        None \<Rightarrow> False
      | Some bytes \<Rightarrow> length bytes = mf_bytes f \<and> bytes_to_hex (ce_sha256 env bytes) = mf_sha256 f)"

lemma file_verdict_ok:
  "snd (file_verdict env f r) = [] \<longleftrightarrow>
     (case r of Inl _ \<Rightarrow> False | Inr bytes \<Rightarrow> length bytes = mf_bytes f \<and> bytes_to_hex (ce_sha256 env bytes) = mf_sha256 f)"
  by (cases r) (simp_all add: file_verdict_def Let_def conj_commute)

lemma verify_file_sound:
  assumes "verify_file env dir f w = Some (w', Ok ms)"
  shows "os_files (cw_out w') = os_files (cw_out w)" "ms = [] \<Longrightarrow> file_matches env (cw_out w) dir f"
proof -
  obtain st r where r: "read_file_bytes (ce_export env) (path_join dir (parse_path (mf_name f))) (cw_out w) = (st, r)" by fastforce
  then have st: "os_files st = os_files (cw_out w)"
    by (auto simp: read_file_bytes_def io_bind_def io_call_def untorn_def Let_def split: option.splits)
  from assms r obtain line where v: "file_verdict env f (map_err io_error_text r) = (line, ms)"
    and w': "cw_out w' = st"
    by (auto simp: verify_file_def cli_bind_Ok Let_def dest!: print_line_frame split: prod.splits)
  show "os_files (cw_out w') = os_files (cw_out w)" by (simp add: w' st)
  assume "ms = []"
  with v have "snd (file_verdict env f (map_err io_error_text r)) = []" by simp
  then obtain bytes where b: "r = Ok bytes" "length bytes = mf_bytes f \<and> bytes_to_hex (ce_sha256 env bytes) = mf_sha256 f"
    by (cases r) (simp_all add: file_verdict_ok)
  with read_file_bytes_Ok [OF r [unfolded b(1)]] show "file_matches env (cw_out w) dir f" by (simp add: file_matches_def)
qed

lemma file_matches_cong: "os_files st = os_files st' \<Longrightarrow> file_matches env st dir = file_matches env st' dir"
  by (rule ext) (simp add: file_matches_def)

lemma verify_files_sound:
  "verify_files env dir fs w = Some (w', Ok []) \<Longrightarrow> list_all (file_matches env (cw_out w) dir) fs"
proof (induction fs arbitrary: w)
  case (Cons f fs)
  from Cons.prems obtain w1 where 1: "verify_file env dir f w = Some (w1, Ok [])" "verify_files env dir fs w1 = Some (w', Ok [])"
    by (auto simp: cli_bind_Ok)
  from verify_file_sound [OF 1(1)] Cons.IH [OF 1(2)] show ?case
    using file_matches_cong [OF verify_file_sound(1) [OF 1(1)]] by (metis list.pred_inject(2))
qed simp

lemma verify_file_quiet:
  assumes "quiet env w" "file_matches env (cw_out w) dir f"
  shows "\<exists>w'. verify_file env dir f w = Some (w', Ok []) \<and> quiet env w' \<and> os_files (cw_out w') = os_files (cw_out w)"
proof -
  obtain bytes where b: "os_files (cw_out w) (path_join dir (parse_path (mf_name f))) = Some bytes"
    "length bytes = mf_bytes f \<and> bytes_to_hex (ce_sha256 env bytes) = mf_sha256 f"
    using assms(2) by (auto simp: file_matches_def split: option.splits)
  from read_quiet [OF assms(1) b(1)] obtain st where st: "read_file_bytes (ce_export env) (path_join dir (parse_path (mf_name f))) (cw_out w) = (st, Ok bytes)"
    "quiet env (w\<lparr>cw_out := st\<rparr>)" "os_files st = os_files (cw_out w)" by blast
  have v: "snd (file_verdict env f (Ok bytes)) = []" using b(2) by (simp add: file_verdict_ok)
  from print_line_quiet [OF st(2), of "fst (file_verdict env f (Ok bytes))"] obtain w' where
    "print_line env (fst (file_verdict env f (Ok bytes))) (w\<lparr>cw_out := st\<rparr>) = Some (w', Ok ())" "quiet env w'" "cw_out w' = st" by auto
  then show ?thesis using st v by (simp add: verify_file_def case_prod_beta Let_def cli_bind_Ok)
qed

lemma verify_files_quiet:
  "quiet env w \<Longrightarrow> list_all (file_matches env (cw_out w) dir) fs \<Longrightarrow>
   \<exists>w'. verify_files env dir fs w = Some (w', Ok []) \<and> quiet env w' \<and> os_files (cw_out w') = os_files (cw_out w)"
proof (induction fs arbitrary: w)
  case (Cons f fs)
  then obtain w1 where 1: "verify_file env dir f w = Some (w1, Ok [])" "quiet env w1" "os_files (cw_out w1) = os_files (cw_out w)"
    using verify_file_quiet [of env w dir f] by auto
  have "list_all (file_matches env (cw_out w1) dir) fs"
    using Cons.prems(2) file_matches_cong [OF 1(3), of env dir] by simp
  from Cons.IH [OF 1(2) this] 1 show ?case by (auto simp: cli_bind_Ok)
qed simp

text \<open>The manifest an invocation of \<open>verify\<close> names, and what it promises of the disk.\<close>

definition manifest_dir :: "path \<Rightarrow> path" where
  "manifest_dir p = (case path_parent p of None \<Rightarrow> [CurDir] | Some d \<Rightarrow> d)"

definition intact :: "('g, 'ast) cli_env \<Rightarrow> verify_args \<Rightarrow> out_state \<Rightarrow> bool" where
  "intact env args st \<longleftrightarrow>
     (\<exists>p bytes m. verify_manifest_path args = Ok p \<and> os_files st p = Some bytes \<and> length bytes \<le> max_manifest_bytes
        \<and> ce_read_manifest env bytes = Ok m \<and> list_all (file_matches env st (manifest_dir p)) (mn_files m))"

lemma with_context_Ok [simp]: "with_context c r = Inr x \<longleftrightarrow> r = Inr x" "with_context c (Inr x) = Inr x"
  by (simp_all add: with_context_def)

lemma cli_context_Ok: "cli_context c m w = Some (w', Inr x) \<longleftrightarrow> m w = Some (w', Inr x)"
  by (auto simp: cli_context_def)

lemma read_manifest_capped_Ok:
  assumes "read_manifest_capped xe p cap w = Some (w', Ok bytes)"
  shows "os_files (cw_out w) p = Some bytes" "length bytes \<le> cap" "os_files (cw_out w') = os_files (cw_out w)"
  using assms by (auto simp: read_manifest_capped_def cli_bind_Ok cli_disk_def Let_def dest!: read_file_bytes_Ok split: prod.splits if_splits)

lemma read_manifest_capped_quiet:
  assumes "quiet env w" "os_files (cw_out w) p = Some bytes" "length bytes \<le> cap"
  shows "\<exists>w'. read_manifest_capped (ce_export env) p cap w = Some (w', Ok bytes) \<and> quiet env w' \<and> os_files (cw_out w') = os_files (cw_out w)"
  using read_quiet [OF assms(1,2)] assms(3) by (fastforce simp: read_manifest_capped_def cli_bind_Ok cli_disk_def Let_def)

lemma verify_complete:
  assumes "quiet env w" "intact env args (cw_out w)"
  shows "\<exists>w'. run_verify env args w = Some (w', Ok ()) \<and> os_files (cw_out w') = os_files (cw_out w)"
proof -
  from assms(2) obtain p bytes m where p: "verify_manifest_path args = Ok p" "os_files (cw_out w) p = Some bytes" "length bytes \<le> max_manifest_bytes"
    "ce_read_manifest env bytes = Ok m" and fs: "list_all (file_matches env (cw_out w) (manifest_dir p)) (mn_files m)"
    by (auto simp: intact_def)
  obtain w1 where 1: "read_manifest_capped (ce_export env) p max_manifest_bytes w = Some (w1, Ok bytes)" "quiet env w1"
    "os_files (cw_out w1) = os_files (cw_out w)"
    using read_manifest_capped_quiet [OF assms(1) p(2,3)] by blast
  obtain w2 where 2: "print_line env (''verifying '' @ path_str p @ '' ('' @ nat_str (length (mn_files m)) @ '' file(s))'') w1 = Some (w2, Ok ())"
    "quiet env w2" "cw_out w2 = cw_out w1" using print_line_quiet [OF 1(2)] by blast
  have "list_all (file_matches env (cw_out w2) (manifest_dir p)) (mn_files m)"
    using fs file_matches_cong [of "cw_out w2" "cw_out w" env "manifest_dir p"] 1(3) 2(3) by simp
  from verify_files_quiet [OF 2(2) this] obtain w3 where 3: "verify_files env (manifest_dir p) (mn_files m) w2 = Some (w3, Ok [])"
    "quiet env w3" "os_files (cw_out w3) = os_files (cw_out w2)" by blast
  obtain w4 where 4: "print_line env (''ok '' @ em_dash @ '' manifest verified'') w3 = Some (w4, Ok ())" "cw_out w4 = cw_out w3"
    using print_line_quiet [OF 3(2)] by blast
  have "run_verify env args w = Some (w4, Ok ())"
    unfolding run_verify_def cli_bind_Ok cli_context_Ok Let_def manifest_dir_def [symmetric]
    using p(1) 1(1) p(4) 2(1) 3(1) 4(1) by (fastforce simp: cli_simps)
  then show ?thesis using 1(3) 2(3) 3(3) 4(2) by auto
qed

text \<open>C36. \<open>verify\<close> is exact: it succeeds only if the manifest is there, within the cap and readable, and every file it lists
  has the recorded length and SHA-256, whichever disk calls or prints failed on the way; and when nothing fails it succeeds
  whenever that is so.\<close>
theorem verify_exact:
  "(run_verify env args w = Some (w', Ok ()) \<longrightarrow> intact env args (cw_out w))
   \<and> (quiet env w \<and> intact env args (cw_out w) \<longrightarrow>
       (\<exists>w'. run_verify env args w = Some (w', Ok ()) \<and> os_files (cw_out w') = os_files (cw_out w)))"
proof (intro conjI impI)
  assume "run_verify env args w = Some (w', Ok ())"
  then obtain p w1 bytes m w2 w3 where p: "verify_manifest_path args = Ok p"
    and b: "read_manifest_capped (ce_export env) p max_manifest_bytes w = Some (w1, Ok bytes)"
    and m: "ce_read_manifest env bytes = Ok m"
    and 2: "print_line env (''verifying '' @ path_str p @ '' ('' @ nat_str (length (mn_files m)) @ '' file(s))'') w1 = Some (w2, Ok ())"
    and 3: "verify_files env (manifest_dir p) (mn_files m) w2 = Some (w3, Ok [])"
    by (auto simp: run_verify_def cli_bind_Ok cli_context_Ok manifest_dir_def Let_def split: if_splits)
  have "os_files (cw_out w2) = os_files (cw_out w)" using print_line_frame [OF 2] read_manifest_capped_Ok(3) [OF b] by simp
  note file_matches_cong [OF this, of env "manifest_dir p"]
  with read_manifest_capped_Ok [OF b] p m verify_files_sound [OF 3] show "intact env args (cw_out w)"
    by (auto simp: intact_def)
qed (blast intro: verify_complete)

section \<open>What \<open>parse\<close> wrote verifies\<close>

lemma parse_output_names:
  "parse_path ''workspace.manifest.json'' = [Normal ''workspace.manifest.json'']"
  "parse_path ''resources.parquet'' = [Normal ''resources.parquet'']"
  "parse_path (file_stem t @ ''.parquet'') = [Normal (file_stem t @ ''.parquet'')]"
proof -
  show "parse_path ''workspace.manifest.json'' = [Normal ''workspace.manifest.json'']"
    and "parse_path ''resources.parquet'' = [Normal ''resources.parquet'']" by code_simp+
  have "list_all (\<lambda>t. parse_path (file_stem t @ ''.parquet'') = [Normal (file_stem t @ ''.parquet'')]) [Dependencies, Components, Modules]"
    by code_simp
  then show "parse_path (file_stem t @ ''.parquet'') = [Normal (file_stem t @ ''.parquet'')]" by (cases t) simp_all
qed

lemma output_joins:
  "path_join (xo_out_dir opts) (parse_path ''workspace.manifest.json'') = manifest_path opts"
  "path_join (xo_out_dir opts) (parse_path ''resources.parquet'') = resources_path opts"
  "path_join (xo_out_dir opts) (parse_path (file_stem t @ ''.parquet'')) = table_path opts t"
  "manifest_dir (manifest_path opts) = xo_out_dir opts"
  by (simp_all only: parse_output_names manifest_path_def resources_path_def table_path_def)
    (simp add: manifest_dir_def path_parent_def path_join_def is_absolute_def)

text \<open>The reader of manifests inverts the writer, and both sides compute the same hash.\<close>

definition readers_fit :: "('g, 'ast) cli_env \<Rightarrow> bool" where
  "readers_fit env \<longleftrightarrow>
     (\<forall>m bytes. xe_manifest_json (ce_export env) m = Ok bytes \<longrightarrow> ce_read_manifest env bytes = Ok m)
     \<and> (\<forall>bytes. bytes_to_hex (ce_sha256 env bytes) = xe_sha256_hex (ce_export env) bytes)"

lemma export_intact:
  assumes "export_workspace (ce_export env) ws opts st = (st', Ok rep)" "readers_fit env"
    and "\<And>bytes. os_files st' (manifest_path opts) = Some bytes \<Longrightarrow> length bytes \<le> max_manifest_bytes"
  shows "intact env \<lparr>vg_manifest = None, vg_dir = Some (xo_out_dir opts)\<rparr> st'"
proof -
  let ?xe = "ce_export env"
  have pub: "os_files st' p = final_content ?xe ws opts p" "final_content ?xe ws opts p \<noteq> None" if "p \<in> set (output_paths opts)" for p
    using export_Ok(1) [OF assms(1)] that by (auto simp: published_def)
  obtain mb where mb: "manifest_bytes ?xe ws opts = Some mb" "os_files st' (manifest_path opts) = Some mb"
    using pub [of "manifest_path opts"] by auto
  then obtain m where m: "manifest_of ?xe ws opts = Some m" "xe_manifest_json ?xe m = Ok mb"
    by (cases "manifest_of ?xe ws opts"; cases "xe_manifest_json ?xe (the (manifest_of ?xe ws opts))") (auto simp: manifest_bytes_def)
  then obtain b outs where b: "encoded ?xe opts (resources_data ?xe ws opts) = Some b"
    and outs: "map_option_list (table_output_of ?xe ws opts) (xo_tables opts) = Some outs"
    and files: "m = build_manifest ws opts (parsed_at_of ?xe opts) (snd (batches_of ?xe ws opts)) (length b) (xe_sha256_hex ?xe b) outs"
    by (auto simp: manifest_of_def split: option.splits)
  have hex: "bytes_to_hex (ce_sha256 env c) = xe_sha256_hex ?xe c" for c using assms(2) by (simp add: readers_fit_def)
  define T where "T = set (xo_tables opts)"
  have "list_all2 (\<lambda>t out. t \<in> T \<and> table_output_of ?xe ws opts t = Some out) (xo_tables opts) outs"
    using outs unfolding map_option_list_Some_iff by (auto simp: list_all2_conv_all_nth T_def)
  then have tables: "list_all (\<lambda>out. to_table out \<in> T \<and> table_output_of ?xe ws opts (to_table out) = Some out) outs"
    by (induction rule: list_all2_induct) (auto simp: table_output_of_def)
  have "file_matches env st' (xo_out_dir opts)
      \<lparr>mf_name = file_stem (to_table out) @ ''.parquet'', mf_rows = to_rows out, mf_bytes = to_bytes out, mf_sha256 = to_sha out\<rparr>"
    if "out \<in> set outs" for out
  proof -
    have t: "to_table out \<in> set (xo_tables opts)" and "table_output_of ?xe ws opts (to_table out) = Some out"
      using tables that by (simp_all add: list_all_iff T_def)
    then obtain z where z: "encoded ?xe opts (table_data_of ws (to_table out)) = Some z"
      and "\<lparr>to_table = to_table out, to_rows = table_data_rows (table_data_of ws (to_table out)), to_bytes = length z,
        to_sha = xe_sha256_hex ?xe z\<rparr> = out"
      by (auto simp: table_output_of_def)
    then have "to_bytes out = length z" "to_sha out = xe_sha256_hex ?xe z" by (metis table_output.select_convs)+
    then show ?thesis using pub(1) [of "table_path opts (to_table out)"] t z
      by (simp add: file_matches_def output_joins hex)
  qed
  moreover have "file_matches env st' (xo_out_dir opts)
      \<lparr>mf_name = ''resources.parquet'', mf_rows = n, mf_bytes = length b, mf_sha256 = xe_sha256_hex ?xe b\<rparr>" for n
    using pub(1) [of "resources_path opts"] b by (simp add: file_matches_def output_joins(2) hex)
  ultimately have "list_all (file_matches env st' (xo_out_dir opts)) (mn_files m)"
    by (auto simp: files build_manifest_def list_all_iff)
  moreover have "ce_read_manifest env mb = Ok m" using m(2) assms(2) by (simp add: readers_fit_def)
  ultimately show ?thesis
    using mb(2) assms(3) [OF mb(2)] by (auto simp: intact_def verify_manifest_path_def output_joins)
qed

section \<open>The steps of \<open>parse\<close>\<close>

lemma cli_bind_Some:
  "cli_bind m k w = Some (w', r) \<longleftrightarrow>
     (\<exists>e. m w = Some (w', Inl e) \<and> r = Inl e) \<or> (\<exists>w1 x. m w = Some (w1, Inr x) \<and> k x w1 = Some (w', r))"
  by (auto simp: cli_bind_def split: option.splits prod.splits sum.splits)

lemma print_lines_frame: "print_lines env ss w = Some (w', r) \<Longrightarrow> cw_out w' = cw_out w \<and> (\<forall>e. r = Err e \<longrightarrow> map_exit_code e = 1)"
proof (induction ss arbitrary: w)
  case (Cons s ss)
  have "map_exit_code e = 1" if "print_line env s w = Some (w1, Err e)" for w1 e
    using that by (auto simp: print_line_def Let_def map_exit_code_def anyhow_def split: option.splits)
  with Cons show ?case by (fastforce simp: cli_bind_Some dest: print_line_frame)
qed auto

lemma map_err_Err: "map_err f r = Inl e \<longleftrightarrow> (\<exists>e'. r = Inl e' \<and> e = f e')"
  by (cases r) auto

lemma create_dir_all_frame: "os_files (fst (create_dir_all xe p st)) = os_files st"
  by (simp add: create_dir_all_def Let_def split: option.split)

lemma ensure_out_dir_frame:
  assumes "ensure_out_dir env out w = Some (w', r)"
  shows "os_files (cw_out w') = os_files (cw_out w)" "r = Err e \<Longrightarrow> map_exit_code e = 1" "r = Ok () \<Longrightarrow> os_dirs (cw_out w') out"
  using assms create_dir_all_frame [of "ce_export env" out "cw_out w"]
  by (auto simp: ensure_out_dir_def cli_bind_Some cli_disk_def map_exit_code_def anyhow_def map_err_Err split: if_splits prod.splits)

lemma export_options_of:
  assumes "build_export_options env args = Some (Ok opts)"
  shows "xo_out_dir opts = ag_out args" "xo_overwrite opts = ag_overwrite args" "xo_tables opts = tables_of args"
  using assms by (auto simp: build_export_options_def export_options_new_def split: sum.splits option.splits)

lemma with_context_code [simp]: "map_exit_code (e\<lparr>ae_context := c\<rparr>) = map_exit_code e"
  by (simp add: map_exit_code_def)

lemma with_context_Err: "with_context c r = Err e \<longleftrightarrow> (\<exists>e'. r = Err e' \<and> e = e'\<lparr>ae_context := c # ae_context e'\<rparr>)"
  by (cases r) (auto simp: with_context_def)

lemma core_codes: "map_exit_code (anyhow (AeCore e)) \<in> {2, 3, 4, 6, 7}"
  by (simp add: map_exit_code_def anyhow_def split: core_error.split)

definition early_codes :: "nat set" where
  "early_codes = {1, 2, 3, 4, 6, 7}"

lemma cause_codes [simp]:
  "map_exit_code (anyhow (AeCore e)) \<in> early_codes" "map_exit_code (anyhow (AeMessage s)) \<in> early_codes"
  "map_exit_code (anyhow (AeTime s)) \<in> early_codes" "map_exit_code (anyhow (AeValidation v)) \<in> early_codes"
  by (simp_all add: map_exit_code_def anyhow_def early_codes_def split: core_error.split)

lemma add_vars_codes: "add_vars kvs b = Err e \<Longrightarrow> map_exit_code e \<in> early_codes"
  by (induction kvs arbitrary: b) (auto simp: and_then_Err_iff parse_kv_def split: option.splits if_splits)

lemma build_parser_codes: "build_parser env args r = Err e \<Longrightarrow> map_exit_code e \<in> early_codes"
  by (auto simp: build_parser_def Let_def and_then_Err_iff with_context_Err from_core_def map_err_Err
      dest: add_vars_codes split: option.splits)

lemma export_options_codes: "build_export_options env args = Some (Err e) \<Longrightarrow> map_exit_code e \<in> early_codes"
  by (auto simp: build_export_options_def and_then_Err_iff parse_rfc3339_ms_def compression_of_def with_context_Err map_err_Err
      split: option.splits sum.splits compression_kind.splits)

lemma export_step_cases:
  assumes "export_step env p opts w = Some (w', r)"
  obtains (run) e where "r = Err e" "map_exit_code e \<in> early_codes" "cw_out w' = cw_out w"
  | (failed) ws x e where "export_workspace (ce_export env) ws opts (cw_out w) = (cw_out w', Err x)" "r = Err e" "map_exit_code e = 7"
  | (exported) ws rep where "export_workspace (ce_export env) ws opts (cw_out w) = (cw_out w', Ok rep)" "r = Ok (ws, rep)"
proof -
  obtain st pr where step: "parse_and_export (ce_pipeline env) (ce_export env) p opts (cw_out w) = Some (st, pr)"
    and w': "cw_out w' = st" and r: "r = with_context ''parse + export'' (from_core pr)"
    using assms by (auto simp: export_step_def split: option.splits)
  obtain q where q: "parser_parse (ce_pipeline env) p = Some q" using step by (cases "parser_parse (ce_pipeline env) p") (simp_all add: parse_and_export_def)
  show thesis
  proof (cases q)
    case (Inl e)
    with q step have "st = cw_out w" "pr = Err e" by (simp_all add: parse_and_export_def)
    with r obtain e' where "r = Err e'" "map_exit_code e' = map_exit_code (anyhow (AeCore e))"
      by (auto simp: with_context_def from_core_def)
    with \<open>st = cw_out w\<close> w' show thesis by (intro run [of e']) simp_all
  next
    case (Inr ws)
    obtain st1 er where er: "export_workspace (ce_export env) ws opts (cw_out w) = (st1, er)" by fastforce
    show thesis
    proof (cases er)
      case (Inl x)
      with er q Inr step have "st = st1" "pr = Err (CoreExport x)" by (simp_all add: parse_and_export_def)
      with r obtain e' where "r = Err e'" "map_exit_code e' = map_exit_code (anyhow (AeCore (CoreExport x)))"
        by (auto simp: with_context_def from_core_def)
      with \<open>st = st1\<close> w' er Inl show thesis by (intro failed [of ws x e']) (simp_all add: map_exit_code_def anyhow_def)
    next
      case (Inr rep)
      with er q \<open>q = Inr ws\<close> step have "st = st1" "pr = Ok (ws, rep)" by (simp_all add: parse_and_export_def)
      with r w' er Inr show thesis by (intro exported) (auto simp: from_core_def)
    qed
  qed
qed

text \<open>A run of \<open>parse\<close> fails before the export, fails in it, or exports and prints.\<close>

lemma run_parse_cases:
  assumes "run_parse env args w = Some (w', r)"
  obtains (early) e where "r = Err e" "map_exit_code e \<in> early_codes" "os_files (cw_out w') = os_files (cw_out w)"
  | (failed) ws opts st x e where "build_export_options env args = Some (Ok opts)" "os_files st = os_files (cw_out w)" "os_dirs st (ag_out args)"
      "export_workspace (ce_export env) ws opts st = (cw_out w', Err x)" "r = Err e" "map_exit_code e = 7"
  | (exported) ws opts st rep where "build_export_options env args = Some (Ok opts)" "os_files st = os_files (cw_out w)" "os_dirs st (ag_out args)"
      "export_workspace (ce_export env) ws opts st = (cw_out w', Ok rep)" "r = Ok () \<or> (\<exists>e. r = Err e \<and> map_exit_code e = 1)"
proof -
  consider (root) e where "canonicalize_cli_root env (ag_root args) = Err e" "r = Err e" "w' = w"
    | (dir) e where "ensure_out_dir env (ag_out args) w = Some (w', Err e)" "r = Err e"
    | (parser) wroot e where "ensure_out_dir env (ag_out args) w = Some (w', Ok ())" "build_parser env args wroot = Err e" "r = Err e"
    | (opts) e where "ensure_out_dir env (ag_out args) w = Some (w', Ok ())" "build_export_options env args = Some (Err e)" "r = Err e"
    | (step) w1 p opts e where "ensure_out_dir env (ag_out args) w = Some (w1, Ok ())" "build_export_options env args = Some (Ok opts)"
        "export_step env p opts w1 = Some (w', Err e)" "r = Err e"
    | (prints) w1 p opts w2 ws rep where "ensure_out_dir env (ag_out args) w = Some (w1, Ok ())" "build_export_options env args = Some (Ok opts)"
        "export_step env p opts w1 = Some (w2, Ok (ws, rep))" "print_lines env (summary_lines env ws rep) w2 = Some (w', r)"
    using assms unfolding run_parse_def cli_bind_Some by (simp add: case_prod_beta) blast
  then show thesis
  proof cases
    case root
    then show thesis by (intro early [of e]) (auto simp: canonicalize_cli_root_def map_err_Err)
  next
    case dir
    then show thesis using ensure_out_dir_frame [OF dir(1)] by (intro early [of e]) (auto simp: early_codes_def)
  next
    case parser
    then show thesis using ensure_out_dir_frame [OF parser(1)] build_parser_codes by (intro early [of e]) auto
  next
    case opts
    then show thesis using ensure_out_dir_frame [OF opts(1)] export_options_codes by (intro early [of e]) auto
  next
    case step
    note st1 = ensure_out_dir_frame [OF step(1)]
    from step(3) show thesis
    proof (cases rule: export_step_cases)
      case run
      with st1 step show thesis by (intro early [of e]) simp_all
    next
      case failed
      with st1 step show thesis by (intro that(2) [of opts "cw_out w1"]) simp_all
    qed simp
  next
    case prints
    note st1 = ensure_out_dir_frame [OF prints(1)]
    from prints(3) obtain ws' where "export_workspace (ce_export env) ws' opts (cw_out w1) = (cw_out w2, Ok rep)"
      by (cases rule: export_step_cases) simp_all
    moreover have "cw_out w' = cw_out w2" "r = Ok () \<or> (\<exists>e. r = Err e \<and> map_exit_code e = 1)"
      using print_lines_frame [OF prints(4)] by (cases r; simp)+
    ultimately show thesis using st1 prints(2) by (intro exported [of opts "cw_out w1" ws']) simp_all
  qed
qed

section \<open>Exit codes and the round trip\<close>

text \<open>C37. What the exit code of \<open>parse\<close> says.  It is one of 0, 1, 2, 3, 4, 6 and 7, never the 5 of a Terragrunt error;
  every code but 0, 1 and 7 means that no file of the disk has changed; and after 0 every output holds its complete content.
  Whatever the code, a file that is not a \<open>.partial\<close> one is as before or holds the complete content of this run.\<close>
theorem parse_exit_codes:
  assumes "cl_command c = CmdParse args" "cli_main env c w = Some (w', err, code)"
  shows "code \<in> {0, 1, 2, 3, 4, 6, 7}
    \<and> (code \<notin> {0, 1, 7} \<longrightarrow> os_files (cw_out w') = os_files (cw_out w))
    \<and> (code = 0 \<longrightarrow> (\<exists>ws opts. build_export_options env args = Some (Ok opts) \<and> (\<forall>p \<in> set (output_paths opts).
          os_files (cw_out w') p = final_content (ce_export env) ws opts p \<and> final_content (ce_export env) ws opts p \<noteq> None)))
    \<and> (os_files (cw_out w') = os_files (cw_out w) \<or>
         (\<exists>ws opts. build_export_options env args = Some (Ok opts) \<and> (\<forall>p. p \<notin> partials opts \<longrightarrow>
            os_files (cw_out w') p = os_files (cw_out w) p
            \<or> os_files (cw_out w') p = final_content (ce_export env) ws opts p \<and> final_content (ce_export env) ws opts p \<noteq> None)))"
proof -
  obtain r where run: "run_parse env args w = Some (w', r)" and code: "code = (case r of Inl e \<Rightarrow> map_exit_code e | Inr _ \<Rightarrow> 0)"
    using assms by (auto simp: cli_main_def run_command_def split: option.splits sum.splits)
  have frame: "\<forall>p. p \<notin> partials opts \<longrightarrow> os_files (cw_out w') p = os_files (cw_out w) p
      \<or> os_files (cw_out w') p = final_content (ce_export env) ws opts p \<and> final_content (ce_export env) ws opts p \<noteq> None"
    if "export_workspace (ce_export env) ws opts st = (cw_out w', er)" "os_files st = os_files (cw_out w)" for ws opts st er
    using export_frame [of opts "ce_export env" ws st] that by (auto simp: replaced_def)
  from run show ?thesis
  proof (cases rule: run_parse_cases)
    case early
    then show ?thesis by (auto simp: code early_codes_def)
  next
    case failed
    then show ?thesis using frame [OF failed(4,2)] by (auto simp: code)
  next
    case (exported ws opts st rep)
    have "\<forall>p \<in> set (output_paths opts). os_files (cw_out w') p = final_content (ce_export env) ws opts p
        \<and> final_content (ce_export env) ws opts p \<noteq> None"
      using export_Ok(1) [OF exported(4)] by (simp add: published_def)
    with exported frame [OF exported(4,2)] show ?thesis by (auto simp: code)
  qed
qed

text \<open>C35. What \<open>parse\<close> wrote verifies: after a successful \<open>parse\<close>, \<open>verify --dir\<close> on the same output directory succeeds and
  leaves the files alone, when the JSON reader inverts the writer, both sides hash alike, the manifest fits the cap of four
  megabytes, and no call fails.\<close>
theorem parse_then_verify:
  assumes "run_parse env args w = Some (w1, Ok ())" "readers_fit env" "quiet env w1"
    and "\<forall>bytes. os_files (cw_out w1) (path_join (ag_out args) (parse_path ''workspace.manifest.json'')) = Some bytes
      \<longrightarrow> length bytes \<le> max_manifest_bytes"
  shows "\<exists>w2. run_verify env \<lparr>vg_manifest = None, vg_dir = Some (ag_out args)\<rparr> w1 = Some (w2, Ok ())
    \<and> os_files (cw_out w2) = os_files (cw_out w1)"
proof -
  from assms(1) obtain ws opts st rep where "build_export_options env args = Some (Ok opts)"
    and ex: "export_workspace (ce_export env) ws opts st = (cw_out w1, Ok rep)"
    by (cases rule: run_parse_cases) auto
  then have out: "xo_out_dir opts = ag_out args" by (simp add: export_options_of)
  have "path_join (ag_out args) (parse_path ''workspace.manifest.json'') = manifest_path opts" by (simp only: out [symmetric] output_joins)
  with export_intact [OF ex assms(2)] assms(4) have "intact env \<lparr>vg_manifest = None, vg_dir = Some (ag_out args)\<rparr> (cw_out w1)"
    by (simp only: out)
  with assms(3) show ?thesis by (rule verify_complete)
qed

section \<open>A session\<close>

text \<open>An empty workspace, the output directory there and empty.\<close>

definition cli_ex_pipeline :: "(unit, hbody) pipeline_env" where
  "cli_ex_pipeline = run_ex_env\<lparr>pe_walker := (\<lambda>_. [])\<rparr>"

definition cli_ex_args :: parse_args where
  "cli_ex_args = \<lparr>ag_root = [RootDir, Normal ''w''], ag_out = out_ex, ag_overwrite = False, ag_parsed_at = None, ag_environment = None,
     ag_region = None, ag_profile_map = None, ag_aws_config = None, ag_vars = [], ag_allow_env = [], ag_env_mode = EmStrict,
     ag_strict_providers = False, ag_compression = CompZstd, ag_zstd_level = 3, ag_tables = TablesAll\<rparr>"

definition cli_ex_options :: export_options where
  "cli_ex_options = (export_options_new out_ex)\<lparr>xo_command_line := ''tfparser'', xo_tables := [Dependencies, Components, Modules]\<rparr>"

definition cli_ex_parser :: parser where
  "cli_ex_parser = \<lparr>pr_options = (pipeline_options_new [RootDir, Normal ''w''])\<lparr>po_env_var_mode := Strict []\<rparr>,
     pr_profile_map = None, pr_default_region = None, pr_strict_providers = False\<rparr>"

definition cli_ex_workspace :: workspace where
  "cli_ex_workspace = (case parser_parse cli_ex_pipeline cli_ex_parser of Some (Inr ws) \<Rightarrow> ws | _ \<Rightarrow> ws_ex)"

text \<open>The writer of JSON knows one manifest, the one of this session, and the reader returns it.\<close>

definition cli_ex_manifest :: manifest where
  "cli_ex_manifest = (case manifest_of ((env_ex (\<lambda>_. None))\<lparr>xe_sha256_hex := bytes_to_hex\<rparr>) cli_ex_workspace cli_ex_options of
     Some m \<Rightarrow> m | None \<Rightarrow> build_manifest ws_ex cli_ex_options 0 0 0 [] [])"

definition cli_ex_export :: export_env where
  "cli_ex_export = (env_ex (\<lambda>_. None))\<lparr>xe_sha256_hex := bytes_to_hex,
     xe_manifest_json := (\<lambda>m. if m = cli_ex_manifest then Ok ''{}'' else Err ''unknown'')\<rparr>"

definition cli_ex_env :: "(unit, hbody) cli_env" where
  "cli_ex_env = \<lparr>ce_pipeline = cli_ex_pipeline, ce_export = cli_ex_export, ce_argv = [''tfparser''],
     ce_profiles = \<lparr>pp_probe = (\<lambda>_. \<lparr>fp_size = Err [], fp_bytes = Err []\<rparr>), pp_yaml = (\<lambda>_. Ok []), pp_validate = (\<lambda>_. Ok ()),
       pp_ini = (\<lambda>_. Ok []), pp_order = remdups\<rparr>,
     ce_timestamp_ms = (\<lambda>_. Ok 0), ce_read_manifest = (\<lambda>_. Ok cli_ex_manifest), ce_sha256 = (\<lambda>s. s), ce_schema_json = (\<lambda>_. Ok []),
     ce_print_fault = (\<lambda>_. None), ce_elapsed_ms = 5, ce_show_cause = (\<lambda>_. [])\<rparr>"

definition cli_ex_world :: cli_world where
  "cli_ex_world = \<lparr>cw_out = \<lparr>os_files = (\<lambda>_. None), os_dirs = (\<lambda>p. p = out_ex), os_calls = 0\<rparr>, cw_stdout = [], cw_prints = 0\<rparr>"

lemma cli_ex_steps:
  "canonicalize_cli_root cli_ex_env (ag_root cli_ex_args) = Ok [RootDir, Normal ''w'']"
  "ensure_out_dir cli_ex_env (ag_out cli_ex_args) cli_ex_world = Some (cli_ex_world, Ok ())"
  "build_parser cli_ex_env cli_ex_args [RootDir, Normal ''w''] = Ok cli_ex_parser"
  "build_export_options cli_ex_env cli_ex_args = Some (Ok cli_ex_options)"
proof -
  show "canonicalize_cli_root cli_ex_env (ag_root cli_ex_args) = Ok [RootDir, Normal ''w'']"
    by (simp add: canonicalize_cli_root_def cli_ex_env_def cli_ex_pipeline_def run_ex_env_def ex_disk_def cli_ex_args_def)
  show "ensure_out_dir cli_ex_env (ag_out cli_ex_args) cli_ex_world = Some (cli_ex_world, Ok ())"
    by (simp add: ensure_out_dir_def cli_bind_def cli_ex_args_def cli_ex_world_def out_exists_def)
  show "build_parser cli_ex_env cli_ex_args [RootDir, Normal ''w''] = Ok cli_ex_parser"
    by (simp add: build_parser_def cli_ex_args_def allow_env_many_def builder_default_def env_var_mode_of_def from_core_def
        builder_build_def builder_options_def given_or_def pipeline_options_new_def cli_ex_parser_def Let_def)
  have "redact_command_line [''tfparser''] = Some ''tfparser''" by code_simp
  then show "build_export_options cli_ex_env cli_ex_args = Some (Ok cli_ex_options)"
    by (simp add: build_export_options_def cli_ex_env_def cli_ex_args_def compression_of_def compression_zstd_def tables_of_def
        cli_ex_options_def export_options_new_def)
qed

lemma cli_ex_discovers:
  obtains disc where "discover (pe_regexes cli_ex_pipeline) (pe_walker cli_ex_pipeline) (pe_disk cli_ex_pipeline) [RootDir, Normal ''w'']
      (discovery_opts_of cli_ex_pipeline (pr_options cli_ex_parser)) = Ok disc"
proof -
  let ?opts = "discovery_opts_of cli_ex_pipeline (pr_options cli_ex_parser)"
  have opts: "do_max_total_files ?opts < u64_max" "do_follow_symlinks ?opts = do_follow_symlinks run_ex_discovery"
    by (simp_all add: discovery_opts_of_def cli_ex_parser_def pipeline_options_new_def u64_max_def run_ex_discovery_def)
  have "is_ok (canonicalize_root ex_disk [RootDir, Normal ''w''] run_ex_discovery)" by code_simp
  then obtain r where "canonicalize_root ex_disk [RootDir, Normal ''w''] run_ex_discovery = Ok r" by (auto simp: is_ok_iff)
  moreover have "canonicalize_root d p ?opts = canonicalize_root d p run_ex_discovery" for d p
    by (simp add: canonicalize_root_def opts(2))
  moreover have "pe_disk cli_ex_pipeline = ex_disk" by (simp add: cli_ex_pipeline_def run_ex_env_def)
  ultimately have "canonicalize_root (pe_disk cli_ex_pipeline) [RootDir, Normal ''w''] ?opts = Ok r" by simp
  moreover have "pe_walker cli_ex_pipeline = (\<lambda>_. [])" by (simp add: cli_ex_pipeline_def)
  ultimately have "\<exists>disc. discover (pe_regexes cli_ex_pipeline) (pe_walker cli_ex_pipeline) (pe_disk cli_ex_pipeline)
      [RootDir, Normal ''w''] ?opts = Ok disc"
    by (simp add: discover_eq [OF opts(1)] discover_spec_def walked_files_def Let_def)
  then show ?thesis using that by blast
qed

lemma cli_ex_parses: "\<exists>ws. parser_parse cli_ex_pipeline cli_ex_parser = Some (Ok ws)"
proof -
  let ?dp = "build_pipeline cli_ex_parser" and ?opts = "pr_options cli_ex_parser"
  obtain disc where d: "discover (pe_regexes cli_ex_pipeline) (pe_walker cli_ex_pipeline) (pe_disk cli_ex_pipeline) [RootDir, Normal ''w'']
      (discovery_opts_of cli_ex_pipeline ?opts) = Ok disc" by (rule cli_ex_discovers)
  have root: "pipeline_root (pe_disk cli_ex_pipeline) (po_root ?opts) = Ok [RootDir, Normal ''w'']"
    by (simp add: pipeline_root_def cli_ex_pipeline_def run_ex_env_def cli_ex_parser_def pipeline_options_new_def ex_disk_def)
  have fe: "pe_front_end cli_ex_pipeline = hcl_front_end (\<lambda>_. Ok run_ex_body)" by (simp add: cli_ex_pipeline_def run_ex_front_end)
  have lax: "\<not> dp_strict_providers ?dp" by (simp add: build_pipeline_def cli_ex_parser_def default_pipeline_new_def)
  obtain ld where ld: "load_workspace cli_ex_pipeline ?opts disc = Ok ld" by (simp add: load_workspace_eq Let_def)
  obtain reg evals ds where "run cli_ex_pipeline ?dp ?opts = Some (assemble cli_ex_pipeline ?dp [RootDir, Normal ''w''] reg evals ds)"
    using run_loaded_total [OF lowered_mod_free [OF fe] ld, of ?dp "[RootDir, Normal ''w'']"]
    by (auto simp: run_steps root d ld run_ex_front_end(2))
  moreover have "assemble cli_ex_pipeline ?dp croot reg evals ds \<noteq> Err e" for croot e
    using assemble_Err [of cli_ex_pipeline ?dp] lax by auto
  ultimately show ?thesis by (metis parser_parse_def sum.exhaust)
qed

lemma manifest_of_json: "manifest_of (env\<lparr>xe_manifest_json := j\<rparr>) ws opts = manifest_of env ws opts"
proof -
  have "table_output_of (env\<lparr>xe_manifest_json := j\<rparr>) ws opts = table_output_of env ws opts"
    by (rule ext) (simp add: table_output_of_def encoded_def)
  moreover have "parsed_at_of (env\<lparr>xe_manifest_json := j\<rparr>) opts = parsed_at_of env opts"
    by (simp add: parsed_at_of_def cong: option.case_cong)
  ultimately show ?thesis
    by (simp add: manifest_of_def encoded_def resources_data_def batches_of_def cong: option.case_cong)
qed

lemma cli_ex_exports:
  obtains st rep where "export_workspace cli_ex_export cli_ex_workspace cli_ex_options (cw_out cli_ex_world) = (st, Ok rep)"
    "os_files st (manifest_path cli_ex_options) = Some ''{}''"
proof -
  have "\<exists>st rep. export_workspace cli_ex_export cli_ex_workspace cli_ex_options (cw_out cli_ex_world) = (st, Ok rep)"
  proof (rule export_live)
    show "faultless cli_ex_export" by (simp add: faultless_def cli_ex_export_def env_ex_def)
    show "encodes_all cli_ex_export cli_ex_workspace cli_ex_options"
      by (auto simp: encodes_all_def cli_ex_export_def manifest_of_json cli_ex_manifest_def) (simp add: env_ex_def)
    show "os_dirs (cw_out cli_ex_world) (xo_out_dir cli_ex_options)"
      by (simp add: cli_ex_world_def cli_ex_options_def export_options_new_def)
    show "no_dirs_at cli_ex_options (cw_out cli_ex_world)"
      by (simp add: no_dirs_at_def output_paths_def output_path_simps cli_ex_world_def cli_ex_options_def export_options_new_def)
    show "xo_overwrite cli_ex_options \<or> list_all (\<lambda>p. \<not> out_exists (cw_out cli_ex_world) p) (output_paths cli_ex_options)"
      by (simp add: output_paths_def output_path_simps cli_ex_world_def cli_ex_options_def export_options_new_def out_exists_def)
  qed
  then obtain st rep where ex: "export_workspace cli_ex_export cli_ex_workspace cli_ex_options (cw_out cli_ex_world) = (st, Ok rep)" by blast
  then obtain mb where mb: "manifest_bytes cli_ex_export cli_ex_workspace cli_ex_options = Some mb"
      "os_files st (manifest_path cli_ex_options) = Some mb"
    using export_Ok(1) [OF ex] by (auto simp: published_def output_paths_def)
  then have "mb = ''{}''" by (auto simp: manifest_bytes_def bind_eq_Some_conv cli_ex_export_def split: if_splits)
  with ex mb(2) show ?thesis by (intro that) simp_all
qed

lemma cli_ex_session:
  obtains w1 where "run_parse cli_ex_env cli_ex_args cli_ex_world = Some (w1, Ok ())" "quiet cli_ex_env w1"
    "os_files (cw_out w1) (manifest_path cli_ex_options) = Some ''{}''"
proof -
  obtain st rep where ex: "export_workspace cli_ex_export cli_ex_workspace cli_ex_options (cw_out cli_ex_world) = (st, Ok rep)"
    and man: "os_files st (manifest_path cli_ex_options) = Some ''{}''" by (rule cli_ex_exports)
  have ws: "parser_parse cli_ex_pipeline cli_ex_parser = Some (Ok cli_ex_workspace)"
    using cli_ex_parses by (auto simp: cli_ex_workspace_def)
  have quiet: "quiet cli_ex_env w" for w by (simp add: quiet_def cli_ex_env_def cli_ex_export_def env_ex_def)
  have prints: "\<exists>w'. print_lines cli_ex_env ss w = Some (w', Ok ()) \<and> cw_out w' = cw_out w" for ss w
    using print_lines_quiet [OF quiet] .
  have "export_step cli_ex_env cli_ex_parser cli_ex_options cli_ex_world = Some (cli_ex_world\<lparr>cw_out := st\<rparr>, Ok (cli_ex_workspace, rep))"
    using ex ws by (simp add: export_step_def parse_and_export_def cli_ex_env_def from_core_def)
  with prints [of "summary_lines cli_ex_env cli_ex_workspace rep" "cli_ex_world\<lparr>cw_out := st\<rparr>"] cli_ex_steps
  obtain w1 where "run_parse cli_ex_env cli_ex_args cli_ex_world = Some (w1, Ok ())" "cw_out w1 = st"
    by (auto simp: run_parse_def cli_bind_def)
  with man quiet show ?thesis by (intro that [of w1]) simp_all
qed

theorem parse_then_verify_witness:
  "\<exists>w1 w2. run_parse cli_ex_env cli_ex_args cli_ex_world = Some (w1, Ok ())
     \<and> run_verify cli_ex_env \<lparr>vg_manifest = None, vg_dir = Some out_ex\<rparr> w1 = Some (w2, Ok ())"
proof -
  obtain w1 where w1: "run_parse cli_ex_env cli_ex_args cli_ex_world = Some (w1, Ok ())" "quiet cli_ex_env w1"
    "os_files (cw_out w1) (manifest_path cli_ex_options) = Some ''{}''" by (rule cli_ex_session)
  have fit: "readers_fit cli_ex_env" by (auto simp: readers_fit_def cli_ex_env_def cli_ex_export_def split: if_splits)
  have out: "ag_out cli_ex_args = xo_out_dir cli_ex_options" "xo_out_dir cli_ex_options = out_ex"
    by (simp_all add: cli_ex_args_def cli_ex_options_def export_options_new_def)
  have small: "length ''{}'' \<le> max_manifest_bytes" by (simp add: max_manifest_bytes_def)
  have "\<exists>w2. run_verify cli_ex_env \<lparr>vg_manifest = None, vg_dir = Some (ag_out cli_ex_args)\<rparr> w1 = Some (w2, Ok ())
      \<and> os_files (cw_out w2) = os_files (cw_out w1)"
    by (rule parse_then_verify [OF w1(1) fit w1(2)]) (simp only: out(1) output_joins w1(3) option.inject small, simp add: max_manifest_bytes_def)
  with w1(1) show ?thesis by (auto simp: out)
qed

theorem parse_exit_codes_witness:
  "\<exists>w'. cli_main cli_ex_env \<lparr>cl_command = CmdParse cli_ex_args, cl_verbose = 0\<rparr> cli_ex_world = Some (w', [], 0)
     \<and> os_files (cw_out w') (resources_path cli_ex_options) \<noteq> None"
proof -
  obtain w1 where "run_parse cli_ex_env cli_ex_args cli_ex_world = Some (w1, Ok ())" by (rule cli_ex_session)
  then have m: "cli_main cli_ex_env \<lparr>cl_command = CmdParse cli_ex_args, cl_verbose = 0\<rparr> cli_ex_world = Some (w1, [], 0)"
    by (simp add: cli_main_def run_command_def)
  from parse_exit_codes [OF _ m, of cli_ex_args] cli_ex_steps(4) have "os_files (cw_out w1) (resources_path cli_ex_options) \<noteq> None"
    by (auto simp: output_paths_def)
  with m show ?thesis by blast
qed

text \<open>A manifest of one file, and a world in which that file has grown by a byte.\<close>

definition verify_ex_env :: "(unit, hbody) cli_env" where
  "verify_ex_env = cli_ex_env\<lparr>ce_read_manifest := (\<lambda>_. Ok (build_manifest ws_ex (export_options_new out_ex) 0 0 4 ''50415231'' []))\<rparr>"

definition verify_ex_world :: "str \<Rightarrow> cli_world" where
  "verify_ex_world bytes = cli_ex_world\<lparr>cw_out := \<lparr>os_files = [out_ex @ [Normal ''workspace.manifest.json''] \<mapsto> ''{}'',
     out_ex @ [Normal ''resources.parquet''] \<mapsto> bytes], os_dirs = (\<lambda>p. p = out_ex), os_calls = 0\<rparr>\<rparr>"

lemma verify_ex_intact:
  "intact verify_ex_env \<lparr>vg_manifest = None, vg_dir = Some out_ex\<rparr> (cw_out (verify_ex_world ''PAR1''))"
  "\<not> intact verify_ex_env \<lparr>vg_manifest = None, vg_dir = Some out_ex\<rparr> (cw_out (verify_ex_world ''PAR1x''))"
proof -
  have joins: "path_join out_ex (parse_path ''workspace.manifest.json'') = out_ex @ [Normal ''workspace.manifest.json'']"
    "path_join out_ex (parse_path ''resources.parquet'') = out_ex @ [Normal ''resources.parquet'']"
    "manifest_dir (out_ex @ [Normal ''workspace.manifest.json'']) = out_ex"
    by code_simp+
  have "bytes_to_hex ''PAR1'' = ''50415231''" by code_simp
  note simps = intact_def verify_manifest_path_def joins verify_ex_env_def verify_ex_world_def build_manifest_def file_matches_def
    max_manifest_bytes_def cli_ex_env_def \<open>bytes_to_hex ''PAR1'' = ''50415231''\<close>
  show "intact verify_ex_env \<lparr>vg_manifest = None, vg_dir = Some out_ex\<rparr> (cw_out (verify_ex_world ''PAR1''))" by (simp add: simps)
  show "\<not> intact verify_ex_env \<lparr>vg_manifest = None, vg_dir = Some out_ex\<rparr> (cw_out (verify_ex_world ''PAR1x''))" by (simp add: simps)
qed

theorem verify_exact_witness:
  "(\<exists>w'. run_verify verify_ex_env \<lparr>vg_manifest = None, vg_dir = Some out_ex\<rparr> (verify_ex_world ''PAR1'') = Some (w', Ok ()))
   \<and> \<not> (\<exists>w'. run_verify verify_ex_env \<lparr>vg_manifest = None, vg_dir = Some out_ex\<rparr> (verify_ex_world ''PAR1x'') = Some (w', Ok ()))"
proof -
  have "quiet verify_ex_env (verify_ex_world bytes)" for bytes
    by (simp add: quiet_def verify_ex_env_def cli_ex_env_def cli_ex_export_def env_ex_def)
  with verify_ex_intact show ?thesis
    using verify_exact [of verify_ex_env "\<lparr>vg_manifest = None, vg_dir = Some out_ex\<rparr>" "verify_ex_world ''PAR1''"]
      verify_exact [of verify_ex_env "\<lparr>vg_manifest = None, vg_dir = Some out_ex\<rparr>" "verify_ex_world ''PAR1x''"] by blast
qed

end
