(* ===== verification/Adapter.thy ===== *)
theory Adapter
  imports EvalContext
begin

text \<open>The adapters between the values of the program and those of \<open>hcl\<close> (\<open>eval/adapter.rs\<close>).

  The number type of that crate is a type parameter, with its four operations as arguments: \<open>Number::from(i64)\<close>,
  \<open>Number::from_f64\<close>, \<open>as_i64\<close> and \<open>as_f64\<close>.  Its \<open>Map\<close> keeps insertion order, and inserting a present key replaces
  the value in place.\<close>

datatype 'n hcl_value =
    HclNull
  | HclBool bool
  | HclNumber 'n
  | HclString str
  | HclArray "'n hcl_value list"
  | HclObject "(str \<times> 'n hcl_value) list"

definition hcl_insert :: "str \<times> 'a \<Rightarrow> (str \<times> 'a) list \<Rightarrow> (str \<times> 'a) list" where
  "hcl_insert kv m = override_or_push m (fst kv) (snd kv)"

record 'n hcl_numbers =
  hn_of_i64 :: "int \<Rightarrow> 'n"
  hn_of_f64 :: "f64 \<Rightarrow> 'n option"
  hn_to_i64 :: "'n \<Rightarrow> int option"
  hn_to_f64 :: "'n \<Rightarrow> f64 option"

fun value_to_hcl :: "'n hcl_numbers \<Rightarrow> value \<Rightarrow> 'n hcl_value" where
  "value_to_hcl N VNull = HclNull"
| "value_to_hcl N (VBool b) = HclBool b"
| "value_to_hcl N (VInt i) = HclNumber (hn_of_i64 N i)"
| "value_to_hcl N (VNumber f) = (case hn_of_f64 N f of None \<Rightarrow> HclNull | Some n \<Rightarrow> HclNumber n)"
| "value_to_hcl N (VStr s) = HclString s"
| "value_to_hcl N (VList vs) = HclArray (map (value_to_hcl N) vs)"
| "value_to_hcl N (VMap m) = HclObject (fold hcl_insert (map (\<lambda>(k, v). (k, value_to_hcl N v)) m) [])"

fun hcl_to_value :: "'n hcl_numbers \<Rightarrow> 'n hcl_value \<Rightarrow> value" where
  "hcl_to_value N HclNull = VNull"
| "hcl_to_value N (HclBool b) = VBool b"
| "hcl_to_value N (HclNumber n) =
     (case hn_to_i64 N n of
        Some i \<Rightarrow> VInt i
      | None \<Rightarrow> VNumber (case hn_to_f64 N n of None \<Rightarrow> f64_zero | Some f \<Rightarrow> f))"
| "hcl_to_value N (HclString s) = VStr s"
| "hcl_to_value N (HclArray vs) = VList (map (hcl_to_value N) vs)"
| "hcl_to_value N (HclObject m) = VMap (map (\<lambda>(k, v). (k, hcl_to_value N v)) m)"

text \<open>What a round trip keeps: a float the crate rejects becomes null, one it reads back as an integer becomes that integer,
  and of a repeated key the last value stays, at the first position.\<close>

fun adapted :: "'n hcl_numbers \<Rightarrow> value \<Rightarrow> value" where
  "adapted N (VNumber f) = (case hn_of_f64 N f of None \<Rightarrow> VNull | Some n \<Rightarrow>
     (case hn_to_i64 N n of Some i \<Rightarrow> VInt i | None \<Rightarrow> VNumber f))"
| "adapted N (VList vs) = VList (map (adapted N) vs)"
| "adapted N (VMap m) = VMap (fold hcl_insert (map (\<lambda>(k, v). (k, adapted N v)) m) [])"
| "adapted N v = v"

definition numbers_fit :: "'n hcl_numbers \<Rightarrow> bool" where
  "numbers_fit N \<longleftrightarrow> (\<forall>i. hn_to_i64 N (hn_of_i64 N i) = Some i)
     \<and> (\<forall>f n. hn_of_f64 N f = Some n \<longrightarrow> hn_to_i64 N n = None \<longrightarrow> hn_to_f64 N n = Some f)"

lemma map_hcl_insert:
  "map (\<lambda>(k, v). (k, g v)) (hcl_insert (k, v) m) = hcl_insert (k, g v) (map (\<lambda>(k, v). (k, g v)) m)"
  by (induction m) (auto simp: hcl_insert_def)

lemma map_fold_hcl_insert:
  "map (\<lambda>(k, v). (k, g v)) (fold hcl_insert kvs m) =
   fold hcl_insert (map (\<lambda>(k, v). (k, g v)) kvs) (map (\<lambda>(k, v). (k, g v)) m)"
  by (induction kvs arbitrary: m) (auto simp: map_hcl_insert)

lemma adapter_roundtrip:
  assumes "numbers_fit N"
  shows "hcl_to_value N (value_to_hcl N v) = adapted N v"
proof (induction v)
  case (VMap m)
  then have "map (\<lambda>(k, v). (k, hcl_to_value N v)) (map (\<lambda>(k, v). (k, value_to_hcl N v)) m) = map (\<lambda>(k, v). (k, adapted N v)) m"
    by (auto simp: snds.simps)
  then show ?case by (simp only: value_to_hcl.simps hcl_to_value.simps adapted.simps map_fold_hcl_insert list.map(1))
qed (use assms in \<open>auto simp: numbers_fit_def split: option.split\<close>)

lemma fold_hcl_insert_distinct:
  "distinct (map fst m @ map fst kvs) \<Longrightarrow> fold hcl_insert kvs m = m @ kvs"
proof (induction kvs arbitrary: m)
  case (Cons kv kvs)
  have "hcl_insert kv m = m @ [kv]" if "fst kv \<notin> set (map fst m)" for m :: "(str \<times> 'a) list"
    using that by (induction m) (auto simp: hcl_insert_def)
  with Cons show ?case by simp
qed simp

text \<open>Values with distinct keys and without floats come back as they are.\<close>

fun adapter_plain :: "value \<Rightarrow> bool" where
  "adapter_plain (VNumber f) = False"
| "adapter_plain (VList vs) = list_all adapter_plain vs"
| "adapter_plain (VMap m) = (distinct (map fst m) \<and> list_all (\<lambda>kv. adapter_plain (snd kv)) m)"
| "adapter_plain v = True"

lemma adapter_plain_roundtrip:
  assumes "numbers_fit N" "adapter_plain v"
  shows "hcl_to_value N (value_to_hcl N v) = v"
proof -
  have "adapted N v = v" using assms(2)
  proof (induction v)
    case (VMap m)
    then have "map (\<lambda>(k, v). (k, adapted N v)) m = m"
      by (auto simp: list_all_iff snds.simps intro!: map_idI)
    with VMap.prems show ?case by (simp add: fold_hcl_insert_distinct)
  qed (auto simp: list_all_iff intro: map_idI)
  with adapter_roundtrip [OF assms(1)] show ?thesis by simp
qed

end
