(* ===== verification/Spec2Isabelle.thy ===== *)
theory Spec2Isabelle
  imports GraphProps ComponentProps ProviderProps SandboxProps DiscoveryProps LoaderProps ProjectionProps
    TgProps TgRead LoweringRefs ReduceArith PipelineProps ExportJsonProps ExportTablesProps ExportProps ExportLive CliProps Adapter
begin

text \<open>
  A model of \<open>tfparser\<close>, a program that reads a workspace of Terraform and Terragrunt files and writes what it finds
  as Parquet tables, and the theorems that make it correct.  Paths below are relative to \<open>crates/core/src/\<close>.

  \<^bold>\<open>The program.\<close>  A run (\<open>pipeline.rs\<close>) discovers the directories of the workspace (\<open>discovery/\<close>), loads and lowers their files
  (\<open>loader/\<close>), projects the blocks to typed components (\<open>projection/\<close>), resolves \<open>terragrunt.hcl\<close> files and their include
  chains (\<open>terragrunt/\<close>), reduces every expression in the bindings that are known (\<open>eval/\<close>), flattens module calls, expands
  \<open>count\<close> and \<open>for_each\<close> and infers edges (\<open>graph/\<close>), and fills accounts and regions (\<open>provider/\<close>).  The exporter
  (\<open>exporter/\<close>) writes the result, and the command line program (\<open>apps/cli/src/main.rs\<close>) drives both and verifies
  written outputs.

  \<^bold>\<open>Theories and code.\<close>  Every function of the source is a definition of its name, in the order of the file, composed as the code
  composes it; \<open>map\<close> entries of the manifest give the lines.

  \<^item> \<open>Prelude\<close>: strings as lists of UTF-8 bytes with the routines of the standard library, results as sums (\<open>Ok\<close>, \<open>Err\<close>),
    insertion-ordered maps, and the locale \<open>keyed_map\<close> of finite maps.  \<open>F64\<close>: binary64.  \<open>Paths\<close>: \<open>std::path\<close> and the
    sandbox of \<open>util/paths.rs\<close>.  \<open>Newtypes\<close>, \<open>IRTypes\<close>, \<open>Messages\<close>, \<open>Adapter\<close>: \<open>ir/\<close>, \<open>diagnostic.rs\<close>, the error texts
    and \<open>eval/adapter.rs\<close>.
  \<^item> \<open>EvalContext\<close>, \<open>Reduce\<close>: the context and \<open>eval/reduce.rs\<close>; \<open>ReduceLaws\<close>, \<open>ReduceCong\<close>, \<open>ReduceSafety\<close>, \<open>ReduceProps\<close>,
    \<open>ReduceArith\<close>: reduction is staged, idempotent, keeps what is unresolved, depends on the values of its symbols and on its
    functions only, computes integers exactly or not at all, and panics on one operator only.
  \<^item> \<open>StdText\<close>, \<open>Stdlib\<close>, \<open>FileFns\<close>: \<open>eval/stdlib.rs\<close>, \<open>eval/tf_funcs.rs\<close>, \<open>eval/files.rs\<close>, one definition per registered
    function; \<open>FuncLaws\<close>, \<open>FuncProps\<close>, \<open>SandboxProps\<close>: results are bounded and, where no link lies below the root, depend only on
    its files, on which paths are links, and on allowed environment variables.
  \<^item> \<open>Locals\<close>, \<open>LocalsTarjan\<close>, \<open>LocalsSolve\<close>, \<open>LocalsProps\<close>: \<open>eval/locals.rs\<close>, the correctness of its cycle check and of its
    worklist.  \<open>ComponentEval\<close>, \<open>ComponentProps\<close>: \<open>eval/component.rs\<close>.
  \<^item> \<open>Edges\<close>, \<open>GraphExpand\<close>, \<open>GraphBuilder\<close> with \<open>EdgesProps\<close>, \<open>GraphExpandProps\<close>, \<open>Substitution\<close>, \<open>GraphProps\<close>: \<open>graph/\<close>; the
    edge set is a declared relation, rows have an origin and unique addresses, substituting is binding.
  \<^item> \<open>ProfileMap\<close>, \<open>ProviderResolver\<close>, \<open>ProviderProps\<close>: \<open>provider/\<close>; the resolver is a pure map, compared with the cascades of its
    specification, and reports exactly the profiles it does not find.
  \<^item> \<open>Discovery\<close>, \<open>DiscoveryProps\<close>: \<open>discovery/\<close> refines a declarative specification.  \<open>Loader\<close>, \<open>LoaderProps\<close>: the driver and
    the line index of \<open>loader/\<close>.  \<open>Lowering\<close>, \<open>LoweringProps\<close>, \<open>LoweringRefs\<close>: \<open>loader/lowering.rs\<close>; without a diagnostic
    the constants of the syntax tree survive, and its references unless a traversal hides them; what the limits bound.  \<open>Projection\<close>, \<open>ProjectionProps\<close>: \<open>projection/\<close> in
    closed form.
  \<^item> \<open>TgMerge\<close>, \<open>TgFuncs\<close>, \<open>TgResolver\<close>, \<open>TgRead\<close>, \<open>TgProps\<close>: \<open>terragrunt/\<close>; the merge is pointwise, include chains end, and what an
    include does to the locals of its child.
  \<^item> \<open>Pipeline\<close>, \<open>ModFree\<close>, \<open>PipelineProps\<close>: \<open>pipeline.rs\<close> and \<open>parser.rs\<close>; a run returns, and what a returned workspace is.
  \<^item> \<open>ExportJson\<close>, \<open>ExportRows\<close>, \<open>ExportTables\<close>, \<open>Export\<close> with \<open>ExportJsonProps\<close>, \<open>ExportTablesProps\<close>, \<open>ExportProps\<close>, \<open>ExportLive\<close>:
    \<open>exporter/\<close>; the JSON column is canonical (but for the keys of unresolved objects), the tables hold every entity once, writing is atomic per file whatever call
    fails, and succeeds when none does.
  \<^item> \<open>Cli\<close>, \<open>CliProps\<close>: \<open>main.rs\<close>; exit codes, redaction of the recorded command line, and that \<open>verify\<close> accepts what \<open>parse\<close>
    wrote.

  \<^bold>\<open>State and errors.\<close>  Structs are records, enums datatypes, \<open>Result\<close> the sum type; a value \<open>None\<close> of an operation that reduces an
  expression is a panic of the program.  Growing vectors and sets that the code passes by reference are state passed and
  returned (\<open>edge_sink\<close>, \<open>walk_state\<close>, \<open>resolve_state\<close>, \<open>tg_state\<close>, \<open>load_acc\<close>); the output directory is the state
  \<open>out_state\<close>, of which every I/O call may fail and leave part of its data.  A \<open>HashMap\<close> whose order matters is an order
  argument, over which the theorems quantify.  Integers are \<open>int\<close> or \<open>nat\<close> with the checks of the code written out
  (\<open>i64\<close> overflow, saturating \<open>u32\<close> counters); floats are exact.

  \<^bold>\<open>Interfaces.\<close>  The locales \<open>keyed_map\<close> and \<open>ordered_map\<close> are the contract of the maps and their ordered lists of keys, \<open>sandbox\<close>
  that of the path check the file functions call, \<open>hereditary\<close> and \<open>lowering_invariant\<close> carry a property of values and
  expressions through the functions and through the lowering.  Each is interpreted on the model's own definitions.

  \<^bold>\<open>Bounds.\<close>  \<open>strongconnect\<close> has the number of nodes as fuel, which \<open>LocalsTarjan\<close> proves enough.  The include chain and the
  module recursion count down the depth the code allows, so their recursion ends as the code's does; \<open>solve_locals\<close> makes at
  most one pass more than there are locals, the Terragrunt locals sixteen passes, a \<open>source_profile\<close> chain eight hops.  All
  other recursion is structural or has a termination proof.  The JSON reader of \<open>ExportJsonProps\<close> belongs to a specification;
  its fuel is twice the length of the text.

  \<^bold>\<open>Arguments of the model.\<close>  Code that is not in the repository is an argument: the HCL parser of \<open>hcl_edit\<close> (the tree it
  returns is the type \<open>hbody\<close>, as \<open>lowering.rs\<close> matches on it), the walker, globs and regular expressions of discovery, the
  YAML, INI, JSON and time stamp parsers, float formatting, Unicode tables, digests, the Parquet encoder, the file system,
  the environment, the clock and \<open>clap\<close>.  What a theorem needs of them is a hypothesis of it, with a witness.

  \<^bold>\<open>Where code and documents differ.\<close>  The theorems state what the code does.  Where a comment or a specification under
  \<open>specs/\<close> says something else, the text of the theorem names the difference, and a lemma next to it shows it:
  \<open>symlink_check_bypass\<close> and \<open>outside_links_visible\<close> (the sandbox),
  \<open>object_key_quoted_twice\<close> (the JSON column), \<open>edge_target_undeclared\<close> (edges), \<open>traversal_root_lost\<close> and
  \<open>nested_blocks_uncounted\<close> (the lowering).  The merge strategy of include blocks (\<open>TgProps\<close>) and the region and account name
  cascades of the provider resolver (\<open>ProviderProps\<close>) differ from their specifications in the way their theorems state.

  \<^bold>\<open>Not modelled.\<close>  \<open>Debug\<close> and serde implementations, trait plumbing and tracing; the Arrow buffers behind the rows; the nested
  evaluation inside
  \<open>read_terragrunt_config\<close>, which \<open>TgRead\<close> takes as an argument, since the reducer applies registered functions as pure
  functions while this one shares a memo between calls.
\<close>

end
